(* ===== verification/Prelude.thy ===== *)
theory Prelude
  imports Main "HOL-Library.Product_Lexorder"
begin

section \<open>Shared vocabulary and automation\<close>

text \<open>
  The vocabulary every component shares. An identifier is a 128-bit UUID in the
  code; the model uses its integer value, and since the code's canonical text of a
  UUID has fixed width, the order of \<open>str(uuid)\<close> is the order of that integer.
  A point in time is an integer number of microseconds. A Python exception is the
  left value of a sum: the transaction it leaves is rolled back, so a failed
  operation has no state. A relational table is a list of rows; the helpers below
  are the four statements the code issues against one.

  The collections \<open>row_simps\<close> (statements against tables), \<open>bind_simps\<close>
  (sequencing of fallible steps) and \<open>frame_simps\<close> (what an operation leaves
  alone) carry the component proofs.
\<close>

type_synonym uuid = nat
type_synonym datetime = int

named_theorems row_simps
named_theorems bind_simps
named_theorems frame_simps

subsection \<open>Fallible steps\<close>

fun ebind :: "'e + 'a \<Rightarrow> ('a \<Rightarrow> 'e + 'b) \<Rightarrow> 'e + 'b" where
  "ebind (Inl e) f = Inl e"
| "ebind (Inr a) f = f a"

definition require :: "bool \<Rightarrow> 'e \<Rightarrow> 'e + unit" where
  "require b e = (if b then Inr () else Inl e)"

definition is_ok :: "'e + 'a \<Rightarrow> bool" where
  "is_ok r = (case r of Inl _ \<Rightarrow> False | Inr _ \<Rightarrow> True)"

subsection \<open>Statements against a table\<close>

definition update_where :: "('r \<Rightarrow> bool) \<Rightarrow> ('r \<Rightarrow> 'r) \<Rightarrow> 'r list \<Rightarrow> 'r list" where
  "update_where p f rows = map (\<lambda>r. if p r then f r else r) rows"

definition delete_where :: "('r \<Rightarrow> bool) \<Rightarrow> 'r list \<Rightarrow> 'r list" where
  "delete_where p rows = filter (\<lambda>r. \<not> p r) rows"

text \<open>SQL equality of two nullable columns in a unique index: two NULLs are distinct.\<close>

definition sql_eq :: "'a option \<Rightarrow> 'a option \<Rightarrow> bool" where
  "sql_eq a b = (case (a, b) of (Some x, Some y) \<Rightarrow> x = y | _ \<Rightarrow> False)"

definition control_character :: "char \<Rightarrow> bool" where
  "control_character c = (of_char c < (32 :: nat) \<or> of_char c = (127 :: nat))"

definition has_control_characters :: "string \<Rightarrow> bool" where
  "has_control_characters s = list_ex control_character s"

text \<open>The characters \<open>str.strip\<close> removes, and a string that strips to nothing.\<close>

definition whitespace_character :: "char \<Rightarrow> bool" where
  "whitespace_character c = (let n = of_char c :: nat in
     9 \<le> n \<and> n \<le> 13 \<or> 28 \<le> n \<and> n \<le> 32 \<or> n = 133 \<or> n = 160)"

definition is_blank :: "string \<Rightarrow> bool" where
  "is_blank s = list_all whitespace_character s"

text \<open>An \<open>except\<close> clause: one class of errors is turned into another result.\<close>

definition catch :: "'e + 'a \<Rightarrow> ('e \<Rightarrow> bool) \<Rightarrow> ('e + 'a) \<Rightarrow> 'e + 'a" where
  "catch m p h = (case m of Inl e \<Rightarrow> (if p e then h else m) | Inr _ \<Rightarrow> m)"

subsection \<open>Facts about fallible steps\<close>

lemma ebind_Inr_iff [simp, bind_simps]:
  "ebind m f = Inr b \<longleftrightarrow> (\<exists>a. m = Inr a \<and> f a = Inr b)"
  by (cases m) auto

lemma ebind_Inl_iff [bind_simps]:
  "ebind m f = Inl e \<longleftrightarrow> m = Inl e \<or> (\<exists>a. m = Inr a \<and> f a = Inl e)"
  by (cases m) auto

lemma ebind_assoc: "ebind (ebind m f) g = ebind m (\<lambda>a. ebind (f a) g)"
  by (cases m) auto

lemma require_Inr_iff [simp, bind_simps]: "require b e = Inr u \<longleftrightarrow> b"
  by (simp add: require_def)

lemma require_Inl_iff [simp, bind_simps]: "require b e = Inl e' \<longleftrightarrow> \<not> b \<and> e' = e"
  by (auto simp: require_def)

lemma catch_Inr_iff [bind_simps]:
  "catch m p h = Inr a \<longleftrightarrow> m = Inr a \<or> (\<exists>e. m = Inl e \<and> p e \<and> h = Inr a)"
  by (auto simp: catch_def split: sum.splits)

lemma is_ok_simps [simp]: "is_ok (Inr a)" "\<not> is_ok (Inl e)"
  by (simp_all add: is_ok_def)

lemma is_ok_iff: "is_ok r \<longleftrightarrow> (\<exists>a. r = Inr a)"
  by (cases r) auto

subsection \<open>Facts about tables\<close>

lemma find_SomeD: "find p xs = Some x \<Longrightarrow> x \<in> set xs \<and> p x"
  by (induction xs) (auto split: if_splits)

lemma find_None_iff_all: "find p xs = None \<longleftrightarrow> (\<forall>x \<in> set xs. \<not> p x)"
  by (auto simp: find_None_iff)

lemma set_update_where [row_simps]:
  "set (update_where p f rows) = (\<lambda>r. if p r then f r else r) ` set rows"
  by (simp add: update_where_def)

lemma set_delete_where [row_simps]: "set (delete_where p rows) = {r \<in> set rows. \<not> p r}"
  by (simp add: delete_where_def)

lemma find_update_where:
  assumes "\<And>r. key (f r) = key r"
  shows "find (\<lambda>r. key r = k) (update_where p f rows) =
    map_option (\<lambda>r. if p r then f r else r) (find (\<lambda>r. key r = k) rows)"
  unfolding update_where_def by (induction rows) (auto simp: assms)

lemma find_append: "find p (xs @ ys) = (case find p xs of None \<Rightarrow> find p ys | Some x \<Rightarrow> Some x)"
  by (induction xs) auto

lemma map_update_where:
  assumes "\<And>r. key (f r) = key r"
  shows "map key (update_where p f rows) = map key rows"
  by (simp add: update_where_def assms)

lemma filter_update_where:
  assumes "\<And>r. \<not> p (f r)"
  shows "filter p (update_where p f rows) = []"
  unfolding update_where_def using assms by (induction rows) auto

lemma distinct_filter_map_shrink:
  assumes "distinct (map key (filter p xs))" "\<And>x. x \<in> set xs \<Longrightarrow> p (f x) \<Longrightarrow> p x"
    and "\<And>x. key (f x) = key x"
  shows "distinct (map key (filter p (map f xs)))"
  using assms(1,2)
proof (induction xs)
  case (Cons a xs)
  have "set (map key (filter p (map f xs))) \<subseteq> set (map key (filter p xs))"
    using Cons.prems(2) assms(3) by fastforce
  with Cons assms(3) show ?case by (auto split: if_splits)
qed simp

lemma mem_map_if_other:
  assumes "\<And>z. z \<in> set xs \<Longrightarrow> q z \<Longrightarrow> \<not> p z" "\<And>z. q (f z) = q z" "q y"
  shows "y \<in> set (map (\<lambda>z. if p z then f z else z) xs) \<longleftrightarrow> y \<in> set xs"
  using assms by force

lemma find_filter_True: "find (\<lambda>_. True) (filter p xs) = find p xs"
  by (induction xs) auto

lemma find_unique:
  assumes "distinct (map key rows)" "r \<in> set rows"
  shows "find (\<lambda>x. key x = key r) rows = Some r"
  using assms by (induction rows) (auto simp: rev_image_eqI)

lemma list_ex_iff_set [row_simps]: "list_ex p xs \<longleftrightarrow> (\<exists>x \<in> set xs. p x)"
  by (simp add: list_ex_iff)

lemma list_all_iff_set [row_simps]: "list_all p xs \<longleftrightarrow> (\<forall>x \<in> set xs. p x)"
  by (simp add: list_all_iff)

lemma sql_eq_None [simp]: "\<not> sql_eq None b" "\<not> sql_eq a None"
  by (simp_all add: sql_eq_def split: option.splits)

lemma sql_eq_Some [simp]: "sql_eq (Some x) (Some y) \<longleftrightarrow> x = y"
  by (simp add: sql_eq_def)

lemma set_sort_key_filter: "set (sort_key f (filter p xs)) = {x \<in> set xs. p x}"
  by simp

end
