(* ===== verification/Lifecycle.thy ===== *)
theory Lifecycle
  imports Prelude
begin

section \<open>Tenant lifecycle states\<close>

text \<open>
  The states of \<open>saas_os/core/tenancy/lifecycle.py\<close>, its table of allowed
  transitions, and the two status sets the rest of the platform fences on:
  the closed statuses (no new tenant-owned row) and the statuses that do not admit
  the tenant's own principals. The locale \<open>lifecycle_graph\<close> is the contract of an
  explicit transition table with a set of states that cannot be left; it is
  interpreted on the tenant table here and reused by other state machines.
\<close>

datatype tenant_status = PENDING | ACTIVE | SUSPENDED | DELETED | PURGING | PURGED

definition all_tenant_statuses :: "tenant_status list" where
  "all_tenant_statuses = [PENDING, ACTIVE, SUSPENDED, DELETED, PURGING, PURGED]"

fun ALLOWED_TRANSITIONS :: "tenant_status \<Rightarrow> tenant_status list" where
  "ALLOWED_TRANSITIONS PENDING = [ACTIVE, DELETED]"
| "ALLOWED_TRANSITIONS ACTIVE = [SUSPENDED, DELETED]"
| "ALLOWED_TRANSITIONS SUSPENDED = [ACTIVE, DELETED]"
| "ALLOWED_TRANSITIONS DELETED = [PURGING]"
| "ALLOWED_TRANSITIONS PURGING = [PURGED]"
| "ALLOWED_TRANSITIONS PURGED = []"

definition CLOSED_STATUSES :: "tenant_status list" where
  "CLOSED_STATUSES = [DELETED, PURGING, PURGED]"

text \<open>\<open>validate_transition\<close> raises unless the target is listed for the current state.\<close>

definition transition_allowed :: "tenant_status \<Rightarrow> tenant_status \<Rightarrow> bool" where
  "transition_allowed current target = (target \<in> set (ALLOWED_TRANSITIONS current))"

definition is_closed :: "tenant_status \<Rightarrow> bool" where
  "is_closed s = (s \<in> set CLOSED_STATUSES)"

definition PRINCIPAL_INACCESSIBLE_STATUSES :: "tenant_status list" where
  "PRINCIPAL_INACCESSIBLE_STATUSES = CLOSED_STATUSES @ [SUSPENDED]"

definition is_accessible_to_principals :: "tenant_status \<Rightarrow> bool" where
  "is_accessible_to_principals s = (s \<notin> set PRINCIPAL_INACCESSIBLE_STATUSES)"

subsection \<open>The contract of a transition table\<close>

locale lifecycle_graph =
  fixes allowed :: "'s \<Rightarrow> 's \<Rightarrow> bool"
    and rank :: "'s \<Rightarrow> nat"
    and shut :: "'s \<Rightarrow> bool"
  assumes shut_stays: "shut s \<Longrightarrow> allowed s t \<Longrightarrow> shut t"
    and shut_advances: "shut s \<Longrightarrow> allowed s t \<Longrightarrow> rank s < rank t"
begin

lemma shut_forever: "allowed\<^sup>*\<^sup>* s t \<Longrightarrow> shut s \<Longrightarrow> shut t"
  by (induction rule: rtranclp_induct) (auto intro: shut_stays)

lemma shut_rank_mono: "allowed\<^sup>*\<^sup>* s t \<Longrightarrow> shut s \<Longrightarrow> rank s \<le> rank t"
proof (induction rule: rtranclp_induct)
  case base
  then show ?case by simp
next
  case (step t u)
  then have "shut t" by (auto intro: shut_forever)
  with step show ?case using shut_advances [of t u] by auto
qed

lemma shut_no_return: "allowed\<^sup>+\<^sup>+ s t \<Longrightarrow> shut s \<Longrightarrow> t \<noteq> s"
proof (induction rule: tranclp_induct)
  case (base t)
  then show ?case using shut_advances [of s t] by auto
next
  case (step t u)
  then have "allowed\<^sup>*\<^sup>* s t" by (simp add: tranclp_into_rtranclp)
  with step.prems have "rank s \<le> rank t" and "shut t"
    by (auto intro: shut_rank_mono shut_forever)
  with step.hyps(2) show ?case using shut_advances [of t u] by auto
qed

end

fun tenant_rank :: "tenant_status \<Rightarrow> nat" where
  "tenant_rank DELETED = 1"
| "tenant_rank PURGING = 2"
| "tenant_rank PURGED = 3"
| "tenant_rank _ = 0"

lemmas status_defs = is_closed_def CLOSED_STATUSES_def is_accessible_to_principals_def
  PRINCIPAL_INACCESSIBLE_STATUSES_def transition_allowed_def

lemma is_closed_simps [simp]:
  "\<not> is_closed PENDING" "\<not> is_closed ACTIVE" "\<not> is_closed SUSPENDED"
  "is_closed DELETED" "is_closed PURGING" "is_closed PURGED"
  by (simp_all add: status_defs)

lemma is_accessible_simps [simp]:
  "is_accessible_to_principals PENDING" "is_accessible_to_principals ACTIVE"
  "\<not> is_accessible_to_principals SUSPENDED" "\<not> is_accessible_to_principals DELETED"
  "\<not> is_accessible_to_principals PURGING" "\<not> is_accessible_to_principals PURGED"
  by (simp_all add: status_defs)

lemma accessible_not_closed: "is_accessible_to_principals s \<Longrightarrow> \<not> is_closed s"
  by (cases s) simp_all

lemma open_inaccessible_iff:
  "\<not> is_closed s \<and> \<not> is_accessible_to_principals s \<longleftrightarrow> s = SUSPENDED"
  by (cases s) simp_all

interpretation tenant_lifecycle: lifecycle_graph transition_allowed tenant_rank is_closed
proof unfold_locales
  fix s t
  assume "is_closed s" "transition_allowed s t"
  then show "is_closed t" and "tenant_rank s < tenant_rank t"
    by (cases s; auto simp: status_defs)+
qed

lemma into_purged: "transition_allowed s PURGED \<Longrightarrow> s = PURGING"
  by (cases s) (auto simp: transition_allowed_def)

lemma into_purging: "transition_allowed s PURGING \<Longrightarrow> s = DELETED"
  by (cases s) (auto simp: transition_allowed_def)

end
