(* ===== verification/Store.thy ===== *)
theory Store
  imports Lifecycle
begin

section \<open>The relational store\<close>

text \<open>
  The rows of the core schema that decide authority, one record per declarative class
  of \<open>saas_os/core/*/models.py\<close>, and the state the operations pass along: one
  list per table and a supply of fresh identifiers (a UUID primary key is drawn by the
  database; the model draws the next unused number). A nullable column is an option.
  Timestamps the code never reads back, and audit metadata, are left out. Row level
  security is the explicit tenant predicate each query carries; row locks and advisory
  locks have no effect on a single transaction and appear only where the order in which
  they are taken is itself stated.

  The exceptions of \<open>saas_os/core/*/errors.py\<close> are the constructors of
  \<open>error\<close>, with the fields the code passes to them.
\<close>

subsection \<open>Enumerations\<close>

datatype role_scope = SELF | SUBTREE

datatype principal_type = USER | SYSTEM | SERVICE_ACCOUNT

datatype membership_status = MEMBER_ACTIVE | MEMBER_SUSPENDED | MEMBER_REVOKED

datatype service_account_status = SA_ACTIVE | SA_DISABLED

datatype operator_status = OPERATOR_ACTIVE | OPERATOR_SUSPENDED | OPERATOR_REVOKED

datatype audit_outcome = SUCCESS | FAILURE | DENIED

datatype system_authority = PROVISIONING | TENANT_PURGE | BILLING_OPERATIONS
  | PLATFORM_BOOTSTRAP | PERMISSION_UPGRADE

text \<open>The caller argument of an operation; \<open>NotACaller\<close> is any other Python object.\<close>

datatype caller = UserCaller uuid | ServiceAccountCaller uuid uuid
  | SystemCaller system_authority | NotACaller

datatype caller_type = UserCallerType | ServiceAccountCallerType | SystemCallerType

subsection \<open>Rows\<close>

record tenant =
  tn_id :: uuid
  tn_name :: string
  tn_status :: tenant_status
  tn_parent_id :: "uuid option"
  tn_inherits_billing :: bool

record tenant_ancestry =
  an_tenant_id :: uuid
  an_ancestor_id :: uuid
  an_depth :: nat

record user =
  us_id :: uuid
  us_is_active :: bool

record tenant_membership =
  tm_id :: uuid
  tm_tenant_id :: uuid
  tm_user_id :: uuid
  tm_status :: membership_status
  tm_created_at :: datetime

record service_account =
  sa_id :: uuid
  sa_tenant_id :: uuid
  sa_name :: string
  sa_status :: service_account_status

record role =
  ro_id :: uuid
  ro_tenant_id :: uuid
  ro_name :: string

record permission =
  pm_id :: uuid
  pm_resource :: string
  pm_action :: string

record role_permission =
  rp_id :: uuid
  rp_tenant_id :: uuid
  rp_role_id :: uuid
  rp_permission_id :: uuid

record membership_role =
  mr_id :: uuid
  mr_tenant_id :: uuid
  mr_membership_id :: uuid
  mr_role_id :: uuid
  mr_scope :: role_scope

record service_account_role =
  sr_id :: uuid
  sr_tenant_id :: uuid
  sr_service_account_id :: uuid
  sr_role_id :: uuid
  sr_scope :: role_scope

record delegation_grant =
  dg_id :: uuid
  dg_tenant_id :: uuid
  dg_delegator_principal_type :: principal_type
  dg_delegator_principal_id :: "uuid option"
  dg_delegate_principal_type :: principal_type
  dg_delegate_principal_id :: "uuid option"
  dg_delegate_service_account_id :: "uuid option"
  dg_scope_mode :: role_scope
  dg_permission_id :: uuid
  dg_starts_at :: datetime
  dg_expires_at :: "datetime option"
  dg_revoked_at :: "datetime option"
  dg_allow_redelegate :: bool

record deny_grant =
  dn_id :: uuid
  dn_tenant_id :: uuid
  dn_principal_type :: principal_type
  dn_principal_id :: "uuid option"
  dn_principal_service_account_id :: "uuid option"
  dn_scope_mode :: role_scope
  dn_permission_id :: uuid
  dn_revoked_at :: "datetime option"

record support_access_request =
  su_id :: uuid
  su_tenant_id :: uuid
  su_requester_user_id :: uuid
  su_scope_mode :: role_scope
  su_reason :: string
  su_requested_starts_at :: datetime
  su_requested_expires_at :: datetime
  su_approved_at :: "datetime option"
  su_approved_by_user_id :: "uuid option"
  su_denied_at :: "datetime option"
  su_denied_by_user_id :: "uuid option"
  su_revoked_at :: "datetime option"
  su_revoked_by_user_id :: "uuid option"

record platform_operator =
  op_id :: uuid
  op_user_id :: uuid
  op_status :: operator_status
  op_enrolled_by_user_id :: "uuid option"
  op_status_changed_at :: datetime
  op_status_changed_by_user_id :: "uuid option"

record platform_grant =
  pg_id :: uuid
  pg_operator_id :: uuid
  pg_permission :: string
  pg_granted_by_user_id :: "uuid option"
  pg_granted_at :: datetime
  pg_revoked_at :: "datetime option"
  pg_revoked_by_user_id :: "uuid option"

record audit_log_entry =
  al_tenant_id :: uuid
  al_actor_type :: principal_type
  al_actor_user_id :: "uuid option"
  al_actor_service_account_id :: "uuid option"
  al_action :: string
  al_resource_type :: string
  al_resource_id :: "uuid option"
  al_outcome :: audit_outcome

record external_identity =
  ei_id :: uuid
  ei_user_id :: uuid
  ei_issuer :: string
  ei_subject :: string

record platform_audit_subject_link =
  sl_subject_ref :: uuid
  sl_user_id :: "uuid option"
  sl_subject_day :: int
  sl_unlinked_at :: "datetime option"
  sl_unlink_reason :: "string option"

record platform_audit_identity_hold =
  ih_id :: uuid
  ih_from_day :: "int option"
  ih_to_day :: "int option"
  ih_subject_ref :: "uuid option"
  ih_released_at :: "datetime option"

record invitation =
  iv_id :: uuid
  iv_tenant_id :: uuid
  iv_invited_email :: string
  iv_token_hash :: string
  iv_inviter_user_id :: uuid
  iv_created_at :: datetime
  iv_expires_at :: datetime
  iv_accepted_at :: "datetime option"
  iv_accepted_by_user_id :: "uuid option"
  iv_revoked_at :: "datetime option"
  iv_revoked_by_user_id :: "uuid option"

record user_session =
  ss_id :: uuid
  ss_user_id :: uuid
  ss_token_hash :: string
  ss_expires_at :: datetime
  ss_revoked_at :: "datetime option"
  ss_verified_email :: "string option"
  ss_multi_factor :: bool
  ss_provider_authenticated_at :: "datetime option"

record login_transaction =
  lt_id :: uuid
  lt_state :: string
  lt_nonce :: string
  lt_code_verifier :: string
  lt_expires_at :: datetime

record api_key =
  ak_id :: uuid
  ak_tenant_id :: uuid
  ak_user_id :: "uuid option"
  ak_service_account_id :: "uuid option"
  ak_name :: string
  ak_key_hash :: string
  ak_created_at :: datetime
  ak_expires_at :: "datetime option"
  ak_revoked_at :: "datetime option"

record platform_audit_log_entry =
  pl_actor_type :: principal_type
  pl_actor_user_id :: "uuid option"
  pl_system_authority :: "system_authority option"
  pl_action :: string
  pl_target_type :: string
  pl_target_id :: "uuid option"
  pl_target_tenant_id :: "uuid option"
  pl_outcome :: audit_outcome
  pl_reason :: "string option"

subsection \<open>The store\<close>

record db =
  next_uuid :: uuid
  tenants :: "tenant list"
  tenant_ancestries :: "tenant_ancestry list"
  users :: "user list"
  tenant_memberships :: "tenant_membership list"
  service_accounts :: "service_account list"
  roles :: "role list"
  permissions :: "permission list"
  role_permissions :: "role_permission list"
  membership_roles :: "membership_role list"
  service_account_roles :: "service_account_role list"
  delegation_grants :: "delegation_grant list"
  deny_grants :: "deny_grant list"
  support_access_requests :: "support_access_request list"
  platform_operators :: "platform_operator list"
  platform_grants :: "platform_grant list"
  audit_log :: "audit_log_entry list"
  platform_audit_log :: "platform_audit_log_entry list"
  external_identities :: "external_identity list"
  platform_audit_subject_links :: "platform_audit_subject_link list"
  platform_audit_subject_erasures :: "uuid list"
  platform_audit_identity_holds :: "platform_audit_identity_hold list"
  invitations :: "invitation list"
  user_sessions :: "user_session list"
  login_transactions :: "login_transaction list"
  api_keys :: "api_key list"

definition empty_db :: db where
  "empty_db = \<lparr>next_uuid = 1, tenants = [], tenant_ancestries = [], users = [],
    tenant_memberships = [], service_accounts = [], roles = [], permissions = [],
    role_permissions = [], membership_roles = [], service_account_roles = [],
    delegation_grants = [], deny_grants = [], support_access_requests = [],
    platform_operators = [], platform_grants = [], audit_log = [], platform_audit_log = [],
    external_identities = [], platform_audit_subject_links = [],
    platform_audit_subject_erasures = [], platform_audit_identity_holds = [],
    invitations = [], user_sessions = [], login_transactions = [], api_keys = []\<rparr>"

definition take_uuid :: "db \<Rightarrow> uuid \<times> db" where
  "take_uuid d = (next_uuid d, d\<lparr>next_uuid := Suc (next_uuid d)\<rparr>)"

subsection \<open>Exceptions\<close>

text \<open>The three codes of the parent rule.\<close>

datatype parent_rule = PARENT_ACTIVE_REQUIRES_OPERATOR | PARENT_SUSPENDED | PARENT_CLOSED

datatype (plugins only: code size) tenancy_error =
    TenantNotFoundError' uuid
  | TenantClosedError' uuid tenant_status
  | TenantInaccessibleError' uuid tenant_status
  | InvalidTenantTransitionError' tenant_status tenant_status
  | TenantCycleError' uuid uuid
  | TenantHierarchyDepthExceededError' uuid nat nat
  | TenantHasDescendantsError' uuid
  | TenantPurgeIncompleteError' uuid
  | PlatformTenantNotConfiguredError'
  | TenantNotPurgingError' uuid tenant_status

datatype (plugins only: code size) rbac_error =
    AuthorityNotAuthorizedError' string uuid
  | InvalidRoleNameError'
  | DuplicateRoleNameError' uuid string
  | RoleNotFoundError' uuid uuid
  | InvalidPermissionNameError'
  | PermissionNotFoundError' uuid
  | DuplicatePermissionGrantError' uuid uuid
  | DuplicateRoleAssignmentError' uuid uuid
  | InvalidPrincipalError' principal_type uuid
  | RoleAssignmentNotAuthorizedError' uuid uuid
  | ServiceAccountRoleNotAuthorizedError' uuid uuid
  | DuplicateServiceAccountRoleAssignmentError' uuid uuid
  | InvalidDelegationTimeRangeError' datetime datetime
  | DelegationNotAuthorizedError' uuid uuid
  | DelegationNotFoundError' uuid uuid
  | DenyNotAuthorizedError' uuid uuid
  | DenyNotFoundError' uuid uuid
  | InvalidSupportAccessTimeRangeError'
  | DuplicateSupportAccessRequestError' uuid uuid
  | SupportAccessNotFoundError' uuid uuid
  | SupportAccessAlreadyDecidedError' uuid
  | SupportAccessSelfApprovalError' uuid uuid
  | SupportAccessNotAuthorizedError' uuid uuid
  | SupportAccessNotApprovedError' uuid

datatype (plugins only: code size) platform_error =
    PlatformNotAuthorizedError' string
  | SelfAuthorityChangeError' string
  | PlatformAmplificationError' string string
  | LastPlatformOwnerError' string
  | EnrolledOperatorErasureError' string
  | PlatformSubjectNotLinkedError' string uuid
  | PlatformSelfTargetError' string
  | TenantParentRuleError' string uuid tenant_status parent_rule
  | MoveIntoCallerHierarchyError' string uuid
  | DeactivationScanLimitError' string nat
  | UnknownPlatformOperationError' string
  | InvalidPlatformRequestError'
  | PlatformSubjectNotFoundError' uuid
  | InactivePlatformSubjectError' uuid
  | PlatformOperatorNotFoundError' uuid
  | PlatformOperatorAlreadyEnrolledError' uuid
  | InvalidPlatformOperatorStateError' uuid operator_status string
  | PlatformGrantNotFoundError' uuid string
  | DuplicatePlatformGrantError' uuid string
  | PlatformAlreadyBootstrappedError'
  | AuditSubjectLinkUnavailableError'

datatype (plugins only: code size) identity_error =
    LastTenantAdministratorError' uuid
  | MembershipNotFoundError' uuid uuid
  | DuplicateExternalIdentityError' string string
  | UserNotFoundError' uuid
  | InvalidExternalIdentityError'
  | InvalidServiceAccountNameError'
  | DuplicateServiceAccountNameError' uuid string
  | ServiceAccountNotFoundError' uuid uuid
  | InvalidMembershipTransitionError' uuid membership_status membership_status
  | InvalidInvitationEmailError'
  | DuplicateInvitationError' uuid string
  | InvitationNotFoundError' uuid uuid
  | InvitationAlreadyAcceptedError' uuid
  | InvitationNotAuthorizedError' uuid uuid
  | InvitationInvalidError'
  | InactiveUserError' uuid
  | SessionNotFoundError'
  | SessionRevokedError' uuid
  | SessionExpiredError' uuid
  | LoginTransactionInvalidError'
  | InvalidUserStateError' uuid string
  | DeactivationRetryError' uuid

datatype (plugins only: code size) api_key_error =
    InvalidApiKeyNameError'
  | ApiKeyNotFoundError' uuid uuid
  | InvalidApiKeyError'
  | RevokedApiKeyError' uuid
  | ExpiredApiKeyError' uuid
  | InactiveServiceAccountError' uuid uuid
  | TenantMembershipRequiredError' uuid uuid
  | ServiceAccountRequiredError' uuid uuid
  | ApiKeyNotAuthorizedError' uuid uuid
  | ApiKeyLimitExceededError' uuid nat

datatype (plugins only: code size) error =
    TenancyE tenancy_error
  | RbacE rbac_error
  | PlatformE platform_error
  | IdentityE identity_error
  | ApiKeyE api_key_error
  | CallerTypeError string
  | InvalidActionOrResourceError
  | MultipleResultsFound
  | IntegrityError
  | DataError
  | ValueError

text \<open>The classes by the names the code gives them.\<close>

abbreviation TenantNotFoundError where
  "TenantNotFoundError \<equiv> \<lambda>x. TenancyE (TenantNotFoundError' x)"

abbreviation TenantClosedError where
  "TenantClosedError \<equiv> \<lambda>x y. TenancyE (TenantClosedError' x y)"

abbreviation TenantInaccessibleError where
  "TenantInaccessibleError \<equiv> \<lambda>x y. TenancyE (TenantInaccessibleError' x y)"

abbreviation InvalidTenantTransitionError where
  "InvalidTenantTransitionError \<equiv> \<lambda>x y. TenancyE (InvalidTenantTransitionError' x y)"

abbreviation TenantCycleError where
  "TenantCycleError \<equiv> \<lambda>x y. TenancyE (TenantCycleError' x y)"

abbreviation TenantHierarchyDepthExceededError where
  "TenantHierarchyDepthExceededError \<equiv> \<lambda>x y z. TenancyE (TenantHierarchyDepthExceededError' x y z)"

abbreviation TenantHasDescendantsError where
  "TenantHasDescendantsError \<equiv> \<lambda>x. TenancyE (TenantHasDescendantsError' x)"

abbreviation TenantPurgeIncompleteError where
  "TenantPurgeIncompleteError \<equiv> \<lambda>x. TenancyE (TenantPurgeIncompleteError' x)"

abbreviation PlatformTenantNotConfiguredError where
  "PlatformTenantNotConfiguredError \<equiv> TenancyE PlatformTenantNotConfiguredError'"

abbreviation TenantNotPurgingError where
  "TenantNotPurgingError \<equiv> \<lambda>x y. TenancyE (TenantNotPurgingError' x y)"

abbreviation AuthorityNotAuthorizedError where
  "AuthorityNotAuthorizedError \<equiv> \<lambda>x y. RbacE (AuthorityNotAuthorizedError' x y)"

abbreviation InvalidRoleNameError where
  "InvalidRoleNameError \<equiv> RbacE InvalidRoleNameError'"

abbreviation DuplicateRoleNameError where
  "DuplicateRoleNameError \<equiv> \<lambda>x y. RbacE (DuplicateRoleNameError' x y)"

abbreviation RoleNotFoundError where
  "RoleNotFoundError \<equiv> \<lambda>x y. RbacE (RoleNotFoundError' x y)"

abbreviation InvalidPermissionNameError where
  "InvalidPermissionNameError \<equiv> RbacE InvalidPermissionNameError'"

abbreviation PermissionNotFoundError where
  "PermissionNotFoundError \<equiv> \<lambda>x. RbacE (PermissionNotFoundError' x)"

abbreviation DuplicatePermissionGrantError where
  "DuplicatePermissionGrantError \<equiv> \<lambda>x y. RbacE (DuplicatePermissionGrantError' x y)"

abbreviation DuplicateRoleAssignmentError where
  "DuplicateRoleAssignmentError \<equiv> \<lambda>x y. RbacE (DuplicateRoleAssignmentError' x y)"

abbreviation InvalidPrincipalError where
  "InvalidPrincipalError \<equiv> \<lambda>x y. RbacE (InvalidPrincipalError' x y)"

abbreviation RoleAssignmentNotAuthorizedError where
  "RoleAssignmentNotAuthorizedError \<equiv> \<lambda>x y. RbacE (RoleAssignmentNotAuthorizedError' x y)"

abbreviation ServiceAccountRoleNotAuthorizedError where
  "ServiceAccountRoleNotAuthorizedError \<equiv> \<lambda>x y. RbacE (ServiceAccountRoleNotAuthorizedError' x y)"

abbreviation DuplicateServiceAccountRoleAssignmentError where
  "DuplicateServiceAccountRoleAssignmentError \<equiv> \<lambda>x y. RbacE (DuplicateServiceAccountRoleAssignmentError' x y)"

abbreviation InvalidDelegationTimeRangeError where
  "InvalidDelegationTimeRangeError \<equiv> \<lambda>x y. RbacE (InvalidDelegationTimeRangeError' x y)"

abbreviation DelegationNotAuthorizedError where
  "DelegationNotAuthorizedError \<equiv> \<lambda>x y. RbacE (DelegationNotAuthorizedError' x y)"

abbreviation DelegationNotFoundError where
  "DelegationNotFoundError \<equiv> \<lambda>x y. RbacE (DelegationNotFoundError' x y)"

abbreviation DenyNotAuthorizedError where
  "DenyNotAuthorizedError \<equiv> \<lambda>x y. RbacE (DenyNotAuthorizedError' x y)"

abbreviation DenyNotFoundError where
  "DenyNotFoundError \<equiv> \<lambda>x y. RbacE (DenyNotFoundError' x y)"

abbreviation InvalidSupportAccessTimeRangeError where
  "InvalidSupportAccessTimeRangeError \<equiv> RbacE InvalidSupportAccessTimeRangeError'"

abbreviation DuplicateSupportAccessRequestError where
  "DuplicateSupportAccessRequestError \<equiv> \<lambda>x y. RbacE (DuplicateSupportAccessRequestError' x y)"

abbreviation SupportAccessNotFoundError where
  "SupportAccessNotFoundError \<equiv> \<lambda>x y. RbacE (SupportAccessNotFoundError' x y)"

abbreviation SupportAccessAlreadyDecidedError where
  "SupportAccessAlreadyDecidedError \<equiv> \<lambda>x. RbacE (SupportAccessAlreadyDecidedError' x)"

abbreviation SupportAccessSelfApprovalError where
  "SupportAccessSelfApprovalError \<equiv> \<lambda>x y. RbacE (SupportAccessSelfApprovalError' x y)"

abbreviation SupportAccessNotAuthorizedError where
  "SupportAccessNotAuthorizedError \<equiv> \<lambda>x y. RbacE (SupportAccessNotAuthorizedError' x y)"

abbreviation SupportAccessNotApprovedError where
  "SupportAccessNotApprovedError \<equiv> \<lambda>x. RbacE (SupportAccessNotApprovedError' x)"

abbreviation PlatformNotAuthorizedError where
  "PlatformNotAuthorizedError \<equiv> \<lambda>x. PlatformE (PlatformNotAuthorizedError' x)"

abbreviation SelfAuthorityChangeError where
  "SelfAuthorityChangeError \<equiv> \<lambda>x. PlatformE (SelfAuthorityChangeError' x)"

abbreviation PlatformAmplificationError where
  "PlatformAmplificationError \<equiv> \<lambda>x y. PlatformE (PlatformAmplificationError' x y)"

abbreviation LastPlatformOwnerError where
  "LastPlatformOwnerError \<equiv> \<lambda>x. PlatformE (LastPlatformOwnerError' x)"

abbreviation EnrolledOperatorErasureError where
  "EnrolledOperatorErasureError \<equiv> \<lambda>x. PlatformE (EnrolledOperatorErasureError' x)"

abbreviation PlatformSubjectNotLinkedError where
  "PlatformSubjectNotLinkedError \<equiv> \<lambda>x y. PlatformE (PlatformSubjectNotLinkedError' x y)"

abbreviation PlatformSelfTargetError where
  "PlatformSelfTargetError \<equiv> \<lambda>x. PlatformE (PlatformSelfTargetError' x)"

abbreviation TenantParentRuleError where
  "TenantParentRuleError \<equiv> \<lambda>x y z w. PlatformE (TenantParentRuleError' x y z w)"

abbreviation MoveIntoCallerHierarchyError where
  "MoveIntoCallerHierarchyError \<equiv> \<lambda>x y. PlatformE (MoveIntoCallerHierarchyError' x y)"

abbreviation DeactivationScanLimitError where
  "DeactivationScanLimitError \<equiv> \<lambda>x y. PlatformE (DeactivationScanLimitError' x y)"

abbreviation UnknownPlatformOperationError where
  "UnknownPlatformOperationError \<equiv> \<lambda>x. PlatformE (UnknownPlatformOperationError' x)"

abbreviation InvalidPlatformRequestError where
  "InvalidPlatformRequestError \<equiv> PlatformE InvalidPlatformRequestError'"

abbreviation PlatformSubjectNotFoundError where
  "PlatformSubjectNotFoundError \<equiv> \<lambda>x. PlatformE (PlatformSubjectNotFoundError' x)"

abbreviation InactivePlatformSubjectError where
  "InactivePlatformSubjectError \<equiv> \<lambda>x. PlatformE (InactivePlatformSubjectError' x)"

abbreviation PlatformOperatorNotFoundError where
  "PlatformOperatorNotFoundError \<equiv> \<lambda>x. PlatformE (PlatformOperatorNotFoundError' x)"

abbreviation PlatformOperatorAlreadyEnrolledError where
  "PlatformOperatorAlreadyEnrolledError \<equiv> \<lambda>x. PlatformE (PlatformOperatorAlreadyEnrolledError' x)"

abbreviation InvalidPlatformOperatorStateError where
  "InvalidPlatformOperatorStateError \<equiv> \<lambda>x y z. PlatformE (InvalidPlatformOperatorStateError' x y z)"

abbreviation PlatformGrantNotFoundError where
  "PlatformGrantNotFoundError \<equiv> \<lambda>x y. PlatformE (PlatformGrantNotFoundError' x y)"

abbreviation DuplicatePlatformGrantError where
  "DuplicatePlatformGrantError \<equiv> \<lambda>x y. PlatformE (DuplicatePlatformGrantError' x y)"

abbreviation PlatformAlreadyBootstrappedError where
  "PlatformAlreadyBootstrappedError \<equiv> PlatformE PlatformAlreadyBootstrappedError'"

abbreviation AuditSubjectLinkUnavailableError where
  "AuditSubjectLinkUnavailableError \<equiv> PlatformE AuditSubjectLinkUnavailableError'"

abbreviation LastTenantAdministratorError where
  "LastTenantAdministratorError \<equiv> \<lambda>x. IdentityE (LastTenantAdministratorError' x)"

abbreviation MembershipNotFoundError where
  "MembershipNotFoundError \<equiv> \<lambda>x y. IdentityE (MembershipNotFoundError' x y)"

abbreviation DuplicateExternalIdentityError where
  "DuplicateExternalIdentityError \<equiv> \<lambda>x y. IdentityE (DuplicateExternalIdentityError' x y)"

abbreviation UserNotFoundError where
  "UserNotFoundError \<equiv> \<lambda>x. IdentityE (UserNotFoundError' x)"

abbreviation InvalidExternalIdentityError where
  "InvalidExternalIdentityError \<equiv> IdentityE InvalidExternalIdentityError'"

abbreviation InvalidServiceAccountNameError where
  "InvalidServiceAccountNameError \<equiv> IdentityE InvalidServiceAccountNameError'"

abbreviation DuplicateServiceAccountNameError where
  "DuplicateServiceAccountNameError \<equiv> \<lambda>x y. IdentityE (DuplicateServiceAccountNameError' x y)"

abbreviation ServiceAccountNotFoundError where
  "ServiceAccountNotFoundError \<equiv> \<lambda>x y. IdentityE (ServiceAccountNotFoundError' x y)"

abbreviation InvalidMembershipTransitionError where
  "InvalidMembershipTransitionError \<equiv> \<lambda>x y z. IdentityE (InvalidMembershipTransitionError' x y z)"

abbreviation InvalidInvitationEmailError where
  "InvalidInvitationEmailError \<equiv> IdentityE InvalidInvitationEmailError'"

abbreviation DuplicateInvitationError where
  "DuplicateInvitationError \<equiv> \<lambda>x y. IdentityE (DuplicateInvitationError' x y)"

abbreviation InvitationNotFoundError where
  "InvitationNotFoundError \<equiv> \<lambda>x y. IdentityE (InvitationNotFoundError' x y)"

abbreviation InvitationAlreadyAcceptedError where
  "InvitationAlreadyAcceptedError \<equiv> \<lambda>x. IdentityE (InvitationAlreadyAcceptedError' x)"

abbreviation InvitationNotAuthorizedError where
  "InvitationNotAuthorizedError \<equiv> \<lambda>x y. IdentityE (InvitationNotAuthorizedError' x y)"

abbreviation InvitationInvalidError where
  "InvitationInvalidError \<equiv> IdentityE InvitationInvalidError'"

abbreviation InactiveUserError where
  "InactiveUserError \<equiv> \<lambda>x. IdentityE (InactiveUserError' x)"

abbreviation SessionNotFoundError where
  "SessionNotFoundError \<equiv> IdentityE SessionNotFoundError'"

abbreviation SessionRevokedError where
  "SessionRevokedError \<equiv> \<lambda>x. IdentityE (SessionRevokedError' x)"

abbreviation SessionExpiredError where
  "SessionExpiredError \<equiv> \<lambda>x. IdentityE (SessionExpiredError' x)"

abbreviation LoginTransactionInvalidError where
  "LoginTransactionInvalidError \<equiv> IdentityE LoginTransactionInvalidError'"

abbreviation InvalidUserStateError where
  "InvalidUserStateError \<equiv> \<lambda>x y. IdentityE (InvalidUserStateError' x y)"

abbreviation DeactivationRetryError where
  "DeactivationRetryError \<equiv> \<lambda>x. IdentityE (DeactivationRetryError' x)"

abbreviation InvalidApiKeyNameError where
  "InvalidApiKeyNameError \<equiv> ApiKeyE InvalidApiKeyNameError'"

abbreviation ApiKeyNotFoundError where
  "ApiKeyNotFoundError \<equiv> \<lambda>x y. ApiKeyE (ApiKeyNotFoundError' x y)"

abbreviation InvalidApiKeyError where
  "InvalidApiKeyError \<equiv> ApiKeyE InvalidApiKeyError'"

abbreviation RevokedApiKeyError where
  "RevokedApiKeyError \<equiv> \<lambda>x. ApiKeyE (RevokedApiKeyError' x)"

abbreviation ExpiredApiKeyError where
  "ExpiredApiKeyError \<equiv> \<lambda>x. ApiKeyE (ExpiredApiKeyError' x)"

abbreviation InactiveServiceAccountError where
  "InactiveServiceAccountError \<equiv> \<lambda>x y. ApiKeyE (InactiveServiceAccountError' x y)"

abbreviation TenantMembershipRequiredError where
  "TenantMembershipRequiredError \<equiv> \<lambda>x y. ApiKeyE (TenantMembershipRequiredError' x y)"

abbreviation ServiceAccountRequiredError where
  "ServiceAccountRequiredError \<equiv> \<lambda>x y. ApiKeyE (ServiceAccountRequiredError' x y)"

abbreviation ApiKeyNotAuthorizedError where
  "ApiKeyNotAuthorizedError \<equiv> \<lambda>x y. ApiKeyE (ApiKeyNotAuthorizedError' x y)"

abbreviation ApiKeyLimitExceededError where
  "ApiKeyLimitExceededError \<equiv> \<lambda>x y. ApiKeyE (ApiKeyLimitExceededError' x y)"

text \<open>
  \<open>scalar_one_or_none\<close> of a query: at most one row, or \<open>MultipleResultsFound\<close>. A
  lookup by primary key is a plain \<open>find\<close>.
\<close>

definition one_or_none :: "'r list \<Rightarrow> error + 'r option" where
  "one_or_none rows = (case rows of [] \<Rightarrow> Inr None | [r] \<Rightarrow> Inr (Some r) | _ \<Rightarrow> Inl MultipleResultsFound)"

lemma one_or_none_Some: "one_or_none rows = Inr (Some r) \<longleftrightarrow> rows = [r]"
  by (auto simp: one_or_none_def split: list.splits)

lemma one_or_none_distinct:
  assumes "distinct (map key rows)" "\<And>r. r \<in> set rows \<Longrightarrow> key r = k"
  shows "one_or_none rows = Inr (find (\<lambda>_. True) rows)"
proof (cases rows)
  case Nil
  then show ?thesis by (simp add: one_or_none_def)
next
  case (Cons a rest)
  with assms show ?thesis by (cases rest) (auto simp: one_or_none_def)
qed

end
