(* ===== verification/Directory.thy ===== *)
theory Directory
  imports Store
begin

section \<open>Tenant and identity reads\<close>

text \<open>
  The reads that the tenancy and identity modules publish to the rest of the core
  (\<open>saas_os/core/tenancy/service.py\<close>, \<open>saas_os/core/identity/service.py\<close>):
  the registry lookups with their lifecycle fences, the ancestor and descendant reads
  over the closure table, and the three locking reads an authorization decision makes
  about its principal. A frozenset the code iterates over is a duplicate-free list in
  table order; no result below depends on that order.
\<close>

subsection \<open>The tenant registry\<close>

definition find_tenant :: "db \<Rightarrow> uuid \<Rightarrow> tenant option" where
  "find_tenant d tenant_id = find (\<lambda>t. tn_id t = tenant_id) (tenants d)"

definition get_tenant :: "db \<Rightarrow> uuid \<Rightarrow> error + tenant" where
  "get_tenant d tenant_id = (case find_tenant d tenant_id of
     None \<Rightarrow> Inl (TenantNotFoundError tenant_id)
   | Some t \<Rightarrow> Inr t)"

definition require_open_tenant :: "db \<Rightarrow> uuid \<Rightarrow> error + tenant" where
  "require_open_tenant d tenant_id = ebind (get_tenant d tenant_id) (\<lambda>t.
     if is_closed (tn_status t) then Inl (TenantClosedError tenant_id (tn_status t)) else Inr t)"

definition lock_open_tenant :: "db \<Rightarrow> uuid \<Rightarrow> error + tenant" where
  "lock_open_tenant d tenant_id = (case find_tenant d tenant_id of
     None \<Rightarrow> Inl (TenantNotFoundError tenant_id)
   | Some t \<Rightarrow> if is_closed (tn_status t) then Inl (TenantClosedError tenant_id (tn_status t))
               else Inr t)"

definition require_purging_tenant :: "db \<Rightarrow> uuid \<Rightarrow> error + tenant" where
  "require_purging_tenant d tenant_id = ebind (get_tenant d tenant_id) (\<lambda>t.
     if tn_status t \<in> {PURGING, PURGED} then Inr t
     else Inl (TenantNotPurgingError tenant_id (tn_status t)))"

definition lock_accessible_tenant :: "db \<Rightarrow> uuid \<Rightarrow> error + tenant" where
  "lock_accessible_tenant d tenant_id = (case find_tenant d tenant_id of
     None \<Rightarrow> Inl (TenantNotFoundError tenant_id)
   | Some t \<Rightarrow> if \<not> is_accessible_to_principals (tn_status t)
               then Inl (TenantInaccessibleError tenant_id (tn_status t)) else Inr t)"

definition list_tenant_ids :: "db \<Rightarrow> uuid list" where
  "list_tenant_ids d = sort (map tn_id (tenants d))"

definition list_open_tenant_ids :: "db \<Rightarrow> uuid list" where
  "list_open_tenant_ids d = sort (map tn_id (filter (\<lambda>t. \<not> is_closed (tn_status t)) (tenants d)))"

definition count_unpurged_tenants :: "db \<Rightarrow> nat \<Rightarrow> nat" where
  "count_unpurged_tenants d limit =
     length (take limit (filter (\<lambda>t. tn_status t \<noteq> PURGED) (tenants d)))"

definition unpurged_tenant_ids_page :: "db \<Rightarrow> uuid option \<Rightarrow> nat \<Rightarrow> uuid list" where
  "unpurged_tenant_ids_page d after limit =
     take limit (sort (map tn_id (filter (\<lambda>t. tn_status t \<noteq> PURGED \<and>
       (case after of None \<Rightarrow> True | Some a \<Rightarrow> tn_id t > a)) (tenants d))))"

subsection \<open>The closure table\<close>

definition lock_ancestor_ids :: "db \<Rightarrow> uuid \<Rightarrow> uuid list" where
  "lock_ancestor_ids d tenant_id =
     remdups (map an_ancestor_id (filter (\<lambda>r. an_tenant_id r = tenant_id) (tenant_ancestries d)))"

definition get_ancestor_ids :: "db \<Rightarrow> uuid \<Rightarrow> uuid list" where
  "get_ancestor_ids d tenant_id =
     remdups (map an_ancestor_id (filter (\<lambda>r. an_tenant_id r = tenant_id) (tenant_ancestries d)))"

definition get_ancestor_chain :: "db \<Rightarrow> uuid \<Rightarrow> uuid list" where
  "get_ancestor_chain d tenant_id = map an_ancestor_id (sort_key an_depth
     (filter (\<lambda>r. an_tenant_id r = tenant_id \<and> an_depth r > 0) (tenant_ancestries d)))"

definition get_descendant_ids :: "db \<Rightarrow> uuid \<Rightarrow> uuid list" where
  "get_descendant_ids d tenant_id =
     remdups (map an_tenant_id (filter (\<lambda>r. an_ancestor_id r = tenant_id) (tenant_ancestries d)))"

definition descendant_ids_by_depth :: "db \<Rightarrow> uuid \<Rightarrow> uuid list" where
  "descendant_ids_by_depth d tenant_id = map an_tenant_id
     (sort_key (\<lambda>r. (an_depth r, an_tenant_id r))
       (filter (\<lambda>r. an_ancestor_id r = tenant_id \<and> an_tenant_id r \<noteq> tenant_id)
         (tenant_ancestries d)))"

definition root_depths :: "db \<Rightarrow> uuid list \<Rightarrow> (uuid \<times> nat) list" where
  "root_depths d tenant_ids = map (\<lambda>t. (t, fold max (map an_depth
     (filter (\<lambda>r. an_tenant_id r = t) (tenant_ancestries d))) 0)) (remdups tenant_ids)"

subsection \<open>Principals\<close>

definition lock_user_is_active :: "db \<Rightarrow> uuid \<Rightarrow> bool option" where
  "lock_user_is_active d user_id = map_option us_is_active (find (\<lambda>u. us_id u = user_id) (users d))"

definition lock_membership :: "db \<Rightarrow> uuid \<Rightarrow> uuid \<Rightarrow> tenant_membership option" where
  "lock_membership d tenant_id user_id =
     find (\<lambda>m. tm_tenant_id m = tenant_id \<and> tm_user_id m = user_id) (tenant_memberships d)"

definition lock_service_account_status :: "db \<Rightarrow> uuid \<Rightarrow> uuid \<Rightarrow> service_account_status option" where
  "lock_service_account_status d tenant_id service_account_id = map_option sa_status
     (find (\<lambda>s. sa_tenant_id s = tenant_id \<and> sa_id s = service_account_id) (service_accounts d))"

subsection \<open>Facts about the reads\<close>

lemma set_lock_ancestor_ids [row_simps]:
  "a \<in> set (lock_ancestor_ids d t) \<longleftrightarrow>
    (\<exists>r \<in> set (tenant_ancestries d). an_tenant_id r = t \<and> an_ancestor_id r = a)"
  by (auto simp: lock_ancestor_ids_def)

lemma get_ancestor_ids_eq: "get_ancestor_ids d t = lock_ancestor_ids d t"
  by (simp add: get_ancestor_ids_def lock_ancestor_ids_def)

lemma set_get_descendant_ids [row_simps]:
  "x \<in> set (get_descendant_ids d t) \<longleftrightarrow>
    (\<exists>r \<in> set (tenant_ancestries d). an_ancestor_id r = t \<and> an_tenant_id r = x)"
  by (auto simp: get_descendant_ids_def)

lemma set_descendant_ids_by_depth [row_simps]:
  "x \<in> set (descendant_ids_by_depth d t) \<longleftrightarrow> x \<noteq> t \<and> t \<in> set (lock_ancestor_ids d x)"
  by (auto simp: descendant_ids_by_depth_def row_simps)

lemma require_open_tenant_eq: "require_open_tenant d t = lock_open_tenant d t"
  by (simp add: require_open_tenant_def lock_open_tenant_def get_tenant_def split: option.splits)

lemma lock_open_tenant_ok [bind_simps]:
  "lock_open_tenant d t = Inr r \<longleftrightarrow> find_tenant d t = Some r \<and> \<not> is_closed (tn_status r)"
  by (auto simp: lock_open_tenant_def split: option.splits if_splits)

lemma lock_accessible_tenant_ok [bind_simps]:
  "lock_accessible_tenant d t = Inr r \<longleftrightarrow>
    find_tenant d t = Some r \<and> is_accessible_to_principals (tn_status r)"
  by (auto simp: lock_accessible_tenant_def split: option.splits if_splits)

lemma get_tenant_ok [bind_simps]: "get_tenant d t = Inr r \<longleftrightarrow> find_tenant d t = Some r"
  by (auto simp: get_tenant_def split: option.splits)

text \<open>The status a tenant row carries, and the two fences as predicates over it.\<close>

definition tenant_status_of :: "db \<Rightarrow> uuid \<Rightarrow> tenant_status option" where
  "tenant_status_of d t = map_option tn_status (find_tenant d t)"

definition admits_principals :: "db \<Rightarrow> uuid \<Rightarrow> bool" where
  "admits_principals d t = is_ok (lock_accessible_tenant d t)"

definition is_open :: "db \<Rightarrow> uuid \<Rightarrow> bool" where
  "is_open d t = is_ok (lock_open_tenant d t)"

lemma admits_principals_iff:
  "admits_principals d t \<longleftrightarrow> (\<exists>s. tenant_status_of d t = Some s \<and> is_accessible_to_principals s)"
  by (auto simp: admits_principals_def tenant_status_of_def lock_accessible_tenant_def
      split: option.splits)

lemma is_open_iff: "is_open d t \<longleftrightarrow> (\<exists>s. tenant_status_of d t = Some s \<and> \<not> is_closed s)"
  by (auto simp: is_open_def tenant_status_of_def lock_open_tenant_def split: option.splits)

lemma admits_principals_open: "admits_principals d t \<Longrightarrow> is_open d t"
  by (auto simp: admits_principals_iff is_open_iff dest: accessible_not_closed)

text \<open>Reads depend on their own table only.\<close>

lemma find_tenant_cong: "tenants d = tenants d' \<Longrightarrow> find_tenant d = find_tenant d'"
  by (simp add: find_tenant_def fun_eq_iff)

lemma find_tenant_in: "find_tenant d t = Some r \<Longrightarrow> r \<in> set (tenants d) \<and> tn_id r = t"
  unfolding find_tenant_def by (drule find_SomeD) simp

end
