(* ===== verification/Fixture.thy ===== *)
theory Fixture
  imports Store
begin

section \<open>A small organisation\<close>

text \<open>
  One concrete store, used to show that the hypotheses of the theorems can be met. Tenant
  1 is an ACTIVE root with an ACTIVE child 2 and a SUSPENDED child 3; tenant 4 is a
  DELETED root. User 10 administers tenant 1 with a SUBTREE role; users 10 and 11 are
  members of tenant 2, where user 11 administers with a SELF role and user 10 holds a
  permanent delegation to read reports; user 12 has a suspended membership of tenant 1,
  an expiring delegation at tenant 2 and an approved support request at tenant 3; user 13
  is inactive. Service account 15 of tenant 1 reads reports and creates roles
  throughout the subtree, and user 11 is denied reading reports.
\<close>

definition mk_tenant :: "uuid \<Rightarrow> tenant_status \<Rightarrow> uuid option \<Rightarrow> tenant" where
  "mk_tenant i s p = \<lparr>tn_id = i, tn_name = ''t'', tn_status = s, tn_parent_id = p,
     tn_inherits_billing = False\<rparr>"

definition mk_membership :: "uuid \<Rightarrow> uuid \<Rightarrow> uuid \<Rightarrow> membership_status \<Rightarrow> tenant_membership" where
  "mk_membership i t u s = \<lparr>tm_id = i, tm_tenant_id = t, tm_user_id = u, tm_status = s,
     tm_created_at = 0\<rparr>"

definition mk_delegation ::
  "uuid \<Rightarrow> uuid \<Rightarrow> uuid \<Rightarrow> uuid \<Rightarrow> role_scope \<Rightarrow> uuid \<Rightarrow> datetime option \<Rightarrow> delegation_grant" where
  "mk_delegation i t frm to s p e = \<lparr>dg_id = i, dg_tenant_id = t,
     dg_delegator_principal_type = USER, dg_delegator_principal_id = Some frm,
     dg_delegate_principal_type = USER, dg_delegate_principal_id = Some to,
     dg_delegate_service_account_id = None, dg_scope_mode = s, dg_permission_id = p,
     dg_starts_at = 0, dg_expires_at = e, dg_revoked_at = None, dg_allow_redelegate = False\<rparr>"

definition mk_deny :: "uuid \<Rightarrow> uuid \<Rightarrow> uuid \<Rightarrow> role_scope \<Rightarrow> uuid \<Rightarrow> deny_grant" where
  "mk_deny i t u s p = \<lparr>dn_id = i, dn_tenant_id = t, dn_principal_type = USER,
     dn_principal_id = Some u, dn_principal_service_account_id = None, dn_scope_mode = s,
     dn_permission_id = p, dn_revoked_at = None\<rparr>"

definition mk_support :: "uuid \<Rightarrow> uuid \<Rightarrow> uuid \<Rightarrow> role_scope \<Rightarrow> support_access_request" where
  "mk_support i t u s = \<lparr>su_id = i, su_tenant_id = t, su_requester_user_id = u,
     su_scope_mode = s, su_reason = ''ticket'', su_requested_starts_at = 0,
     su_requested_expires_at = 1000, su_approved_at = Some 1, su_approved_by_user_id = Some 10,
     su_denied_at = None, su_denied_by_user_id = None, su_revoked_at = None,
     su_revoked_by_user_id = None\<rparr>"

definition sample_db :: db where
  "sample_db = empty_db\<lparr>next_uuid := 1000,
     tenants := [mk_tenant 1 ACTIVE None, mk_tenant 2 ACTIVE (Some 1),
       mk_tenant 3 SUSPENDED (Some 1), mk_tenant 4 DELETED None],
     tenant_ancestries := [\<lparr>an_tenant_id = 1, an_ancestor_id = 1, an_depth = 0\<rparr>,
       \<lparr>an_tenant_id = 2, an_ancestor_id = 2, an_depth = 0\<rparr>,
       \<lparr>an_tenant_id = 2, an_ancestor_id = 1, an_depth = 1\<rparr>,
       \<lparr>an_tenant_id = 3, an_ancestor_id = 3, an_depth = 0\<rparr>,
       \<lparr>an_tenant_id = 3, an_ancestor_id = 1, an_depth = 1\<rparr>,
       \<lparr>an_tenant_id = 4, an_ancestor_id = 4, an_depth = 0\<rparr>],
     users := [\<lparr>us_id = 10, us_is_active = True\<rparr>, \<lparr>us_id = 11, us_is_active = True\<rparr>,
       \<lparr>us_id = 12, us_is_active = True\<rparr>, \<lparr>us_id = 13, us_is_active = False\<rparr>],
     tenant_memberships := [mk_membership 20 1 10 MEMBER_ACTIVE, mk_membership 21 2 11 MEMBER_ACTIVE,
       mk_membership 22 1 12 MEMBER_SUSPENDED, mk_membership 23 2 10 MEMBER_ACTIVE],
     service_accounts := [\<lparr>sa_id = 15, sa_tenant_id = 1, sa_name = ''bot'', sa_status = SA_ACTIVE\<rparr>],
     roles := [\<lparr>ro_id = 30, ro_tenant_id = 1, ro_name = ''admin''\<rparr>,
       \<lparr>ro_id = 31, ro_tenant_id = 2, ro_name = ''admin''\<rparr>,
       \<lparr>ro_id = 32, ro_tenant_id = 1, ro_name = ''reader''\<rparr>],
     permissions := [\<lparr>pm_id = 40, pm_resource = ''membership_role'', pm_action = ''create''\<rparr>,
       \<lparr>pm_id = 41, pm_resource = ''report'', pm_action = ''read''\<rparr>,
       \<lparr>pm_id = 42, pm_resource = ''role_permission'', pm_action = ''grant''\<rparr>,
       \<lparr>pm_id = 43, pm_resource = ''role_permission'', pm_action = ''revoke''\<rparr>,
       \<lparr>pm_id = 44, pm_resource = ''membership_role'', pm_action = ''delete''\<rparr>,
       \<lparr>pm_id = 45, pm_resource = ''delegation_grant'', pm_action = ''create''\<rparr>,
       \<lparr>pm_id = 46, pm_resource = ''deny_grant'', pm_action = ''create''\<rparr>,
       \<lparr>pm_id = 47, pm_resource = ''membership'', pm_action = ''suspend''\<rparr>,
       \<lparr>pm_id = 48, pm_resource = ''role'', pm_action = ''create''\<rparr>],
     role_permissions := [\<lparr>rp_id = 50, rp_tenant_id = 1, rp_role_id = 30, rp_permission_id = 40\<rparr>,
       \<lparr>rp_id = 51, rp_tenant_id = 2, rp_role_id = 31, rp_permission_id = 40\<rparr>,
       \<lparr>rp_id = 52, rp_tenant_id = 1, rp_role_id = 32, rp_permission_id = 41\<rparr>,
       \<lparr>rp_id = 53, rp_tenant_id = 1, rp_role_id = 30, rp_permission_id = 42\<rparr>,
       \<lparr>rp_id = 54, rp_tenant_id = 1, rp_role_id = 30, rp_permission_id = 43\<rparr>,
       \<lparr>rp_id = 55, rp_tenant_id = 1, rp_role_id = 30, rp_permission_id = 44\<rparr>,
       \<lparr>rp_id = 56, rp_tenant_id = 1, rp_role_id = 30, rp_permission_id = 45\<rparr>,
       \<lparr>rp_id = 57, rp_tenant_id = 1, rp_role_id = 30, rp_permission_id = 46\<rparr>,
       \<lparr>rp_id = 58, rp_tenant_id = 1, rp_role_id = 30, rp_permission_id = 47\<rparr>,
       \<lparr>rp_id = 59, rp_tenant_id = 1, rp_role_id = 32, rp_permission_id = 48\<rparr>],
     membership_roles := [
       \<lparr>mr_id = 60, mr_tenant_id = 1, mr_membership_id = 20, mr_role_id = 30, mr_scope = SUBTREE\<rparr>,
       \<lparr>mr_id = 61, mr_tenant_id = 2, mr_membership_id = 21, mr_role_id = 31, mr_scope = SELF\<rparr>],
     service_account_roles := [
       \<lparr>sr_id = 65, sr_tenant_id = 1, sr_service_account_id = 15, sr_role_id = 32,
        sr_scope = SUBTREE\<rparr>],
     delegation_grants := [mk_delegation 70 2 11 10 SELF 41 None,
       mk_delegation 71 2 11 12 SELF 41 (Some 500)],
     deny_grants := [mk_deny 80 1 11 SUBTREE 41],
     support_access_requests := [mk_support 90 3 12 SELF]\<rparr>"

lemmas fixture_defs = sample_db_def empty_db_def mk_tenant_def mk_membership_def
  mk_delegation_def mk_deny_def mk_support_def

end
