(* ===== verification/Authorization.thy ===== *)
theory Authorization
  imports Directory Fixture
begin

section \<open>The authorization decision\<close>

text \<open>
  \<open>saas_os/core/rbac/authorization.py\<close>: the allow paths (membership roles, service
  account roles, delegations, support access), the deny path, the ancestor walk they
  share, and the decision \<open>can\<close> that composes them. The clock is the argument
  \<open>now\<close>, read once per decision.

  The second half states what the decision means: the locale \<open>scope_check\<close> is the
  contract of one candidate-tenant check (it distributes over the allowed scopes), from
  which the ancestor walk is proved once to be the relation \<open>scope_reaches\<close>; it is
  interpreted on every check of the module, and \<open>can_iff\<close> puts them together.
\<close>

subsection \<open>Scopes and fixed exclusion sets\<close>

definition TARGET_TENANT_SCOPES :: "role_scope list" where
  "TARGET_TENANT_SCOPES = [SELF, SUBTREE]"

definition ANCESTOR_TENANT_SCOPES :: "role_scope list" where
  "ANCESTOR_TENANT_SCOPES = [SUBTREE]"

definition AUTHORITY_RESOURCES :: "string list" where
  "AUTHORITY_RESOURCES = [''delegation_grant'', ''deny_grant'', ''service_account_role'',
     ''support_access_request'', ''api_key'', ''service_account'', ''role'', ''role_permission'',
     ''membership'', ''membership_role'', ''invitation'', ''webhook_subscription'']"

definition BILLING_MUTATION_ACTIONS :: "(string \<times> string) list" where
  "BILLING_MUTATION_ACTIONS = [(''billing.subscription'', ''create''),
     (''billing.subscription'', ''change''), (''billing.subscription'', ''cancel''),
     (''billing.subscription'', ''reactivate''), (''billing.account'', ''charge''),
     (''billing.account'', ''manage''), (''billing.catalog'', ''manage''),
     (''billing.merchant'', ''manage'')]"

definition TENANT_SELF_SUSPEND_ACTION :: "string \<times> string" where
  "TENANT_SELF_SUSPEND_ACTION = (''tenant'', ''suspend'')"

definition SUPPORT_ACCESS_EXCLUDED_ACTIONS :: "(string \<times> string) list" where
  "SUPPORT_ACCESS_EXCLUDED_ACTIONS = BILLING_MUTATION_ACTIONS @ [TENANT_SELF_SUSPEND_ACTION]"

definition AI_SUPPORT_ACCESS_EXCLUDED_ACTIONS :: "(string \<times> string) list" where
  "AI_SUPPORT_ACCESS_EXCLUDED_ACTIONS =
     [(''ai.inference'', ''run''), (''ai.policy'', ''manage''), (''ai.credential'', ''manage'')]"

definition is_authority_changing :: "string \<Rightarrow> string \<Rightarrow> bool" where
  "is_authority_changing resource action = (resource \<in> set AUTHORITY_RESOURCES \<or>
     (resource, action) \<in> set SUPPORT_ACCESS_EXCLUDED_ACTIONS)"

subsection \<open>Allow paths at one candidate tenant\<close>

definition names_permission :: "db \<Rightarrow> uuid \<Rightarrow> string \<Rightarrow> string \<Rightarrow> bool" where
  "names_permission d permission_id resource action = (\<exists>p \<in> set (permissions d).
     pm_id p = permission_id \<and> pm_resource p = resource \<and> pm_action p = action)"

definition role_grants :: "db \<Rightarrow> uuid \<Rightarrow> uuid \<Rightarrow> string \<Rightarrow> string \<Rightarrow> bool" where
  "role_grants d candidate_tenant_id role_id resource action = (\<exists>rp \<in> set (role_permissions d).
     rp_role_id rp = role_id \<and> rp_tenant_id rp = candidate_tenant_id \<and>
     names_permission d (rp_permission_id rp) resource action)"

definition tenant_grants_permission ::
  "db \<Rightarrow> uuid \<Rightarrow> uuid \<Rightarrow> string \<Rightarrow> string \<Rightarrow> role_scope list \<Rightarrow> bool" where
  "tenant_grants_permission d candidate_tenant_id actor_id action resource allowed_scopes =
     (case lock_membership d candidate_tenant_id actor_id of
        None \<Rightarrow> False
      | Some membership \<Rightarrow>
          tm_status membership = MEMBER_ACTIVE \<and>
          (case lock_accessible_tenant d candidate_tenant_id of
             Inl _ \<Rightarrow> False
           | Inr _ \<Rightarrow> (\<exists>mr \<in> set (membership_roles d).
               mr_tenant_id mr = candidate_tenant_id \<and>
               mr_membership_id mr = tm_id membership \<and>
               mr_scope mr \<in> set allowed_scopes \<and>
               role_grants d candidate_tenant_id (mr_role_id mr) resource action)))"

definition tenant_grants_permission_for_service_account ::
  "db \<Rightarrow> uuid \<Rightarrow> uuid \<Rightarrow> string \<Rightarrow> string \<Rightarrow> role_scope list \<Rightarrow> bool" where
  "tenant_grants_permission_for_service_account d candidate_tenant_id actor_id action resource
      allowed_scopes =
     (case lock_accessible_tenant d candidate_tenant_id of
        Inl _ \<Rightarrow> False
      | Inr _ \<Rightarrow> (\<exists>sr \<in> set (service_account_roles d).
          sr_tenant_id sr = candidate_tenant_id \<and>
          sr_service_account_id sr = actor_id \<and>
          sr_scope sr \<in> set allowed_scopes \<and>
          role_grants d candidate_tenant_id (sr_role_id sr) resource action))"

definition actor_grants_permission ::
  "db \<Rightarrow> uuid \<Rightarrow> uuid \<Rightarrow> principal_type \<Rightarrow> string \<Rightarrow> string \<Rightarrow> role_scope list \<Rightarrow> bool" where
  "actor_grants_permission d candidate_tenant_id actor_id actor_type action resource allowed_scopes =
     (if actor_type = USER
      then tenant_grants_permission d candidate_tenant_id actor_id action resource allowed_scopes
      else tenant_grants_permission_for_service_account d candidate_tenant_id actor_id action
             resource allowed_scopes)"

definition delegate_user_membership_permits_authorization :: "db \<Rightarrow> uuid \<Rightarrow> uuid \<Rightarrow> bool" where
  "delegate_user_membership_permits_authorization d candidate_tenant_id actor_id =
     (case lock_membership d candidate_tenant_id actor_id of
        None \<Rightarrow> True
      | Some membership \<Rightarrow> tm_status membership = MEMBER_ACTIVE)"

definition delegation_valid :: "datetime \<Rightarrow> bool \<Rightarrow> delegation_grant \<Rightarrow> bool" where
  "delegation_valid now ignore_expiring g =
     (dg_revoked_at g = None \<and> dg_starts_at g \<le> now \<and>
      (if ignore_expiring then dg_expires_at g = None
       else (case dg_expires_at g of None \<Rightarrow> True | Some e \<Rightarrow> e > now)))"

definition delegation_names :: "principal_type \<Rightarrow> uuid \<Rightarrow> delegation_grant \<Rightarrow> bool" where
  "delegation_names actor_type actor_id g = (dg_delegate_principal_type g = actor_type \<and>
     (if actor_type = USER then dg_delegate_principal_id g else dg_delegate_service_account_id g)
       = Some actor_id)"

definition tenant_grants_permission_via_delegation ::
  "db \<Rightarrow> datetime \<Rightarrow> uuid \<Rightarrow> uuid \<Rightarrow> principal_type \<Rightarrow> string \<Rightarrow> string \<Rightarrow> role_scope list \<Rightarrow> bool
    \<Rightarrow> bool" where
  "tenant_grants_permission_via_delegation d now candidate_tenant_id actor_id actor_type action
      resource allowed_scope_modes ignore_expiring =
     (if actor_type = USER \<and>
          \<not> delegate_user_membership_permits_authorization d candidate_tenant_id actor_id
      then False
      else (case lock_accessible_tenant d candidate_tenant_id of
        Inl _ \<Rightarrow> False
      | Inr _ \<Rightarrow> (\<exists>g \<in> set (delegation_grants d).
          dg_tenant_id g = candidate_tenant_id \<and>
          delegation_names actor_type actor_id g \<and>
          dg_scope_mode g \<in> set allowed_scope_modes \<and>
          delegation_valid now ignore_expiring g \<and>
          names_permission d (dg_permission_id g) resource action)))"

subsection \<open>The deny path\<close>

definition deny_names :: "principal_type \<Rightarrow> uuid \<Rightarrow> deny_grant \<Rightarrow> bool" where
  "deny_names actor_type actor_id g = (dn_principal_type g = actor_type \<and>
     (if actor_type = USER then dn_principal_id g else dn_principal_service_account_id g)
       = Some actor_id)"

definition tenant_denies_permission ::
  "db \<Rightarrow> uuid \<Rightarrow> uuid \<Rightarrow> principal_type \<Rightarrow> string \<Rightarrow> string \<Rightarrow> role_scope list \<Rightarrow> bool" where
  "tenant_denies_permission d candidate_tenant_id actor_id actor_type action resource
      allowed_scope_modes =
     (\<exists>g \<in> set (deny_grants d).
        dn_tenant_id g = candidate_tenant_id \<and>
        deny_names actor_type actor_id g \<and>
        dn_scope_mode g \<in> set allowed_scope_modes \<and>
        dn_revoked_at g = None \<and>
        names_permission d (dn_permission_id g) resource action)"

definition actor_is_denied ::
  "db \<Rightarrow> uuid \<Rightarrow> principal_type \<Rightarrow> uuid \<Rightarrow> string \<Rightarrow> string \<Rightarrow> bool" where
  "actor_is_denied d actor_id actor_type tenant_id action resource =
     (if tenant_denies_permission d tenant_id actor_id actor_type action resource
           TARGET_TENANT_SCOPES
      then True
      else list_ex (\<lambda>ancestor_id. ancestor_id \<noteq> tenant_id \<and>
             tenant_denies_permission d ancestor_id actor_id actor_type action resource
               ANCESTOR_TENANT_SCOPES)
           (lock_ancestor_ids d tenant_id))"

subsection \<open>The reach a delegator or grantor must have\<close>

definition ancestor_grants_subtree_permission ::
  "db \<Rightarrow> uuid \<Rightarrow> uuid \<Rightarrow> string \<Rightarrow> string \<Rightarrow> bool" where
  "ancestor_grants_subtree_permission d tenant_id actor_id action resource =
     list_ex (\<lambda>ancestor_id. ancestor_id \<noteq> tenant_id \<and>
         tenant_grants_permission d ancestor_id actor_id action resource ANCESTOR_TENANT_SCOPES)
       (lock_ancestor_ids d tenant_id)"

definition actor_reaches_tenant_at_scope ::
  "db \<Rightarrow> uuid \<Rightarrow> uuid \<Rightarrow> string \<Rightarrow> string \<Rightarrow> role_scope \<Rightarrow> bool" where
  "actor_reaches_tenant_at_scope d actor_id tenant_id action resource required_scope =
     (let target_scopes =
        (if required_scope = SELF then TARGET_TENANT_SCOPES else ANCESTOR_TENANT_SCOPES)
      in if tenant_grants_permission d tenant_id actor_id action resource target_scopes then True
         else ancestor_grants_subtree_permission d tenant_id actor_id action resource)"

subsection \<open>Support access\<close>

definition support_request_active :: "datetime \<Rightarrow> support_access_request \<Rightarrow> bool" where
  "support_request_active now q = (su_approved_at q \<noteq> None \<and> su_denied_at q = None \<and>
     su_revoked_at q = None \<and> su_requested_starts_at q \<le> now \<and> su_requested_expires_at q > now)"

definition tenant_grants_support_access ::
  "db \<Rightarrow> datetime \<Rightarrow> uuid \<Rightarrow> uuid \<Rightarrow> string \<Rightarrow> string \<Rightarrow> role_scope list \<Rightarrow> bool" where
  "tenant_grants_support_access d now candidate_tenant_id actor_id resource action
      allowed_scope_modes =
     (if resource \<in> set AUTHORITY_RESOURCES then False
      else if (resource, action) \<in> set SUPPORT_ACCESS_EXCLUDED_ACTIONS then False
      else if (resource, action) \<in> set AI_SUPPORT_ACCESS_EXCLUDED_ACTIONS then False
      else (case lock_open_tenant d candidate_tenant_id of
        Inl _ \<Rightarrow> False
      | Inr _ \<Rightarrow> (\<exists>q \<in> set (support_access_requests d).
          su_tenant_id q = candidate_tenant_id \<and>
          su_requester_user_id q = actor_id \<and>
          su_scope_mode q \<in> set allowed_scope_modes \<and>
          support_request_active now q)))"

definition actor_has_support_access ::
  "db \<Rightarrow> datetime \<Rightarrow> uuid \<Rightarrow> uuid \<Rightarrow> string \<Rightarrow> string \<Rightarrow> bool" where
  "actor_has_support_access d now actor_id tenant_id resource action =
     (if tenant_grants_support_access d now tenant_id actor_id resource action TARGET_TENANT_SCOPES
      then True
      else list_ex (\<lambda>ancestor_id. ancestor_id \<noteq> tenant_id \<and>
             tenant_grants_support_access d now ancestor_id actor_id resource action
               ANCESTOR_TENANT_SCOPES)
           (lock_ancestor_ids d tenant_id))"

subsection \<open>The decision\<close>

definition holds_through_own_membership ::
  "db \<Rightarrow> uuid \<Rightarrow> uuid \<Rightarrow> string \<Rightarrow> string \<Rightarrow> bool" where
  "holds_through_own_membership d user_id tenant_id action resource =
     (case lock_accessible_tenant d tenant_id of
        Inl _ \<Rightarrow> False
      | Inr _ \<Rightarrow>
          if lock_user_is_active d user_id \<noteq> Some True then False
          else if actor_is_denied d user_id USER tenant_id action resource then False
          else tenant_grants_permission d tenant_id user_id action resource TARGET_TENANT_SCOPES)"

definition actor_is_live :: "db \<Rightarrow> uuid \<Rightarrow> principal_type \<Rightarrow> uuid option \<Rightarrow> bool" where
  "actor_is_live d actor_id actor_type actor_tenant_id = (case actor_type of
     USER \<Rightarrow> lock_user_is_active d actor_id = Some True
   | SERVICE_ACCOUNT \<Rightarrow> (case actor_tenant_id of
        None \<Rightarrow> False
      | Some home \<Rightarrow> lock_service_account_status d home actor_id = Some SA_ACTIVE)
   | SYSTEM \<Rightarrow> False)"

definition decide ::
  "db \<Rightarrow> datetime \<Rightarrow> uuid \<Rightarrow> uuid \<Rightarrow> string \<Rightarrow> string \<Rightarrow> principal_type \<Rightarrow> uuid option \<Rightarrow> bool
    \<Rightarrow> bool" where
  "decide d now actor_id tenant_id action resource actor_type actor_tenant_id
      ignore_expiring_delegations =
     (let decide_open = (\<lambda>target_admits_principals.
        if \<not> actor_is_live d actor_id actor_type actor_tenant_id then False
        else if actor_is_denied d actor_id actor_type tenant_id action resource then False
        else if target_admits_principals \<and>
            (actor_grants_permission d tenant_id actor_id actor_type action resource
               TARGET_TENANT_SCOPES \<or>
             tenant_grants_permission_via_delegation d now tenant_id actor_id actor_type action
               resource TARGET_TENANT_SCOPES ignore_expiring_delegations \<or>
             list_ex (\<lambda>ancestor_id. ancestor_id \<noteq> tenant_id \<and>
               (actor_grants_permission d ancestor_id actor_id actor_type action resource
                  ANCESTOR_TENANT_SCOPES \<or>
                tenant_grants_permission_via_delegation d now ancestor_id actor_id actor_type
                  action resource ANCESTOR_TENANT_SCOPES ignore_expiring_delegations))
              (lock_ancestor_ids d tenant_id))
          then True
        else actor_type = USER \<and>
          actor_has_support_access d now actor_id tenant_id resource action)
      in (case lock_accessible_tenant d tenant_id of
            Inr _ \<Rightarrow> decide_open True
          | Inl (TenantInaccessibleError _ status) \<Rightarrow>
              if is_closed status then False else decide_open False
          | Inl _ \<Rightarrow> False))"

definition can ::
  "db \<Rightarrow> datetime \<Rightarrow> uuid \<Rightarrow> uuid \<Rightarrow> string \<Rightarrow> string \<Rightarrow> principal_type \<Rightarrow> uuid option \<Rightarrow> bool
    \<Rightarrow> bool" where
  "can d now actor_id tenant_id action resource actor_type actor_tenant_id
      ignore_expiring_delegations =
     decide d now actor_id tenant_id action resource actor_type actor_tenant_id
       ignore_expiring_delegations"

text \<open>The defaults of \<open>can\<close> for a person: a plain decision.\<close>

abbreviation user_can :: "db \<Rightarrow> datetime \<Rightarrow> uuid \<Rightarrow> uuid \<Rightarrow> string \<Rightarrow> string \<Rightarrow> bool" where
  "user_can d now u t action resource \<equiv> can d now u t action resource USER None False"

subsection \<open>What a candidate check and the ancestor walk mean\<close>

text \<open>
  An assignment at candidate tenant \<open>c\<close> with scope \<open>s\<close> reaches \<open>t\<close> when it sits at
  \<open>t\<close> itself, or at an ancestor of \<open>t\<close> with \<open>SUBTREE\<close> scope.
\<close>

definition scope_reaches :: "db \<Rightarrow> uuid \<Rightarrow> role_scope \<Rightarrow> uuid \<Rightarrow> bool" where
  "scope_reaches d c s t = (c = t \<or> (s = SUBTREE \<and> c \<in> set (lock_ancestor_ids d t)))"

locale scope_check =
  fixes hit :: "uuid \<Rightarrow> role_scope list \<Rightarrow> bool"
  assumes hit_scopes: "hit c S \<longleftrightarrow> (\<exists>s \<in> set S. hit c [s])"
begin

lemma hit_target: "hit c TARGET_TENANT_SCOPES \<longleftrightarrow> (\<exists>s. hit c [s])"
  using hit_scopes [of c TARGET_TENANT_SCOPES]
  by (auto simp: TARGET_TENANT_SCOPES_def) (metis role_scope.exhaust)

lemma hit_ancestor: "hit c ANCESTOR_TENANT_SCOPES \<longleftrightarrow> hit c [SUBTREE]"
  by (simp add: ANCESTOR_TENANT_SCOPES_def)

lemma walk_iff:
  "hit t TARGET_TENANT_SCOPES \<or>
     (\<exists>a \<in> set (lock_ancestor_ids d t). a \<noteq> t \<and> hit a ANCESTOR_TENANT_SCOPES) \<longleftrightarrow>
   (\<exists>c s. hit c [s] \<and> scope_reaches d c s t)"
  unfolding hit_target hit_ancestor scope_reaches_def by auto

lemma subtree_walk_iff:
  "hit t ANCESTOR_TENANT_SCOPES \<or>
     (\<exists>a \<in> set (lock_ancestor_ids d t). a \<noteq> t \<and> hit a ANCESTOR_TENANT_SCOPES) \<longleftrightarrow>
   (\<exists>c. hit c [SUBTREE] \<and> scope_reaches d c SUBTREE t)"
  unfolding hit_ancestor scope_reaches_def by auto

lemma hit_mono: "set S \<subseteq> set S' \<Longrightarrow> hit c S \<Longrightarrow> hit c S'"
  using hit_scopes by blast

end

interpretation member_check: scope_check
  "\<lambda>c. tenant_grants_permission d c u action resource"
  for d u action resource
  by unfold_locales (auto simp: tenant_grants_permission_def split: option.splits sum.splits)

interpretation actor_check: scope_check
  "\<lambda>c. actor_grants_permission d c a ty action resource"
  for d a ty action resource
  by unfold_locales (auto simp: actor_grants_permission_def tenant_grants_permission_def
      tenant_grants_permission_for_service_account_def split: option.splits sum.splits)

interpretation delegation_check: scope_check
  "\<lambda>c S. tenant_grants_permission_via_delegation d now c a ty action resource S ign"
  for d now a ty action resource ign
  by unfold_locales (auto simp: tenant_grants_permission_via_delegation_def split: sum.splits)

interpretation deny_check: scope_check
  "\<lambda>c. tenant_denies_permission d c a ty action resource"
  for d a ty action resource
  by unfold_locales (auto simp: tenant_denies_permission_def)

interpretation support_check: scope_check
  "\<lambda>c. tenant_grants_support_access d now c a resource action"
  for d now a resource action
  by unfold_locales (auto simp: tenant_grants_support_access_def split: sum.splits)

text \<open>The decision's own walk tries a role and a delegation at each candidate.\<close>

definition allows_at ::
  "db \<Rightarrow> datetime \<Rightarrow> uuid \<Rightarrow> principal_type \<Rightarrow> string \<Rightarrow> string \<Rightarrow> bool \<Rightarrow> uuid \<Rightarrow> role_scope list
    \<Rightarrow> bool" where
  "allows_at d now a ty action resource ign c S =
     (actor_grants_permission d c a ty action resource S \<or>
      tenant_grants_permission_via_delegation d now c a ty action resource S ign)"

interpretation allow_check: scope_check "allows_at d now a ty action resource ign"
  for d now a ty action resource ign
  by unfold_locales (metis allows_at_def actor_check.hit_scopes delegation_check.hit_scopes)

subsection \<open>Specification\<close>

text \<open>
  What a row of the store grants, with no reference to how it is looked up:
  \<open>role_authority\<close> and \<open>delegated_authority\<close> at a candidate tenant with a scope,
  \<open>deny_authority\<close> and \<open>support_authority\<close> likewise, and \<open>authorized\<close> with one rule per
  reason a decision can be positive.
\<close>

inductive role_authority ::
  "db \<Rightarrow> principal_type \<Rightarrow> uuid \<Rightarrow> uuid \<Rightarrow> role_scope \<Rightarrow> string \<Rightarrow> string \<Rightarrow> bool"
  for d :: db where
  member: "m \<in> set (tenant_memberships d) \<Longrightarrow> tm_tenant_id m = c \<Longrightarrow> tm_user_id m = u \<Longrightarrow>
    tm_status m = MEMBER_ACTIVE \<Longrightarrow> admits_principals d c \<Longrightarrow>
    mr \<in> set (membership_roles d) \<Longrightarrow> mr_tenant_id mr = c \<Longrightarrow> mr_membership_id mr = tm_id m \<Longrightarrow>
    mr_scope mr = s \<Longrightarrow> role_grants d c (mr_role_id mr) resource action \<Longrightarrow>
    role_authority d USER u c s resource action"
| machine: "admits_principals d c \<Longrightarrow> sr \<in> set (service_account_roles d) \<Longrightarrow>
    sr_tenant_id sr = c \<Longrightarrow> sr_service_account_id sr = a \<Longrightarrow> sr_scope sr = s \<Longrightarrow>
    role_grants d c (sr_role_id sr) resource action \<Longrightarrow> ty \<noteq> USER \<Longrightarrow>
    role_authority d ty a c s resource action"

inductive delegated_authority ::
  "db \<Rightarrow> datetime \<Rightarrow> bool \<Rightarrow> principal_type \<Rightarrow> uuid \<Rightarrow> uuid \<Rightarrow> role_scope \<Rightarrow> string \<Rightarrow> string \<Rightarrow> bool"
  for d :: db and now :: datetime and ign :: bool where
  "g \<in> set (delegation_grants d) \<Longrightarrow> dg_tenant_id g = c \<Longrightarrow> delegation_names ty a g \<Longrightarrow>
    dg_scope_mode g = s \<Longrightarrow> delegation_valid now ign g \<Longrightarrow>
    names_permission d (dg_permission_id g) resource action \<Longrightarrow> admits_principals d c \<Longrightarrow>
    (ty = USER \<Longrightarrow> \<forall>m \<in> set (tenant_memberships d).
       tm_tenant_id m = c \<and> tm_user_id m = a \<longrightarrow> tm_status m = MEMBER_ACTIVE) \<Longrightarrow>
    delegated_authority d now ign ty a c s resource action"

inductive deny_authority ::
  "db \<Rightarrow> principal_type \<Rightarrow> uuid \<Rightarrow> uuid \<Rightarrow> role_scope \<Rightarrow> string \<Rightarrow> string \<Rightarrow> bool"
  for d :: db where
  "g \<in> set (deny_grants d) \<Longrightarrow> dn_tenant_id g = c \<Longrightarrow> deny_names ty a g \<Longrightarrow>
    dn_scope_mode g = s \<Longrightarrow> dn_revoked_at g = None \<Longrightarrow>
    names_permission d (dn_permission_id g) resource action \<Longrightarrow>
    deny_authority d ty a c s resource action"

inductive support_authority ::
  "db \<Rightarrow> datetime \<Rightarrow> uuid \<Rightarrow> uuid \<Rightarrow> role_scope \<Rightarrow> string \<Rightarrow> string \<Rightarrow> bool"
  for d :: db and now :: datetime where
  "q \<in> set (support_access_requests d) \<Longrightarrow> su_tenant_id q = c \<Longrightarrow>
    su_requester_user_id q = u \<Longrightarrow> su_scope_mode q = s \<Longrightarrow> support_request_active now q \<Longrightarrow>
    is_open d c \<Longrightarrow> \<not> is_authority_changing resource action \<Longrightarrow>
    (resource, action) \<notin> set AI_SUPPORT_ACCESS_EXCLUDED_ACTIONS \<Longrightarrow>
    support_authority d now u c s resource action"

definition denied :: "db \<Rightarrow> principal_type \<Rightarrow> uuid \<Rightarrow> uuid \<Rightarrow> string \<Rightarrow> string \<Rightarrow> bool" where
  "denied d ty a t resource action \<longleftrightarrow>
     (\<exists>c s. deny_authority d ty a c s resource action \<and> scope_reaches d c s t)"

inductive authorized ::
  "db \<Rightarrow> datetime \<Rightarrow> bool \<Rightarrow> principal_type \<Rightarrow> uuid \<Rightarrow> uuid option \<Rightarrow> uuid \<Rightarrow> string \<Rightarrow> string \<Rightarrow> bool"
  for d :: db and now :: datetime and ign :: bool where
  by_role: "role_authority d ty a c s resource action \<Longrightarrow> scope_reaches d c s t \<Longrightarrow>
    admits_principals d t \<Longrightarrow> actor_is_live d a ty home \<Longrightarrow> \<not> denied d ty a t resource action \<Longrightarrow>
    authorized d now ign ty a home t resource action"
| by_delegation: "delegated_authority d now ign ty a c s resource action \<Longrightarrow>
    scope_reaches d c s t \<Longrightarrow> admits_principals d t \<Longrightarrow> actor_is_live d a ty home \<Longrightarrow>
    \<not> denied d ty a t resource action \<Longrightarrow> authorized d now ign ty a home t resource action"
| by_support: "support_authority d now a c s resource action \<Longrightarrow> scope_reaches d c s t \<Longrightarrow>
    is_open d t \<Longrightarrow> actor_is_live d a USER home \<Longrightarrow> \<not> denied d USER a t resource action \<Longrightarrow>
    authorized d now ign USER a home t resource action"

text \<open>The unique constraint \<open>uq_tenant_memberships_tenant_user\<close>.\<close>

definition memberships_unique :: "db \<Rightarrow> bool" where
  "memberships_unique d = distinct (map (\<lambda>m. (tm_tenant_id m, tm_user_id m)) (tenant_memberships d))"

lemma lock_membership_iff:
  assumes "memberships_unique d"
  shows "lock_membership d c u = Some m \<longleftrightarrow>
    m \<in> set (tenant_memberships d) \<and> tm_tenant_id m = c \<and> tm_user_id m = u"
proof
  assume "lock_membership d c u = Some m"
  then show "m \<in> set (tenant_memberships d) \<and> tm_tenant_id m = c \<and> tm_user_id m = u"
    unfolding lock_membership_def by (auto dest: find_SomeD)
next
  assume "m \<in> set (tenant_memberships d) \<and> tm_tenant_id m = c \<and> tm_user_id m = u"
  then show "lock_membership d c u = Some m"
    using assms find_unique [of "\<lambda>m. (tm_tenant_id m, tm_user_id m)" "tenant_memberships d" m]
    by (simp add: lock_membership_def memberships_unique_def)
qed

lemma lock_membership_None:
  "lock_membership d c u = None \<longleftrightarrow>
    (\<forall>m \<in> set (tenant_memberships d). \<not> (tm_tenant_id m = c \<and> tm_user_id m = u))"
  by (simp add: lock_membership_def find_None_iff_all)

lemma sum_case_is_ok: "(case x of Inl _ \<Rightarrow> False | Inr _ \<Rightarrow> P) \<longleftrightarrow> is_ok x \<and> P"
  by (cases x) simp_all

lemma member_authority_iff:
  assumes "memberships_unique d"
  shows "tenant_grants_permission d c u action resource [s] \<longleftrightarrow>
    role_authority d USER u c s resource action"
proof -
  have "tenant_grants_permission d c u action resource [s] \<longleftrightarrow>
    (\<exists>m. lock_membership d c u = Some m \<and> tm_status m = MEMBER_ACTIVE \<and> admits_principals d c \<and>
      (\<exists>mr \<in> set (membership_roles d). mr_tenant_id mr = c \<and> mr_membership_id mr = tm_id m \<and>
         mr_scope mr = s \<and> role_grants d c (mr_role_id mr) resource action))"
    by (auto simp: tenant_grants_permission_def sum_case_is_ok admits_principals_def
        split: option.splits)
  then show ?thesis
    unfolding lock_membership_iff [OF assms] role_authority.simps by blast
qed

lemma actor_authority_iff:
  assumes "memberships_unique d"
  shows "actor_grants_permission d c a ty action resource [s] \<longleftrightarrow>
    role_authority d ty a c s resource action"
proof (cases "ty = USER")
  case True
  then show ?thesis
    using member_authority_iff [OF assms] by (simp add: actor_grants_permission_def)
next
  case False
  then show ?thesis
    by (auto simp: actor_grants_permission_def tenant_grants_permission_for_service_account_def
        sum_case_is_ok admits_principals_def [symmetric] role_authority.simps)
qed

lemma delegate_membership_iff:
  assumes "memberships_unique d"
  shows "delegate_user_membership_permits_authorization d c a \<longleftrightarrow>
    (\<forall>m \<in> set (tenant_memberships d).
       tm_tenant_id m = c \<and> tm_user_id m = a \<longrightarrow> tm_status m = MEMBER_ACTIVE)"
proof (cases "lock_membership d c a")
  case None
  then show ?thesis
    using lock_membership_None [of d c a]
    by (auto simp: delegate_user_membership_permits_authorization_def)
next
  case (Some m)
  have "x = m" if "x \<in> set (tenant_memberships d)" "tm_tenant_id x = c" "tm_user_id x = a" for x
    using lock_membership_iff [OF assms, of c a x] that Some by simp
  with Some show ?thesis
    using lock_membership_iff [OF assms, of c a m]
    by (auto simp: delegate_user_membership_permits_authorization_def)
qed

lemma delegation_authority_iff:
  assumes "memberships_unique d"
  shows "tenant_grants_permission_via_delegation d now c a ty action resource [s] ign \<longleftrightarrow>
    delegated_authority d now ign ty a c s resource action"
  unfolding tenant_grants_permission_via_delegation_def delegated_authority.simps
    delegate_membership_iff [OF assms] sum_case_is_ok admits_principals_def [symmetric]
  by auto

lemma deny_authority_iff:
  "tenant_denies_permission d c a ty action resource [s] \<longleftrightarrow>
    deny_authority d ty a c s resource action"
  by (auto simp: tenant_denies_permission_def deny_authority.simps)

lemma support_authority_iff:
  "tenant_grants_support_access d now c u resource action [s] \<longleftrightarrow>
    support_authority d now u c s resource action"
  by (auto simp: tenant_grants_support_access_def support_authority.simps sum_case_is_ok
      is_open_def is_authority_changing_def)

lemma denied_iff: "actor_is_denied d a ty t action resource \<longleftrightarrow> denied d ty a t resource action"
proof -
  have "actor_is_denied d a ty t action resource \<longleftrightarrow>
    (\<exists>c s. tenant_denies_permission d c a ty action resource [s] \<and> scope_reaches d c s t)"
    unfolding deny_check.walk_iff [symmetric] actor_is_denied_def list_ex_iff by simp
  then show ?thesis by (simp add: denied_def deny_authority_iff)
qed

lemma support_access_iff:
  "actor_has_support_access d now u t resource action \<longleftrightarrow>
    (\<exists>c s. support_authority d now u c s resource action \<and> scope_reaches d c s t)"
proof -
  have "actor_has_support_access d now u t resource action \<longleftrightarrow>
    (\<exists>c s. tenant_grants_support_access d now c u resource action [s] \<and> scope_reaches d c s t)"
    unfolding support_check.walk_iff [symmetric] actor_has_support_access_def list_ex_iff by simp
  then show ?thesis by (simp add: support_authority_iff)
qed

lemma allows_at_iff:
  assumes "memberships_unique d"
  shows "allows_at d now a ty action resource ign c [s] \<longleftrightarrow>
    role_authority d ty a c s resource action \<or>
    delegated_authority d now ign ty a c s resource action"
  using assms by (simp add: allows_at_def actor_authority_iff delegation_authority_iff)

text \<open>The decision, as one formula over its parts.\<close>

lemma decide_formula:
  "can d now a t action resource ty home ign \<longleftrightarrow>
    is_open d t \<and> actor_is_live d a ty home \<and> \<not> denied d ty a t resource action \<and>
    (admits_principals d t \<and>
      (\<exists>c s. allows_at d now a ty action resource ign c [s] \<and> scope_reaches d c s t) \<or>
     ty = USER \<and> actor_has_support_access d now a t resource action)"
proof -
  have walk: "actor_grants_permission d t a ty action resource TARGET_TENANT_SCOPES \<or>
      tenant_grants_permission_via_delegation d now t a ty action resource
        TARGET_TENANT_SCOPES ign \<or>
      list_ex (\<lambda>c. c \<noteq> t \<and>
        (actor_grants_permission d c a ty action resource ANCESTOR_TENANT_SCOPES \<or>
         tenant_grants_permission_via_delegation d now c a ty action resource
           ANCESTOR_TENANT_SCOPES ign)) (lock_ancestor_ids d t) \<longleftrightarrow>
    (\<exists>c s. allows_at d now a ty action resource ign c [s] \<and> scope_reaches d c s t)"
    using allow_check.walk_iff [of d now a ty action resource ign t d]
    by (simp add: allows_at_def list_ex_iff disj_assoc)
  show ?thesis
    unfolding can_def decide_def Let_def walk denied_iff [symmetric]
    by (auto simp: is_open_def admits_principals_def lock_open_tenant_def
        lock_accessible_tenant_def dest: accessible_not_closed split: option.splits)
qed

lemma can_iff:
  assumes "memberships_unique d"
  shows "can d now a t action resource ty home ign \<longleftrightarrow>
    authorized d now ign ty a home t resource action"
  unfolding decide_formula allows_at_iff [OF assms] support_access_iff authorized.simps
  by (auto dest: admits_principals_open)

subsection \<open>Facts the guards and services use\<close>

lemma support_excluded:
  "is_authority_changing resource action \<Longrightarrow> \<not> actor_has_support_access d now u t resource action"
  by (auto simp: support_access_iff support_authority.simps)

lemma can_authority_changing:
  assumes "is_authority_changing resource action"
  shows "can d now a t action resource ty home ign \<longleftrightarrow>
    admits_principals d t \<and> actor_is_live d a ty home \<and> \<not> denied d ty a t resource action \<and>
    (\<exists>c s. allows_at d now a ty action resource ign c [s] \<and> scope_reaches d c s t)"
  using support_excluded [OF assms] by (auto simp: decide_formula admits_principals_open)

lemma delegation_valid_ignoring: "delegation_valid now True g \<Longrightarrow> delegation_valid now ign g"
  by (auto simp: delegation_valid_def)

lemma delegation_valid_later:
  "delegation_valid now True g \<Longrightarrow> now \<le> now' \<Longrightarrow> delegation_valid now' True g"
  by (auto simp: delegation_valid_def)

lemma via_delegation_mono:
  assumes "\<And>g. delegation_valid now ign g \<Longrightarrow> delegation_valid now' ign' g"
    and "tenant_grants_permission_via_delegation d now c a ty action resource S ign"
  shows "tenant_grants_permission_via_delegation d now' c a ty action resource S ign'"
  using assms by (auto simp: tenant_grants_permission_via_delegation_def split: if_splits sum.splits)

lemma allows_at_mono:
  assumes "\<And>g. delegation_valid now ign g \<Longrightarrow> delegation_valid now' ign' g"
    and "allows_at d now a ty action resource ign c S"
  shows "allows_at d now' a ty action resource ign' c S"
proof -
  have "tenant_grants_permission_via_delegation d now' c a ty action resource S ign'"
    if "tenant_grants_permission_via_delegation d now c a ty action resource S ign"
    using via_delegation_mono [OF _ that] assms(1) by blast
  with assms(2) show ?thesis unfolding allows_at_def by blast
qed

lemma holds_own_iff:
  "holds_through_own_membership d u t action resource \<longleftrightarrow>
    admits_principals d t \<and> actor_is_live d u USER home \<and> \<not> denied d USER u t resource action \<and>
    (\<exists>s. tenant_grants_permission d t u action resource [s])"
  by (auto simp: holds_through_own_membership_def sum_case_is_ok admits_principals_def
      actor_is_live_def denied_iff member_check.hit_target split: sum.splits)

lemma reaches_scope_iff:
  "actor_reaches_tenant_at_scope d a t action resource r \<longleftrightarrow>
    (\<exists>c s. tenant_grants_permission d c a action resource [s] \<and> scope_reaches d c s t \<and>
       (r = SUBTREE \<longrightarrow> s = SUBTREE))"
proof (cases r)
  case SELF
  then show ?thesis
    by (simp add: member_check.walk_iff [of d t a action resource d, symmetric] actor_reaches_tenant_at_scope_def ancestor_grants_subtree_permission_def
        list_ex_iff)
next
  case SUBTREE
  then show ?thesis
    by (simp add: member_check.subtree_walk_iff [of d t a action resource d, symmetric] actor_reaches_tenant_at_scope_def ancestor_grants_subtree_permission_def
        list_ex_iff)
qed

text \<open>What each part of the decision reads.\<close>

lemma lock_accessible_tenant_cong:
  "tenants d = tenants d' \<Longrightarrow> lock_accessible_tenant d = lock_accessible_tenant d'"
  by (simp add: fun_eq_iff lock_accessible_tenant_def find_tenant_def)

lemma lock_open_tenant_cong: "tenants d = tenants d' \<Longrightarrow> lock_open_tenant d = lock_open_tenant d'"
  by (simp add: fun_eq_iff lock_open_tenant_def find_tenant_def)

lemma admits_principals_cong:
  assumes "tenants d = tenants d'" shows "admits_principals d = admits_principals d'"
  unfolding fun_eq_iff admits_principals_def lock_accessible_tenant_cong [OF assms] by simp

lemma is_open_cong:
  assumes "tenants d = tenants d'" shows "is_open d = is_open d'"
  unfolding fun_eq_iff is_open_def lock_open_tenant_cong [OF assms] by simp

lemma lock_ancestor_ids_cong:
  "tenant_ancestries d = tenant_ancestries d' \<Longrightarrow> lock_ancestor_ids d = lock_ancestor_ids d'"
  by (simp add: fun_eq_iff lock_ancestor_ids_def)

lemma scope_reaches_cong:
  assumes "tenant_ancestries d = tenant_ancestries d'" shows "scope_reaches d = scope_reaches d'"
  unfolding fun_eq_iff scope_reaches_def lock_ancestor_ids_cong [OF assms] by simp

lemma lock_membership_cong:
  "tenant_memberships d = tenant_memberships d' \<Longrightarrow> lock_membership d = lock_membership d'"
  by (simp add: fun_eq_iff lock_membership_def)

lemma actor_is_live_cong:
  assumes "users d = users d'" "service_accounts d = service_accounts d'"
  shows "actor_is_live d = actor_is_live d'"
  unfolding fun_eq_iff actor_is_live_def lock_user_is_active_def lock_service_account_status_def
    assms by simp

lemma names_permission_cong:
  "permissions d = permissions d' \<Longrightarrow> names_permission d = names_permission d'"
  by (simp add: fun_eq_iff names_permission_def)

lemma role_grants_cong:
  assumes "role_permissions d = role_permissions d'" "permissions d = permissions d'"
  shows "role_grants d = role_grants d'"
  unfolding fun_eq_iff role_grants_def names_permission_cong [OF assms(2)] assms by simp

lemma denied_cong:
  assumes "deny_grants d = deny_grants d'" "permissions d = permissions d'"
    "tenant_ancestries d = tenant_ancestries d'"
  shows "denied d = denied d'"
  unfolding fun_eq_iff denied_def deny_authority.simps assms(1) names_permission_cong [OF assms(2)]
    scope_reaches_cong [OF assms(3)] by simp

lemma member_grants_cong:
  assumes "tenants d = tenants d'" "tenant_memberships d = tenant_memberships d'"
    "permissions d = permissions d'" "role_permissions d = role_permissions d'"
    "membership_roles d = membership_roles d'"
  shows "tenant_grants_permission d = tenant_grants_permission d'"
  unfolding fun_eq_iff tenant_grants_permission_def lock_accessible_tenant_cong [OF assms(1)]
    lock_membership_cong [OF assms(2)] role_grants_cong [OF assms(4) assms(3)] assms(5) by simp

lemma actor_grants_cong:
  assumes "tenants d = tenants d'" "tenant_memberships d = tenant_memberships d'"
    "permissions d = permissions d'" "role_permissions d = role_permissions d'"
    "membership_roles d = membership_roles d'" "service_account_roles d = service_account_roles d'"
  shows "actor_grants_permission d = actor_grants_permission d'"
  unfolding fun_eq_iff actor_grants_permission_def member_grants_cong [OF assms(1-5)]
    tenant_grants_permission_for_service_account_def lock_accessible_tenant_cong [OF assms(1)]
    role_grants_cong [OF assms(4) assms(3)] assms(6) by simp

lemma delegation_cong:
  assumes "tenants d = tenants d'" "tenant_memberships d = tenant_memberships d'"
    "permissions d = permissions d'" "delegation_grants d = delegation_grants d'"
  shows "tenant_grants_permission_via_delegation d = tenant_grants_permission_via_delegation d'"
  unfolding fun_eq_iff tenant_grants_permission_via_delegation_def
    delegate_user_membership_permits_authorization_def lock_membership_cong [OF assms(2)]
    lock_accessible_tenant_cong [OF assms(1)] names_permission_cong [OF assms(3)] assms(4) by simp

lemma reaches_cong:
  assumes "tenants d = tenants d'" "tenant_memberships d = tenant_memberships d'"
    "permissions d = permissions d'" "role_permissions d = role_permissions d'"
    "membership_roles d = membership_roles d'" "tenant_ancestries d = tenant_ancestries d'"
  shows "actor_reaches_tenant_at_scope d = actor_reaches_tenant_at_scope d'"
  unfolding fun_eq_iff reaches_scope_iff member_grants_cong [OF assms(1-5)]
    scope_reaches_cong [OF assms(6)] by simp

lemma allows_at_cong:
  assumes "tenants d = tenants d'" "tenant_memberships d = tenant_memberships d'"
    "permissions d = permissions d'" "role_permissions d = role_permissions d'"
    "membership_roles d = membership_roles d'" "service_account_roles d = service_account_roles d'"
    "delegation_grants d = delegation_grants d'"
  shows "allows_at d = allows_at d'"
  unfolding fun_eq_iff allows_at_def actor_grants_cong [OF assms(1-6)]
    delegation_cong [OF assms(1-3,7)] by simp

lemma support_access_cong:
  assumes "tenants d = tenants d'" "tenant_ancestries d = tenant_ancestries d'"
    "support_access_requests d = support_access_requests d'"
  shows "actor_has_support_access d = actor_has_support_access d'"
  unfolding fun_eq_iff support_access_iff support_authority.simps assms(3)
    is_open_cong [OF assms(1)] scope_reaches_cong [OF assms(2)] by simp

lemma can_cong:
  assumes "tenants d = tenants d'" "tenant_ancestries d = tenant_ancestries d'"
    "users d = users d'" "tenant_memberships d = tenant_memberships d'"
    "service_accounts d = service_accounts d'" "permissions d = permissions d'"
    "role_permissions d = role_permissions d'" "membership_roles d = membership_roles d'"
    "service_account_roles d = service_account_roles d'"
    "delegation_grants d = delegation_grants d'" "deny_grants d = deny_grants d'"
    "support_access_requests d = support_access_requests d'"
  shows "can d = can d'"
  unfolding fun_eq_iff decide_formula is_open_cong [OF assms(1)]
    admits_principals_cong [OF assms(1)] actor_is_live_cong [OF assms(3,5)]
    denied_cong [OF assms(11,6,2)] allows_at_cong [OF assms(1,4,6,7,8,9,10)]
    scope_reaches_cong [OF assms(2)] support_access_cong [OF assms(1,2,12)] by simp

text \<open>The closure table is closed: an ancestor's ancestor is an ancestor.\<close>

definition ancestry_transitive :: "db \<Rightarrow> bool" where
  "ancestry_transitive d = (\<forall>r \<in> set (tenant_ancestries d). \<forall>q \<in> set (tenant_ancestries d).
     an_ancestor_id r = an_tenant_id q \<longrightarrow> an_ancestor_id q \<in> set (lock_ancestor_ids d (an_tenant_id r)))"

lemma ancestry_transitiveD:
  "ancestry_transitive d \<Longrightarrow> b \<in> set (lock_ancestor_ids d a) \<Longrightarrow> c \<in> set (lock_ancestor_ids d b) \<Longrightarrow>
    c \<in> set (lock_ancestor_ids d a)"
  unfolding ancestry_transitive_def set_lock_ancestor_ids by metis

lemma subtree_reach_descends:
  assumes "ancestry_transitive d" "t \<in> set (lock_ancestor_ids d x)"
    "scope_reaches d c SUBTREE t"
  shows "scope_reaches d c SUBTREE x"
  using assms by (auto simp: scope_reaches_def dest: ancestry_transitiveD)

subsection \<open>Properties of the decision\<close>

text \<open>C1: the decision procedure is the specification. With the unique constraint on
  memberships, \<open>can\<close> answers True exactly when one of the three rules of \<open>authorized\<close>
  applies: a role or a delegation at a tenant that admits principals and whose scope
  reaches the target, or a support grant at an open tenant, each time for a live principal
  with no deny in reach.\<close>

theorem can_refines_authorized:
  assumes "memberships_unique d"
  shows "can d now a t action resource ty home ign \<longleftrightarrow>
    authorized d now ign ty a home t resource action"
  using assms by (rule can_iff)

theorem can_refines_authorized_witness:
  "memberships_unique sample_db \<and>
   authorized sample_db 100 False USER 10 None 2 ''membership_role'' ''create''"
proof -
  have unique: "memberships_unique sample_db" by code_simp
  have "can sample_db 100 10 2 ''create'' ''membership_role'' USER None False" by code_simp
  with can_refines_authorized [OF unique] unique show ?thesis by blast
qed

text \<open>C2: deny overrides allow. An unrevoked deny grant that names the actor for the
  permission, at the target tenant with any scope or at an ancestor with SUBTREE scope,
  makes the decision False whatever roles, delegations or support grants exist.\<close>

theorem deny_overrides_every_allow:
  assumes "g \<in> set (deny_grants d)" "deny_names ty a g" "dn_revoked_at g = None"
    "names_permission d (dn_permission_id g) resource action"
    "dn_tenant_id g = t \<or> dn_scope_mode g = SUBTREE \<and> dn_tenant_id g \<in> set (lock_ancestor_ids d t)"
  shows "\<not> can d now a t action resource ty home ign"
proof -
  have "deny_authority d ty a (dn_tenant_id g) (dn_scope_mode g) resource action"
    using assms by (auto intro: deny_authority.intros)
  moreover have "scope_reaches d (dn_tenant_id g) (dn_scope_mode g) t"
    using assms(5) by (auto simp: scope_reaches_def)
  ultimately show ?thesis by (auto simp: decide_formula denied_def)
qed

theorem deny_overrides_every_allow_witness:
  "\<not> can sample_db 100 11 2 ''read'' ''report'' USER None False"
proof -
  have "mk_deny 80 1 11 SUBTREE 41 \<in> set (deny_grants sample_db)" by (simp add: fixture_defs)
  moreover have "deny_names USER 11 (mk_deny 80 1 11 SUBTREE 41)" by code_simp
  moreover have "dn_revoked_at (mk_deny 80 1 11 SUBTREE 41) = None" by code_simp
  moreover have "names_permission sample_db (dn_permission_id (mk_deny 80 1 11 SUBTREE 41))
      ''report'' ''read''" by code_simp
  moreover have "dn_tenant_id (mk_deny 80 1 11 SUBTREE 41) = 2 \<or>
      dn_scope_mode (mk_deny 80 1 11 SUBTREE 41) = SUBTREE \<and>
      dn_tenant_id (mk_deny 80 1 11 SUBTREE 41) \<in> set (lock_ancestor_ids sample_db 2)" by code_simp
  ultimately show ?thesis by (rule deny_overrides_every_allow)
qed

text \<open>C3: the lifecycle fence. A tenant that does not exist, or is DELETED, PURGING or
  PURGED, authorizes nobody for anything; and a tenant that is SUSPENDED authorizes only a
  person with support access, no role or delegation of its own counting.\<close>

theorem lifecycle_fences_decision:
  "(\<not> is_open d t \<longrightarrow> \<not> can d now a t action resource ty home ign) \<and>
   (tenant_status_of d t = Some SUSPENDED \<longrightarrow> can d now a t action resource ty home ign =
     (ty = USER \<and> actor_is_live d a USER home \<and> \<not> actor_is_denied d a USER t action resource \<and>
      actor_has_support_access d now a t resource action))"
  by (auto simp: decide_formula is_open_iff admits_principals_iff denied_iff)

theorem lifecycle_fences_decision_witness:
  "\<not> can sample_db 100 10 4 ''create'' ''membership_role'' USER None False \<and>
   \<not> can sample_db 100 10 3 ''create'' ''membership_role'' USER None False"
proof -
  have "\<not> is_open sample_db 4" by code_simp
  moreover have "tenant_status_of sample_db 3 = Some SUSPENDED" by code_simp
  moreover have "\<not> actor_has_support_access sample_db 100 10 3 ''membership_role'' ''create''"
    by code_simp
  ultimately show ?thesis
    using lifecycle_fences_decision [of sample_db 4 100 10 "''create''" "''membership_role''"]
      lifecycle_fences_decision [of sample_db 3 100 10 "''create''" "''membership_role''"]
    by blast
qed

text \<open>Support access never changes authority. For an action on an authority resource,
  a billing mutation or tenant self-suspension, a positive decision always rests on a role
  or a delegation at a tenant that admits principals and whose scope reaches the target;
  deleting every support request changes no such decision.\<close>

theorem support_never_decides_authority:
  assumes "is_authority_changing resource action"
  shows "can d now a t action resource ty home ign =
      can (d\<lparr>support_access_requests := []\<rparr>) now a t action resource ty home ign \<and>
    (memberships_unique d \<and> can d now a t action resource ty home ign \<longrightarrow>
      (\<exists>c s. (role_authority d ty a c s resource action \<or>
             delegated_authority d now ign ty a c s resource action) \<and>
            scope_reaches d c s t))"
proof (intro conjI impI)
  let ?d = "d\<lparr>support_access_requests := []\<rparr>"
  have "allows_at ?d = allows_at d" "admits_principals ?d = admits_principals d"
    "actor_is_live ?d = actor_is_live d" "denied ?d = denied d"
    "scope_reaches ?d = scope_reaches d"
    by (rule allows_at_cong admits_principals_cong actor_is_live_cong denied_cong
        scope_reaches_cong; simp)+
  then show "can d now a t action resource ty home ign = can ?d now a t action resource ty home ign"
    unfolding can_authority_changing [OF assms] by simp
next
  assume "memberships_unique d \<and> can d now a t action resource ty home ign"
  then show "\<exists>c s. (role_authority d ty a c s resource action \<or>
      delegated_authority d now ign ty a c s resource action) \<and> scope_reaches d c s t"
    unfolding can_authority_changing [OF assms] using allows_at_iff by blast
qed

text \<open>Holding a permission through one's own membership is stricter than the decision:
  every case \<open>holds_through_own_membership\<close> accepts, \<open>can\<close> accepts, even without expiring
  delegations.\<close>

theorem own_membership_implies_can:
  assumes "holds_through_own_membership d u t action resource"
  shows "can d now u t action resource USER home ign"
proof -
  from assms obtain s where own: "admits_principals d t" "actor_is_live d u USER home"
    "\<not> denied d USER u t resource action" "tenant_grants_permission d t u action resource [s]"
    unfolding holds_own_iff [where home = home] by blast
  then have "allows_at d now u USER action resource ign t [s]"
    by (simp add: allows_at_def actor_grants_permission_def)
  moreover have "scope_reaches d t s t" by (simp add: scope_reaches_def)
  ultimately show ?thesis
    unfolding decide_formula using own admits_principals_open by blast
qed

text \<open>Leaving expiring delegations out only restricts, and for an authority-changing
  permission what is left does not lapse: an actor allowed without expiring delegations is
  allowed by the ordinary decision, and still is at every later time if no row changes.\<close>

theorem ignoring_expiring_is_stable:
  assumes "can d now a t action resource ty home True"
  shows "can d now a t action resource ty home False \<and>
    (is_authority_changing resource action \<and> now \<le> now' \<longrightarrow>
      can d now' a t action resource ty home True)"
proof (intro conjI impI)
  show "can d now a t action resource ty home False"
    using assms unfolding decide_formula
    by (metis allows_at_mono delegation_valid_ignoring)
next
  assume later: "is_authority_changing resource action \<and> now \<le> now'"
  then show "can d now' a t action resource ty home True"
    using assms unfolding can_authority_changing [OF conjunct1 [OF later]]
    by (metis allows_at_mono delegation_valid_later)
qed

text \<open>The anti-amplification reach. Authority that reaches a tenant at SUBTREE scope
  reaches every descendant at SUBTREE scope, so whatever is handed out over the subtree is
  authority its giver already has there: in each descendant that admits principals and does
  not deny the giver, the giver is allowed the action.\<close>

theorem subtree_reach_covers_descendants:
  assumes "actor_reaches_tenant_at_scope d a t action resource SUBTREE"
    and "ancestry_transitive d" and "t \<in> set (lock_ancestor_ids d x)"
  shows "actor_reaches_tenant_at_scope d a x action resource SUBTREE \<and>
    (admits_principals d x \<and> lock_user_is_active d a = Some True \<and>
      \<not> actor_is_denied d a USER x action resource \<longrightarrow> user_can d now a x action resource)"
proof -
  from assms obtain c where c: "tenant_grants_permission d c a action resource [SUBTREE]"
    "scope_reaches d c SUBTREE x"
    unfolding reaches_scope_iff using subtree_reach_descends by blast
  then have "actor_reaches_tenant_at_scope d a x action resource SUBTREE"
    unfolding reaches_scope_iff by blast
  moreover from c(1) have "allows_at d now a USER action resource False c [SUBTREE]"
    by (simp add: allows_at_def actor_grants_permission_def)
  ultimately show ?thesis
    using c(2) unfolding decide_formula denied_iff [symmetric]
    by (auto simp: actor_is_live_def admits_principals_open)
qed

end
