(* ===== verification/Audit_Log.thy ===== *)
theory Audit_Log
  imports Authorization
begin

section \<open>Callers and audit records\<close>

text \<open>
  The runtime guard on an operation's caller argument
  (\<open>saas_os/core/authority/caller.py\<close>) and the audit record written in the
  operation's own transaction (\<open>saas_os/core/audit_log/service.py\<close>). The insert is
  subject to the foreign keys of \<open>core.audit_log\<close>, in particular the composite key
  (tenant, service account). A record's free metadata is not modelled. A resource
  identifier is always the text of a UUID here, so the checks on its length and
  characters hold by construction.
\<close>

fun caller_type_of :: "caller \<Rightarrow> caller_type option" where
  "caller_type_of (UserCaller _) = Some UserCallerType"
| "caller_type_of (ServiceAccountCaller _ _) = Some ServiceAccountCallerType"
| "caller_type_of (SystemCaller _) = Some SystemCallerType"
| "caller_type_of NotACaller = None"

definition ALL_CALLER_TYPES :: "caller_type list" where
  "ALL_CALLER_TYPES = [UserCallerType, ServiceAccountCallerType, SystemCallerType]"

definition require_caller :: "string \<Rightarrow> caller \<Rightarrow> caller_type list \<Rightarrow> error + unit" where
  "require_caller operation c allowed =
     require (case caller_type_of c of None \<Rightarrow> False | Some ty \<Rightarrow> ty \<in> set allowed)
       (CallerTypeError operation)"

definition validate_action_and_resource :: "string \<Rightarrow> string \<Rightarrow> error + unit" where
  "validate_action_and_resource action resource_type =
     (if is_blank action then Inl InvalidActionOrResourceError
      else if length action > 200 then Inl InvalidActionOrResourceError
      else if is_blank resource_type then Inl InvalidActionOrResourceError
      else if length resource_type > 100 then Inl InvalidActionOrResourceError
      else if has_control_characters action \<or> has_control_characters resource_type
        then Inl InvalidActionOrResourceError
      else Inr ())"

fun caller_actor :: "caller \<Rightarrow> error + (principal_type \<times> uuid option \<times> uuid option)" where
  "caller_actor (UserCaller u) = Inr (USER, Some u, None)"
| "caller_actor (ServiceAccountCaller s _) = Inr (SERVICE_ACCOUNT, None, Some s)"
| "caller_actor (SystemCaller _) = Inr (SYSTEM, None, None)"
| "caller_actor NotACaller = Inl (CallerTypeError ''record_in_transaction'')"

definition validated_entry ::
  "uuid \<Rightarrow> principal_type \<Rightarrow> uuid option \<Rightarrow> uuid option \<Rightarrow> string \<Rightarrow> string \<Rightarrow> uuid option \<Rightarrow>
    audit_outcome \<Rightarrow> error + audit_log_entry" where
  "validated_entry tenant_id actor_type actor_user_id actor_service_account_id action resource_type
      resource_id outcome =
     ebind (require (case actor_type of
         USER \<Rightarrow> actor_user_id \<noteq> None \<and> actor_service_account_id = None
       | SYSTEM \<Rightarrow> actor_user_id = None \<and> actor_service_account_id = None
       | SERVICE_ACCOUNT \<Rightarrow> actor_service_account_id \<noteq> None \<and> actor_user_id = None)
       InvalidActionOrResourceError) (\<lambda>_.
     ebind (validate_action_and_resource action resource_type) (\<lambda>_.
     Inr \<lparr>al_tenant_id = tenant_id, al_actor_type = actor_type, al_actor_user_id = actor_user_id,
       al_actor_service_account_id = actor_service_account_id, al_action = action,
       al_resource_type = resource_type, al_resource_id = resource_id, al_outcome = outcome\<rparr>))"

text \<open>The foreign keys of \<open>core.audit_log\<close>.\<close>

definition audit_references_ok :: "db \<Rightarrow> audit_log_entry \<Rightarrow> bool" where
  "audit_references_ok d e = (find_tenant d (al_tenant_id e) \<noteq> None \<and>
     (case al_actor_user_id e of None \<Rightarrow> True | Some u \<Rightarrow> lock_user_is_active d u \<noteq> None) \<and>
     (case al_actor_service_account_id e of None \<Rightarrow> True
      | Some s \<Rightarrow> lock_service_account_status d (al_tenant_id e) s \<noteq> None))"

definition record_in_transaction ::
  "db \<Rightarrow> caller \<Rightarrow> uuid \<Rightarrow> string \<Rightarrow> string \<Rightarrow> uuid option \<Rightarrow> audit_outcome \<Rightarrow> error + db" where
  "record_in_transaction d c tenant_id action resource_type resource_id outcome =
     ebind (require_caller ''record_in_transaction'' c ALL_CALLER_TYPES) (\<lambda>_.
     ebind (caller_actor c) (\<lambda>(actor_type, actor_user_id, actor_service_account_id).
     ebind (validated_entry tenant_id actor_type actor_user_id actor_service_account_id action
         resource_type resource_id outcome) (\<lambda>entry.
     if audit_references_ok d entry then Inr (d\<lparr>audit_log := audit_log d @ [entry]\<rparr>)
     else Inl IntegrityError)))"

subsection \<open>Facts about the record\<close>

definition entry_of :: "caller \<Rightarrow> uuid \<Rightarrow> string \<Rightarrow> string \<Rightarrow> uuid option \<Rightarrow> audit_outcome
    \<Rightarrow> audit_log_entry" where
  "entry_of c tenant_id action resource_type resource_id outcome =
     \<lparr>al_tenant_id = tenant_id,
      al_actor_type = (case c of UserCaller _ \<Rightarrow> USER | ServiceAccountCaller _ _ \<Rightarrow> SERVICE_ACCOUNT
        | _ \<Rightarrow> SYSTEM),
      al_actor_user_id = (case c of UserCaller u \<Rightarrow> Some u | _ \<Rightarrow> None),
      al_actor_service_account_id = (case c of ServiceAccountCaller s _ \<Rightarrow> Some s | _ \<Rightarrow> None),
      al_action = action, al_resource_type = resource_type, al_resource_id = resource_id,
      al_outcome = outcome\<rparr>"

lemma require_caller_ok [bind_simps]:
  "require_caller op c allowed = Inr u \<longleftrightarrow>
    (\<exists>ty. caller_type_of c = Some ty \<and> ty \<in> set allowed)"
  by (auto simp: require_caller_def split: option.splits)

lemma record_ok:
  "record_in_transaction d c t action resource_type resource_id outcome = Inr d' \<Longrightarrow>
    c \<noteq> NotACaller \<and> audit_references_ok d (entry_of c t action resource_type resource_id outcome) \<and>
    d' = d\<lparr>audit_log := audit_log d @ [entry_of c t action resource_type resource_id outcome]\<rparr>"
  by (cases c) (auto simp: record_in_transaction_def validated_entry_def entry_of_def
      require_caller_def split: if_splits)

lemma record_frame:
  assumes "record_in_transaction d c t action resource_type resource_id outcome = Inr d'"
  obtains entries where "d' = d\<lparr>audit_log := entries\<rparr>"
  using record_ok [OF assms] by blast

text \<open>Writing an audit record changes no authorization read.\<close>

lemma can_audit [frame_simps]: "can (d\<lparr>audit_log := entries\<rparr>) = can d"
  by (rule can_cong) simp_all

lemma find_tenant_audit [frame_simps]: "find_tenant (d\<lparr>audit_log := entries\<rparr>) = find_tenant d"
  by (rule find_tenant_cong) simp

end
