(* ===== verification/Audit_Subjects.thy ===== *)
theory Audit_Subjects
  imports Directory Fixture
begin

section \<open>Platform audit subject references\<close>

text \<open>
  \<open>saas_os/core/platform_authority/subjects.py\<close>: the random reference a platform audit
  row records in place of a user id, one live reference per user and UTC day, and the
  erasure step that cuts references from their user. \<open>platform_audit_subject_ref\<close> is the
  get-or-create, with the loop over lost races as recursion on the attempts left;
  \<open>user_audit_target\<close> decides existence first; \<open>erase_platform_audit_subject\<close> writes the
  erasure marker and unlinks what no active hold covers.

  A random reference is the next unused identifier, so the retry on a primary key
  collision is not needed. Transactions run at READ COMMITTED, the level the code checks
  for. The invariant \<open>links_ok\<close> holds of every reachable link table; from it the
  get-or-create is total and idempotent, and an erased user stays unlinked for ever.
\<close>

definition utc_transaction_date :: "datetime \<Rightarrow> int" where
  "utc_transaction_date now = now div (24 * 3600 * 1000000)"

definition MAX_RACE_ATTEMPTS :: nat where
  "MAX_RACE_ATTEMPTS = 2"

definition live_link :: "uuid \<Rightarrow> int \<Rightarrow> platform_audit_subject_link \<Rightarrow> bool" where
  "live_link user_id day l = (sl_user_id l = Some user_id \<and> sl_subject_day l = day)"

definition live_ref :: "db \<Rightarrow> datetime \<Rightarrow> uuid \<Rightarrow> error + uuid option" where
  "live_ref d now user_id =
     ebind (one_or_none (filter (live_link user_id (utc_transaction_date now))
       (platform_audit_subject_links d))) (\<lambda>l. Inr (map_option sl_subject_ref l))"

definition insert_link :: "db \<Rightarrow> (uuid \<Rightarrow> platform_audit_subject_link) \<Rightarrow> db \<times> uuid" where
  "insert_link d row = (let (r, d1) = take_uuid d in
     (d1\<lparr>platform_audit_subject_links := platform_audit_subject_links d1 @ [row r]\<rparr>, r))"

text \<open>\<open>INSERT ... ON CONFLICT DO NOTHING\<close>, whose foreign key needs the user row.\<close>

definition insert_live :: "db \<Rightarrow> datetime \<Rightarrow> uuid \<Rightarrow> error + (db \<times> uuid option)" where
  "insert_live d now user_id =
     (if list_ex (live_link user_id (utc_transaction_date now)) (platform_audit_subject_links d)
      then Inr (d, None)
      else if lock_user_is_active d user_id = None then Inl IntegrityError
      else (let (d1, r) = insert_link d (\<lambda>r. \<lparr>sl_subject_ref = r, sl_user_id = Some user_id,
          sl_subject_day = utc_transaction_date now, sl_unlinked_at = None,
          sl_unlink_reason = None\<rparr>) in Inr (d1, Some r)))"

definition insert_born_unlinked :: "db \<Rightarrow> datetime \<Rightarrow> db \<times> uuid" where
  "insert_born_unlinked d now = insert_link d (\<lambda>r. \<lparr>sl_subject_ref = r, sl_user_id = None,
     sl_subject_day = utc_transaction_date now, sl_unlinked_at = Some now,
     sl_unlink_reason = Some ''erasure''\<rparr>)"

fun subject_ref_attempts :: "nat \<Rightarrow> db \<Rightarrow> datetime \<Rightarrow> uuid \<Rightarrow> error + (db \<times> uuid)" where
  "subject_ref_attempts 0 d now user_id = Inl AuditSubjectLinkUnavailableError"
| "subject_ref_attempts (Suc n) d now user_id =
     ebind (insert_live d now user_id) (\<lambda>(d1, inserted). case inserted of
       Some r \<Rightarrow> Inr (d1, r)
     | None \<Rightarrow> ebind (live_ref d1 now user_id) (\<lambda>committed. case committed of
         Some r \<Rightarrow> Inr (d1, r)
       | None \<Rightarrow> subject_ref_attempts n d1 now user_id))"

definition platform_audit_subject_ref :: "db \<Rightarrow> datetime \<Rightarrow> uuid \<Rightarrow> error + (db \<times> uuid)" where
  "platform_audit_subject_ref d now user_id =
     (if user_id \<in> set (platform_audit_subject_erasures d) then Inr (insert_born_unlinked d now)
      else subject_ref_attempts MAX_RACE_ATTEMPTS d now user_id)"

definition user_exists_for_audit :: "db \<Rightarrow> uuid \<Rightarrow> bool" where
  "user_exists_for_audit d user_id = (lock_user_is_active d user_id \<noteq> None)"

text \<open>The target columns of an audit row: \<open>(target_type, target_id)\<close>.\<close>

definition user_audit_target ::
  "db \<Rightarrow> datetime \<Rightarrow> uuid \<Rightarrow> error + (db \<times> string \<times> uuid option)" where
  "user_audit_target d now user_id =
     (if \<not> user_exists_for_audit d user_id then Inr (d, ''user'', None)
      else ebind (platform_audit_subject_ref d now user_id)
        (\<lambda>(d1, reference). Inr (d1, ''user_subject'', Some reference)))"

definition covered_by_hold ::
  "platform_audit_subject_link \<Rightarrow> platform_audit_identity_hold list \<Rightarrow> bool" where
  "covered_by_hold l holds = list_ex (\<lambda>h.
     (case ih_subject_ref h of None \<Rightarrow> True | Some r \<Rightarrow> r = sl_subject_ref l) \<and>
     (case ih_from_day h of None \<Rightarrow> True | Some f \<Rightarrow> f \<le> sl_subject_day l) \<and>
     (case ih_to_day h of None \<Rightarrow> True | Some t \<Rightarrow> t \<ge> sl_subject_day l)) holds"

definition active_holds :: "db \<Rightarrow> platform_audit_identity_hold list" where
  "active_holds d = filter (\<lambda>h. ih_released_at h = None) (platform_audit_identity_holds d)"

definition unlink :: "datetime \<Rightarrow> platform_audit_subject_link \<Rightarrow> platform_audit_subject_link" where
  "unlink now l = l\<lparr>sl_user_id := None, sl_unlinked_at := Some now,
     sl_unlink_reason := Some ''erasure''\<rparr>"

text \<open>The erasure step returns the two counts of \<open>PlatformSubjectErasure\<close>.\<close>

definition erase_platform_audit_subject :: "db \<Rightarrow> datetime \<Rightarrow> uuid \<Rightarrow> db \<times> nat \<times> nat" where
  "erase_platform_audit_subject d now user_id =
     (if \<not> user_exists_for_audit d user_id then (d, 0, 0)
      else (let
        d1 = (if user_id \<in> set (platform_audit_subject_erasures d) then d
              else d\<lparr>platform_audit_subject_erasures :=
                platform_audit_subject_erasures d @ [user_id]\<rparr>);
        links = filter (\<lambda>l. sl_user_id l = Some user_id) (platform_audit_subject_links d1);
        holds = active_holds d1;
        doomed = (\<lambda>l. sl_user_id l = Some user_id \<and> \<not> covered_by_hold l holds)
      in (d1\<lparr>platform_audit_subject_links :=
            update_where doomed (unlink now) (platform_audit_subject_links d1)\<rparr>,
          length (filter (\<lambda>l. \<not> covered_by_hold l holds) links),
          length (filter (\<lambda>l. covered_by_hold l holds) links))))"

subsection \<open>The link table invariant\<close>

definition links_ok :: "db \<Rightarrow> bool" where
  "links_ok d = (let links = platform_audit_subject_links d in
     distinct (map sl_subject_ref links) \<and>
     (\<forall>l \<in> set links. sl_subject_ref l < next_uuid d \<and>
        (sl_user_id l = None \<longleftrightarrow> sl_unlinked_at l \<noteq> None)) \<and>
     distinct (map (\<lambda>l. (sl_user_id l, sl_subject_day l))
       (filter (\<lambda>l. sl_user_id l \<noteq> None) links)))"

text \<open>What a step of this module may change: the link table and the identifier supply.\<close>

definition same_but_links :: "db \<Rightarrow> db \<Rightarrow> bool" where
  "same_but_links d d' = (next_uuid d \<le> next_uuid d' \<and>
     d' = d\<lparr>next_uuid := next_uuid d',
       platform_audit_subject_links := platform_audit_subject_links d'\<rparr>)"

lemma same_but_links_refl [simp]: "same_but_links d d"
  by (simp add: same_but_links_def)

lemma same_but_links_trans:
  "same_but_links d1 d2 \<Longrightarrow> same_but_links d2 d3 \<Longrightarrow> same_but_links d1 d3"
  unfolding same_but_links_def by (cases d1, cases d2, cases d3) auto

lemma same_but_linksD:
  assumes "same_but_links d d'"
  shows "users d' = users d" "platform_operators d' = platform_operators d"
    "platform_grants d' = platform_grants d" "tenants d' = tenants d"
    "platform_audit_log d' = platform_audit_log d"
    "external_identities d' = external_identities d"
    "platform_audit_subject_erasures d' = platform_audit_subject_erasures d"
    "next_uuid d \<le> next_uuid d'"
  using assms unfolding same_but_links_def by (cases d, cases d', auto)+

lemma lock_user_is_active_cong: "users d = users d' \<Longrightarrow> lock_user_is_active d = lock_user_is_active d'"
  by (simp add: lock_user_is_active_def fun_eq_iff)

lemma insert_link_ok:
  assumes "insert_link d row = (d', r)"
  shows "same_but_links d d'" "r = next_uuid d" "next_uuid d' = Suc (next_uuid d)"
    "platform_audit_subject_links d' = platform_audit_subject_links d @ [row r]"
  using assms by (auto simp: insert_link_def take_uuid_def Let_def same_but_links_def)

lemma insert_link_links_ok:
  assumes "links_ok d" "insert_link d row = (d', r)" "sl_subject_ref (row r) = r"
    and "sl_user_id (row r) = None \<longleftrightarrow> sl_unlinked_at (row r) \<noteq> None"
    and "\<And>u. sl_user_id (row r) = Some u \<Longrightarrow>
      \<not> list_ex (live_link u (sl_subject_day (row r))) (platform_audit_subject_links d)"
  shows "links_ok d'"
proof -
  note new = insert_link_ok [OF assms(2)]
  have fresh: "r \<notin> sl_subject_ref ` set (platform_audit_subject_links d)"
    using assms(1) new(2) by (auto simp: links_ok_def Let_def)
  have unique: "(sl_user_id (row r), sl_subject_day (row r)) \<notin>
      (\<lambda>l. (sl_user_id l, sl_subject_day l)) `
        set (filter (\<lambda>l. sl_user_id l \<noteq> None) (platform_audit_subject_links d))"
    using assms(5) by (force simp: list_ex_iff live_link_def)
  show ?thesis using assms(1,3,4) fresh unique
    by (auto simp: links_ok_def Let_def new(2-4) less_Suc_eq)
qed

lemma live_ref_total:
  assumes "links_ok d"
  shows "live_ref d now u = Inr (map_option sl_subject_ref
    (find (live_link u (utc_transaction_date now)) (platform_audit_subject_links d)))"
proof -
  let ?day = "utc_transaction_date now" and ?links = "platform_audit_subject_links d"
  have "filter (live_link u ?day) ?links =
      filter (live_link u ?day) (filter (\<lambda>l. sl_user_id l \<noteq> None) ?links)"
    unfolding filter_filter by (rule filter_cong) (auto simp: live_link_def)
  then have "distinct (map (\<lambda>l. (sl_user_id l, sl_subject_day l)) (filter (live_link u ?day) ?links))"
    using assms by (simp only: links_ok_def Let_def distinct_map_filter)
  then have "one_or_none (filter (live_link u ?day) ?links) =
      Inr (find (\<lambda>_. True) (filter (live_link u ?day) ?links))"
    by (rule one_or_none_distinct [where k = "(Some u, ?day)"]) (auto simp: live_link_def)
  then show ?thesis by (simp add: live_ref_def find_filter_True)
qed

lemma insert_live_result:
  assumes "links_ok d" "user_exists_for_audit d u"
  shows "(\<exists>l. find (live_link u (utc_transaction_date now)) (platform_audit_subject_links d) = Some l \<and>
            insert_live d now u = Inr (d, None)) \<or>
    (\<exists>d'. insert_live d now u = Inr (d', Some (next_uuid d)) \<and> links_ok d' \<and> same_but_links d d' \<and>
       platform_audit_subject_links d' = platform_audit_subject_links d @
         [\<lparr>sl_subject_ref = next_uuid d, sl_user_id = Some u,
           sl_subject_day = utc_transaction_date now, sl_unlinked_at = None, sl_unlink_reason = None\<rparr>])"
proof (cases "list_ex (live_link u (utc_transaction_date now)) (platform_audit_subject_links d)")
  case True
  then show ?thesis
    by (cases "find (live_link u (utc_transaction_date now)) (platform_audit_subject_links d)")
      (auto simp: insert_live_def find_None_iff_all list_ex_iff)
next
  case False
  let ?row = "\<lambda>r. \<lparr>sl_subject_ref = r, sl_user_id = Some u,
      sl_subject_day = utc_transaction_date now, sl_unlinked_at = None, sl_unlink_reason = None\<rparr>"
  obtain d' r where ins: "insert_link d ?row = (d', r)" by fastforce
  have "links_ok d'"
    by (rule insert_link_links_ok [OF assms(1) ins]) (use False in simp_all)
  with False ins insert_link_ok [OF ins] assms(2) show ?thesis
    by (simp add: insert_live_def user_exists_for_audit_def)
qed

text \<open>
  The outcome of the get-or-create on a well-formed table: it never fails for an existing
  user, writes at most one link, and the reference it returns belongs to a live link of
  that user and day, unless the user was erased.
\<close>

definition names_subject :: "db \<Rightarrow> datetime \<Rightarrow> uuid \<Rightarrow> uuid \<Rightarrow> bool" where
  "names_subject d now u r = (\<exists>l \<in> set (platform_audit_subject_links d).
     sl_subject_ref l = r \<and> live_link u (utc_transaction_date now) l)"

lemma subject_ref_attempts_result:
  assumes "links_ok d" "user_exists_for_audit d u"
  shows "\<exists>d' r. subject_ref_attempts (Suc n) d now u = Inr (d', r) \<and> links_ok d' \<and>
    same_but_links d d' \<and> names_subject d' now u r \<and>
    (\<forall>l \<in> set (platform_audit_subject_links d'). l \<in> set (platform_audit_subject_links d) \<or>
       sl_user_id l = Some u)"
  using insert_live_result [OF assms, of now]
proof (elim disjE exE conjE)
  fix l
  assume found: "find (live_link u (utc_transaction_date now)) (platform_audit_subject_links d) = Some l"
    and "insert_live d now u = Inr (d, None)"
  with find_SomeD [OF found] live_ref_total [OF assms(1), of now u] assms(1) show ?thesis
    by (auto simp: names_subject_def)
next
  fix d'
  assume "insert_live d now u = Inr (d', Some (next_uuid d))" "links_ok d'" "same_but_links d d'"
    "platform_audit_subject_links d' = platform_audit_subject_links d @
         [\<lparr>sl_subject_ref = next_uuid d, sl_user_id = Some u,
           sl_subject_day = utc_transaction_date now, sl_unlinked_at = None, sl_unlink_reason = None\<rparr>]"
  then show ?thesis by (auto simp: names_subject_def live_link_def)
qed

lemma born_unlinked_result:
  assumes "links_ok d" "insert_born_unlinked d now = (d', r)"
  shows "links_ok d'" "same_but_links d d'" "r = next_uuid d"
    "\<forall>l \<in> set (platform_audit_subject_links d'). l \<in> set (platform_audit_subject_links d) \<or>
       sl_user_id l = None"
proof -
  note ins = assms(2) [unfolded insert_born_unlinked_def]
  show "links_ok d'" by (rule insert_link_links_ok [OF assms(1) ins]) simp_all
  show "same_but_links d d'" "r = next_uuid d" by (rule insert_link_ok [OF ins])+
  show "\<forall>l \<in> set (platform_audit_subject_links d'). l \<in> set (platform_audit_subject_links d) \<or>
       sl_user_id l = None"
    by (simp add: insert_link_ok(4) [OF ins])
qed

lemma subject_ref_result:
  assumes "links_ok d" "user_exists_for_audit d u"
  obtains d' r where "platform_audit_subject_ref d now u = Inr (d', r)" "links_ok d'"
    "same_but_links d d'"
    "u \<notin> set (platform_audit_subject_erasures d) \<Longrightarrow> names_subject d' now u r"
    "\<And>l. l \<in> set (platform_audit_subject_links d') \<Longrightarrow> l \<in> set (platform_audit_subject_links d) \<or>
       sl_user_id l = None \<or> sl_user_id l = Some u \<and> u \<notin> set (platform_audit_subject_erasures d)"
proof (cases "u \<in> set (platform_audit_subject_erasures d)")
  case True
  obtain d' r where ins: "insert_born_unlinked d now = (d', r)" by fastforce
  show ?thesis
    by (rule that [of d' r]) (use True ins born_unlinked_result [OF assms(1) ins] in
      \<open>auto simp: platform_audit_subject_ref_def\<close>)
next
  case False
  obtain d' r where "subject_ref_attempts MAX_RACE_ATTEMPTS d now u = Inr (d', r)" "links_ok d'"
    "same_but_links d d'" "names_subject d' now u r"
    "\<forall>l \<in> set (platform_audit_subject_links d'). l \<in> set (platform_audit_subject_links d) \<or>
       sl_user_id l = Some u"
    using subject_ref_attempts_result [OF assms, of 1 now]
    by (auto simp: MAX_RACE_ATTEMPTS_def numeral_2_eq_2)
  with False show ?thesis
    by (intro that [of d' r]) (auto simp: platform_audit_subject_ref_def)
qed

lemma named_link_is_found:
  assumes "links_ok d" "names_subject d now u r"
  shows "\<exists>l. find (live_link u (utc_transaction_date now)) (platform_audit_subject_links d) = Some l \<and>
    sl_subject_ref l = r"
proof -
  let ?p = "live_link u (utc_transaction_date now)"
  obtain l where l: "l \<in> set (platform_audit_subject_links d)" "sl_subject_ref l = r" "?p l"
    using assms(2) by (auto simp: names_subject_def)
  obtain l' where l': "find ?p (platform_audit_subject_links d) = Some l'"
    using l(1,3) by (cases "find ?p (platform_audit_subject_links d)") (auto simp: find_None_iff_all)
  have "distinct (map (\<lambda>l. (sl_user_id l, sl_subject_day l))
      (filter (\<lambda>l. sl_user_id l \<noteq> None) (platform_audit_subject_links d)))"
    using assms(1) by (simp add: links_ok_def Let_def)
  with l find_SomeD [OF l'] have "l' = l"
    by (auto simp: distinct_map inj_on_def live_link_def)
  with l l' show ?thesis by simp
qed

lemma user_audit_target_result:
  assumes "links_ok d"
  obtains d' ty target where "user_audit_target d now u = Inr (d', ty, target)" "links_ok d'"
    "same_but_links d d'"
    "\<And>l. l \<in> set (platform_audit_subject_links d') \<Longrightarrow> l \<in> set (platform_audit_subject_links d) \<or>
       sl_user_id l = None \<or> sl_user_id l = Some u \<and> u \<notin> set (platform_audit_subject_erasures d)"
proof (cases "user_exists_for_audit d u")
  case True
  obtain d' r where "platform_audit_subject_ref d now u = Inr (d', r)" "links_ok d'"
    "same_but_links d d'"
    "\<And>l. l \<in> set (platform_audit_subject_links d') \<Longrightarrow> l \<in> set (platform_audit_subject_links d) \<or>
       sl_user_id l = None \<or> sl_user_id l = Some u \<and> u \<notin> set (platform_audit_subject_erasures d)"
    using subject_ref_result [OF assms True, of now] by metis
  with True show ?thesis by (intro that [of d' "''user_subject''" "Some r"]) (auto simp: user_audit_target_def)
next
  case False
  then show ?thesis using assms by (intro that [of d "''user''" None]) (auto simp: user_audit_target_def)
qed

lemma erase_frame:
  "users (fst (erase_platform_audit_subject d now u)) = users d"
  "next_uuid (fst (erase_platform_audit_subject d now u)) = next_uuid d"
  by (simp_all add: erase_platform_audit_subject_def Let_def)

lemma erase_links:
  assumes "user_exists_for_audit d u"
  shows "platform_audit_subject_links (fst (erase_platform_audit_subject d now u)) =
      update_where (\<lambda>l. sl_user_id l = Some u \<and> \<not> covered_by_hold l (active_holds d)) (unlink now)
        (platform_audit_subject_links d)"
    and "u \<in> set (platform_audit_subject_erasures (fst (erase_platform_audit_subject d now u)))"
  using assms by (simp_all add: erase_platform_audit_subject_def Let_def active_holds_def)

lemma unlink_simps [simp]:
  "sl_subject_ref (unlink now l) = sl_subject_ref l" "sl_user_id (unlink now l) = None"
  "sl_unlinked_at (unlink now l) = Some now" "sl_subject_day (unlink now l) = sl_subject_day l"
  by (simp_all add: unlink_def)

lemma links_ok_unlink:
  assumes "links_ok d" "platform_audit_subject_links d' =
      update_where p (unlink now) (platform_audit_subject_links d)" "next_uuid d' = next_uuid d"
  shows "links_ok d'"
proof -
  let ?f = "\<lambda>l. if p l then unlink now l else l" and ?links = "platform_audit_subject_links d"
  have refs: "map sl_subject_ref (map ?f ?links) = map sl_subject_ref ?links" by simp
  have live: "filter (\<lambda>l. sl_user_id l \<noteq> None) (map ?f xs) =
      filter (\<lambda>l. \<not> p l) (filter (\<lambda>l. sl_user_id l \<noteq> None) xs)" for xs
    by (induction xs) auto
  show ?thesis using assms(1)
    unfolding links_ok_def Let_def assms(2,3) update_where_def refs live
    by (auto simp del: filter_filter intro!: distinct_map_filter)
qed

lemma erase_links_ok:
  assumes "links_ok d"
  shows "links_ok (fst (erase_platform_audit_subject d now u))"
proof (cases "user_exists_for_audit d u")
  case True
  then show ?thesis by (rule links_ok_unlink [OF assms erase_links(1) erase_frame(2)])
next
  case False
  with assms show ?thesis by (simp add: erase_platform_audit_subject_def)
qed

subsection \<open>Properties\<close>

text \<open>A sequence of later audit writes that target users.\<close>

fun write_targets :: "db \<Rightarrow> (datetime \<times> uuid) list \<Rightarrow> error + db" where
  "write_targets d [] = Inr d"
| "write_targets d ((now, u) # rest) =
     ebind (user_audit_target d now u) (\<lambda>(d', _, _). write_targets d' rest)"

lemma write_targets_result:
  assumes "links_ok d" "u \<in> set (platform_audit_subject_erasures d)"
  shows "\<exists>d'. write_targets d ts = Inr d' \<and> links_ok d' \<and>
    (\<forall>l \<in> set (platform_audit_subject_links d'). sl_user_id l = Some u \<longrightarrow>
       l \<in> set (platform_audit_subject_links d))"
  using assms
proof (induction ts arbitrary: d)
  case (Cons t ts)
  obtain now v where t: "t = (now, v)" by (cases t)
  obtain d1 ty target where step: "user_audit_target d now v = Inr (d1, ty, target)" "links_ok d1"
    "same_but_links d d1"
    "\<And>l. l \<in> set (platform_audit_subject_links d1) \<Longrightarrow> l \<in> set (platform_audit_subject_links d) \<or>
       sl_user_id l = None \<or> sl_user_id l = Some v \<and> v \<notin> set (platform_audit_subject_erasures d)"
    using user_audit_target_result [OF Cons.prems(1), of now v] by metis
  have "u \<in> set (platform_audit_subject_erasures d1)"
    using Cons.prems(2) same_but_linksD(7) [OF step(3)] by simp
  then obtain d' where "write_targets d1 ts = Inr d'" "links_ok d'"
    "\<forall>l \<in> set (platform_audit_subject_links d'). sl_user_id l = Some u \<longrightarrow>
       l \<in> set (platform_audit_subject_links d1)"
    using Cons.IH [OF step(2)] by blast
  with step(1,4) Cons.prems(2) show ?case by (fastforce simp: t)
qed simp

text \<open>On a well-formed link table the reference of an existing, not erased user is always
  got or created, and asking again on the same UTC day returns the same reference and writes
  nothing: the loop over lost races ends with a value, never with an error.\<close>

theorem subject_reference_total_and_stable:
  assumes "links_ok d" "user_exists_for_audit d u" "u \<notin> set (platform_audit_subject_erasures d)"
    and "utc_transaction_date later = utc_transaction_date now"
  shows "\<exists>d1 r. platform_audit_subject_ref d now u = Inr (d1, r) \<and>
    links_ok d1 \<and> platform_audit_subject_ref d1 later u = Inr (d1, r)"
proof -
  obtain d1 r where step: "platform_audit_subject_ref d now u = Inr (d1, r)" "links_ok d1"
    "same_but_links d d1" "names_subject d1 now u r"
    using subject_ref_result [OF assms(1,2), of now] assms(3) by metis
  obtain l where l: "find (live_link u (utc_transaction_date now))
      (platform_audit_subject_links d1) = Some l" "sl_subject_ref l = r"
    using named_link_is_found [OF step(2,4)] by blast
  have "insert_live d1 later u = Inr (d1, None)"
    using find_SomeD [OF l(1)] by (auto simp: insert_live_def assms(4) list_ex_iff)
  moreover have "live_ref d1 later u = Inr (Some r)"
    using live_ref_total [OF step(2), of later u] l by (simp add: assms(4))
  ultimately have "platform_audit_subject_ref d1 later u = Inr (d1, r)"
    using assms(3) same_but_linksD(7) [OF step(3)]
    by (simp add: platform_audit_subject_ref_def MAX_RACE_ATTEMPTS_def numeral_2_eq_2)
  with step show ?thesis by blast
qed

text \<open>C9: Erasing a user leaves no reference linked to them except those an active legal hold
  covers, and no sequence of later audit writes, about that user or any other, ever links one
  again.\<close>

theorem erased_user_stays_unlinked:
  assumes "links_ok d" "user_exists_for_audit d u"
  shows "\<exists>d'. write_targets (fst (erase_platform_audit_subject d now u)) ts = Inr d' \<and> links_ok d' \<and>
    (\<forall>l \<in> set (platform_audit_subject_links d'). sl_user_id l = Some u \<longrightarrow>
       covered_by_hold l (active_holds d))"
proof -
  let ?e = "fst (erase_platform_audit_subject d now u)"
  obtain d' where d': "write_targets ?e ts = Inr d'" "links_ok d'"
    "\<forall>l \<in> set (platform_audit_subject_links d'). sl_user_id l = Some u \<longrightarrow>
       l \<in> set (platform_audit_subject_links ?e)"
    using write_targets_result [OF erase_links_ok [OF assms(1)] erase_links(2) [OF assms(2)]] by blast
  have "\<forall>l \<in> set (platform_audit_subject_links ?e). sl_user_id l = Some u \<longrightarrow>
      covered_by_hold l (active_holds d)"
    by (auto simp: erase_links(1) [OF assms(2)] set_update_where split: if_splits)
  with d' show ?thesis by blast
qed

text \<open>A deployment where user 10 has two references, one of them under a legal hold.\<close>

definition referenced_db :: db where
  "referenced_db = sample_db\<lparr>platform_audit_subject_links :=
     [\<lparr>sl_subject_ref = 100, sl_user_id = Some 10, sl_subject_day = 0, sl_unlinked_at = None,
       sl_unlink_reason = None\<rparr>,
      \<lparr>sl_subject_ref = 101, sl_user_id = Some 10, sl_subject_day = 1, sl_unlinked_at = None,
       sl_unlink_reason = None\<rparr>],
     platform_audit_identity_holds := [\<lparr>ih_id = 110, ih_from_day = Some 1, ih_to_day = None,
       ih_subject_ref = None, ih_released_at = None\<rparr>]\<rparr>"

theorem erased_user_stays_unlinked_witness:
  "\<exists>d'. write_targets (fst (erase_platform_audit_subject referenced_db 5 10)) [(6, 10), (7, 11)] = Inr d' \<and>
    links_ok d' \<and> (\<forall>l \<in> set (platform_audit_subject_links d'). sl_user_id l = Some 10 \<longrightarrow>
       covered_by_hold l (active_holds referenced_db))"
  by (rule erased_user_stays_unlinked; code_simp)

end
