(* ===== verification/Platform_Operations.thy ===== *)
theory Platform_Operations
  imports Audit_Log Audit_Subjects
begin

section \<open>Platform operations: permissions, authorization and evidence\<close>

text \<open>
  \<open>saas_os/core/platform_authority\<close>: the closed vocabulary of platform permissions
  (\<open>permissions.py\<close>), the declared operation table with all of its rows
  (\<open>operations.py\<close>), the authorization chokepoint that reads only platform storage
  (\<open>authorization.py\<close>), the owner predicate (\<open>owners.py\<close>) and the platform audit log with
  its two kinds of writers (\<open>audit.py\<close>): the record in the change's own transaction and the
  best-effort record of a refusal after the rollback.

  A constructor \<open>P_X\<close> is the member \<open>X\<close> of \<open>PlatformPermission\<close>. A query that expects at most
  one row fails with \<open>MultipleResultsFound\<close>; the table invariant of the next theory shows
  that it never does. The checks of Python types hold by typing, and the rebuilt metadata
  of a row is not modelled. Statement timeouts do not occur.
\<close>

datatype (plugins only: code size) platform_permission =
    P_TENANT_READ | P_USER_READ | P_OPERATOR_READ | P_AUDIT_READ | P_BILLING_READ |
    P_FEATURE_FLAG_READ | P_AI_CONFIG_READ | P_AI_USAGE_READ | P_TENANT_CREATE |
    P_TENANT_SUSPEND | P_TENANT_REACTIVATE | P_TENANT_MOVE | P_TENANT_DELETE |
    P_USER_DEACTIVATE | P_USER_REACTIVATE | P_SESSION_REVOKE | P_API_KEY_REVOKE |
    P_FEATURE_FLAG_DEFINE | P_FEATURE_FLAG_OVERRIDE | P_AI_PROVIDER_MANAGE |
    P_AI_ENDPOINT_TRUST_MANAGE | P_AI_POLICY_MANAGE | P_OUTBOX_REPLAY |
    P_WEBHOOK_SECRET_REENCRYPT | P_PERMISSION_GRANT_APPLY | P_SECURITY_RETENTION_REPORT |
    P_SECURITY_RETENTION_HOLD_MANAGE | P_AUTHORITY_MANAGE

fun permission_value :: "platform_permission \<Rightarrow> string" where
  "permission_value P_TENANT_READ = ''platform.tenant:read''"
| "permission_value P_USER_READ = ''platform.user:read''"
| "permission_value P_OPERATOR_READ = ''platform.operator:read''"
| "permission_value P_AUDIT_READ = ''platform.audit:read''"
| "permission_value P_BILLING_READ = ''platform.billing:read''"
| "permission_value P_FEATURE_FLAG_READ = ''platform.feature_flag:read''"
| "permission_value P_AI_CONFIG_READ = ''platform.ai_config:read''"
| "permission_value P_AI_USAGE_READ = ''platform.ai_usage:read''"
| "permission_value P_TENANT_CREATE = ''platform.tenant:create''"
| "permission_value P_TENANT_SUSPEND = ''platform.tenant:suspend''"
| "permission_value P_TENANT_REACTIVATE = ''platform.tenant:reactivate''"
| "permission_value P_TENANT_MOVE = ''platform.tenant:move''"
| "permission_value P_TENANT_DELETE = ''platform.tenant:delete''"
| "permission_value P_USER_DEACTIVATE = ''platform.user:deactivate''"
| "permission_value P_USER_REACTIVATE = ''platform.user:reactivate''"
| "permission_value P_SESSION_REVOKE = ''platform.session:revoke''"
| "permission_value P_API_KEY_REVOKE = ''platform.api_key:revoke''"
| "permission_value P_FEATURE_FLAG_DEFINE = ''platform.feature_flag:define''"
| "permission_value P_FEATURE_FLAG_OVERRIDE = ''platform.feature_flag:override''"
| "permission_value P_AI_PROVIDER_MANAGE = ''platform.ai_provider:manage''"
| "permission_value P_AI_ENDPOINT_TRUST_MANAGE = ''platform.ai_endpoint_trust:manage''"
| "permission_value P_AI_POLICY_MANAGE = ''platform.ai_policy:manage''"
| "permission_value P_OUTBOX_REPLAY = ''platform.outbox:replay''"
| "permission_value P_WEBHOOK_SECRET_REENCRYPT = ''platform.webhook_secret:reencrypt''"
| "permission_value P_PERMISSION_GRANT_APPLY = ''platform.permission_grant:apply''"
| "permission_value P_SECURITY_RETENTION_REPORT = ''platform.security_retention:report''"
| "permission_value P_SECURITY_RETENTION_HOLD_MANAGE = ''platform.security_retention_hold:manage''"
| "permission_value P_AUTHORITY_MANAGE = ''platform.authority:manage''"

definition PLATFORM_PERMISSIONS :: "platform_permission list" where
  "PLATFORM_PERMISSIONS = [
     P_TENANT_READ, P_USER_READ, P_OPERATOR_READ, P_AUDIT_READ, P_BILLING_READ,
     P_FEATURE_FLAG_READ, P_AI_CONFIG_READ, P_AI_USAGE_READ, P_TENANT_CREATE, P_TENANT_SUSPEND,
     P_TENANT_REACTIVATE, P_TENANT_MOVE, P_TENANT_DELETE, P_USER_DEACTIVATE, P_USER_REACTIVATE,
     P_SESSION_REVOKE, P_API_KEY_REVOKE, P_FEATURE_FLAG_DEFINE, P_FEATURE_FLAG_OVERRIDE,
     P_AI_PROVIDER_MANAGE, P_AI_ENDPOINT_TRUST_MANAGE, P_AI_POLICY_MANAGE, P_OUTBOX_REPLAY,
     P_WEBHOOK_SECRET_REENCRYPT, P_PERMISSION_GRANT_APPLY, P_SECURITY_RETENTION_REPORT,
     P_SECURITY_RETENTION_HOLD_MANAGE, P_AUTHORITY_MANAGE]"

abbreviation OWNER_PERMISSION :: platform_permission where
  "OWNER_PERMISSION \<equiv> P_AUTHORITY_MANAGE"

subsection \<open>The operation table\<close>

record platform_operation =
  po_key :: string
  po_permission :: "platform_permission option"
  po_system_authorities :: "system_authority list"
  po_audit_action :: string

definition operation_row ::
  "string \<Rightarrow> platform_permission option \<Rightarrow> system_authority list \<Rightarrow> string \<Rightarrow> platform_operation" where
  "operation_row key permission authorities action = \<lparr>po_key = key, po_permission = permission,
     po_system_authorities = authorities, po_audit_action = action\<rparr>"

definition PLATFORM_OPERATIONS :: "platform_operation list" where
  "PLATFORM_OPERATIONS = [
     operation_row ''tenant.read'' (Some P_TENANT_READ) [] ''platform.tenant.read'',
     operation_row ''user.read'' (Some P_USER_READ) [] ''platform.user.read'',
     operation_row ''operator.read'' (Some P_OPERATOR_READ) [] ''platform.operator.read'',
     operation_row ''audit.read'' (Some P_AUDIT_READ) [] ''platform.audit.read'',
     operation_row ''billing.read'' (Some P_BILLING_READ) [] ''platform.billing.read'',
     operation_row ''feature_flag.read'' (Some P_FEATURE_FLAG_READ) [] ''platform.feature_flag.read'',
     operation_row ''tenant.create_root'' (Some P_TENANT_CREATE) [PROVISIONING] ''platform.tenant.create'',
     operation_row ''tenant.create_child'' (Some P_TENANT_CREATE) [PROVISIONING] ''platform.tenant.create'',
     operation_row ''tenant.activate'' (Some P_TENANT_CREATE) [PROVISIONING] ''platform.tenant.activate'',
     operation_row ''tenant.suspend'' (Some P_TENANT_SUSPEND) [] ''platform.tenant.suspend'',
     operation_row ''tenant.reactivate'' (Some P_TENANT_REACTIVATE) [] ''platform.tenant.reactivate'',
     operation_row ''tenant.move'' (Some P_TENANT_MOVE) [] ''platform.tenant.move'',
     operation_row ''tenant.delete'' (Some P_TENANT_DELETE) [] ''platform.tenant.delete'',
     operation_row ''tenant.purge_transition'' None [TENANT_PURGE] ''platform.tenant.purge_transition'',
     operation_row ''user.deactivate'' (Some P_USER_DEACTIVATE) [] ''platform.user.deactivate'',
     operation_row ''user.reactivate'' (Some P_USER_REACTIVATE) [] ''platform.user.reactivate'',
     operation_row ''session.revoke'' (Some P_SESSION_REVOKE) [] ''platform.session.revoke'',
     operation_row ''api_key.revoke'' (Some P_API_KEY_REVOKE) [] ''platform.api_key.revoke'',
     operation_row ''feature_flag.define'' (Some P_FEATURE_FLAG_DEFINE) [PROVISIONING] ''platform.feature_flag.define'',
     operation_row ''feature_flag.override'' (Some P_FEATURE_FLAG_OVERRIDE) [] ''platform.feature_flag.override'',
     operation_row ''ai_config.read'' (Some P_AI_CONFIG_READ) [] ''platform.ai_config.read'',
     operation_row ''ai_usage.read'' (Some P_AI_USAGE_READ) [] ''platform.ai_usage.read'',
     operation_row ''outbox.replay'' (Some P_OUTBOX_REPLAY) [] ''platform.outbox.replay'',
     operation_row ''webhook_secret.reencrypt'' (Some P_WEBHOOK_SECRET_REENCRYPT) [] ''platform.webhook_secret.reencrypt'',
     operation_row ''permission_grant.apply'' (Some P_PERMISSION_GRANT_APPLY) [] ''platform.permission_grant.apply'',
     operation_row ''permission_grant_ledger.retention_report'' (Some P_SECURITY_RETENTION_REPORT) [] ''platform.permission_grant_ledger.retention_report'',
     operation_row ''permission_grant_ledger.hold_place'' (Some P_SECURITY_RETENTION_HOLD_MANAGE) [] ''platform.permission_grant_ledger.hold_place'',
     operation_row ''permission_grant_ledger.hold_release'' (Some P_SECURITY_RETENTION_HOLD_MANAGE) [] ''platform.permission_grant_ledger.hold_release'',
     operation_row ''permission_grant_ledger.expired_delete'' (Some P_SECURITY_RETENTION_REPORT) [] ''platform.permission_grant_ledger.expired_delete'',
     operation_row ''permission_grant_ledger.hold_read'' (Some P_SECURITY_RETENTION_HOLD_MANAGE) [] ''platform.permission_grant_ledger.hold_read'',
     operation_row ''permission_grant_ledger.deletion_read'' (Some P_SECURITY_RETENTION_REPORT) [] ''platform.permission_grant_ledger.deletion_read'',
     operation_row ''permission_grant_ledger.deletion_request'' (Some P_SECURITY_RETENTION_REPORT) [] ''platform.permission_grant_ledger.deletion_request'',
     operation_row ''permission_grant_ledger.deletion_approve'' (Some P_SECURITY_RETENTION_REPORT) [] ''platform.permission_grant_ledger.deletion_approve'',
     operation_row ''permission_grant_ledger.deletion_execution_authorize'' (Some P_SECURITY_RETENTION_REPORT) [] ''platform.permission_grant_ledger.deletion_execution_authorize'',
     operation_row ''permission_grant_ledger.approver_register_read'' (Some P_AUDIT_READ) [] ''platform.permission_grant_ledger.approver_register_read'',
     operation_row ''permission_grant_ledger.approver_eligibility_read'' (Some P_AUDIT_READ) [] ''platform.permission_grant_ledger.approver_eligibility_read'',
     operation_row ''permission_grant_ledger.representative_propose'' (Some P_AUTHORITY_MANAGE) [] ''platform.permission_grant_ledger.representative_propose'',
     operation_row ''permission_grant_ledger.representative_confirm'' (Some P_SECURITY_RETENTION_HOLD_MANAGE) [] ''platform.permission_grant_ledger.representative_confirm'',
     operation_row ''permission_grant_ledger.representative_revoke_by_owner'' (Some P_AUTHORITY_MANAGE) [] ''platform.permission_grant_ledger.representative_revoke_by_owner'',
     operation_row ''permission_grant_ledger.representative_revoke_by_security'' (Some P_SECURITY_RETENTION_HOLD_MANAGE) [] ''platform.permission_grant_ledger.representative_revoke_by_security'',
     operation_row ''permission_grant_ledger.approver_enrol'' (Some P_SECURITY_RETENTION_REPORT) [] ''platform.permission_grant_ledger.approver_enrol'',
     operation_row ''permission_grant_ledger.approver_revoke_by_representative'' (Some P_SECURITY_RETENTION_REPORT) [] ''platform.permission_grant_ledger.approver_revoke_by_representative'',
     operation_row ''permission_grant_ledger.approver_revoke_by_security'' (Some P_SECURITY_RETENTION_HOLD_MANAGE) [] ''platform.permission_grant_ledger.approver_revoke_by_security'',
     operation_row ''ai_provider.configure'' (Some P_AI_PROVIDER_MANAGE) [] ''platform.ai_provider.configure'',
     operation_row ''ai_endpoint_trust.configure'' (Some P_AI_ENDPOINT_TRUST_MANAGE) [] ''platform.ai_endpoint_trust.configure'',
     operation_row ''ai_policy.configure'' (Some P_AI_POLICY_MANAGE) [] ''platform.ai_policy.configure'',
     operation_row ''operator.enroll'' (Some P_AUTHORITY_MANAGE) [PLATFORM_BOOTSTRAP] ''platform.operator.enroll'',
     operation_row ''operator.suspend'' (Some P_AUTHORITY_MANAGE) [PLATFORM_BOOTSTRAP] ''platform.operator.suspend'',
     operation_row ''operator.reactivate'' (Some P_AUTHORITY_MANAGE) [] ''platform.operator.reactivate'',
     operation_row ''operator.revoke'' (Some P_AUTHORITY_MANAGE) [] ''platform.operator.revoke'',
     operation_row ''grant.create'' (Some P_AUTHORITY_MANAGE) [PLATFORM_BOOTSTRAP] ''platform.grant.create'',
     operation_row ''grant.revoke'' (Some P_AUTHORITY_MANAGE) [] ''platform.grant.revoke'']"

abbreviation TENANT_CREATE_ROOT :: string where "TENANT_CREATE_ROOT \<equiv> ''tenant.create_root''"

abbreviation TENANT_CREATE_CHILD :: string where "TENANT_CREATE_CHILD \<equiv> ''tenant.create_child''"

abbreviation TENANT_ACTIVATE :: string where "TENANT_ACTIVATE \<equiv> ''tenant.activate''"

abbreviation TENANT_SUSPEND :: string where "TENANT_SUSPEND \<equiv> ''tenant.suspend''"

abbreviation TENANT_REACTIVATE :: string where "TENANT_REACTIVATE \<equiv> ''tenant.reactivate''"

abbreviation TENANT_MOVE :: string where "TENANT_MOVE \<equiv> ''tenant.move''"

abbreviation TENANT_DELETE :: string where "TENANT_DELETE \<equiv> ''tenant.delete''"

abbreviation TENANT_PURGE_TRANSITION :: string where "TENANT_PURGE_TRANSITION \<equiv> ''tenant.purge_transition''"

abbreviation USER_DEACTIVATE :: string where "USER_DEACTIVATE \<equiv> ''user.deactivate''"

abbreviation USER_REACTIVATE :: string where "USER_REACTIVATE \<equiv> ''user.reactivate''"

abbreviation OPERATOR_ENROLL :: string where "OPERATOR_ENROLL \<equiv> ''operator.enroll''"

abbreviation OPERATOR_SUSPEND :: string where "OPERATOR_SUSPEND \<equiv> ''operator.suspend''"

abbreviation OPERATOR_REACTIVATE :: string where "OPERATOR_REACTIVATE \<equiv> ''operator.reactivate''"

abbreviation OPERATOR_REVOKE :: string where "OPERATOR_REVOKE \<equiv> ''operator.revoke''"

abbreviation GRANT_CREATE :: string where "GRANT_CREATE \<equiv> ''grant.create''"

abbreviation GRANT_REVOKE :: string where "GRANT_REVOKE \<equiv> ''grant.revoke''"

definition platform_operation :: "string \<Rightarrow> error + platform_operation" where
  "platform_operation operation = (case find (\<lambda>row. po_key row = operation) PLATFORM_OPERATIONS of
     None \<Rightarrow> Inl (UnknownPlatformOperationError operation)
   | Some spec \<Rightarrow> Inr spec)"

text \<open>The fixed code of a refusal; \<open>None\<close> for an error that is not a \<open>PlatformRefusalError\<close>.\<close>

fun parent_rule_code :: "parent_rule \<Rightarrow> string" where
  "parent_rule_code PARENT_ACTIVE_REQUIRES_OPERATOR = ''parent_active_requires_operator''"
| "parent_rule_code PARENT_SUSPENDED = ''parent_suspended''"
| "parent_rule_code PARENT_CLOSED = ''parent_closed''"

fun refusal_code :: "error \<Rightarrow> string option" where
  "refusal_code (PlatformNotAuthorizedError _) = Some ''not_authorized''"
| "refusal_code (SelfAuthorityChangeError _) = Some ''self_authority_change''"
| "refusal_code (PlatformAmplificationError _ _) = Some ''amplification''"
| "refusal_code (LastPlatformOwnerError _) = Some ''last_platform_owner''"
| "refusal_code (EnrolledOperatorErasureError _) = Some ''enrolled_operator''"
| "refusal_code (PlatformSubjectNotLinkedError _ _) = Some ''subject_not_linked''"
| "refusal_code (PlatformSelfTargetError _) = Some ''self_target''"
| "refusal_code (TenantParentRuleError _ _ _ rule) = Some (parent_rule_code rule)"
| "refusal_code (MoveIntoCallerHierarchyError _ _) = Some ''caller_in_new_parent_chain''"
| "refusal_code (DeactivationScanLimitError _ _) = Some ''registry_scan_limit''"
| "refusal_code _ = None"

subsection \<open>Authorization\<close>

definition live_operators :: "db \<Rightarrow> uuid \<Rightarrow> platform_operator list" where
  "live_operators d user_id = filter (\<lambda>x. op_user_id x = user_id \<and> op_status x \<noteq> OPERATOR_REVOKED)
     (platform_operators d)"

definition live_grant :: "uuid \<Rightarrow> string \<Rightarrow> platform_grant \<Rightarrow> bool" where
  "live_grant operator_id permission g = (pg_operator_id g = operator_id \<and>
     pg_permission g = permission \<and> pg_revoked_at g = None)"

definition platform_decide :: "db \<Rightarrow> uuid \<Rightarrow> platform_permission \<Rightarrow> error + bool" where
  "platform_decide d user_id permission =
     (if lock_user_is_active d user_id \<noteq> Some True then Inr False
      else ebind (one_or_none (live_operators d user_id)) (\<lambda>row. case row of
          None \<Rightarrow> Inr False
        | Some x \<Rightarrow> if op_status x \<noteq> OPERATOR_ACTIVE then Inr False
            else Inr (list_ex (live_grant (op_id x) (permission_value permission))
              (platform_grants d))))"

definition platform_can :: "db \<Rightarrow> uuid \<Rightarrow> platform_permission \<Rightarrow> error + bool" where
  "platform_can d user_id permission = platform_decide d user_id permission"

definition is_active_platform_operator :: "db \<Rightarrow> uuid \<Rightarrow> error + bool" where
  "is_active_platform_operator d user_id =
     (if lock_user_is_active d user_id \<noteq> Some True then Inr False
      else ebind (one_or_none (live_operators d user_id)) (\<lambda>row.
        Inr (map_option op_status row = Some OPERATOR_ACTIVE)))"

definition authorize_platform_caller :: "db \<Rightarrow> caller \<Rightarrow> string \<Rightarrow> error + platform_operation" where
  "authorize_platform_caller d c operation =
     ebind (platform_operation operation) (\<lambda>spec.
     ebind (require_caller operation c ALL_CALLER_TYPES) (\<lambda>_.
     (case c of
        SystemCaller authority \<Rightarrow>
          ebind (require (authority \<in> set (po_system_authorities spec))
            (PlatformNotAuthorizedError operation)) (\<lambda>_. Inr spec)
      | ServiceAccountCaller _ _ \<Rightarrow> Inl (PlatformNotAuthorizedError operation)
      | UserCaller user_id \<Rightarrow> (case po_permission spec of
          None \<Rightarrow> Inl (PlatformNotAuthorizedError operation)
        | Some permission \<Rightarrow>
            ebind (platform_can d user_id permission) (\<lambda>allowed.
            ebind (require allowed (PlatformNotAuthorizedError operation)) (\<lambda>_. Inr spec)))
      | NotACaller \<Rightarrow> Inl (CallerTypeError operation))))"

fun any_ok :: "(error + bool) list \<Rightarrow> error + bool" where
  "any_ok [] = Inr False"
| "any_ok (x # xs) = ebind x (\<lambda>b. if b then Inr True else any_ok xs)"

fun collect_ok :: "(error + 'a) list \<Rightarrow> error + 'a list" where
  "collect_ok [] = Inr []"
| "collect_ok (x # xs) = ebind x (\<lambda>a. ebind (collect_ok xs) (\<lambda>rest. Inr (a # rest)))"

definition platform_caller_could_hold_any :: "db \<Rightarrow> caller \<Rightarrow> string list \<Rightarrow> error + bool" where
  "platform_caller_could_hold_any d c operations =
     ebind (collect_ok (map platform_operation operations)) (\<lambda>specs. case c of
       SystemCaller authority \<Rightarrow>
         Inr (list_ex (\<lambda>spec. authority \<in> set (po_system_authorities spec)) specs)
     | UserCaller user_id \<Rightarrow> any_ok (map (platform_can d user_id)
         (remdups (List.map_filter po_permission specs)))
     | _ \<Rightarrow> Inr False)"

definition platform_owner_exists :: "db \<Rightarrow> bool" where
  "platform_owner_exists d = list_ex (\<lambda>x. op_status x = OPERATOR_ACTIVE \<and>
     lock_user_is_active d (op_user_id x) = Some True \<and>
     list_ex (live_grant (op_id x) (permission_value OWNER_PERMISSION)) (platform_grants d))
     (platform_operators d)"

definition unrevoked_operator_exists :: "db \<Rightarrow> uuid \<Rightarrow> bool" where
  "unrevoked_operator_exists d user_id = (live_operators d user_id \<noteq> [])"

subsection \<open>The platform audit log\<close>

definition MAX_REASON_LENGTH :: nat where
  "MAX_REASON_LENGTH = 500"

definition strip :: "string \<Rightarrow> string" where
  "strip s = rev (dropWhile whitespace_character (rev (dropWhile whitespace_character s)))"

definition validate_reason :: "string \<Rightarrow> error + string" where
  "validate_reason reason = (let value = strip reason in
     if value = [] then Inl InvalidPlatformRequestError
     else if length value > MAX_REASON_LENGTH then Inl InvalidPlatformRequestError
     else if has_control_characters value then Inl InvalidPlatformRequestError
     else Inr value)"

text \<open>The pattern \<open>platform\.[a-z_]+(\.[a-z_]+)+\<close>, by the segments between the dots.\<close>

fun segments :: "string \<Rightarrow> string \<Rightarrow> string list" where
  "segments acc [] = [rev acc]"
| "segments acc (c # s) = (if c = CHR ''.'' then rev acc # segments [] s else segments (c # acc) s)"

definition segment_ok :: "string \<Rightarrow> bool" where
  "segment_ok s = (s \<noteq> [] \<and> list_all (\<lambda>c. c = CHR ''_'' \<or>
     (let n = of_char c :: nat in 97 \<le> n \<and> n \<le> 122)) s)"

definition action_matches :: "string \<Rightarrow> bool" where
  "action_matches action = (case segments [] action of
     [] \<Rightarrow> False
   | first # rest \<Rightarrow> first = ''platform'' \<and> length rest \<ge> 2 \<and> list_all segment_ok rest)"

fun platform_actor :: "caller \<Rightarrow> principal_type \<times> uuid option \<times> system_authority option" where
  "platform_actor (UserCaller u) = (USER, Some u, None)"
| "platform_actor (SystemCaller a) = (SYSTEM, None, Some a)"
| "platform_actor _ = (SYSTEM, None, None)"

definition platform_entry ::
  "caller \<Rightarrow> string \<Rightarrow> string \<Rightarrow> uuid option \<Rightarrow> uuid option \<Rightarrow> audit_outcome \<Rightarrow> string option
    \<Rightarrow> error + platform_audit_log_entry" where
  "platform_entry c action target_type target_id target_tenant_id outcome reason =
     (if \<not> action_matches action then Inl InvalidPlatformRequestError
      else if length action > 200 then Inl InvalidPlatformRequestError
      else if \<not> (0 < length target_type \<and> length target_type \<le> 100)
        then Inl InvalidPlatformRequestError
      else if target_type = ''user'' \<and> target_id \<noteq> None then Inl InvalidPlatformRequestError
      else if (case reason of None \<Rightarrow> False | Some r \<Rightarrow> length r > MAX_REASON_LENGTH)
        then Inl InvalidPlatformRequestError
      else (let (actor_type, actor_user_id, system_authority) = platform_actor c in
        Inr \<lparr>pl_actor_type = actor_type, pl_actor_user_id = actor_user_id,
          pl_system_authority = system_authority, pl_action = action, pl_target_type = target_type,
          pl_target_id = target_id, pl_target_tenant_id = target_tenant_id, pl_outcome = outcome,
          pl_reason = reason\<rparr>))"

text \<open>The insert, under the two foreign keys and the actor pairing check of the table.\<close>

definition insert_platform_entry :: "db \<Rightarrow> platform_audit_log_entry \<Rightarrow> error + db" where
  "insert_platform_entry d e =
     (if (case pl_actor_user_id e of None \<Rightarrow> True | Some u \<Rightarrow> lock_user_is_active d u \<noteq> None) \<and>
         (case pl_target_tenant_id e of None \<Rightarrow> True | Some t \<Rightarrow> find_tenant d t \<noteq> None) \<and>
         (pl_actor_type e = USER \<and> pl_actor_user_id e \<noteq> None \<and> pl_system_authority e = None \<or>
          pl_actor_type e = SYSTEM \<and> pl_actor_user_id e = None \<and> pl_system_authority e \<noteq> None)
      then Inr (d\<lparr>platform_audit_log := platform_audit_log d @ [e]\<rparr>)
      else Inl IntegrityError)"

definition user_target_arguments :: "string \<Rightarrow> uuid option \<Rightarrow> uuid option \<Rightarrow> error + unit" where
  "user_target_arguments target_type target_id target_user_id =
     require (target_user_id = None \<or> target_type = ''user'' \<and> target_id = None)
       InvalidPlatformRequestError"

definition record_platform_event_in_transaction ::
  "db \<Rightarrow> datetime \<Rightarrow> caller \<Rightarrow> string \<Rightarrow> string \<Rightarrow> uuid option \<Rightarrow> uuid option \<Rightarrow> uuid option
    \<Rightarrow> audit_outcome \<Rightarrow> string option \<Rightarrow> error + db" where
  "record_platform_event_in_transaction d now c action target_type target_id target_user_id
      target_tenant_id outcome reason =
     ebind (require_caller ''record_platform_event_in_transaction'' c
       [UserCallerType, SystemCallerType]) (\<lambda>_.
     ebind (user_target_arguments target_type target_id target_user_id) (\<lambda>_.
     ebind (case target_user_id of
         None \<Rightarrow> Inr (d, target_type, target_id)
       | Some user_id \<Rightarrow> user_audit_target d now user_id) (\<lambda>(d1, row_type, row_id).
     ebind (platform_entry c action row_type row_id target_tenant_id outcome reason) (\<lambda>entry.
     insert_platform_entry d1 entry))))"

text \<open>
  The target of a refusal row: the reference mechanism runs in a savepoint, and if it
  fails the row is written with no target.
\<close>

definition refusal_target ::
  "db \<Rightarrow> datetime \<Rightarrow> string \<Rightarrow> uuid option \<Rightarrow> uuid option \<Rightarrow> db \<times> string \<times> uuid option" where
  "refusal_target d now target_type target_id target_user_id = (case target_user_id of
     None \<Rightarrow> (d, target_type, target_id)
   | Some user_id \<Rightarrow> (case user_audit_target d now user_id of
       Inr resolved \<Rightarrow> resolved
     | Inl _ \<Rightarrow> (d, ''user'', None)))"

text \<open>A transaction of its own; whatever goes wrong, it is rolled back and the refusal stands.\<close>

definition record_platform_outcome ::
  "audit_outcome \<Rightarrow> db \<Rightarrow> datetime \<Rightarrow> caller \<Rightarrow> string \<Rightarrow> string \<Rightarrow> uuid option \<Rightarrow> uuid option
    \<Rightarrow> string \<Rightarrow> db" where
  "record_platform_outcome outcome d now c action target_type target_id target_user_id code =
     (case ebind (require_caller ''record_platform_refusal'' c [UserCallerType, SystemCallerType]) (\<lambda>_.
        ebind (user_target_arguments target_type target_id target_user_id) (\<lambda>_.
        let (d1, row_type, row_id) = refusal_target d now target_type target_id target_user_id in
        ebind (platform_entry c action row_type row_id None outcome (Some code)) (\<lambda>entry.
        insert_platform_entry d1 entry)))
      of Inl _ \<Rightarrow> d | Inr d' \<Rightarrow> d')"

definition record_platform_refusal ::
  "db \<Rightarrow> datetime \<Rightarrow> caller \<Rightarrow> string \<Rightarrow> string \<Rightarrow> uuid option \<Rightarrow> uuid option \<Rightarrow> string \<Rightarrow> db" where
  "record_platform_refusal = record_platform_outcome DENIED"

text \<open>An operation of a transaction that records its refusal after the rollback.\<close>

definition recording_platform_refusal ::
  "db \<Rightarrow> datetime \<Rightarrow> caller \<Rightarrow> string \<Rightarrow> string \<Rightarrow> uuid option \<Rightarrow> uuid option
    \<Rightarrow> error + (db \<times> 'a) \<Rightarrow> db \<times> (error + 'a)" where
  "recording_platform_refusal d now c operation target_type target_id target_user_id result =
     (case platform_operation operation of
        Inl e \<Rightarrow> (d, Inl e)
      | Inr spec \<Rightarrow> (case result of
          Inr (d', a) \<Rightarrow> (d', Inr a)
        | Inl e \<Rightarrow> (case refusal_code e of
            None \<Rightarrow> (d, Inl e)
          | Some code \<Rightarrow> (record_platform_refusal d now c (po_audit_action spec) target_type
              target_id target_user_id code, Inl e))))"

lemma refusal_code_length: "refusal_code e = Some code \<Longrightarrow> 0 < length code \<and> length code \<le> MAX_REASON_LENGTH"
proof (induction e rule: refusal_code.induct)
  case (8 operation parent status rule)
  then show ?case by (cases rule) (auto simp: MAX_REASON_LENGTH_def)
qed (auto simp: MAX_REASON_LENGTH_def)

end
