(* ===== verification/Platform_Authority.thy ===== *)
theory Platform_Authority
  imports Platform_Operations
begin

section \<open>Platform operators and grants\<close>

text \<open>
  \<open>saas_os/core/platform_authority/service.py\<close>: the six operations that change who holds
  platform authority, each one transaction in the fixed shape of
  \<open>authority_transaction\<close> (authorize, remember whether an owner exists, change and record,
  recheck the owner), with its refusal recorded after the rollback. An operation returns
  the committed store and its result; a failed one commits nothing but the refusal row.

  \<open>platform_ok\<close> is the invariant of the two tables, including the partial unique indexes of
  the migration. \<open>platform_holds\<close> says declaratively who holds which permission, and
  \<open>platform_can\<close> agrees with it on well-formed tables. The locale \<open>authority_change\<close> is what
  each of the operations promises; it is interpreted for all six.
\<close>

subsection \<open>The transaction shape\<close>

fun authorize_each :: "db \<Rightarrow> caller \<Rightarrow> string list \<Rightarrow> error + unit" where
  "authorize_each d c [] = Inr ()"
| "authorize_each d c (operation # operations) =
     ebind (authorize_platform_caller d c operation) (\<lambda>_. authorize_each d c operations)"

definition authority_transaction ::
  "db \<Rightarrow> string list \<Rightarrow> caller \<Rightarrow> (db \<Rightarrow> error + (db \<times> 'a)) \<Rightarrow> error + (db \<times> 'a)" where
  "authority_transaction d operations c body =
     ebind (authorize_each d c operations) (\<lambda>_.
     let had_owner = platform_owner_exists d in
     ebind (body d) (\<lambda>(d', result).
     if had_owner \<and> \<not> platform_owner_exists d' then Inl (LastPlatformOwnerError (last operations))
     else Inr (d', result)))"

definition run_authority ::
  "db \<Rightarrow> datetime \<Rightarrow> string \<Rightarrow> caller \<Rightarrow> string \<Rightarrow> uuid option \<Rightarrow> uuid option
    \<Rightarrow> (db \<Rightarrow> error + (db \<times> 'a)) \<Rightarrow> db \<times> (error + 'a)" where
  "run_authority d now operation c target_type target_id target_user_id body =
     recording_platform_refusal d now c operation target_type target_id target_user_id
       (authority_transaction d [operation] c body)"

definition acting_user_id :: "caller \<Rightarrow> uuid option" where
  "acting_user_id c = (case c of UserCaller u \<Rightarrow> Some u | _ \<Rightarrow> None)"

definition refuse_self :: "string \<Rightarrow> caller \<Rightarrow> uuid \<Rightarrow> error + unit" where
  "refuse_self operation c subject_user_id =
     require (acting_user_id c \<noteq> Some subject_user_id) (SelfAuthorityChangeError operation)"

definition require_active_subject :: "db \<Rightarrow> uuid \<Rightarrow> error + unit" where
  "require_active_subject d user_id = (case lock_user_is_active d user_id of
     None \<Rightarrow> Inl (PlatformSubjectNotFoundError user_id)
   | Some is_active \<Rightarrow> require is_active (InactivePlatformSubjectError user_id))"

definition lock_operator :: "db \<Rightarrow> uuid \<Rightarrow> error + platform_operator" where
  "lock_operator d operator_id = (case find (\<lambda>x. op_id x = operator_id) (platform_operators d) of
     None \<Rightarrow> Inl (PlatformOperatorNotFoundError operator_id)
   | Some x \<Rightarrow> Inr x)"

definition lock_external_identity_exists :: "db \<Rightarrow> uuid \<Rightarrow> bool" where
  "lock_external_identity_exists d user_id =
     list_ex (\<lambda>x. ei_user_id x = user_id) (external_identities d)"

text \<open>The audit row of a change to an operator, after the reference of its user is got.\<close>

definition record_operator_event ::
  "db \<Rightarrow> datetime \<Rightarrow> caller \<Rightarrow> string \<Rightarrow> uuid \<Rightarrow> uuid \<Rightarrow> string \<Rightarrow> error + db" where
  "record_operator_event d now c operation operator_id user_id reason =
     ebind (platform_operation operation) (\<lambda>spec.
     ebind (platform_audit_subject_ref d now user_id) (\<lambda>(d1, _).
     record_platform_event_in_transaction d1 now c (po_audit_action spec) ''platform_operator''
       (Some operator_id) None None SUCCESS (Some reason)))"

subsection \<open>The changes\<close>

definition user_reference_ok :: "db \<Rightarrow> uuid option \<Rightarrow> bool" where
  "user_reference_ok d u = (case u of None \<Rightarrow> True | Some i \<Rightarrow> lock_user_is_active d i \<noteq> None)"

text \<open>The two inserts, under the foreign keys and the partial unique index of each table.\<close>

definition insert_operator :: "db \<Rightarrow> datetime \<Rightarrow> uuid \<Rightarrow> uuid option \<Rightarrow> error + (db \<times> uuid)" where
  "insert_operator d now user_id actor =
     (if lock_user_is_active d user_id = None \<or> \<not> user_reference_ok d actor \<or>
         live_operators d user_id \<noteq> []
      then Inl IntegrityError
      else (let (i, d1) = take_uuid d in
        Inr (d1\<lparr>platform_operators := platform_operators d1 @ [\<lparr>op_id = i, op_user_id = user_id,
          op_status = OPERATOR_ACTIVE, op_enrolled_by_user_id = actor, op_status_changed_at = now,
          op_status_changed_by_user_id = actor\<rparr>]\<rparr>, i)))"

definition insert_grant ::
  "db \<Rightarrow> datetime \<Rightarrow> uuid \<Rightarrow> string \<Rightarrow> uuid option \<Rightarrow> error + (db \<times> uuid)" where
  "insert_grant d now operator_id permission actor =
     (if list_ex (live_grant operator_id permission) (platform_grants d) \<or>
         find (\<lambda>x. op_id x = operator_id) (platform_operators d) = None \<or>
         \<not> user_reference_ok d actor
      then Inl IntegrityError
      else (let (i, d1) = take_uuid d in
        Inr (d1\<lparr>platform_grants := platform_grants d1 @ [\<lparr>pg_id = i, pg_operator_id = operator_id,
          pg_permission = permission, pg_granted_by_user_id = actor, pg_granted_at = now,
          pg_revoked_at = None, pg_revoked_by_user_id = None\<rparr>]\<rparr>, i)))"

definition enroll_in_transaction ::
  "db \<Rightarrow> datetime \<Rightarrow> caller \<Rightarrow> uuid \<Rightarrow> string \<Rightarrow> error + (db \<times> uuid)" where
  "enroll_in_transaction d now c user_id reason =
     ebind (refuse_self OPERATOR_ENROLL c user_id) (\<lambda>_.
     ebind (require_active_subject d user_id) (\<lambda>_.
     ebind (require (lock_external_identity_exists d user_id)
       (PlatformSubjectNotLinkedError OPERATOR_ENROLL user_id)) (\<lambda>_.
     ebind (require (\<not> list_ex (\<lambda>x. op_status x \<noteq> OPERATOR_REVOKED)
         (filter (\<lambda>x. op_user_id x = user_id) (platform_operators d)))
       (PlatformOperatorAlreadyEnrolledError user_id)) (\<lambda>_.
     ebind (insert_operator d now user_id (acting_user_id c)) (\<lambda>(d1, operator_id).
     ebind (record_operator_event d1 now c OPERATOR_ENROLL operator_id user_id reason) (\<lambda>d2.
     Inr (d2, operator_id)))))))"

definition write_status ::
  "db \<Rightarrow> datetime \<Rightarrow> caller \<Rightarrow> uuid \<Rightarrow> operator_status \<Rightarrow> db" where
  "write_status d now c operator_id new =
     d\<lparr>platform_operators := update_where (\<lambda>x. op_id x = operator_id)
       (\<lambda>x. x\<lparr>op_status := new, op_status_changed_at := now,
         op_status_changed_by_user_id := acting_user_id c\<rparr>) (platform_operators d)\<rparr>"

definition set_status ::
  "db \<Rightarrow> datetime \<Rightarrow> string \<Rightarrow> caller \<Rightarrow> uuid \<Rightarrow> operator_status \<Rightarrow> operator_status \<Rightarrow> string
    \<Rightarrow> error + (db \<times> uuid)" where
  "set_status d now operation c operator_id expected new reason =
     ebind (lock_operator d operator_id) (\<lambda>x.
     ebind (refuse_self operation c (op_user_id x)) (\<lambda>_.
     ebind (require (op_status x = expected)
       (InvalidPlatformOperatorStateError operator_id (op_status x) operation)) (\<lambda>_.
     ebind (record_operator_event (write_status d now c operator_id new) now c operation operator_id
         (op_user_id x) reason) (\<lambda>d1.
     Inr (d1, operator_id)))))"

definition suspend_in_transaction ::
  "db \<Rightarrow> datetime \<Rightarrow> caller \<Rightarrow> uuid \<Rightarrow> string \<Rightarrow> error + (db \<times> uuid)" where
  "suspend_in_transaction d now c operator_id reason =
     set_status d now OPERATOR_SUSPEND c operator_id OPERATOR_ACTIVE OPERATOR_SUSPENDED reason"

definition grant_in_transaction ::
  "db \<Rightarrow> datetime \<Rightarrow> caller \<Rightarrow> uuid \<Rightarrow> platform_permission \<Rightarrow> string \<Rightarrow> error + (db \<times> uuid)" where
  "grant_in_transaction d now c operator_id permission reason =
     ebind (lock_operator d operator_id) (\<lambda>x.
     ebind (refuse_self GRANT_CREATE c (op_user_id x)) (\<lambda>_.
     ebind (require (op_status x \<noteq> OPERATOR_REVOKED)
       (InvalidPlatformOperatorStateError operator_id (op_status x) GRANT_CREATE)) (\<lambda>_.
     ebind (require_active_subject d (op_user_id x)) (\<lambda>_.
     ebind (case acting_user_id c of None \<Rightarrow> Inr True | Some u \<Rightarrow> platform_can d u permission) (\<lambda>held.
     ebind (require held (PlatformAmplificationError GRANT_CREATE (permission_value permission))) (\<lambda>_.
     ebind (require (\<not> list_ex (live_grant operator_id (permission_value permission))
         (platform_grants d))
       (DuplicatePlatformGrantError operator_id (permission_value permission))) (\<lambda>_.
     ebind (insert_grant d now operator_id (permission_value permission) (acting_user_id c))
       (\<lambda>(d1, grant_id).
     ebind (record_operator_event d1 now c GRANT_CREATE operator_id (op_user_id x) reason) (\<lambda>d2.
     Inr (d2, grant_id))))))))))"

definition revoke_grants_where :: "(platform_grant \<Rightarrow> bool) \<Rightarrow> datetime \<Rightarrow> caller \<Rightarrow> db \<Rightarrow> db" where
  "revoke_grants_where p now c d = d\<lparr>platform_grants := update_where p
     (\<lambda>g. g\<lparr>pg_revoked_at := Some now, pg_revoked_by_user_id := acting_user_id c\<rparr>)
     (platform_grants d)\<rparr>"

definition revoke_in_transaction ::
  "db \<Rightarrow> datetime \<Rightarrow> caller \<Rightarrow> uuid \<Rightarrow> string \<Rightarrow> error + (db \<times> uuid)" where
  "revoke_in_transaction d now c operator_id reason =
     ebind (lock_operator d operator_id) (\<lambda>x.
     ebind (refuse_self OPERATOR_REVOKE c (op_user_id x)) (\<lambda>_.
     ebind (require (op_status x \<noteq> OPERATOR_REVOKED)
       (InvalidPlatformOperatorStateError operator_id (op_status x) OPERATOR_REVOKE)) (\<lambda>_.
     ebind (record_operator_event
         (write_status (revoke_grants_where
            (\<lambda>g. pg_operator_id g = operator_id \<and> pg_revoked_at g = None) now c d)
            now c operator_id OPERATOR_REVOKED)
         now c OPERATOR_REVOKE operator_id (op_user_id x) reason) (\<lambda>d1.
     Inr (d1, operator_id)))))"

definition revoke_grant_in_transaction ::
  "db \<Rightarrow> datetime \<Rightarrow> caller \<Rightarrow> uuid \<Rightarrow> platform_permission \<Rightarrow> string \<Rightarrow> error + (db \<times> uuid)" where
  "revoke_grant_in_transaction d now c operator_id permission reason =
     ebind (lock_operator d operator_id) (\<lambda>x.
     ebind (refuse_self GRANT_REVOKE c (op_user_id x)) (\<lambda>_.
     ebind (one_or_none (filter (live_grant operator_id (permission_value permission))
         (platform_grants d))) (\<lambda>row. case row of
       None \<Rightarrow> Inl (PlatformGrantNotFoundError operator_id (permission_value permission))
     | Some grant \<Rightarrow>
         ebind (record_operator_event
           (revoke_grants_where (\<lambda>g. pg_id g = pg_id grant) now c d)
           now c GRANT_REVOKE operator_id (op_user_id x) reason) (\<lambda>d1.
         Inr (d1, pg_id grant)))))"

subsection \<open>The operations\<close>

text \<open>What runs before the transaction: the caller's type, then the reason.\<close>

definition with_reason ::
  "db \<Rightarrow> string \<Rightarrow> caller \<Rightarrow> string \<Rightarrow> (string \<Rightarrow> db \<times> (error + 'a)) \<Rightarrow> db \<times> (error + 'a)" where
  "with_reason d operation c reason k =
     (case ebind (require_caller operation c ALL_CALLER_TYPES) (\<lambda>_. validate_reason reason) of
        Inl e \<Rightarrow> (d, Inl e)
      | Inr value \<Rightarrow> k value)"

definition enroll_operator ::
  "db \<Rightarrow> datetime \<Rightarrow> caller \<Rightarrow> uuid \<Rightarrow> string \<Rightarrow> db \<times> (error + uuid)" where
  "enroll_operator d now c user_id reason =
     with_reason d OPERATOR_ENROLL c reason (\<lambda>value.
       run_authority d now OPERATOR_ENROLL c ''user'' None (Some user_id)
         (\<lambda>d. enroll_in_transaction d now c user_id value))"

definition suspend_operator ::
  "db \<Rightarrow> datetime \<Rightarrow> caller \<Rightarrow> uuid \<Rightarrow> string \<Rightarrow> db \<times> (error + uuid)" where
  "suspend_operator d now c operator_id reason =
     with_reason d OPERATOR_SUSPEND c reason (\<lambda>value.
       run_authority d now OPERATOR_SUSPEND c ''platform_operator'' (Some operator_id) None
         (\<lambda>d. suspend_in_transaction d now c operator_id value))"

definition reactivate_operator ::
  "db \<Rightarrow> datetime \<Rightarrow> caller \<Rightarrow> uuid \<Rightarrow> string \<Rightarrow> db \<times> (error + uuid)" where
  "reactivate_operator d now c operator_id reason =
     with_reason d OPERATOR_REACTIVATE c reason (\<lambda>value.
       run_authority d now OPERATOR_REACTIVATE c ''platform_operator'' (Some operator_id) None
         (\<lambda>d. set_status d now OPERATOR_REACTIVATE c operator_id OPERATOR_SUSPENDED OPERATOR_ACTIVE
           value))"

definition revoke_operator ::
  "db \<Rightarrow> datetime \<Rightarrow> caller \<Rightarrow> uuid \<Rightarrow> string \<Rightarrow> db \<times> (error + uuid)" where
  "revoke_operator d now c operator_id reason =
     with_reason d OPERATOR_REVOKE c reason (\<lambda>value.
       run_authority d now OPERATOR_REVOKE c ''platform_operator'' (Some operator_id) None
         (\<lambda>d. revoke_in_transaction d now c operator_id value))"

definition grant_platform_permission ::
  "db \<Rightarrow> datetime \<Rightarrow> caller \<Rightarrow> uuid \<Rightarrow> platform_permission \<Rightarrow> string \<Rightarrow> db \<times> (error + uuid)" where
  "grant_platform_permission d now c operator_id permission reason =
     with_reason d GRANT_CREATE c reason (\<lambda>value.
       run_authority d now GRANT_CREATE c ''platform_operator'' (Some operator_id) None
         (\<lambda>d. grant_in_transaction d now c operator_id permission value))"

definition revoke_platform_permission ::
  "db \<Rightarrow> datetime \<Rightarrow> caller \<Rightarrow> uuid \<Rightarrow> platform_permission \<Rightarrow> string \<Rightarrow> db \<times> (error + uuid)" where
  "revoke_platform_permission d now c operator_id permission reason =
     with_reason d GRANT_REVOKE c reason (\<lambda>value.
       run_authority d now GRANT_REVOKE c ''platform_operator'' (Some operator_id) None
         (\<lambda>d. revoke_grant_in_transaction d now c operator_id permission value))"

subsection \<open>What a record of evidence changes\<close>

definition evidence_only :: "db \<Rightarrow> db \<Rightarrow> bool" where
  "evidence_only d d' = (next_uuid d \<le> next_uuid d' \<and>
     d' = d\<lparr>next_uuid := next_uuid d',
       platform_audit_subject_links := platform_audit_subject_links d',
       platform_audit_log := platform_audit_log d'\<rparr>)"

lemma evidence_only_refl [simp]: "evidence_only d d"
  by (simp add: evidence_only_def)

lemma evidence_only_links: "same_but_links d d' \<Longrightarrow> evidence_only d d'"
  unfolding same_but_links_def evidence_only_def by (cases d, cases d') auto

lemma evidence_only_trans: "evidence_only d1 d2 \<Longrightarrow> evidence_only d2 d3 \<Longrightarrow> evidence_only d1 d3"
  unfolding evidence_only_def by (cases d1, cases d2, cases d3) auto

lemma evidence_onlyD:
  assumes "evidence_only d d'"
  shows "users d' = users d" "platform_operators d' = platform_operators d"
    "platform_grants d' = platform_grants d" "tenants d' = tenants d"
    "external_identities d' = external_identities d" "next_uuid d \<le> next_uuid d'"
  using assms unfolding evidence_only_def by (cases d, cases d', auto)+

lemma insert_live_frame: "insert_live d now u = Inr (d', r) \<Longrightarrow> same_but_links d d'"
  by (auto simp: insert_live_def insert_link_def take_uuid_def same_but_links_def Let_def
      split: if_splits)

lemma subject_ref_attempts_frame:
  "subject_ref_attempts n d now u = Inr (d', r) \<Longrightarrow> same_but_links d d'"
proof (induction n d now u arbitrary: d' r rule: subject_ref_attempts.induct)
  case (2 n d now u)
  then show ?case
    by (fastforce dest: insert_live_frame intro: same_but_links_trans split: option.splits prod.splits)
qed simp

lemma subject_ref_frame: "platform_audit_subject_ref d now u = Inr (d', r) \<Longrightarrow> same_but_links d d'"
  by (auto simp: platform_audit_subject_ref_def insert_born_unlinked_def insert_link_def
      take_uuid_def same_but_links_def Let_def
      dest: subject_ref_attempts_frame [unfolded same_but_links_def] split: if_splits)

lemma user_audit_target_frame: "user_audit_target d now u = Inr (d', x) \<Longrightarrow> same_but_links d d'"
  by (auto simp: user_audit_target_def dest: subject_ref_frame split: if_splits)

lemma insert_platform_entry_ok:
  "insert_platform_entry d e = Inr d' \<Longrightarrow> d' = d\<lparr>platform_audit_log := platform_audit_log d @ [e]\<rparr>"
  by (auto simp: insert_platform_entry_def split: if_splits)

lemma insert_platform_entry_frame: "insert_platform_entry d e = Inr d' \<Longrightarrow> evidence_only d d'"
  by (drule insert_platform_entry_ok) (simp add: evidence_only_def)

lemma record_platform_event_frame:
  assumes "record_platform_event_in_transaction d now c action ty i u t outcome reason = Inr d'"
  shows "evidence_only d d'"
proof (cases u)
  case None
  with assms show ?thesis
    by (auto simp: record_platform_event_in_transaction_def dest: insert_platform_entry_frame)
next
  case (Some v)
  with assms show ?thesis
    by (auto simp: record_platform_event_in_transaction_def
        dest!: user_audit_target_frame insert_platform_entry_frame evidence_only_links
        intro: evidence_only_trans)
qed

lemma refusal_target_frame:
  "refusal_target d now ty i u = (d', x) \<Longrightarrow> same_but_links d d'"
  by (auto simp: refusal_target_def dest: user_audit_target_frame
      split: option.splits sum.splits)

lemma record_platform_outcome_frame:
  "evidence_only d (record_platform_outcome outcome d now c action ty i u code)"
proof -
  obtain d1 row_type row_id where t: "refusal_target d now ty i u = (d1, row_type, row_id)"
    by (cases "refusal_target d now ty i u") auto
  then show ?thesis using refusal_target_frame [OF t]
    by (auto simp: record_platform_outcome_def split: sum.splits
        dest!: insert_platform_entry_frame evidence_only_links intro: evidence_only_trans)
qed

lemma record_platform_refusal_frame:
  "evidence_only d (record_platform_refusal d now c action ty i u code)"
  unfolding record_platform_refusal_def by (rule record_platform_outcome_frame)

lemma record_operator_event_frame:
  "record_operator_event d now c operation operator_id user_id reason = Inr d' \<Longrightarrow> evidence_only d d'"
  by (auto simp: record_operator_event_def dest!: subject_ref_frame record_platform_event_frame
      evidence_only_links intro: evidence_only_trans)

text \<open>The two ways an operation ends.\<close>

lemma run_authority_cases:
  assumes "run_authority d now operation c ty i u body = (d', r)"
  obtains (committed) a where "r = Inr a" "is_ok (authorize_platform_caller d c operation)"
      "body d = Inr (d', a)" "platform_owner_exists d \<Longrightarrow> platform_owner_exists d'"
    | (failed) e where "r = Inl e" "evidence_only d d'"
proof (cases r)
  case (Inl e)
  with assms have "evidence_only d d'"
    by (auto simp: run_authority_def recording_platform_refusal_def record_platform_refusal_frame
        split: sum.splits option.splits)
  with Inl show ?thesis by (rule failed)
next
  case (Inr a)
  with assms have "authority_transaction d [operation] c body = Inr (d', a)"
    by (auto simp: run_authority_def recording_platform_refusal_def
        split: sum.splits option.splits)
  with Inr show ?thesis
    by (intro committed) (auto simp: authority_transaction_def is_ok_iff Let_def split: if_splits)
qed

lemma with_reason_cases:
  assumes "with_reason d operation c reason k = (d', r)"
  obtains (run) "k (strip reason) = (d', r)" "c \<noteq> NotACaller" | (invalid) e where "r = Inl e" "d' = d"
  using assms
  by (cases c) (auto simp: with_reason_def validate_reason_def require_caller_def Let_def
      split: sum.splits if_splits)

subsection \<open>The table invariant and who holds a permission\<close>

definition platform_ok :: "db \<Rightarrow> bool" where
  "platform_ok d = (
     distinct (map op_id (platform_operators d)) \<and>
     (\<forall>x \<in> set (platform_operators d). op_id x < next_uuid d \<and>
        lock_user_is_active d (op_user_id x) \<noteq> None) \<and>
     distinct (map op_user_id (filter (\<lambda>x. op_status x \<noteq> OPERATOR_REVOKED) (platform_operators d))) \<and>
     distinct (map pg_id (platform_grants d)) \<and>
     (\<forall>g \<in> set (platform_grants d). pg_id g < next_uuid d \<and>
        pg_operator_id g \<in> op_id ` set (platform_operators d)) \<and>
     distinct (map (\<lambda>g. (pg_operator_id g, pg_permission g))
       (filter (\<lambda>g. pg_revoked_at g = None) (platform_grants d))) \<and>
     (\<forall>x \<in> set (platform_operators d). op_status x = OPERATOR_REVOKED \<longrightarrow>
        (\<forall>g \<in> set (platform_grants d). pg_operator_id g = op_id x \<longrightarrow> pg_revoked_at g \<noteq> None)))"

definition platform_holds :: "db \<Rightarrow> uuid \<Rightarrow> string \<Rightarrow> bool" where
  "platform_holds d u p = (lock_user_is_active d u = Some True \<and>
     (\<exists>x \<in> set (platform_operators d). op_user_id x = u \<and> op_status x = OPERATOR_ACTIVE \<and>
        (\<exists>g \<in> set (platform_grants d). live_grant (op_id x) p g)))"

lemma platform_okD:
  assumes "platform_ok d"
  shows "distinct (map op_id (platform_operators d))"
    "distinct (map op_user_id (filter (\<lambda>x. op_status x \<noteq> OPERATOR_REVOKED) (platform_operators d)))"
    "distinct (map pg_id (platform_grants d))"
    "distinct (map (\<lambda>g. (pg_operator_id g, pg_permission g))
       (filter (\<lambda>g. pg_revoked_at g = None) (platform_grants d)))"
  using assms by (simp_all add: platform_ok_def)

lemma grant_operator_id:
  assumes "platform_ok d" "g \<in> set (platform_grants d)"
  shows "pg_operator_id g < next_uuid d"
proof -
  have "pg_operator_id g \<in> op_id ` set (platform_operators d)"
    using assms by (simp add: platform_ok_def)
  with assms(1) show ?thesis by (auto simp: platform_ok_def)
qed

lemma operator_unique:
  assumes "platform_ok d" "x \<in> set (platform_operators d)" "y \<in> set (platform_operators d)"
    "op_id x = op_id y"
  shows "x = y"
  using platform_okD(1) [OF assms(1)] assms(2-4) by (auto simp: distinct_map inj_on_def)

lemma live_operator_unique:
  assumes "platform_ok d" "x \<in> set (platform_operators d)" "y \<in> set (platform_operators d)"
    "op_status x \<noteq> OPERATOR_REVOKED" "op_status y \<noteq> OPERATOR_REVOKED" "op_user_id x = op_user_id y"
  shows "x = y"
  using platform_okD(2) [OF assms(1)] assms(2-6) by (auto simp: distinct_map inj_on_def)

lemma lock_operator_ok:
  assumes "lock_operator d operator_id = Inr x"
  shows "x \<in> set (platform_operators d)" "op_id x = operator_id"
  using assms by (auto simp: lock_operator_def split: option.splits dest: find_SomeD)

lemma one_live_operator:
  assumes "platform_ok d"
  shows "one_or_none (live_operators d u) = Inr (find (\<lambda>x. op_user_id x = u \<and>
    op_status x \<noteq> OPERATOR_REVOKED) (platform_operators d))"
proof -
  have "live_operators d u = filter (\<lambda>x. op_user_id x = u)
      (filter (\<lambda>x. op_status x \<noteq> OPERATOR_REVOKED) (platform_operators d))"
    by (simp add: live_operators_def conj_commute)
  then have "distinct (map op_user_id (live_operators d u))"
    using platform_okD(2) [OF assms] by (simp only: distinct_map_filter)
  then have "one_or_none (live_operators d u) = Inr (find (\<lambda>_. True) (live_operators d u))"
    by (rule one_or_none_distinct [where k = u]) (simp add: live_operators_def)
  then show ?thesis by (simp add: live_operators_def find_filter_True)
qed

theorem platform_decide_iff:
  assumes "platform_ok d"
  shows "platform_can d u p = Inr (platform_holds d u (permission_value p))"
proof (cases "find (\<lambda>x. op_user_id x = u \<and> op_status x \<noteq> OPERATOR_REVOKED) (platform_operators d)")
  case None
  then have "\<forall>x \<in> set (platform_operators d). op_user_id x = u \<longrightarrow> op_status x = OPERATOR_REVOKED"
    by (simp add: find_None_iff_all)
  then show ?thesis
    using one_live_operator [OF assms, of u] None
    by (auto simp: platform_can_def platform_decide_def platform_holds_def)
next
  case (Some x)
  note x = find_SomeD [OF Some]
  have "y = x" if "y \<in> set (platform_operators d)" "op_user_id y = u" "op_status y = OPERATOR_ACTIVE" for y
    using live_operator_unique [OF assms that(1), of x] x that by simp
  then show ?thesis using one_live_operator [OF assms, of u] Some x
    by (auto simp: platform_can_def platform_decide_def platform_holds_def list_ex_iff)
qed

lemma owner_iff: "platform_owner_exists d \<longleftrightarrow> (\<exists>u. platform_holds d u (permission_value OWNER_PERMISSION))"
  by (auto simp: platform_owner_exists_def platform_holds_def list_ex_iff)

lemma platform_holds_cong:
  assumes "users d' = users d" "platform_operators d' = platform_operators d"
    "platform_grants d' = platform_grants d"
  shows "platform_holds d' = platform_holds d"
  using lock_user_is_active_cong [OF assms(1)] assms(2,3) by (simp add: platform_holds_def fun_eq_iff)

lemma evidence_holds: "evidence_only d d' \<Longrightarrow> platform_holds d' = platform_holds d"
  by (rule platform_holds_cong) (rule evidence_onlyD; assumption)+

lemma evidence_owner: "evidence_only d d' \<Longrightarrow> platform_owner_exists d' = platform_owner_exists d"
  by (simp add: owner_iff evidence_holds)

lemma evidence_ok:
  assumes "evidence_only d d'" "platform_ok d"
  shows "platform_ok d'"
  using assms(2) evidence_onlyD(6) [OF assms(1)]
  by (auto simp: platform_ok_def evidence_onlyD(2,3) [OF assms(1)]
      lock_user_is_active_cong [OF evidence_onlyD(1) [OF assms(1)]])

subsection \<open>What each change does to the tables\<close>

lemma insert_operator_ok:
  assumes "insert_operator d now u actor = Inr (d', i)"
  shows "i = next_uuid d" "lock_user_is_active d u \<noteq> None" "live_operators d u = []"
    "d' = d\<lparr>next_uuid := Suc i, platform_operators := platform_operators d @ [\<lparr>op_id = i,
       op_user_id = u, op_status = OPERATOR_ACTIVE, op_enrolled_by_user_id = actor,
       op_status_changed_at = now, op_status_changed_by_user_id = actor\<rparr>]\<rparr>"
  using assms by (auto simp: insert_operator_def take_uuid_def Let_def split: if_splits)

lemma insert_grant_ok:
  assumes "insert_grant d now operator_id p actor = Inr (d', i)"
  shows "i = next_uuid d" "\<not> list_ex (live_grant operator_id p) (platform_grants d)"
    "operator_id \<in> op_id ` set (platform_operators d)"
    "d' = d\<lparr>next_uuid := Suc i, platform_grants := platform_grants d @ [\<lparr>pg_id = i,
       pg_operator_id = operator_id, pg_permission = p, pg_granted_by_user_id = actor,
       pg_granted_at = now, pg_revoked_at = None, pg_revoked_by_user_id = None\<rparr>]\<rparr>"
proof -
  have found: "find (\<lambda>x. op_id x = operator_id) (platform_operators d) \<noteq> None"
    using assms by (auto simp: insert_grant_def split: if_splits)
  then show "operator_id \<in> op_id ` set (platform_operators d)"
    by (auto dest: find_SomeD)
  show "i = next_uuid d" "\<not> list_ex (live_grant operator_id p) (platform_grants d)"
    "d' = d\<lparr>next_uuid := Suc i, platform_grants := platform_grants d @ [\<lparr>pg_id = i,
       pg_operator_id = operator_id, pg_permission = p, pg_granted_by_user_id = actor,
       pg_granted_at = now, pg_revoked_at = None, pg_revoked_by_user_id = None\<rparr>]\<rparr>"
    using assms by (auto simp: insert_grant_def take_uuid_def Let_def split: if_splits)
qed

lemma insert_operator_platform_ok:
  assumes "platform_ok d" "insert_operator d now u actor = Inr (d', i)"
  shows "platform_ok d'"
proof -
  note ins = insert_operator_ok [OF assms(2)]
  have users: "lock_user_is_active d' = lock_user_is_active d"
    by (rule lock_user_is_active_cong) (simp add: ins(4))
  have no_grant: "pg_operator_id g \<noteq> i" if "g \<in> set (platform_grants d)" for g
    using grant_operator_id [OF assms(1) that] ins(1) by simp
  have fresh: "i \<notin> op_id ` set (platform_operators d)"
    using assms(1) ins(1) by (auto simp: platform_ok_def)
  have free: "u \<notin> op_user_id ` set (filter (\<lambda>x. op_status x \<noteq> OPERATOR_REVOKED) (platform_operators d))"
    using ins(3) by (auto simp: live_operators_def filter_empty_conv)
  show ?thesis
    using assms(1) ins(1-3) fresh free no_grant unfolding platform_ok_def users
    by (auto simp: ins(4) less_Suc_eq)
qed

lemma insert_grant_platform_ok:
  assumes "platform_ok d" "insert_grant d now operator_id p actor = Inr (d', i)"
    and "x \<in> set (platform_operators d)" "op_id x = operator_id" "op_status x \<noteq> OPERATOR_REVOKED"
  shows "platform_ok d'"
proof -
  note ins = insert_grant_ok [OF assms(2)]
  have users: "lock_user_is_active d' = lock_user_is_active d"
    by (rule lock_user_is_active_cong) (simp add: ins(4))
  have fresh: "i \<notin> pg_id ` set (platform_grants d)"
    using assms(1) ins(1) by (auto simp: platform_ok_def)
  have free: "(operator_id, p) \<notin> (\<lambda>g. (pg_operator_id g, pg_permission g)) `
      set (filter (\<lambda>g. pg_revoked_at g = None) (platform_grants d))"
    using ins(2) by (auto simp: list_ex_iff live_grant_def)
  have live: "op_status y \<noteq> OPERATOR_REVOKED"
    if "y \<in> set (platform_operators d)" "op_id y = operator_id" for y
    using operator_unique [OF assms(1) that(1) assms(3)] that(2) assms(4,5) by simp
  show ?thesis
    using assms(1) ins(1-3) fresh free live unfolding platform_ok_def users
    by (auto simp: ins(4) less_Suc_eq)
qed

text \<open>The effect of an update on a table, whatever columns it writes beside the key.\<close>

lemma write_status_simps [simp]:
  "platform_grants (write_status d now c i s) = platform_grants d"
  "users (write_status d now c i s) = users d"
  "next_uuid (write_status d now c i s) = next_uuid d"
  by (simp_all add: write_status_def)

lemma revoke_grants_simps [simp]:
  "platform_operators (revoke_grants_where p now c d) = platform_operators d"
  "users (revoke_grants_where p now c d) = users d"
  "next_uuid (revoke_grants_where p now c d) = next_uuid d"
  by (simp_all add: revoke_grants_where_def)

lemma write_status_operators:
  "platform_operators (write_status d now c i s) = map (\<lambda>x. if op_id x = i
     then x\<lparr>op_status := s, op_status_changed_at := now,
       op_status_changed_by_user_id := acting_user_id c\<rparr> else x) (platform_operators d)"
  by (simp add: write_status_def update_where_def)

lemma revoked_grants:
  "platform_grants (revoke_grants_where p now c d) = map (\<lambda>g. if p g
     then g\<lparr>pg_revoked_at := Some now, pg_revoked_by_user_id := acting_user_id c\<rparr> else g)
     (platform_grants d)"
  by (simp add: revoke_grants_where_def update_where_def)

lemma write_status_ids:
  "map op_id (platform_operators (write_status d now c i s)) = map op_id (platform_operators d)"
  "op_id ` set (platform_operators (write_status d now c i s)) = op_id ` set (platform_operators d)"
proof -
  show ids: "map op_id (platform_operators (write_status d now c i s)) = map op_id (platform_operators d)"
    by (simp add: write_status_operators)
  show "op_id ` set (platform_operators (write_status d now c i s)) = op_id ` set (platform_operators d)"
    unfolding set_map [symmetric] ids ..
qed

lemma write_status_platform_ok:
  assumes "platform_ok d" "x \<in> set (platform_operators d)" "op_id x = i"
    and "op_status x \<noteq> OPERATOR_REVOKED"
    and "s = OPERATOR_REVOKED \<Longrightarrow>
      \<forall>g \<in> set (platform_grants d). pg_operator_id g = i \<longrightarrow> pg_revoked_at g \<noteq> None"
  shows "platform_ok (write_status d now c i s)"
proof -
  have users: "lock_user_is_active (write_status d now c i s) = lock_user_is_active d"
    by (rule lock_user_is_active_cong) simp
  have live: "distinct (map op_user_id (filter (\<lambda>x. op_status x \<noteq> OPERATOR_REVOKED)
      (platform_operators (write_status d now c i s))))"
    unfolding write_status_operators
    by (rule distinct_filter_map_shrink [OF platform_okD(2) [OF assms(1)]])
      (use operator_unique [OF assms(1) _ assms(2)] assms(3,4) in \<open>auto split: if_splits\<close>)
  show ?thesis
    using assms(1,5) live unfolding platform_ok_def users write_status_ids
    by (auto simp: write_status_operators)
qed

lemma revoke_grants_platform_ok:
  assumes "platform_ok d"
  shows "platform_ok (revoke_grants_where p now c d)"
proof -
  have users: "lock_user_is_active (revoke_grants_where p now c d) = lock_user_is_active d"
    by (rule lock_user_is_active_cong) simp
  have ids: "map pg_id (platform_grants (revoke_grants_where p now c d)) = map pg_id (platform_grants d)"
    by (simp add: revoked_grants)
  have live: "distinct (map (\<lambda>g. (pg_operator_id g, pg_permission g))
      (filter (\<lambda>g. pg_revoked_at g = None) (platform_grants (revoke_grants_where p now c d))))"
    unfolding revoked_grants
    by (rule distinct_filter_map_shrink [OF platform_okD(4) [OF assms]]) (auto split: if_splits)
  show ?thesis
    using assms live unfolding platform_ok_def users ids
    by (auto simp: revoked_grants)
qed

text \<open>A user's authority depends on the rows of that user's operators only.\<close>

lemma platform_holds_local:
  assumes "users d' = users d"
    and "\<And>x. op_user_id x = u \<Longrightarrow>
      x \<in> set (platform_operators d') \<longleftrightarrow> x \<in> set (platform_operators d)"
    and "\<And>x g. x \<in> set (platform_operators d) \<Longrightarrow> op_user_id x = u \<Longrightarrow> pg_operator_id g = op_id x \<Longrightarrow>
      g \<in> set (platform_grants d') \<longleftrightarrow> g \<in> set (platform_grants d)"
  shows "platform_holds d' u p = platform_holds d u p"
proof -
  have "(\<exists>g \<in> set (platform_grants d'). live_grant (op_id x) p g) =
      (\<exists>g \<in> set (platform_grants d). live_grant (op_id x) p g)"
    if "x \<in> set (platform_operators d)" "op_user_id x = u" for x
    using assms(3) [OF that] by (auto simp: live_grant_def)
  with assms(2) show ?thesis
    unfolding platform_holds_def lock_user_is_active_cong [OF assms(1)] by blast
qed

lemma write_status_other:
  assumes "platform_ok d" "x \<in> set (platform_operators d)" "op_id x = i" "op_user_id x \<noteq> u"
  shows "platform_holds (write_status d now c i s) u p = platform_holds d u p"
proof (rule platform_holds_local)
  fix y :: platform_operator
  assume y: "op_user_id y = u"
  have "op_id z \<noteq> i" if "z \<in> set (platform_operators d)" "op_user_id z = u" for z
    using operator_unique [OF assms(1) that(1) assms(2)] assms(3,4) that(2) by auto
  then show "y \<in> set (platform_operators (write_status d now c i s)) \<longleftrightarrow>
      y \<in> set (platform_operators d)"
    unfolding write_status_operators
    by (rule mem_map_if_other [where q = "\<lambda>z. op_user_id z = u"]) (simp_all add: y)
qed simp_all

lemma revoke_grants_other:
  assumes "\<And>x g. x \<in> set (platform_operators d) \<Longrightarrow> op_user_id x = u \<Longrightarrow>
      g \<in> set (platform_grants d) \<Longrightarrow> pg_operator_id g = op_id x \<Longrightarrow> \<not> p g"
  shows "platform_holds (revoke_grants_where p now c d) u q = platform_holds d u q"
proof (rule platform_holds_local)
  fix x and g :: platform_grant
  assume x: "x \<in> set (platform_operators d)" "op_user_id x = u" "pg_operator_id g = op_id x"
  show "g \<in> set (platform_grants (revoke_grants_where p now c d)) \<longleftrightarrow>
      g \<in> set (platform_grants d)"
    unfolding revoked_grants
    by (rule mem_map_if_other [where q = "\<lambda>z. pg_operator_id z = op_id x"])
      (use assms [OF x(1,2)] x(3) in simp_all)
qed simp_all

lemma write_status_shrinks:
  assumes "s \<noteq> OPERATOR_ACTIVE" "platform_holds (write_status d now c i s) u p"
  shows "platform_holds d u p"
proof -
  have users: "lock_user_is_active (write_status d now c i s) = lock_user_is_active d"
    by (rule lock_user_is_active_cong) simp
  show ?thesis using assms unfolding platform_holds_def users
    by (auto simp: write_status_operators split: if_splits)
qed

lemma revoke_grants_shrinks:
  assumes "platform_holds (revoke_grants_where p now c d) u q"
  shows "platform_holds d u q"
proof -
  have users: "lock_user_is_active (revoke_grants_where p now c d) = lock_user_is_active d"
    by (rule lock_user_is_active_cong) simp
  show ?thesis using assms unfolding platform_holds_def users
    by (auto simp: revoked_grants live_grant_def split: if_splits)
qed

subsection \<open>The contract of a change\<close>

text \<open>A change of platform authority writes platform tables only.\<close>

definition platform_only :: "db \<Rightarrow> db \<Rightarrow> bool" where
  "platform_only d d' = (next_uuid d \<le> next_uuid d' \<and>
     d' = d\<lparr>next_uuid := next_uuid d', platform_operators := platform_operators d',
       platform_grants := platform_grants d',
       platform_audit_subject_links := platform_audit_subject_links d',
       platform_audit_log := platform_audit_log d'\<rparr>)"

definition platform_change :: "db \<Rightarrow> caller \<Rightarrow> db \<Rightarrow> bool" where
  "platform_change d c d' = (platform_ok d' \<and> platform_only d d' \<and>
     (\<forall>u q. acting_user_id c = Some u \<longrightarrow> platform_holds d' u q = platform_holds d u q))"

lemma platform_only_trans: "platform_only d1 d2 \<Longrightarrow> platform_only d2 d3 \<Longrightarrow> platform_only d1 d3"
  unfolding platform_only_def by (cases d1, cases d2, cases d3) auto

lemma platform_only_evidence: "evidence_only d d' \<Longrightarrow> platform_only d d'"
  unfolding platform_only_def evidence_only_def by (cases d, cases d') auto

lemma platform_only_refl [simp]: "platform_only d d"
  by (simp add: platform_only_def)

lemma platform_only_can: "platform_only d d' \<Longrightarrow> can d' = can d"
  unfolding platform_only_def by (elim conjE ssubst) (rule can_cong; simp)

lemma platform_only_writes [simp]:
  "platform_only d (write_status d now c i s)"
  "platform_only d (revoke_grants_where p now c d)"
  by (simp_all add: platform_only_def write_status_def revoke_grants_where_def)

lemma platform_change_evidence:
  assumes "platform_change d c d1" "evidence_only d1 d2"
  shows "platform_change d c d2"
  using assms evidence_ok [OF assms(2)] evidence_holds [OF assms(2)]
    platform_only_trans [OF _ platform_only_evidence [OF assms(2)]]
  by (auto simp: platform_change_def)

lemma failed_change: "platform_ok d \<Longrightarrow> evidence_only d d' \<Longrightarrow> platform_change d c d'"
  by (rule platform_change_evidence [of d c d]) (simp_all add: platform_change_def)

lemma refuse_self_ok [bind_simps]:
  "refuse_self operation c u = Inr x \<longleftrightarrow> acting_user_id c \<noteq> Some u"
  by (simp add: refuse_self_def)

lemma enroll_change:
  assumes "platform_ok d" "enroll_in_transaction d now c u reason = Inr (d', i)"
  shows "platform_change d c d'" "platform_holds d' = platform_holds d"
proof -
  obtain d1 where ins: "insert_operator d now u (acting_user_id c) = Inr (d1, i)"
    and ev: "evidence_only d1 d'"
    using assms(2) by (auto simp: enroll_in_transaction_def dest: record_operator_event_frame)
  note new = insert_operator_ok [OF ins]
  have no_grant: "\<not> live_grant i p g" if "g \<in> set (platform_grants d)" for p g
    using grant_operator_id [OF assms(1) that] new(1) by (simp add: live_grant_def)
  have users: "lock_user_is_active d1 = lock_user_is_active d"
    by (rule lock_user_is_active_cong) (simp add: new(4))
  have same: "platform_holds d1 = platform_holds d"
    using no_grant unfolding platform_holds_def users by (auto simp: new(4) fun_eq_iff)
  then show "platform_holds d' = platform_holds d" by (simp add: evidence_holds [OF ev])
  have "platform_only d d1" by (simp add: new(4) platform_only_def new(1))
  with same insert_operator_platform_ok [OF assms(1) ins] show "platform_change d c d'"
    by (intro platform_change_evidence [OF _ ev]) (simp add: platform_change_def)
qed

lemma set_status_change:
  assumes "platform_ok d" "set_status d now operation c i expected new reason = Inr (d', a)"
    and "expected \<noteq> OPERATOR_REVOKED" "new \<noteq> OPERATOR_REVOKED"
  shows "platform_change d c d'"
    and "new \<noteq> OPERATOR_ACTIVE \<Longrightarrow> platform_holds d' u q \<Longrightarrow> platform_holds d u q"
proof -
  obtain x where x: "lock_operator d i = Inr x" "acting_user_id c \<noteq> Some (op_user_id x)"
      "op_status x = expected"
    and ev: "evidence_only (write_status d now c i new) d'"
    using assms(2) by (auto simp: set_status_def bind_simps dest: record_operator_event_frame)
  note row = lock_operator_ok [OF x(1)]
  have "platform_ok (write_status d now c i new)"
    by (rule write_status_platform_ok [OF assms(1) row]) (use x(3) assms(3,4) in simp_all)
  then have "platform_change d c (write_status d now c i new)"
    using write_status_other [OF assms(1) row] x(2) by (auto simp: platform_change_def)
  then show "platform_change d c d'" by (rule platform_change_evidence [OF _ ev])
  show "platform_holds d u q" if "new \<noteq> OPERATOR_ACTIVE" "platform_holds d' u q"
    using that write_status_shrinks by (simp add: evidence_holds [OF ev])
qed

lemma revoke_operator_change:
  assumes "platform_ok d" "revoke_in_transaction d now c i reason = Inr (d', a)"
  shows "platform_change d c d'" "platform_holds d' u q \<Longrightarrow> platform_holds d u q"
proof -
  let ?p = "\<lambda>g. pg_operator_id g = i \<and> pg_revoked_at g = None"
  let ?d1 = "revoke_grants_where ?p now c d"
  let ?d2 = "write_status ?d1 now c i OPERATOR_REVOKED"
  obtain x where x: "lock_operator d i = Inr x" "acting_user_id c \<noteq> Some (op_user_id x)"
      "op_status x \<noteq> OPERATOR_REVOKED"
    and ev: "evidence_only ?d2 d'"
    using assms(2) by (auto simp: revoke_in_transaction_def bind_simps dest: record_operator_event_frame)
  note row = lock_operator_ok [OF x(1)]
  have ok1: "platform_ok ?d1" by (rule revoke_grants_platform_ok [OF assms(1)])
  have row1: "x \<in> set (platform_operators ?d1)" using row(1) by simp
  have dead: "\<forall>g \<in> set (platform_grants ?d1). pg_operator_id g = i \<longrightarrow> pg_revoked_at g \<noteq> None"
    unfolding revoked_grants set_map ball_simps by simp
  have "platform_ok ?d2" by (rule write_status_platform_ok [OF ok1 row1 row(2) x(3) dead])
  moreover have "platform_holds ?d2 v p = platform_holds d v p" if "v \<noteq> op_user_id x" for v p
  proof -
    have "platform_holds ?d1 v p = platform_holds d v p"
      by (rule revoke_grants_other)
        (use operator_unique [OF assms(1) _ row(1)] row(2) that in auto)
    with write_status_other [OF ok1 row1 row(2), of v] that show ?thesis by simp
  qed
  ultimately have "platform_change d c ?d2"
    using x(2) platform_only_trans [OF platform_only_writes(2) platform_only_writes(1)]
    by (auto simp: platform_change_def)
  then show "platform_change d c d'" by (rule platform_change_evidence [OF _ ev])
  show "platform_holds d u q" if "platform_holds d' u q"
  proof -
    have "platform_holds ?d2 u q" using that by (simp only: evidence_holds [OF ev])
    then have "platform_holds ?d1 u q" by (rule write_status_shrinks [rotated]) simp
    then show ?thesis by (rule revoke_grants_shrinks)
  qed
qed

lemma grant_holds:
  assumes "insert_grant d now i p actor = Inr (d', a)" "platform_holds d' u q"
  shows "platform_holds d u q \<or> q = p \<and> (\<exists>x \<in> set (platform_operators d). op_id x = i \<and>
    op_user_id x = u \<and> op_status x = OPERATOR_ACTIVE)"
proof -
  note new = insert_grant_ok [OF assms(1)]
  have users: "lock_user_is_active d' = lock_user_is_active d"
    by (rule lock_user_is_active_cong) (simp add: new(4))
  show ?thesis using assms(2) unfolding platform_holds_def users
    by (auto simp: new(4) live_grant_def)
qed

lemma grant_other:
  assumes "insert_grant d now i p actor = Inr (d', a)" "platform_ok d"
    and "x \<in> set (platform_operators d)" "op_id x = i" "op_user_id x \<noteq> u"
  shows "platform_holds d' u q = platform_holds d u q"
proof (rule platform_holds_local)
  fix y and g :: platform_grant
  assume "y \<in> set (platform_operators d)" "op_user_id y = u" "pg_operator_id g = op_id y"
  then have "pg_operator_id g \<noteq> i"
    using operator_unique [OF assms(2) _ assms(3)] assms(4,5) by auto
  then show "g \<in> set (platform_grants d') \<longleftrightarrow> g \<in> set (platform_grants d)"
    by (auto simp: insert_grant_ok(4) [OF assms(1)])
qed (simp_all add: insert_grant_ok(4) [OF assms(1)])

lemma grant_change:
  assumes "platform_ok d" "grant_in_transaction d now c i p reason = Inr (d', a)"
  shows "platform_change d c d'"
    and "platform_holds d' u q \<Longrightarrow> platform_holds d u q \<or> q = permission_value p \<and>
      (\<forall>v. acting_user_id c = Some v \<longrightarrow> platform_holds d v q)"
proof -
  obtain x d1 where x: "lock_operator d i = Inr x" "acting_user_id c \<noteq> Some (op_user_id x)"
      "op_status x \<noteq> OPERATOR_REVOKED"
    and held: "\<And>v. acting_user_id c = Some v \<Longrightarrow> platform_can d v p = Inr True"
    and ins: "insert_grant d now i (permission_value p) (acting_user_id c) = Inr (d1, a)"
    and ev: "evidence_only d1 d'"
    using assms(2) by (auto simp: grant_in_transaction_def bind_simps
        dest: record_operator_event_frame split: option.splits)
  note row = lock_operator_ok [OF x(1)]
  have "platform_only d d1" by (simp add: insert_grant_ok(1,4) [OF ins] platform_only_def)
  moreover have "platform_ok d1" by (rule insert_grant_platform_ok [OF assms(1) ins row x(3)])
  moreover have "platform_holds d1 v q = platform_holds d v q" if "acting_user_id c = Some v" for v q
    by (rule grant_other [OF ins assms(1) row]) (use x(2) that in auto)
  ultimately have "platform_change d c d1" by (simp add: platform_change_def)
  then show "platform_change d c d'" by (rule platform_change_evidence [OF _ ev])
  show "platform_holds d u q \<or> q = permission_value p \<and>
      (\<forall>v. acting_user_id c = Some v \<longrightarrow> platform_holds d v q)" if "platform_holds d' u q"
  proof -
    have "platform_holds d1 u q" using that by (simp only: evidence_holds [OF ev])
    then show ?thesis
      using grant_holds [OF ins] held platform_decide_iff [OF assms(1)] by fastforce
  qed
qed

lemma revoke_grant_change:
  assumes "platform_ok d" "revoke_grant_in_transaction d now c i p reason = Inr (d', a)"
  shows "platform_change d c d'" "platform_holds d' u q \<Longrightarrow> platform_holds d u q"
proof -
  obtain x grant where x: "lock_operator d i = Inr x" "acting_user_id c \<noteq> Some (op_user_id x)"
    and found: "one_or_none (filter (live_grant i (permission_value p)) (platform_grants d)) =
      Inr (Some grant)"
    and ev: "evidence_only (revoke_grants_where (\<lambda>g. pg_id g = pg_id grant) now c d) d'"
    using assms(2) record_operator_event_frame
    by (auto simp: revoke_grant_in_transaction_def bind_simps split: option.splits)
  note row = lock_operator_ok [OF x(1)]
  have grant: "grant \<in> set (platform_grants d)" "pg_operator_id grant = i"
  proof -
    have "grant \<in> set (filter (live_grant i (permission_value p)) (platform_grants d))"
      using found unfolding one_or_none_Some by (simp only: list.set_intros)
    then show "grant \<in> set (platform_grants d)" "pg_operator_id grant = i"
      by (simp_all add: live_grant_def)
  qed
  let ?d1 = "revoke_grants_where (\<lambda>g. pg_id g = pg_id grant) now c d"
  have "platform_holds ?d1 v q = platform_holds d v q" if "v \<noteq> op_user_id x" for v q
  proof (rule revoke_grants_other)
    fix y g
    assume y: "y \<in> set (platform_operators d)" "op_user_id y = v" "g \<in> set (platform_grants d)"
      "pg_operator_id g = op_id y"
    show "pg_id g \<noteq> pg_id grant"
    proof
      assume "pg_id g = pg_id grant"
      with platform_okD(3) [OF assms(1)] y(3) grant(1) have "g = grant"
        by (auto simp: distinct_map inj_on_def)
      with operator_unique [OF assms(1) y(1) row(1)] y(2,4) grant(2) row(2) that show False by simp
    qed
  qed
  then have "platform_change d c ?d1"
    using x(2) revoke_grants_platform_ok [OF assms(1)] by (auto simp: platform_change_def)
  then show "platform_change d c d'" by (rule platform_change_evidence [OF _ ev])
  show "platform_holds d u q" if "platform_holds d' u q"
    using that revoke_grants_shrinks by (simp only: evidence_holds [OF ev])
qed

subsection \<open>The interface every authority operation meets\<close>

locale authority_change =
  fixes run :: "db \<Rightarrow> caller \<Rightarrow> db \<times> (error + uuid)"
  assumes change: "platform_ok d \<Longrightarrow> run d c = (d', r) \<Longrightarrow> platform_change d c d'"
    and owner_kept: "run d c = (d', r) \<Longrightarrow> platform_owner_exists d \<Longrightarrow> platform_owner_exists d'"
    and failure: "run d c = (d', Inl e) \<Longrightarrow> evidence_only d d'"
begin

lemma keeps_platform_ok: "platform_ok d \<Longrightarrow> platform_ok (fst (run d c))"
  using change [of d c] by (cases "run d c") (simp add: platform_change_def)

lemma keeps_owner: "platform_owner_exists d \<Longrightarrow> platform_owner_exists (fst (run d c))"
  using owner_kept [of d c] by (cases "run d c") simp

lemma no_self_service:
  "platform_ok d \<Longrightarrow> platform_can (fst (run d (UserCaller u))) u p = platform_can d u p"
  using change [of d "UserCaller u"] platform_decide_iff
  by (cases "run d (UserCaller u)") (auto simp: platform_change_def acting_user_id_def)

lemma tenant_authority_untouched: "platform_ok d \<Longrightarrow> can (fst (run d c)) = can d"
  using change [of d c] by (cases "run d c") (auto simp: platform_change_def dest: platform_only_can)

lemma failure_changes_no_authority:
  assumes "snd (run d c) = Inl e"
  shows "platform_operators (fst (run d c)) = platform_operators d"
    "platform_grants (fst (run d c)) = platform_grants d"
  using failure [of d c "fst (run d c)" e] assms by (metis evidence_onlyD(2,3) prod.collapse)+

end

text \<open>Every operation of this module runs a body in the one transaction shape.\<close>

lemma authority_change_intro:
  assumes "\<And>d c. run d c = with_reason d operation c reason (\<lambda>value.
      run_authority d now operation c ty i u (body c value))"
    and "\<And>d c value d' a. platform_ok d \<Longrightarrow> body c value d = Inr (d', a) \<Longrightarrow> platform_change d c d'"
  shows "authority_change run"
proof
  fix d c d' r
  assume run: "run d c = (d', r)"
  show "platform_change d c d'" if "platform_ok d"
    using run that unfolding assms(1)
    by (elim with_reason_cases run_authority_cases) (auto dest: assms(2) failed_change intro: failed_change)
  show "platform_owner_exists d'" if "platform_owner_exists d"
    using run that unfolding assms(1)
    by (elim with_reason_cases run_authority_cases) (auto simp: evidence_owner)
next
  fix d c d' e
  assume run: "run d c = (d', Inl e)"
  then show "evidence_only d d'"
    unfolding assms(1) by (elim with_reason_cases run_authority_cases) auto
qed

interpretation enroll: authority_change "\<lambda>d c. enroll_operator d now c user_id reason"
  for now user_id reason
  by (rule authority_change_intro [OF enroll_operator_def]) (rule enroll_change)

interpretation suspend: authority_change "\<lambda>d c. suspend_operator d now c operator_id reason"
  for now operator_id reason
  by (rule authority_change_intro [OF suspend_operator_def])
    (unfold suspend_in_transaction_def, rule set_status_change(1), assumption+, simp_all)

interpretation reactivate: authority_change "\<lambda>d c. reactivate_operator d now c operator_id reason"
  for now operator_id reason
  by (rule authority_change_intro [OF reactivate_operator_def])
    (rule set_status_change(1), assumption+, simp_all)

interpretation revoke_op: authority_change "\<lambda>d c. revoke_operator d now c operator_id reason"
  for now operator_id reason
  by (rule authority_change_intro [OF revoke_operator_def]) (rule revoke_operator_change)

interpretation grant_perm: authority_change
  "\<lambda>d c. grant_platform_permission d now c operator_id permission reason"
  for now operator_id permission reason
  by (rule authority_change_intro [OF grant_platform_permission_def]) (rule grant_change)

interpretation revoke_perm: authority_change
  "\<lambda>d c. revoke_platform_permission d now c operator_id permission reason"
  for now operator_id permission reason
  by (rule authority_change_intro [OF revoke_platform_permission_def]) (rule revoke_grant_change)

subsection \<open>Requests and histories\<close>

text \<open>A request is a call of one of the six operations; a history is a sequence of them.\<close>

datatype authority_request = Enroll uuid | Suspend uuid | Reactivate uuid | Revoke uuid
  | Grant uuid platform_permission | Revoke_Grant uuid platform_permission

fun perform :: "authority_request \<Rightarrow> db \<Rightarrow> datetime \<Rightarrow> caller \<Rightarrow> string \<Rightarrow> db \<times> (error + uuid)" where
  "perform (Enroll u) d now c reason = enroll_operator d now c u reason"
| "perform (Suspend i) d now c reason = suspend_operator d now c i reason"
| "perform (Reactivate i) d now c reason = reactivate_operator d now c i reason"
| "perform (Revoke i) d now c reason = revoke_operator d now c i reason"
| "perform (Grant i p) d now c reason = grant_platform_permission d now c i p reason"
| "perform (Revoke_Grant i p) d now c reason = revoke_platform_permission d now c i p reason"

fun perform_all :: "db \<Rightarrow> (authority_request \<times> datetime \<times> caller \<times> string) list \<Rightarrow> db" where
  "perform_all d [] = d"
| "perform_all d ((r, now, c, reason) # calls) = perform_all (fst (perform r d now c reason)) calls"

interpretation any_request: authority_change "\<lambda>d c. perform r d now c reason"
  for r now reason
  by (cases r)
    (simp_all add: enroll.authority_change_axioms suspend.authority_change_axioms
      reactivate.authority_change_axioms revoke_op.authority_change_axioms
      grant_perm.authority_change_axioms revoke_perm.authority_change_axioms)

text \<open>The body behind a request, and its operation key.\<close>

fun request_key :: "authority_request \<Rightarrow> string" where
  "request_key (Enroll _) = OPERATOR_ENROLL"
| "request_key (Suspend _) = OPERATOR_SUSPEND"
| "request_key (Reactivate _) = OPERATOR_REACTIVATE"
| "request_key (Revoke _) = OPERATOR_REVOKE"
| "request_key (Grant _ _) = GRANT_CREATE"
| "request_key (Revoke_Grant _ _) = GRANT_REVOKE"

fun request_body :: "authority_request \<Rightarrow> datetime \<Rightarrow> caller \<Rightarrow> string \<Rightarrow> db \<Rightarrow> error + (db \<times> uuid)" where
  "request_body (Enroll u) now c reason d = enroll_in_transaction d now c u reason"
| "request_body (Suspend i) now c reason d = suspend_in_transaction d now c i reason"
| "request_body (Reactivate i) now c reason d =
     set_status d now OPERATOR_REACTIVATE c i OPERATOR_SUSPENDED OPERATOR_ACTIVE reason"
| "request_body (Revoke i) now c reason d = revoke_in_transaction d now c i reason"
| "request_body (Grant i p) now c reason d = grant_in_transaction d now c i p reason"
| "request_body (Revoke_Grant i p) now c reason d = revoke_grant_in_transaction d now c i p reason"

fun request_target :: "authority_request \<Rightarrow> string \<times> uuid option \<times> uuid option" where
  "request_target (Enroll u) = (''user'', None, Some u)"
| "request_target (Suspend i) = (''platform_operator'', Some i, None)"
| "request_target (Reactivate i) = (''platform_operator'', Some i, None)"
| "request_target (Revoke i) = (''platform_operator'', Some i, None)"
| "request_target (Grant i _) = (''platform_operator'', Some i, None)"
| "request_target (Revoke_Grant i _) = (''platform_operator'', Some i, None)"

lemma perform_eq:
  "perform r d now c reason = with_reason d (request_key r) c reason (\<lambda>value.
     run_authority d now (request_key r) c (fst (request_target r)) (fst (snd (request_target r)))
       (snd (snd (request_target r))) (request_body r now c value))"
  by (cases r) (simp_all only: perform.simps request_key.simps request_target.simps fst_conv snd_conv
      request_body.simps [abs_def] enroll_operator_def suspend_operator_def reactivate_operator_def
      revoke_operator_def grant_platform_permission_def revoke_platform_permission_def)

lemma perform_done:
  assumes "perform r d now c reason = (d', Inr a)"
  shows "request_body r now c (strip reason) d = Inr (d', a)"
    "is_ok (authorize_platform_caller d c (request_key r))"
  using assms unfolding perform_eq by (elim with_reason_cases run_authority_cases; simp)+

definition authority_row :: "string \<Rightarrow> bool" where
  "authority_row key = (case platform_operation key of Inl _ \<Rightarrow> False | Inr spec \<Rightarrow>
     po_permission spec = Some P_AUTHORITY_MANAGE \<and>
     list_all (\<lambda>a. a = PLATFORM_BOOTSTRAP) (po_system_authorities spec) \<and>
     action_matches (po_audit_action spec) \<and> length (po_audit_action spec) \<le> 200)"

lemma authority_rows:
  "authority_row OPERATOR_ENROLL" "authority_row OPERATOR_SUSPEND" "authority_row OPERATOR_REACTIVATE"
  "authority_row OPERATOR_REVOKE" "authority_row GRANT_CREATE" "authority_row GRANT_REVOKE"
  by code_simp+

lemma request_spec:
  obtains spec where "platform_operation (request_key r) = Inr spec"
    "po_permission spec = Some P_AUTHORITY_MANAGE"
    "set (po_system_authorities spec) \<subseteq> {PLATFORM_BOOTSTRAP}"
    "action_matches (po_audit_action spec)" "length (po_audit_action spec) \<le> 200"
proof -
  have "authority_row (request_key r)"
    by (cases r) (simp_all only: request_key.simps authority_rows)
  then show ?thesis
    by (intro that [of "projr (platform_operation (request_key r))"])
      (auto simp: authority_row_def list_all_iff split: sum.splits)
qed

lemma perform_authorized:
  assumes "platform_ok d" "perform r d now c reason = (d', Inr a)"
  shows "(\<exists>u. c = UserCaller u \<and> platform_holds d u (permission_value P_AUTHORITY_MANAGE)) \<or>
    c = SystemCaller PLATFORM_BOOTSTRAP"
proof -
  obtain spec where "platform_operation (request_key r) = Inr spec"
    "po_permission spec = Some P_AUTHORITY_MANAGE"
    "set (po_system_authorities spec) \<subseteq> {PLATFORM_BOOTSTRAP}"
    by (rule request_spec)
  with perform_done(2) [OF assms(2)] platform_decide_iff [OF assms(1)] show ?thesis
    by (cases c) (auto simp: authorize_platform_caller_def is_ok_iff split: option.splits)
qed

subsection \<open>Operators along a history\<close>

definition operator_transition :: "operator_status \<Rightarrow> operator_status \<Rightarrow> bool" where
  "operator_transition s s' = (s = s' \<or> s \<noteq> OPERATOR_REVOKED)"

definition operators_kept :: "db \<Rightarrow> db \<Rightarrow> bool" where
  "operators_kept d d' = (\<forall>x \<in> set (platform_operators d). \<exists>y \<in> set (platform_operators d').
     op_id y = op_id x \<and> op_user_id y = op_user_id x \<and>
     operator_transition (op_status x) (op_status y))"

lemma operators_kept_same: "platform_operators d' = platform_operators d \<Longrightarrow> operators_kept d d'"
  by (auto simp: operators_kept_def operator_transition_def)

lemma operators_kept_trans: "operators_kept d1 d2 \<Longrightarrow> operators_kept d2 d3 \<Longrightarrow> operators_kept d1 d3"
  unfolding operators_kept_def operator_transition_def by metis

lemma write_status_kept:
  assumes "platform_ok d" "x \<in> set (platform_operators d)" "op_id x = i" "op_status x \<noteq> OPERATOR_REVOKED"
  shows "operators_kept d (write_status d now c i s)"
  unfolding operators_kept_def
proof
  fix y
  assume y: "y \<in> set (platform_operators d)"
  show "\<exists>z \<in> set (platform_operators (write_status d now c i s)). op_id z = op_id y \<and>
      op_user_id z = op_user_id y \<and> operator_transition (op_status y) (op_status z)"
    using operator_unique [OF assms(1) y assms(2)] assms(3,4) y
    by (intro bexI [of _ "if op_id y = i then y\<lparr>op_status := s, op_status_changed_at := now,
        op_status_changed_by_user_id := acting_user_id c\<rparr> else y"])
      (auto simp: write_status_operators operator_transition_def)
qed

lemma set_status_kept:
  assumes "platform_ok d" "set_status d now operation c i expected new reason = Inr (d', a)"
    and "expected \<noteq> OPERATOR_REVOKED"
  shows "operators_kept d d'"
proof -
  obtain x where x: "lock_operator d i = Inr x" "op_status x = expected"
    and ev: "evidence_only (write_status d now c i new) d'"
    using assms(2) by (auto simp: set_status_def bind_simps dest: record_operator_event_frame)
  have "operators_kept d (write_status d now c i new)"
    by (rule write_status_kept [OF assms(1) lock_operator_ok [OF x(1)]]) (use x(2) assms(3) in simp)
  then show ?thesis
    by (rule operators_kept_trans) (rule operators_kept_same [OF evidence_onlyD(2) [OF ev]])
qed

lemma enroll_kept:
  assumes "enroll_in_transaction d now c u reason = Inr (d', a)"
  shows "operators_kept d d'"
proof -
  obtain d1 where ins: "insert_operator d now u (acting_user_id c) = Inr (d1, a)"
    and ev: "evidence_only d1 d'"
    using assms by (auto simp: enroll_in_transaction_def dest: record_operator_event_frame)
  have "operators_kept d d1"
    by (auto simp: insert_operator_ok(4) [OF ins] operators_kept_def operator_transition_def)
  then show ?thesis
    by (rule operators_kept_trans) (rule operators_kept_same [OF evidence_onlyD(2) [OF ev]])
qed

lemma revoke_kept:
  assumes "platform_ok d" "revoke_in_transaction d now c i reason = Inr (d', a)"
  shows "operators_kept d d'"
proof -
  let ?d1 = "revoke_grants_where (\<lambda>g. pg_operator_id g = i \<and> pg_revoked_at g = None) now c d"
  obtain x where x: "lock_operator d i = Inr x" "op_status x \<noteq> OPERATOR_REVOKED"
    and ev: "evidence_only (write_status ?d1 now c i OPERATOR_REVOKED) d'"
    using assms(2) by (auto simp: revoke_in_transaction_def bind_simps dest: record_operator_event_frame)
  have "operators_kept d ?d1" by (rule operators_kept_same) simp
  moreover have "operators_kept ?d1 (write_status ?d1 now c i OPERATOR_REVOKED)"
    by (rule write_status_kept [OF revoke_grants_platform_ok [OF assms(1)] _ lock_operator_ok(2) [OF x(1)] x(2)])
      (simp add: lock_operator_ok(1) [OF x(1)])
  ultimately show ?thesis
    using operators_kept_same [OF evidence_onlyD(2) [OF ev]] operators_kept_trans by blast
qed

lemma grant_kept:
  "grant_in_transaction d now c i p reason = Inr (d', a) \<Longrightarrow> operators_kept d d'"
  by (auto simp: grant_in_transaction_def intro!: operators_kept_same split: option.splits
      dest!: record_operator_event_frame evidence_onlyD(2) insert_grant_ok(4))

lemma revoke_grant_kept:
  "revoke_grant_in_transaction d now c i p reason = Inr (d', a) \<Longrightarrow> operators_kept d d'"
  by (auto simp: revoke_grant_in_transaction_def intro!: operators_kept_same split: option.splits
      dest!: record_operator_event_frame evidence_onlyD(2))

lemma request_kept:
  assumes "platform_ok d" "request_body r now c reason d = Inr (d', a)"
  shows "operators_kept d d'"
proof (cases r)
  case (Suspend i)
  with assms show ?thesis
    by (intro set_status_kept [OF assms(1)]) (auto simp: suspend_in_transaction_def)
next
  case (Reactivate i)
  with assms(2) show ?thesis by (intro set_status_kept [OF assms(1)]) auto
qed (use assms in \<open>auto intro: enroll_kept revoke_kept grant_kept revoke_grant_kept\<close>)

lemma perform_kept: "platform_ok d \<Longrightarrow> operators_kept d (fst (perform r d now c reason))"
proof (cases "snd (perform r d now c reason)")
  case (Inl e)
  then show ?thesis by (intro operators_kept_same any_request.failure_changes_no_authority(1))
next
  case (Inr a)
  assume "platform_ok d"
  then show ?thesis
    using request_kept [OF _ perform_done(1)] Inr by (metis prod.collapse)
qed

subsection \<open>Properties\<close>

text \<open>
  A deployment with two operators: user 10 owns the platform and may create tenants, user
  11 is suspended and holds the audit read; user 12 has an external identity and no
  operator.
\<close>

definition mk_operator :: "uuid \<Rightarrow> uuid \<Rightarrow> operator_status \<Rightarrow> platform_operator" where
  "mk_operator i u s = \<lparr>op_id = i, op_user_id = u, op_status = s, op_enrolled_by_user_id = None,
     op_status_changed_at = 0, op_status_changed_by_user_id = None\<rparr>"

definition mk_grant :: "uuid \<Rightarrow> uuid \<Rightarrow> platform_permission \<Rightarrow> platform_grant" where
  "mk_grant i x p = \<lparr>pg_id = i, pg_operator_id = x, pg_permission = permission_value p,
     pg_granted_by_user_id = None, pg_granted_at = 0, pg_revoked_at = None,
     pg_revoked_by_user_id = None\<rparr>"

definition platform_db :: db where
  "platform_db = sample_db\<lparr>
     platform_operators := [mk_operator 200 10 OPERATOR_ACTIVE, mk_operator 201 11 OPERATOR_SUSPENDED],
     platform_grants := [mk_grant 210 200 P_AUTHORITY_MANAGE, mk_grant 211 200 P_TENANT_CREATE,
       mk_grant 212 201 P_AUDIT_READ],
     external_identities := [\<lparr>ei_id = 220, ei_user_id = 12, ei_issuer = ''i'', ei_subject = ''s''\<rparr>]\<rparr>"

lemma perform_all_change:
  "platform_ok d \<Longrightarrow> platform_ok (perform_all d calls) \<and> can (perform_all d calls) = can d \<and>
    operators_kept d (perform_all d calls)"
proof (induction d calls rule: perform_all.induct)
  case (2 d r now c reason calls)
  have "platform_ok (fst (perform r d now c reason))"
    by (rule any_request.keeps_platform_ok [OF "2.prems"])
  with "2.IH" any_request.tenant_authority_untouched [OF "2.prems"]
    operators_kept_trans [OF perform_kept [OF "2.prems"]] show ?case
    unfolding perform_all.simps by metis
qed (simp add: operators_kept_same)

lemma perform_all_owner:
  "platform_owner_exists d \<Longrightarrow> platform_owner_exists (perform_all d calls)"
  by (induction d calls rule: perform_all.induct) (simp_all add: any_request.keeps_owner)

text \<open>C10: The platform is never locked out: whatever sequence of the six authority operations
  is called, by whatever callers and with whatever outcome, a deployment that had an active
  platform owner still has one, its tables stay well formed, and no decision about tenant
  authority changes.\<close>

theorem platform_owner_survives_history:
  assumes "platform_ok d" "platform_owner_exists d"
  shows "platform_owner_exists (perform_all d calls) \<and> platform_ok (perform_all d calls) \<and>
    can (perform_all d calls) = can d"
  using perform_all_change [OF assms(1)] perform_all_owner [OF assms(2)] by blast

theorem platform_owner_survives_history_witness:
  "let d = perform_all platform_db [(Enroll 12, 5, UserCaller 10, ''new''),
       (Suspend 200, 6, SystemCaller PLATFORM_BOOTSTRAP, ''lost key''),
       (Revoke 200, 7, UserCaller 10, ''leaving'')]
   in platform_owner_exists d \<and> platform_ok d \<and> can d = can platform_db"
  unfolding Let_def by (rule platform_owner_survives_history; code_simp)

text \<open>C11: No self-service: no platform authority operation called by a person changes what that
  same person may do on the platform, whichever operator or permission it names.\<close>

theorem no_platform_self_service:
  assumes "platform_ok d"
  shows "platform_can (fst (perform r d now (UserCaller u) reason)) u p = platform_can d u p"
  using any_request.no_self_service [OF assms] .

theorem no_platform_self_service_witness:
  "platform_can (fst (perform (Grant 200 P_AUDIT_READ) platform_db 5 (UserCaller 10) ''x'')) 10
     P_AUDIT_READ = platform_can platform_db 10 P_AUDIT_READ"
  by (rule no_platform_self_service) code_simp

text \<open>Anti-amplification: if an operation called by a person, other than the reactivation of
  a suspended operator, makes anyone able to use a permission they could not use before, then
  the caller held that permission and \<open>platform.authority:manage\<close> when it was called.\<close>

theorem platform_no_amplification:
  assumes "platform_ok d" "perform r d now (UserCaller u) reason = (d', res)"
    and "\<forall>i. r \<noteq> Reactivate i"
    and "platform_can d v q = Inr False" "platform_can d' v q = Inr True"
  shows "platform_can d u q = Inr True \<and> platform_can d u P_AUTHORITY_MANAGE = Inr True"
proof (cases res)
  case (Inl e)
  with assms(2) have "evidence_only d d'" by (intro any_request.failure) simp
  then have "platform_can d' v q = platform_can d v q"
    using platform_decide_iff [OF assms(1)] platform_decide_iff [OF evidence_ok [OF _ assms(1)]]
    by (simp add: evidence_holds)
  with assms(4,5) show ?thesis by simp
next
  case (Inr a)
  have body: "request_body r now (UserCaller u) (strip reason) d = Inr (d', a)"
    using perform_done(1) assms(2) Inr by blast
  have "platform_ok d'"
    using any_request.keeps_platform_ok [OF assms(1), of r now "UserCaller u" reason] assms(2) by simp
  with assms(1,4,5) have gain: "platform_holds d' v (permission_value q)"
      "\<not> platform_holds d v (permission_value q)"
    using platform_decide_iff by auto
  have "platform_holds d u (permission_value q)"
  proof (cases r)
    case (Grant i p)
    with body grant_change(2) [OF assms(1)] gain show ?thesis by (fastforce simp: acting_user_id_def)
  next
    case (Suspend i)
    with body gain show ?thesis
      using set_status_change(2) [OF assms(1)] by (fastforce simp: suspend_in_transaction_def)
  next
    case (Enroll w)
    with body gain show ?thesis by (simp add: enroll_change(2) [OF assms(1)])
  next
    case (Revoke i)
    with body gain show ?thesis using revoke_operator_change(2) [OF assms(1)] by fastforce
  next
    case (Revoke_Grant i p)
    with body gain show ?thesis using revoke_grant_change(2) [OF assms(1)] by fastforce
  qed (use assms(3) in simp)
  then show ?thesis
    using perform_authorized [OF assms(1)] assms(2) Inr platform_decide_iff [OF assms(1)] by fastforce
qed

text \<open>Operator rows are never lost and \<open>revoked\<close> is terminal: after any sequence of
  operations every operator is still there, for the same user, and one that was revoked still
  is and has no live grant, so a person is given authority again only through a new operator
  row.\<close>

theorem revoked_operator_is_terminal:
  assumes "platform_ok d" "x \<in> set (platform_operators d)"
  shows "\<exists>y \<in> set (platform_operators (perform_all d calls)). op_id y = op_id x \<and>
    op_user_id y = op_user_id x \<and>
    (op_status x = OPERATOR_REVOKED \<longrightarrow> op_status y = OPERATOR_REVOKED \<and>
      (\<forall>g \<in> set (platform_grants (perform_all d calls)). \<forall>p. \<not> live_grant (op_id y) p g))"
proof -
  have "operators_kept d (perform_all d calls)" using perform_all_change [OF assms(1)] by blast
  then obtain y where y: "y \<in> set (platform_operators (perform_all d calls))" "op_id y = op_id x"
    "op_user_id y = op_user_id x" "operator_transition (op_status x) (op_status y)"
    using assms(2) by (auto simp: operators_kept_def)
  have "platform_ok (perform_all d calls)" using perform_all_change [OF assms(1)] by blast
  then have "op_status y = OPERATOR_REVOKED \<Longrightarrow>
      \<forall>g \<in> set (platform_grants (perform_all d calls)). \<forall>p. \<not> live_grant (op_id y) p g"
    using y(1) by (auto simp: platform_ok_def live_grant_def)
  with y show ?thesis by (auto simp: operator_transition_def intro!: bexI [of _ y])
qed

end
