(* ===== verification/Platform_Bootstrap.thy ===== *)
theory Platform_Bootstrap
  imports Platform_Authority
begin

section \<open>Owner bootstrap and recovery\<close>

text \<open>
  \<open>saas_os/core/platform_authority/bootstrap.py\<close>: the two composites of the operator command,
  each one authority transaction of several operations, and the identity helpers they call
  (\<open>saas_os/core/identity/service.py\<close>), which create a user and its external identity inside
  that transaction. The theory also proves what a refusal of the ordinary operations leaves
  behind. An \<open>OperatorIdentity\<close> is validated when it is constructed. The function that creates a user
  takes what other transactions commit between its statements; the composites run it with
  nothing in between, so no first login of the same person is concurrent with them.
\<close>

subsection \<open>External identities\<close>

definition MAX_ISSUER_LENGTH :: nat where "MAX_ISSUER_LENGTH = 2048"

definition MAX_SUBJECT_LENGTH :: nat where "MAX_SUBJECT_LENGTH = 255"

datatype operator_subject = User_Id uuid | Operator_Identity string string

text \<open>The constructor of \<open>OperatorIdentity\<close>.\<close>

definition operator_identity :: "string \<Rightarrow> string \<Rightarrow> error + operator_subject" where
  "operator_identity issuer subject =
     (if is_blank issuer \<or> length issuer > MAX_ISSUER_LENGTH \<or>
         is_blank subject \<or> length subject > MAX_SUBJECT_LENGTH
      then Inl InvalidPlatformRequestError else Inr (Operator_Identity issuer subject))"

text \<open>A text PostgreSQL takes: it refuses the character NUL in every text, and a text too long for its
  column.\<close>

definition text_parameter :: "string \<Rightarrow> bool" where
  "text_parameter s = (CHR 0x00 \<notin> set s)"

definition fits_column :: "nat \<Rightarrow> string \<Rightarrow> bool" where
  "fits_column n s = (text_parameter s \<and> length s \<le> n)"

definition find_user_id_for_external_identity_in_transaction ::
  "db \<Rightarrow> string \<Rightarrow> string \<Rightarrow> error + uuid option" where
  "find_user_id_for_external_identity_in_transaction d issuer subject =
     ebind (require (text_parameter issuer \<and> text_parameter subject) DataError) (\<lambda>_.
     ebind (one_or_none (filter (\<lambda>x. ei_issuer x = issuer \<and> ei_subject x = subject)
       (external_identities d))) (\<lambda>row. Inr (map_option ei_user_id row)))"

text \<open>The savepoint: a user and its identity, or an error and neither.\<close>

definition insert_user_with_identity :: "db \<Rightarrow> string \<Rightarrow> string \<Rightarrow> error + (db \<times> uuid)" where
  "insert_user_with_identity d issuer subject =
     (let (user_id, d1) = take_uuid d; (link_id, d2) = take_uuid d1 in
      if \<not> (fits_column 2048 issuer \<and> fits_column 255 subject) then Inl DataError
      else if list_ex (\<lambda>x. ei_issuer x = issuer \<and> ei_subject x = subject) (external_identities d)
      then Inl IntegrityError
      else Inr (d2\<lparr>users := users d2 @ [\<lparr>us_id = user_id, us_is_active = True\<rparr>],
        external_identities := external_identities d2 @ [\<lparr>ei_id = link_id, ei_user_id = user_id,
          ei_issuer = issuer, ei_subject = subject\<rparr>]\<rparr>, user_id))"

text \<open>What other transactions commit after the first read, and after a conflict, is given by the two
  functions on the store.\<close>

definition get_or_create_user_id_for_external_identity_in_transaction ::
  "(db \<Rightarrow> db) \<Rightarrow> (db \<Rightarrow> db) \<Rightarrow> db \<Rightarrow> string \<Rightarrow> string \<Rightarrow> error + (db \<times> uuid)" where
  "get_or_create_user_id_for_external_identity_in_transaction after_read after_conflict d issuer subject =
     ebind (find_user_id_for_external_identity_in_transaction d issuer subject) (\<lambda>existing.
     case existing of
       Some user_id \<Rightarrow> Inr (d, user_id)
     | None \<Rightarrow> (let d1 = after_read d in
         case insert_user_with_identity d1 issuer subject of
           Inr created \<Rightarrow> Inr created
         | Inl e \<Rightarrow>
             if e \<noteq> IntegrityError then Inl e
             else (let d2 = after_conflict d1 in
               ebind (find_user_id_for_external_identity_in_transaction d2 issuer subject) (\<lambda>existing.
               case existing of
                 None \<Rightarrow> Inl (DuplicateExternalIdentityError issuer subject)
               | Some user_id \<Rightarrow> Inr (d2, user_id)))))"

fun find_user :: "db \<Rightarrow> operator_subject \<Rightarrow> error + uuid option" where
  "find_user d (User_Id u) = Inr (Some u)"
| "find_user d (Operator_Identity issuer subject) =
     find_user_id_for_external_identity_in_transaction d issuer subject"

fun resolve_user :: "db \<Rightarrow> operator_subject \<Rightarrow> error + (db \<times> uuid)" where
  "resolve_user d (User_Id u) = Inr (d, u)"
| "resolve_user d (Operator_Identity issuer subject) =
     get_or_create_user_id_for_external_identity_in_transaction id id d issuer subject"

subsection \<open>The composites\<close>

abbreviation PLATFORM_BOOTSTRAP_COMPOSITE :: string where
  "PLATFORM_BOOTSTRAP_COMPOSITE \<equiv> ''platform.bootstrap''"

abbreviation PLATFORM_RECOVER_COMPOSITE :: string where
  "PLATFORM_RECOVER_COMPOSITE \<equiv> ''platform.recover''"

text \<open>One \<open>denied\<close> row under the action of a declared operation.\<close>

definition record_composite_refusal ::
  "db \<Rightarrow> datetime \<Rightarrow> caller \<Rightarrow> string \<Rightarrow> uuid option \<Rightarrow> string \<Rightarrow> db" where
  "record_composite_refusal d now c operation target_id code =
     (case platform_operation operation of
        Inl _ \<Rightarrow> d
      | Inr spec \<Rightarrow> record_platform_refusal d now c (po_audit_action spec) ''platform_operator''
          target_id None code)"

definition require_bootstrap_caller ::
  "db \<Rightarrow> datetime \<Rightarrow> string \<Rightarrow> caller \<Rightarrow> string \<Rightarrow> db \<times> (error + unit)" where
  "require_bootstrap_caller d now composite c refused_operation =
     (case require_caller composite c [SystemCallerType] of
        Inl e \<Rightarrow> (d, Inl e)
      | Inr _ \<Rightarrow> if c \<noteq> SystemCaller PLATFORM_BOOTSTRAP
          then (record_composite_refusal d now c refused_operation None ''not_authorized'',
                Inl (PlatformNotAuthorizedError composite))
          else (d, Inr ()))"

definition validated_permissions ::
  "platform_permission list \<Rightarrow> bool \<Rightarrow> error + platform_permission list" where
  "validated_permissions perms require_owner =
     (if \<not> distinct perms then Inl InvalidPlatformRequestError
      else if require_owner \<and> OWNER_PERMISSION \<notin> set perms
        then Inl InvalidPlatformRequestError
      else Inr perms)"

definition live_permissions :: "db \<Rightarrow> uuid \<Rightarrow> string set" where
  "live_permissions d operator_id = set (map pg_permission (filter (\<lambda>g.
     pg_operator_id g = operator_id \<and> pg_revoked_at g = None) (platform_grants d)))"

fun grant_each ::
  "db \<Rightarrow> datetime \<Rightarrow> caller \<Rightarrow> uuid \<Rightarrow> platform_permission list \<Rightarrow> string \<Rightarrow> error + db" where
  "grant_each d now c operator_id [] reason = Inr d"
| "grant_each d now c operator_id (p # ps) reason =
     ebind (grant_in_transaction d now c operator_id p reason) (\<lambda>(d1, _).
     grant_each d1 now c operator_id ps reason)"

record bootstrap_result =
  br_operator_id :: uuid
  br_user_id :: uuid
  br_permissions :: "string list"
  br_created :: bool

definition bootstrap_body ::
  "datetime \<Rightarrow> caller \<Rightarrow> operator_subject \<Rightarrow> platform_permission list \<Rightarrow> string \<Rightarrow> db
    \<Rightarrow> error + (db \<times> bootstrap_result)" where
  "bootstrap_body now c owner requested reason d =
     (case take 2 (platform_operators d) of
        only # others \<Rightarrow>
          ebind (find_user d owner) (\<lambda>known_user_id.
          if others = [] \<and> known_user_id = Some (op_user_id only) \<and>
             op_status only = OPERATOR_ACTIVE \<and>
             live_permissions d (op_id only) = set (map permission_value requested)
          then Inr (d, \<lparr>br_operator_id = op_id only, br_user_id = op_user_id only,
            br_permissions = map permission_value requested, br_created = False\<rparr>)
          else Inl PlatformAlreadyBootstrappedError)
      | [] \<Rightarrow>
          ebind (resolve_user d owner) (\<lambda>(d1, user_id).
          ebind (enroll_in_transaction d1 now c user_id reason) (\<lambda>(d2, operator_id).
          ebind (grant_each d2 now c operator_id requested reason) (\<lambda>d3.
          Inr (d3, \<lparr>br_operator_id = operator_id, br_user_id = user_id,
            br_permissions = map permission_value requested, br_created = True\<rparr>)))))"

text \<open>A composite's transaction, whose refusal is recorded under one operation's action.\<close>

definition run_composite ::
  "db \<Rightarrow> datetime \<Rightarrow> caller \<Rightarrow> string list \<Rightarrow> string \<Rightarrow> uuid option
    \<Rightarrow> (db \<Rightarrow> error + (db \<times> 'a)) \<Rightarrow> db \<times> (error + 'a)" where
  "run_composite d now c operations recorded target_id body =
     (case authority_transaction d operations c body of
        Inr (d', a) \<Rightarrow> (d', Inr a)
      | Inl e \<Rightarrow> (case refusal_code e of
          None \<Rightarrow> (d, Inl e)
        | Some code \<Rightarrow> (record_composite_refusal d now c recorded target_id code, Inl e)))"

definition bootstrap_platform_owner ::
  "db \<Rightarrow> datetime \<Rightarrow> caller \<Rightarrow> operator_subject \<Rightarrow> platform_permission list \<Rightarrow> string
    \<Rightarrow> db \<times> (error + bootstrap_result)" where
  "bootstrap_platform_owner d now c owner perms reason =
     (case require_bootstrap_caller d now PLATFORM_BOOTSTRAP_COMPOSITE c OPERATOR_ENROLL of
        (d', Inl e) \<Rightarrow> (d', Inl e)
      | (_, Inr _) \<Rightarrow>
        (case ebind (validated_permissions perms True) (\<lambda>requested.
           ebind (validate_reason reason) (\<lambda>value. Inr (requested, value))) of
           Inl e \<Rightarrow> (d, Inl e)
         | Inr (requested, value) \<Rightarrow>
             run_composite d now c [OPERATOR_ENROLL, GRANT_CREATE] OPERATOR_ENROLL None
               (bootstrap_body now c owner requested value)))"

record recovery_result =
  rr_enrolled_operator_id :: "uuid option"
  rr_enrolled_user_id :: "uuid option"
  rr_enrolled :: bool
  rr_granted :: "string list"
  rr_suspended_operator_id :: "uuid option"

fun grant_missing ::
  "db \<Rightarrow> datetime \<Rightarrow> caller \<Rightarrow> uuid \<Rightarrow> string set \<Rightarrow> platform_permission list \<Rightarrow> string
    \<Rightarrow> error + (db \<times> string list)" where
  "grant_missing d now c operator_id held [] reason = Inr (d, [])"
| "grant_missing d now c operator_id held (p # ps) reason =
     (if permission_value p \<in> held then grant_missing d now c operator_id held ps reason
      else ebind (grant_in_transaction d now c operator_id p reason) (\<lambda>(d1, _).
        ebind (grant_missing d1 now c operator_id held ps reason) (\<lambda>(d2, granted).
        Inr (d2, permission_value p # granted))))"

text \<open>The operator recovery acts for: enrolled here, or active and reused.\<close>

definition recover_operator ::
  "datetime \<Rightarrow> caller \<Rightarrow> operator_subject \<Rightarrow> string \<Rightarrow> db \<Rightarrow> error + (db \<times> uuid \<times> uuid \<times> bool)" where
  "recover_operator now c enroll reason d =
     ebind (resolve_user d enroll) (\<lambda>(d1, user_id).
     ebind (one_or_none (live_operators d1 user_id)) (\<lambda>current. case current of
       None \<Rightarrow> ebind (enroll_in_transaction d1 now c user_id reason) (\<lambda>(d2, operator_id).
         Inr (d2, user_id, operator_id, True))
     | Some x \<Rightarrow>
         if op_status x = OPERATOR_ACTIVE
         then ebind (require (lock_external_identity_exists d1 user_id)
             (PlatformSubjectNotLinkedError OPERATOR_ENROLL user_id)) (\<lambda>_.
             Inr (d1, user_id, op_id x, False))
         else Inl (InvalidPlatformOperatorStateError (op_id x) (op_status x) OPERATOR_ENROLL)))"

definition recover_enrollment ::
  "datetime \<Rightarrow> caller \<Rightarrow> operator_subject option \<Rightarrow> platform_permission list \<Rightarrow> string \<Rightarrow> db
    \<Rightarrow> error + (db \<times> recovery_result)" where
  "recover_enrollment now c enroll requested reason d = (case enroll of
     None \<Rightarrow> Inr (d, \<lparr>rr_enrolled_operator_id = None, rr_enrolled_user_id = None,
       rr_enrolled = False, rr_granted = [], rr_suspended_operator_id = None\<rparr>)
   | Some subject \<Rightarrow>
       ebind (recover_operator now c subject reason d) (\<lambda>(d1, user_id, operator_id, enrolled).
       ebind (grant_missing d1 now c operator_id (live_permissions d1 operator_id) requested reason)
         (\<lambda>(d2, granted).
       Inr (d2, \<lparr>rr_enrolled_operator_id = Some operator_id, rr_enrolled_user_id = Some user_id,
         rr_enrolled = enrolled, rr_granted = granted, rr_suspended_operator_id = None\<rparr>))))"

definition recover_body ::
  "datetime \<Rightarrow> caller \<Rightarrow> operator_subject option \<Rightarrow> platform_permission list \<Rightarrow> uuid option \<Rightarrow> string
    \<Rightarrow> db \<Rightarrow> error + (db \<times> recovery_result)" where
  "recover_body now c enroll requested suspend_operator_id reason d =
     ebind (recover_enrollment now c enroll requested reason d) (\<lambda>(d1, result).
     case suspend_operator_id of
       None \<Rightarrow> Inr (d1, result)
     | Some i \<Rightarrow>
         if map_option op_status (find (\<lambda>x. op_id x = i) (platform_operators d1)) =
            Some OPERATOR_SUSPENDED
         then Inr (d1, result)
         else ebind (suspend_in_transaction d1 now c i reason) (\<lambda>(d2, _).
           Inr (d2, result\<lparr>rr_suspended_operator_id := Some i\<rparr>)))"

definition first_requested ::
  "uuid option \<Rightarrow> operator_subject option \<Rightarrow> platform_permission list \<Rightarrow> uuid option \<Rightarrow> string" where
  "first_requested enroll_user_id enroll_identity grant_permissions suspend_operator_id =
     (if enroll_user_id \<noteq> None \<or> enroll_identity \<noteq> None then OPERATOR_ENROLL
      else if suspend_operator_id \<noteq> None then OPERATOR_SUSPEND
      else if grant_permissions \<noteq> [] then GRANT_CREATE else OPERATOR_ENROLL)"

definition recover_arguments ::
  "uuid option \<Rightarrow> operator_subject option \<Rightarrow> platform_permission list \<Rightarrow> uuid option \<Rightarrow> string
    \<Rightarrow> error + (operator_subject option \<times> platform_permission list \<times> string \<times> string list)" where
  "recover_arguments enroll_user_id enroll_identity grant_permissions suspend_operator_id reason =
     ebind (validate_reason reason) (\<lambda>value.
     ebind (validated_permissions grant_permissions False) (\<lambda>requested.
     ebind (require (\<not> (enroll_user_id \<noteq> None \<and> enroll_identity \<noteq> None))
       InvalidPlatformRequestError) (\<lambda>_.
     let enroll = (case enroll_user_id of Some u \<Rightarrow> Some (User_Id u) | None \<Rightarrow> enroll_identity) in
     ebind (require (\<not> (enroll = None \<and> suspend_operator_id = None))
       InvalidPlatformRequestError) (\<lambda>_.
     ebind (require (\<not> (requested \<noteq> [] \<and> enroll = None)) InvalidPlatformRequestError) (\<lambda>_.
     Inr (enroll, requested, value,
       (if enroll \<noteq> None then [OPERATOR_ENROLL] else []) @
       (if requested \<noteq> [] then [GRANT_CREATE] else []) @
       (if suspend_operator_id \<noteq> None then [OPERATOR_SUSPEND] else [])))))))"

definition recover_platform_authority ::
  "db \<Rightarrow> datetime \<Rightarrow> caller \<Rightarrow> uuid option \<Rightarrow> operator_subject option \<Rightarrow> platform_permission list
    \<Rightarrow> uuid option \<Rightarrow> string \<Rightarrow> db \<times> (error + recovery_result)" where
  "recover_platform_authority d now c enroll_user_id enroll_identity grant_permissions
      suspend_operator_id reason =
     (case require_bootstrap_caller d now PLATFORM_RECOVER_COMPOSITE c
         (first_requested enroll_user_id enroll_identity grant_permissions suspend_operator_id) of
        (d', Inl e) \<Rightarrow> (d', Inl e)
      | (_, Inr _) \<Rightarrow>
        (case recover_arguments enroll_user_id enroll_identity grant_permissions suspend_operator_id
           reason of
           Inl e \<Rightarrow> (d, Inl e)
         | Inr (enroll, requested, value, operations) \<Rightarrow>
             run_composite d now c operations (last operations) suspend_operator_id
               (recover_body now c enroll requested suspend_operator_id value)))"

subsection \<open>What the composites leave alone\<close>

text \<open>
  Neither composite takes anything away: an operator keeps its row, its user and its status,
  except that an active one may be suspended, and no grant is revoked.
\<close>

definition additive :: "db \<Rightarrow> db \<Rightarrow> bool" where
  "additive d d' = ((\<forall>x \<in> set (platform_operators d). \<exists>y \<in> set (platform_operators d').
       op_id y = op_id x \<and> op_user_id y = op_user_id x \<and> (op_status y = op_status x \<or>
         op_status x = OPERATOR_ACTIVE \<and> op_status y = OPERATOR_SUSPENDED)) \<and>
     set (platform_grants d) \<subseteq> set (platform_grants d'))"

lemma additive_same:
  "platform_operators d' = platform_operators d \<Longrightarrow> set (platform_grants d) \<subseteq> set (platform_grants d') \<Longrightarrow>
    additive d d'"
  by (auto simp: additive_def)

lemma additive_refl [simp]: "additive d d"
  by (simp add: additive_same)

lemma additive_trans: "additive d1 d2 \<Longrightarrow> additive d2 d3 \<Longrightarrow> additive d1 d3"
  unfolding additive_def by (metis operator_status.distinct(1) subset_trans)

lemma additive_evidence: "evidence_only d d' \<Longrightarrow> additive d d'"
  by (rule additive_same) (simp_all add: evidence_onlyD)

lemma enroll_additive:
  assumes "enroll_in_transaction d now c u reason = Inr (d', i)"
  shows "additive d d'"
proof -
  obtain d1 where ins: "insert_operator d now u (acting_user_id c) = Inr (d1, i)"
    and ev: "evidence_only d1 d'"
    using assms by (auto simp: enroll_in_transaction_def dest: record_operator_event_frame)
  have "additive d d1" by (auto simp: insert_operator_ok(4) [OF ins] additive_def)
  then show ?thesis by (rule additive_trans) (rule additive_evidence [OF ev])
qed

lemma grant_additive: "grant_in_transaction d now c i p reason = Inr (d', a) \<Longrightarrow> additive d d'"
  by (auto simp: grant_in_transaction_def intro!: additive_same split: option.splits
      dest!: record_operator_event_frame insert_grant_ok(4) dest: evidence_onlyD)

lemma suspend_additive:
  assumes "platform_ok d" "suspend_in_transaction d now c i reason = Inr (d', a)"
  shows "additive d d'"
proof -
  obtain x where x: "lock_operator d i = Inr x" "op_status x = OPERATOR_ACTIVE"
    and ev: "evidence_only (write_status d now c i OPERATOR_SUSPENDED) d'"
    using assms(2) by (auto simp: suspend_in_transaction_def set_status_def bind_simps
        dest: record_operator_event_frame)
  note row = lock_operator_ok [OF x(1)]
  have "additive d (write_status d now c i OPERATOR_SUSPENDED)"
    unfolding additive_def
  proof (intro conjI ballI)
    fix y
    assume y: "y \<in> set (platform_operators d)"
    have "op_id y = i \<Longrightarrow> op_status y = OPERATOR_ACTIVE"
      using operator_unique [OF assms(1) y row(1)] row(2) x(2) by simp
    with y show "\<exists>z \<in> set (platform_operators (write_status d now c i OPERATOR_SUSPENDED)).
        op_id z = op_id y \<and> op_user_id z = op_user_id y \<and> (op_status z = op_status y \<or>
          op_status y = OPERATOR_ACTIVE \<and> op_status z = OPERATOR_SUSPENDED)"
      by (intro bexI [of _ "if op_id y = i then y\<lparr>op_status := OPERATOR_SUSPENDED,
          op_status_changed_at := now, op_status_changed_by_user_id := acting_user_id c\<rparr> else y"])
        (auto simp: write_status_operators)
  qed simp
  then show ?thesis by (rule additive_trans) (rule additive_evidence [OF ev])
qed

text \<open>Resolving a subject creates at most a user and its identity.\<close>

lemma resolve_user_frame:
  assumes "resolve_user d s = Inr (d1, u)"
  obtains "d1 = d"
  | us ei n where "d1 = d\<lparr>next_uuid := n, users := users d @ us, external_identities := ei\<rparr>"
      "next_uuid d \<le> n"
  using assms by (cases s)
    (auto simp: get_or_create_user_id_for_external_identity_in_transaction_def insert_user_with_identity_def
      take_uuid_def Let_def split: option.splits sum.splits if_splits)

text \<open>A first login of the same person that commits between the read and the insert: its user is
  returned, and nothing is created.\<close>

theorem concurrent_login_is_adopted:
  assumes "find_user_id_for_external_identity_in_transaction d issuer subject = Inr None"
    and "find_user_id_for_external_identity_in_transaction (login d) issuer subject = Inr (Some u)"
    and "fits_column 2048 issuer" "fits_column 255 subject"
  shows "get_or_create_user_id_for_external_identity_in_transaction login id d issuer subject = Inr (login d, u)"
proof -
  have "list_ex (\<lambda>x. ei_issuer x = issuer \<and> ei_subject x = subject) (external_identities (login d))"
  proof (rule ccontr)
    assume "\<not> ?thesis"
    then have "filter (\<lambda>x. ei_issuer x = issuer \<and> ei_subject x = subject) (external_identities (login d)) = []"
      by (auto simp: list_ex_iff filter_empty_conv)
    with assms(2) show False
      by (simp add: find_user_id_for_external_identity_in_transaction_def one_or_none_def)
  qed
  then show ?thesis using assms
    by (simp add: get_or_create_user_id_for_external_identity_in_transaction_def insert_user_with_identity_def
        take_uuid_def)
qed

lemma lock_user_append:
  "lock_user_is_active d v \<noteq> None \<Longrightarrow> users d' = users d @ us \<Longrightarrow>
    lock_user_is_active d' v = lock_user_is_active d v"
  by (auto simp: lock_user_is_active_def find_append split: option.splits)

lemma resolve_user_tables:
  assumes "resolve_user d s = Inr (d1, u)"
  shows "platform_operators d1 = platform_operators d" "platform_grants d1 = platform_grants d"
    "platform_audit_subject_links d1 = platform_audit_subject_links d" "next_uuid d \<le> next_uuid d1"
    "platform_audit_subject_erasures d1 = platform_audit_subject_erasures d" "additive d d1"
  using assms by (auto elim!: resolve_user_frame intro: additive_same)

lemma resolve_user_users:
  assumes "platform_ok d" "resolve_user d s = Inr (d1, u)" "x \<in> set (platform_operators d)"
  shows "lock_user_is_active d1 (op_user_id x) = lock_user_is_active d (op_user_id x)"
proof -
  have "lock_user_is_active d (op_user_id x) \<noteq> None"
    using assms(1,3) by (simp add: platform_ok_def)
  moreover obtain us where "users d1 = users d @ us"
    using assms(2) by (auto elim!: resolve_user_frame)
  ultimately show ?thesis by (rule lock_user_append)
qed

lemma resolve_user_platform:
  assumes "platform_ok d" "resolve_user d s = Inr (d1, u)"
  shows "platform_ok d1" "platform_holds d1 = platform_holds d"
proof -
  note users = resolve_user_users [OF assms] and tables = resolve_user_tables [OF assms(2)]
  show "platform_holds d1 = platform_holds d"
    using users by (auto simp: platform_holds_def tables fun_eq_iff)
  show "platform_ok d1"
    using assms(1) users tables(4) unfolding platform_ok_def tables(1,2) by auto
qed

lemma grant_each_invariant:
  "platform_ok d \<Longrightarrow> grant_each d now c i ps reason = Inr d' \<Longrightarrow> platform_ok d' \<and> additive d d'"
proof (induction d now c i ps reason rule: grant_each.induct)
  case (2 d now c i p ps reason)
  obtain d1 a where d1: "grant_in_transaction d now c i p reason = Inr (d1, a)"
    "grant_each d1 now c i ps reason = Inr d'"
    using "2.prems"(2) by auto
  have "platform_ok d1"
    using grant_change(1) [OF "2.prems"(1) d1(1)] by (simp add: platform_change_def)
  with "2.IH" d1 grant_additive [OF d1(1)] show ?case by (auto intro: additive_trans)
qed simp

lemma grant_missing_invariant:
  "platform_ok d \<Longrightarrow> grant_missing d now c i held ps reason = Inr (d', granted) \<Longrightarrow>
    platform_ok d' \<and> additive d d'"
proof (induction d now c i held ps reason arbitrary: d' granted rule: grant_missing.induct)
  case (2 d now c i held p ps reason)
  show ?case
  proof (cases "permission_value p \<in> held")
    case True
    with 2 show ?thesis by simp
  next
    case False
    then obtain d1 a rest where d1: "grant_in_transaction d now c i p reason = Inr (d1, a)"
      "grant_missing d1 now c i held ps reason = Inr (d', rest)"
      using "2.prems"(2) by auto
    have "platform_ok d1"
      using grant_change(1) [OF "2.prems"(1) d1(1)] by (simp add: platform_change_def)
    with "2.IH"(2) [OF False _ d1(2)] grant_additive [OF d1(1)] show ?thesis
      by (auto intro: additive_trans)
  qed
qed simp

text \<open>What a body of a composite keeps, and what its transaction adds to that.\<close>

definition sound_body :: "(db \<Rightarrow> error + (db \<times> 'a)) \<Rightarrow> bool" where
  "sound_body body = (\<forall>d d' a. platform_ok d \<longrightarrow> body d = Inr (d', a) \<longrightarrow> platform_ok d' \<and> additive d d')"

lemma sound_bodyD:
  "sound_body body \<Longrightarrow> platform_ok d \<Longrightarrow> body d = Inr (d', a) \<Longrightarrow> platform_ok d' \<and> additive d d'"
  by (simp add: sound_body_def)

lemma enroll_sound:
  "platform_ok d \<Longrightarrow> enroll_in_transaction d now c u reason = Inr (d', i) \<Longrightarrow>
    platform_ok d' \<and> additive d d'"
  using enroll_change(1) enroll_additive by (simp add: platform_change_def)

lemma bootstrap_body_sound: "sound_body (bootstrap_body now c owner requested reason)"
  unfolding sound_body_def
proof (intro allI impI)
  fix d d' a
  assume ok: "platform_ok d" and body: "bootstrap_body now c owner requested reason d = Inr (d', a)"
  show "platform_ok d' \<and> additive d d'"
  proof (cases "take 2 (platform_operators d)")
    case Nil
    then obtain d1 u d2 i where "resolve_user d owner = Inr (d1, u)"
      "enroll_in_transaction d1 now c u reason = Inr (d2, i)"
      "grant_each d2 now c i requested reason = Inr d'"
      using body by (auto simp: bootstrap_body_def)
    then show ?thesis
      using resolve_user_platform(1) [OF ok] resolve_user_tables(6) enroll_sound grant_each_invariant
        additive_trans by metis
  next
    case (Cons x xs)
    with body ok show ?thesis by (auto simp: bootstrap_body_def split: if_splits)
  qed
qed

lemma recover_operator_sound:
  assumes "platform_ok d" "recover_operator now c s reason d = Inr (d', a)"
  shows "platform_ok d' \<and> additive d d'"
proof -
  obtain d1 u where d1: "resolve_user d s = Inr (d1, u)"
    and rest: "d' = d1 \<or> (\<exists>i. enroll_in_transaction d1 now c u reason = Inr (d', i))"
    using assms(2) by (auto simp: recover_operator_def split: option.splits if_splits)
  show ?thesis
    using rest resolve_user_platform(1) [OF assms(1) d1] resolve_user_tables(6) [OF d1] enroll_sound
      additive_trans by metis
qed

lemma recover_enrollment_sound: "sound_body (recover_enrollment now c enroll requested reason)"
  unfolding sound_body_def
proof (intro allI impI)
  fix d d' a
  assume ok: "platform_ok d" and body: "recover_enrollment now c enroll requested reason d = Inr (d', a)"
  show "platform_ok d' \<and> additive d d'"
  proof (cases enroll)
    case None
    with ok body show ?thesis by (simp add: recover_enrollment_def)
  next
    case (Some s)
    then obtain d1 u i b held granted where "recover_operator now c s reason d = Inr (d1, u, i, b)"
      "grant_missing d1 now c i held requested reason = Inr (d', granted)"
      using body by (auto simp: recover_enrollment_def)
    then show ?thesis
      using recover_operator_sound [OF ok] grant_missing_invariant additive_trans by metis
  qed
qed

lemma recover_body_sound: "sound_body (recover_body now c enroll requested susp reason)"
  unfolding sound_body_def
proof (intro allI impI)
  fix d d' a
  assume ok: "platform_ok d" and body: "recover_body now c enroll requested susp reason d = Inr (d', a)"
  then obtain d1 r where d1: "recover_enrollment now c enroll requested reason d = Inr (d1, r)"
    and rest: "d' = d1 \<or> (\<exists>i b. suspend_in_transaction d1 now c i reason = Inr (d', b))"
    by (cases susp) (auto simp: recover_body_def split: if_splits)
  have "platform_ok d1 \<and> additive d d1"
    by (rule sound_bodyD [OF recover_enrollment_sound ok d1])
  moreover have "platform_ok d' \<and> additive d1 d'"
    if "suspend_in_transaction d1 now c i reason = Inr (d', b)" "platform_ok d1" for i b
    using suspend_additive [OF that(2,1)]
      set_status_change(1) [OF that(2) that(1) [unfolded suspend_in_transaction_def]]
    by (simp add: platform_change_def)
  ultimately show "platform_ok d' \<and> additive d d'"
    using rest additive_trans by metis
qed

lemma composite_refusal_frame: "evidence_only d (record_composite_refusal d now c op i code)"
  by (auto simp: record_composite_refusal_def record_platform_refusal_frame split: sum.splits)

lemma run_composite_sound:
  assumes "sound_body body" "platform_ok d" "run_composite d now c ops recorded i body = (d', r)"
  shows "platform_ok d' \<and> additive d d' \<and> (platform_owner_exists d \<longrightarrow> platform_owner_exists d')"
proof (cases "authority_transaction d ops c body")
  case (Inl e)
  with assms(3) have "evidence_only d d'"
    by (auto simp: run_composite_def composite_refusal_frame split: option.splits)
  with assms(2) show ?thesis
    using evidence_ok additive_evidence evidence_owner by blast
next
  case (Inr x)
  with assms(3) have "authority_transaction d ops c body = Inr (d', projr r)"
    by (cases x) (auto simp: run_composite_def)
  then have "body d = Inr (d', projr r)" "platform_owner_exists d \<longrightarrow> platform_owner_exists d'"
    by (auto simp: authority_transaction_def Let_def split: if_splits)
  with assms(1,2) show ?thesis by (auto simp: sound_body_def)
qed

lemma require_bootstrap_caller_cases:
  assumes "require_bootstrap_caller d now composite c op = (d', r)"
  shows "evidence_only d d'"
  using assms by (auto simp: require_bootstrap_caller_def composite_refusal_frame
      split: sum.splits if_splits)

lemma bootstrap_sound:
  assumes "platform_ok d" "bootstrap_platform_owner d now c owner perms reason = (d', r)"
  shows "platform_ok d' \<and> additive d d' \<and> (platform_owner_exists d \<longrightarrow> platform_owner_exists d')"
  using assms run_composite_sound [OF bootstrap_body_sound assms(1)]
  by (auto simp: bootstrap_platform_owner_def evidence_owner additive_evidence intro: evidence_ok
      dest!: require_bootstrap_caller_cases split: prod.splits sum.splits)

lemma recover_sound:
  assumes "platform_ok d" "recover_platform_authority d now c u s perms i reason = (d', r)"
  shows "platform_ok d' \<and> additive d d' \<and> (platform_owner_exists d \<longrightarrow> platform_owner_exists d')"
  using assms run_composite_sound [OF recover_body_sound assms(1)]
  by (auto simp: recover_platform_authority_def evidence_owner additive_evidence intro: evidence_ok
      dest!: require_bootstrap_caller_cases split: prod.splits sum.splits)

subsection \<open>A first bootstrap succeeds\<close>

lemma permission_value_inj: "permission_value p = permission_value q \<longleftrightarrow> p = q"
proof -
  have "distinct (map permission_value PLATFORM_PERMISSIONS)" by code_simp
  moreover have "r \<in> set PLATFORM_PERMISSIONS" for r
    by (cases r) (simp_all add: PLATFORM_PERMISSIONS_def)
  ultimately show ?thesis by (auto simp: distinct_map dest: inj_onD)
qed

lemma links_ok_cong:
  "platform_audit_subject_links d' = platform_audit_subject_links d \<Longrightarrow> next_uuid d \<le> next_uuid d' \<Longrightarrow>
    links_ok d \<Longrightarrow> links_ok d'"
  by (auto simp: links_ok_def Let_def)

text \<open>Recording an event for the bootstrap purpose always succeeds.\<close>

lemma record_operator_event_total:
  assumes "authority_row operation" "links_ok d" "lock_user_is_active d u \<noteq> None"
    "length reason \<le> MAX_REASON_LENGTH"
  obtains d' where
    "record_operator_event d now (SystemCaller PLATFORM_BOOTSTRAP) operation i u reason = Inr d'"
    "links_ok d'" "evidence_only d d'"
proof -
  obtain spec where spec: "platform_operation operation = Inr spec"
    "action_matches (po_audit_action spec)" "length (po_audit_action spec) \<le> 200"
    using assms(1) by (auto simp: authority_row_def split: sum.splits)
  obtain d1 r where ref: "platform_audit_subject_ref d now u = Inr (d1, r)" "links_ok d1"
    using subject_ref_result [OF assms(2) assms(3) [folded user_exists_for_audit_def]] by metis
  let ?c = "SystemCaller PLATFORM_BOOTSTRAP"
  have "is_ok (record_platform_event_in_transaction d1 now ?c (po_audit_action spec)
      ''platform_operator'' (Some i) None None SUCCESS (Some reason))"
    using spec(2,3) assms(4)
    by (simp add: record_platform_event_in_transaction_def require_caller_def
        user_target_arguments_def require_def platform_entry_def insert_platform_entry_def)
  then obtain d' where rec: "record_platform_event_in_transaction d1 now ?c (po_audit_action spec)
      ''platform_operator'' (Some i) None None SUCCESS (Some reason) = Inr d'"
    by (auto simp: is_ok_iff)
  have "platform_audit_subject_links d' = platform_audit_subject_links d1 \<and> next_uuid d' = next_uuid d1"
    using rec by (auto simp: record_platform_event_in_transaction_def
        dest!: insert_platform_entry_ok)
  then have "links_ok d'" using links_ok_cong [of d' d1] ref(2) by simp
  moreover have "record_operator_event d now ?c operation i u reason = Inr d'"
    by (simp add: record_operator_event_def spec(1) ref(1) rec)
  ultimately show ?thesis using that record_operator_event_frame by blast
qed

text \<open>One grant by the bootstrap purpose to an active operator of an active user.\<close>

lemma grant_total:
  assumes "platform_ok d" "links_ok d" "x \<in> set (platform_operators d)"
    "op_status x = OPERATOR_ACTIVE" "lock_user_is_active d (op_user_id x) = Some True"
    "permission_value p \<notin> live_permissions d (op_id x)" "length reason \<le> MAX_REASON_LENGTH"
  obtains d' a where
    "grant_in_transaction d now (SystemCaller PLATFORM_BOOTSTRAP) (op_id x) p reason = Inr (d', a)"
    "links_ok d'" "users d' = users d" "platform_operators d' = platform_operators d"
    "external_identities d' = external_identities d"
    "live_permissions d' (op_id x) = insert (permission_value p) (live_permissions d (op_id x))"
proof -
  let ?c = "SystemCaller PLATFORM_BOOTSTRAP"
  have lock: "lock_operator d (op_id x) = Inr x"
    using find_unique [OF platform_okD(1) [OF assms(1)] assms(3)] by (simp add: lock_operator_def)
  have free: "\<not> list_ex (live_grant (op_id x) (permission_value p)) (platform_grants d)"
    using assms(6) by (force simp: live_permissions_def live_grant_def list_ex_iff)
  obtain d1 a where ins: "insert_grant d now (op_id x) (permission_value p) None = Inr (d1, a)"
    using free find_unique [OF platform_okD(1) [OF assms(1)] assms(3)]
    by (simp add: insert_grant_def user_reference_ok_def take_uuid_def)
  note new = insert_grant_ok(1,4) [OF ins]
  have links: "links_ok d1" by (rule links_ok_cong [OF _ _ assms(2)]) (simp_all add: new)
  have user: "lock_user_is_active d1 (op_user_id x) \<noteq> None"
    using assms(5) lock_user_is_active_cong [of d1 d] by (simp add: new)
  obtain d' where rec: "record_operator_event d1 now ?c GRANT_CREATE (op_id x) (op_user_id x) reason = Inr d'"
    "links_ok d'" "evidence_only d1 d'"
    using record_operator_event_total [OF authority_rows(5) links user assms(7)] by blast
  have "grant_in_transaction d now ?c (op_id x) p reason = Inr (d', a)"
    using free assms(4,5) rec(1) ins
    by (simp add: grant_in_transaction_def lock refuse_self_def acting_user_id_def
        require_active_subject_def require_def)
  moreover have "live_permissions d' (op_id x) = insert (permission_value p) (live_permissions d (op_id x))"
    by (auto simp: live_permissions_def evidence_onlyD(3) [OF rec(3)] new)
  ultimately show ?thesis
    using rec(2) evidence_onlyD(1,2,5) [OF rec(3)] by (intro that) (simp_all add: new)
qed

lemma grant_each_total:
  assumes "platform_ok d" "links_ok d" "x \<in> set (platform_operators d)"
    "op_status x = OPERATOR_ACTIVE" "lock_user_is_active d (op_user_id x) = Some True"
    "\<And>p. p \<in> set ps \<Longrightarrow> permission_value p \<notin> live_permissions d (op_id x)" "distinct ps"
    "length reason \<le> MAX_REASON_LENGTH"
  shows "\<exists>d'. grant_each d now (SystemCaller PLATFORM_BOOTSTRAP) (op_id x) ps reason = Inr d' \<and>
    users d' = users d \<and> platform_operators d' = platform_operators d \<and>
    external_identities d' = external_identities d \<and>
    live_permissions d' (op_id x) = permission_value ` set ps \<union> live_permissions d (op_id x)"
  using assms(1-7)
proof (induction ps arbitrary: d)
  case (Cons p ps)
  have free: "permission_value p \<notin> live_permissions d (op_id x)" using Cons.prems(6) by simp
  obtain d1 a where d1: "grant_in_transaction d now (SystemCaller PLATFORM_BOOTSTRAP) (op_id x) p reason =
      Inr (d1, a)" "links_ok d1" "users d1 = users d" "platform_operators d1 = platform_operators d"
    "external_identities d1 = external_identities d"
    "live_permissions d1 (op_id x) = insert (permission_value p) (live_permissions d (op_id x))"
    using grant_total [OF Cons.prems(1-5) free assms(8)] by blast
  have ok: "platform_ok d1"
    using grant_change(1) [OF Cons.prems(1) d1(1)] by (simp add: platform_change_def)
  have user: "lock_user_is_active d1 (op_user_id x) = Some True"
    using Cons.prems(5) lock_user_is_active_cong [OF d1(3)] by simp
  have free': "permission_value q \<notin> live_permissions d1 (op_id x)" if "q \<in> set ps" for q
    using Cons.prems(6,7) that by (auto simp: d1(6) permission_value_inj)
  obtain d' where "grant_each d1 now (SystemCaller PLATFORM_BOOTSTRAP) (op_id x) ps reason = Inr d'"
    "users d' = users d1" "platform_operators d' = platform_operators d1"
    "external_identities d' = external_identities d1"
    "live_permissions d' (op_id x) = permission_value ` set ps \<union> live_permissions d1 (op_id x)"
    using Cons.IH [OF ok d1(2) _ Cons.prems(4) user free'] Cons.prems(3,7) d1(4) by auto
  then show ?case by (simp add: d1)
qed simp

lemma enroll_total:
  assumes "platform_ok d" "links_ok d" "lock_user_is_active d u = Some True"
    "lock_external_identity_exists d u" "live_operators d u = []" "length reason \<le> MAX_REASON_LENGTH"
  obtains d' where
    "enroll_in_transaction d now (SystemCaller PLATFORM_BOOTSTRAP) u reason = Inr (d', next_uuid d)"
    "links_ok d'" "users d' = users d" "external_identities d' = external_identities d"
    "platform_operators d' = platform_operators d @ [\<lparr>op_id = next_uuid d, op_user_id = u,
       op_status = OPERATOR_ACTIVE, op_enrolled_by_user_id = None, op_status_changed_at = now,
       op_status_changed_by_user_id = None\<rparr>]"
    "live_permissions d' (next_uuid d) = {}"
proof -
  let ?c = "SystemCaller PLATFORM_BOOTSTRAP"
  obtain d1 i where ins: "insert_operator d now u None = Inr (d1, i)"
    using assms(3,5) by (simp add: insert_operator_def user_reference_ok_def take_uuid_def)
  note new = insert_operator_ok(1,4) [OF ins]
  have links: "links_ok d1" by (rule links_ok_cong [OF _ _ assms(2)]) (simp_all add: new)
  have user: "lock_user_is_active d1 u \<noteq> None"
    using assms(3) lock_user_is_active_cong [of d1 d] by (simp add: new)
  obtain d' where rec: "record_operator_event d1 now ?c OPERATOR_ENROLL i u reason = Inr d'"
    "links_ok d'" "evidence_only d1 d'"
    using record_operator_event_total [OF authority_rows(1) links user assms(6)] by blast
  have "enroll_in_transaction d now ?c u reason = Inr (d', i)"
    using assms(3-5) ins rec(1)
    by (auto simp: enroll_in_transaction_def refuse_self_def acting_user_id_def require_def
        require_active_subject_def live_operators_def filter_empty_conv list_ex_iff)
  moreover have "pg_operator_id g \<noteq> next_uuid d" if "g \<in> set (platform_grants d)" for g
    using grant_operator_id [OF assms(1) that] by simp
  then have "live_permissions d' (next_uuid d) = {}"
    by (auto simp: live_permissions_def evidence_onlyD(3) [OF rec(3)] new filter_empty_conv)
  ultimately show ?thesis
    using rec(2) evidence_onlyD(1,2,5) [OF rec(3)] by (intro that [of d']) (simp_all add: new)
qed

text \<open>A deployment nobody has bootstrapped, and a person it has never seen.\<close>

definition fresh_deployment :: "db \<Rightarrow> string \<Rightarrow> string \<Rightarrow> bool" where
  "fresh_deployment d issuer subject = (platform_operators d = [] \<and> platform_grants d = [] \<and>
     links_ok d \<and> lock_user_is_active d (next_uuid d) = None \<and>
     list_all (\<lambda>x. \<not> (ei_issuer x = issuer \<and> ei_subject x = subject)) (external_identities d))"

lemma fresh_resolve:
  assumes "fresh_deployment d issuer subject" "fits_column 2048 issuer" "fits_column 255 subject"
  obtains d1 where "resolve_user d (Operator_Identity issuer subject) = Inr (d1, next_uuid d)"
    "lock_user_is_active d1 (next_uuid d) = Some True" "lock_external_identity_exists d1 (next_uuid d)"
    "filter (\<lambda>x. ei_issuer x = issuer \<and> ei_subject x = subject) (external_identities d1) =
       [\<lparr>ei_id = Suc (next_uuid d), ei_user_id = next_uuid d, ei_issuer = issuer, ei_subject = subject\<rparr>]"
proof -
  have unseen: "filter (\<lambda>x. ei_issuer x = issuer \<and> ei_subject x = subject) (external_identities d) = []"
    using assms(1) by (auto simp: fresh_deployment_def list_all_iff filter_empty_conv)
  then have free: "\<not> list_ex (\<lambda>x. ei_issuer x = issuer \<and> ei_subject x = subject) (external_identities d)"
    by (auto simp: list_ex_iff filter_empty_conv)
  have texts: "text_parameter issuer" "text_parameter subject" using assms(2,3) by (simp_all add: fits_column_def)
  show ?thesis
    by (rule that, simp add: get_or_create_user_id_for_external_identity_in_transaction_def
        insert_user_with_identity_def assms(2,3) free texts require_def
        find_user_id_for_external_identity_in_transaction_def unseen one_or_none_def take_uuid_def)
      (use assms unseen in \<open>auto simp: lock_user_is_active_def find_append
        lock_external_identity_exists_def fresh_deployment_def split: option.splits\<close>)
qed

lemma empty_platform_ok: "platform_operators d = [] \<Longrightarrow> platform_grants d = [] \<Longrightarrow> platform_ok d"
  by (simp add: platform_ok_def)

lemma live_permissions_holds:
  assumes "platform_operators d = [x]" "op_status x = OPERATOR_ACTIVE"
    "lock_user_is_active d (op_user_id x) = Some True"
  shows "platform_holds d (op_user_id x) q \<longleftrightarrow> q \<in> live_permissions d (op_id x)"
  using assms by (auto simp: platform_holds_def live_permissions_def live_grant_def)

lemma bootstrap_authorized:
  "authorize_each d (SystemCaller PLATFORM_BOOTSTRAP) [OPERATOR_ENROLL, GRANT_CREATE] = Inr ()"
proof -
  have "is_ok (authorize_platform_caller d (SystemCaller PLATFORM_BOOTSTRAP) key)"
    if "key = OPERATOR_ENROLL \<or> key = GRANT_CREATE" for key
  proof -
    have "(case platform_operation key of Inl _ \<Rightarrow> False
        | Inr spec \<Rightarrow> PLATFORM_BOOTSTRAP \<in> set (po_system_authorities spec))"
      using that by (elim disjE; hypsubst; code_simp)
    then show ?thesis
      by (auto simp: authorize_platform_caller_def require_caller_def require_def ALL_CALLER_TYPES_def
          is_ok_iff split: sum.splits)
  qed
  then show ?thesis by (auto simp: is_ok_iff)
qed

lemma bootstrap_body_fresh:
  assumes "fresh_deployment d issuer subject" "distinct perms" "length reason \<le> MAX_REASON_LENGTH"
    and fits: "fits_column 2048 issuer" "fits_column 255 subject"
  shows "\<exists>d' x. bootstrap_body now (SystemCaller PLATFORM_BOOTSTRAP) (Operator_Identity issuer subject)
      perms reason d = Inr (d', \<lparr>br_operator_id = op_id x, br_user_id = op_user_id x,
        br_permissions = map permission_value perms, br_created = True\<rparr>) \<and>
    platform_operators d' = [x] \<and> op_status x = OPERATOR_ACTIVE \<and>
    lock_user_is_active d' (op_user_id x) = Some True \<and>
    find_user d' (Operator_Identity issuer subject) = Inr (Some (op_user_id x)) \<and>
    live_permissions d' (op_id x) = permission_value ` set perms"
proof -
  let ?c = "SystemCaller PLATFORM_BOOTSTRAP" and ?u = "next_uuid d"
  obtain d1 where d1: "resolve_user d (Operator_Identity issuer subject) = Inr (d1, ?u)"
    "lock_user_is_active d1 ?u = Some True" "lock_external_identity_exists d1 ?u"
    "filter (\<lambda>x. ei_issuer x = issuer \<and> ei_subject x = subject) (external_identities d1) =
       [\<lparr>ei_id = Suc ?u, ei_user_id = ?u, ei_issuer = issuer, ei_subject = subject\<rparr>]"
    by (rule fresh_resolve [OF assms(1) fits])
  note tables = resolve_user_tables [OF d1(1)]
  have ok: "platform_ok d1"
    using assms(1) by (intro empty_platform_ok) (simp_all add: tables fresh_deployment_def)
  have links: "links_ok d1"
    by (rule links_ok_cong [OF tables(3,4)]) (use assms(1) in \<open>simp add: fresh_deployment_def\<close>)
  have none: "live_operators d1 ?u = []"
    using assms(1) by (simp add: live_operators_def tables fresh_deployment_def)
  define x where "x = \<lparr>op_id = next_uuid d1, op_user_id = ?u, op_status = OPERATOR_ACTIVE,
    op_enrolled_by_user_id = None, op_status_changed_at = now, op_status_changed_by_user_id = None\<rparr>"
  obtain d2 where d2: "enroll_in_transaction d1 now ?c ?u reason = Inr (d2, next_uuid d1)"
    "links_ok d2" "users d2 = users d1" "external_identities d2 = external_identities d1"
    "platform_operators d2 = platform_operators d1 @ [x]" "live_permissions d2 (next_uuid d1) = {}"
    using enroll_total [OF ok links d1(2,3) none assms(3), of now] unfolding x_def by metis
  have ops: "platform_operators d2 = [x]"
    using assms(1) by (simp add: d2(5) tables fresh_deployment_def)
  have ok2: "platform_ok d2" using enroll_sound [OF ok d2(1)] by blast
  have user: "lock_user_is_active d2 (op_user_id x) = Some True"
    using d1(2) lock_user_is_active_cong [OF d2(3)] by (simp add: x_def)
  obtain d3 where d3: "grant_each d2 now ?c (op_id x) perms reason = Inr d3"
    "users d3 = users d2" "platform_operators d3 = platform_operators d2"
    "external_identities d3 = external_identities d2"
    "live_permissions d3 (op_id x) = permission_value ` set perms \<union> live_permissions d2 (op_id x)"
    using grant_each_total [OF ok2 d2(2) _ _ user _ assms(2,3), of now] ops d2(6)
    by (auto simp: x_def)
  have "bootstrap_body now ?c (Operator_Identity issuer subject) perms reason d =
      Inr (d3, \<lparr>br_operator_id = op_id x, br_user_id = op_user_id x,
        br_permissions = map permission_value perms, br_created = True\<rparr>)"
    using assms(1) d1(1) d2(1) d3(1) by (simp add: bootstrap_body_def fresh_deployment_def x_def)
  moreover have "find_user d3 (Operator_Identity issuer subject) = Inr (Some (op_user_id x))"
    using fits by (simp add: find_user_id_for_external_identity_in_transaction_def d3(4) d2(4) d1(4)
        fits_column_def require_def one_or_none_def x_def)
  moreover have "live_permissions d3 (op_id x) = permission_value ` set perms"
    using d2(6) d3(5) by (simp add: x_def)
  moreover have "lock_user_is_active d3 (op_user_id x) = Some True"
    using user lock_user_is_active_cong [OF d3(2)] by simp
  ultimately show ?thesis using ops d3(3) by (intro exI [of _ d3] exI [of _ x]) (simp add: x_def)
qed

subsection \<open>Properties\<close>

lemma composite_inputs:
  assumes "validate_reason reason = Inr v" "distinct perms" "OWNER_PERMISSION \<in> set perms"
  shows "bootstrap_platform_owner d now (SystemCaller PLATFORM_BOOTSTRAP) owner perms reason =
    run_composite d now (SystemCaller PLATFORM_BOOTSTRAP) [OPERATOR_ENROLL, GRANT_CREATE] OPERATOR_ENROLL
      None (bootstrap_body now (SystemCaller PLATFORM_BOOTSTRAP) owner perms v)"
  using assms by (simp add: bootstrap_platform_owner_def require_bootstrap_caller_def
      require_caller_def require_def validated_permissions_def)

lemma run_composite_ok:
  assumes "body d = Inr (d', a)" "platform_owner_exists d'"
  shows "run_composite d now (SystemCaller PLATFORM_BOOTSTRAP) [OPERATOR_ENROLL, GRANT_CREATE] recorded i
    body = (d', Inr a)"
  using assms by (simp add: run_composite_def authority_transaction_def bootstrap_authorized
      del: authorize_each.simps)

lemma bootstrap_owner_created:
  assumes "fresh_deployment d issuer subject" "validate_reason reason = Inr v" "distinct perms"
    "OWNER_PERMISSION \<in> set perms" and fits: "fits_column 2048 issuer" "fits_column 255 subject"
  shows "\<exists>d' res. bootstrap_platform_owner d now (SystemCaller PLATFORM_BOOTSTRAP)
      (Operator_Identity issuer subject) perms reason = (d', Inr res) \<and> br_created res \<and>
    platform_owner_exists d' \<and> (\<forall>p. platform_can d' (br_user_id res) p = Inr (p \<in> set perms)) \<and>
    bootstrap_platform_owner d' later (SystemCaller PLATFORM_BOOTSTRAP)
      (Operator_Identity issuer subject) perms reason = (d', Inr (res\<lparr>br_created := False\<rparr>))"
proof -
  let ?c = "SystemCaller PLATFORM_BOOTSTRAP" and ?owner = "Operator_Identity issuer subject"
  have len: "length v \<le> MAX_REASON_LENGTH"
    using assms(2) by (auto simp: validate_reason_def Let_def split: if_splits)
  obtain d' x where body: "bootstrap_body now ?c ?owner perms v d = Inr (d', \<lparr>br_operator_id = op_id x,
        br_user_id = op_user_id x, br_permissions = map permission_value perms, br_created = True\<rparr>)"
    and ops: "platform_operators d' = [x]" "op_status x = OPERATOR_ACTIVE"
    and user: "lock_user_is_active d' (op_user_id x) = Some True"
    and found: "find_user d' ?owner = Inr (Some (op_user_id x))"
    and live: "live_permissions d' (op_id x) = permission_value ` set perms"
    using bootstrap_body_fresh [OF assms(1,3) len fits, of now] by blast
  have ok: "platform_ok d'"
    using sound_bodyD [OF bootstrap_body_sound _ body] assms(1) empty_platform_ok
    by (simp add: fresh_deployment_def)
  have can: "platform_can d' (op_user_id x) p = Inr (p \<in> set perms)" for p
    unfolding platform_decide_iff [OF ok] live_permissions_holds [OF ops user] live
    by (auto simp: permission_value_inj)
  have "platform_holds d' (op_user_id x) (permission_value OWNER_PERMISSION)"
    unfolding live_permissions_holds [OF ops user] live using assms(4) by (rule imageI)
  then have owner: "platform_owner_exists d'" unfolding owner_iff by blast
  have again: "bootstrap_body later ?c ?owner perms v d' = Inr (d', \<lparr>br_operator_id = op_id x,
        br_user_id = op_user_id x, br_permissions = map permission_value perms, br_created = False\<rparr>)"
    using found live ops by (simp add: bootstrap_body_def del: find_user.simps)
  show ?thesis
    unfolding composite_inputs [OF assms(2-4)]
      run_composite_ok [where body = "bootstrap_body now ?c ?owner perms v", OF body owner]
    using can owner run_composite_ok [where body = "bootstrap_body later ?c ?owner perms v", OF again owner]
    by simp
qed

lemma bootstrap_refused:
  assumes "\<not> (is_ok (validate_reason reason) \<and> distinct perms \<and> OWNER_PERMISSION \<in> set perms)"
  shows "bootstrap_platform_owner d now (SystemCaller PLATFORM_BOOTSTRAP) owner perms reason =
    (d, Inl InvalidPlatformRequestError)"
  using assms by (auto simp: bootstrap_platform_owner_def require_bootstrap_caller_def require_caller_def
      require_def validated_permissions_def validate_reason_def Let_def is_ok_iff split: if_splits)

text \<open>No refusal is recorded for an error of the database.\<close>

lemma bootstrap_nul_identity:
  assumes "validate_reason reason = Inr v" "distinct perms" "OWNER_PERMISSION \<in> set perms"
    and "\<not> (text_parameter issuer \<and> text_parameter subject)"
  shows "bootstrap_platform_owner d now (SystemCaller PLATFORM_BOOTSTRAP) (Operator_Identity issuer subject)
    perms reason = (d, Inl DataError)"
proof -
  let ?c = "SystemCaller PLATFORM_BOOTSTRAP"
  have "find_user_id_for_external_identity_in_transaction d issuer subject = Inl DataError"
    using assms(4) by (auto simp: find_user_id_for_external_identity_in_transaction_def require_def)
  then have "bootstrap_body now ?c (Operator_Identity issuer subject) perms v d = Inl DataError"
    by (simp add: bootstrap_body_def get_or_create_user_id_for_external_identity_in_transaction_def
        split: list.splits)
  then show ?thesis
    unfolding composite_inputs [OF assms(1-3)]
    by (simp add: run_composite_def authority_transaction_def bootstrap_authorized del: authorize_each.simps)
qed

text \<open>C12: what the owner bootstrap does on a deployment nobody has bootstrapped (no operator and no
  grant, well-formed audit references, the next identifier unused), for a person it has never seen whom
  \<open>OperatorIdentity\<close> accepts, with no login of that person at the same time. With
  a valid reason, a permission list without duplicates that contains the owner permission, and
  texts without the character NUL it succeeds: it creates the user and the first operator, who is
  then a platform owner and holds exactly the permissions that were listed, and running the very same
  command a second time changes nothing and reports that nothing was created. With any other reason
  or list it is refused as an invalid request, and with a NUL, which \<open>OperatorIdentity\<close> lets through,
  it fails with the database's error; either way nothing changes.\<close>

theorem bootstrap_creates_owner_once:
  assumes "fresh_deployment d issuer subject" "operator_identity issuer subject = Inr owner"
  shows "(is_ok (validate_reason reason) \<and> distinct perms \<and> OWNER_PERMISSION \<in> set perms \<and>
      CHR 0x00 \<notin> set issuer \<union> set subject \<longrightarrow>
      (\<exists>d' res. bootstrap_platform_owner d now (SystemCaller PLATFORM_BOOTSTRAP) owner perms reason = (d', Inr res) \<and>
        br_created res \<and> platform_owner_exists d' \<and>
        (\<forall>p. platform_can d' (br_user_id res) p = Inr (p \<in> set perms)) \<and>
        bootstrap_platform_owner d' later (SystemCaller PLATFORM_BOOTSTRAP) owner perms reason =
          (d', Inr (res\<lparr>br_created := False\<rparr>)))) \<and>
    (\<not> (is_ok (validate_reason reason) \<and> distinct perms \<and> OWNER_PERMISSION \<in> set perms) \<longrightarrow>
      bootstrap_platform_owner d now (SystemCaller PLATFORM_BOOTSTRAP) owner perms reason =
        (d, Inl InvalidPlatformRequestError)) \<and>
    (is_ok (validate_reason reason) \<and> distinct perms \<and> OWNER_PERMISSION \<in> set perms \<and>
      CHR 0x00 \<in> set issuer \<union> set subject \<longrightarrow>
      bootstrap_platform_owner d now (SystemCaller PLATFORM_BOOTSTRAP) owner perms reason = (d, Inl DataError))"
proof (intro conjI impI)
  have id: "owner = Operator_Identity issuer subject" "length issuer \<le> 2048" "length subject \<le> 255"
    using assms(2) by (auto simp: operator_identity_def MAX_ISSUER_LENGTH_def MAX_SUBJECT_LENGTH_def split: if_splits)
  show "bootstrap_platform_owner d now (SystemCaller PLATFORM_BOOTSTRAP) owner perms reason =
      (d, Inl InvalidPlatformRequestError)"
    if "\<not> (is_ok (validate_reason reason) \<and> distinct perms \<and> OWNER_PERMISSION \<in> set perms)"
    using that by (rule bootstrap_refused)
  show "bootstrap_platform_owner d now (SystemCaller PLATFORM_BOOTSTRAP) owner perms reason = (d, Inl DataError)"
    if "is_ok (validate_reason reason) \<and> distinct perms \<and> OWNER_PERMISSION \<in> set perms \<and>
      CHR 0x00 \<in> set issuer \<union> set subject"
    unfolding id(1) using that by (intro bootstrap_nul_identity [where v = "projr (validate_reason reason)"])
      (auto simp: is_ok_iff text_parameter_def)
  show "\<exists>d' res. bootstrap_platform_owner d now (SystemCaller PLATFORM_BOOTSTRAP) owner perms reason = (d', Inr res) \<and>
        br_created res \<and> platform_owner_exists d' \<and>
        (\<forall>p. platform_can d' (br_user_id res) p = Inr (p \<in> set perms)) \<and>
        bootstrap_platform_owner d' later (SystemCaller PLATFORM_BOOTSTRAP) owner perms reason =
          (d', Inr (res\<lparr>br_created := False\<rparr>))"
    if "is_ok (validate_reason reason) \<and> distinct perms \<and> OWNER_PERMISSION \<in> set perms \<and>
      CHR 0x00 \<notin> set issuer \<union> set subject"
    unfolding id(1) using that id(2,3)
    by (intro bootstrap_owner_created [OF assms(1), where v = "projr (validate_reason reason)"])
      (auto simp: is_ok_iff fits_column_def text_parameter_def)
qed

theorem bootstrap_creates_owner_once_witness:
  "(\<exists>d' res. bootstrap_platform_owner sample_db 5 (SystemCaller PLATFORM_BOOTSTRAP)
      (Operator_Identity ''https://id'' ''ada'') [P_AUTHORITY_MANAGE, P_TENANT_CREATE] '' first owner ''
      = (d', Inr res) \<and> br_created res \<and> platform_owner_exists d' \<and>
    (\<forall>p. platform_can d' (br_user_id res) p = Inr (p \<in> set [P_AUTHORITY_MANAGE, P_TENANT_CREATE])) \<and>
    bootstrap_platform_owner d' 9 (SystemCaller PLATFORM_BOOTSTRAP)
      (Operator_Identity ''https://id'' ''ada'') [P_AUTHORITY_MANAGE, P_TENANT_CREATE] '' first owner ''
      = (d', Inr (res\<lparr>br_created := False\<rparr>))) \<and>
   bootstrap_platform_owner sample_db 5 (SystemCaller PLATFORM_BOOTSTRAP)
      (Operator_Identity ''https://id'' (CHR 0x00 # ''ada'')) [P_AUTHORITY_MANAGE] '' first owner '' =
        (sample_db, Inl DataError)"
proof
  let ?perms = "[P_AUTHORITY_MANAGE, P_TENANT_CREATE]"
  have inputs: "is_ok (validate_reason '' first owner '') \<and> distinct ?perms \<and> OWNER_PERMISSION \<in> set ?perms"
    "is_ok (validate_reason '' first owner '') \<and> distinct [P_AUTHORITY_MANAGE] \<and> OWNER_PERMISSION \<in> set [P_AUTHORITY_MANAGE]"
    by code_simp+
  have ada: "fresh_deployment sample_db ''https://id'' ''ada''"
    "operator_identity ''https://id'' ''ada'' = Inr (Operator_Identity ''https://id'' ''ada'')"
    "CHR 0x00 \<notin> set ''https://id'' \<union> set ''ada''" by code_simp+
  show "\<exists>d' res. bootstrap_platform_owner sample_db 5 (SystemCaller PLATFORM_BOOTSTRAP)
      (Operator_Identity ''https://id'' ''ada'') ?perms '' first owner '' = (d', Inr res) \<and> br_created res \<and>
    platform_owner_exists d' \<and> (\<forall>p. platform_can d' (br_user_id res) p = Inr (p \<in> set ?perms)) \<and>
    bootstrap_platform_owner d' 9 (SystemCaller PLATFORM_BOOTSTRAP)
      (Operator_Identity ''https://id'' ''ada'') ?perms '' first owner '' = (d', Inr (res\<lparr>br_created := False\<rparr>))"
    using bootstrap_creates_owner_once [OF ada(1,2), of "'' first owner ''" ?perms 5 9] inputs(1) ada(3) by blast
  have nul: "fresh_deployment sample_db ''https://id'' (CHR 0x00 # ''ada'')"
    "operator_identity ''https://id'' (CHR 0x00 # ''ada'') = Inr (Operator_Identity ''https://id'' (CHR 0x00 # ''ada''))"
    "CHR 0x00 \<in> set ''https://id'' \<union> set (CHR 0x00 # ''ada'')" by code_simp+
  show "bootstrap_platform_owner sample_db 5 (SystemCaller PLATFORM_BOOTSTRAP)
      (Operator_Identity ''https://id'' (CHR 0x00 # ''ada'')) [P_AUTHORITY_MANAGE] '' first owner '' = (sample_db, Inl DataError)"
    using bootstrap_creates_owner_once [OF nul(1,2), of "'' first owner ''" "[P_AUTHORITY_MANAGE]" 5 9] inputs(2) nul(3) by blast
qed

text \<open>Bootstrap and recovery never take authority away for good: whatever the arguments and
  the outcome, no grant is revoked, every operator keeps its user and its status except that an
  active one may be suspended, the tables stay well formed, and an existing platform owner is
  never lost.\<close>

theorem composites_only_add_or_suspend:
  assumes "platform_ok d"
    and "d' = fst (bootstrap_platform_owner d now c owner perms reason) \<or>
      d' = fst (recover_platform_authority d now c u s perms susp reason)"
  shows "(\<forall>x \<in> set (platform_operators d). \<exists>y \<in> set (platform_operators d'). op_id y = op_id x \<and>
      op_user_id y = op_user_id x \<and> (op_status y = op_status x \<or>
        op_status x = OPERATOR_ACTIVE \<and> op_status y = OPERATOR_SUSPENDED)) \<and>
    set (platform_grants d) \<subseteq> set (platform_grants d') \<and> platform_ok d' \<and>
    (platform_owner_exists d \<longrightarrow> platform_owner_exists d')"
  using assms(2) bootstrap_sound [OF assms(1) surjective_pairing]
    recover_sound [OF assms(1) surjective_pairing]
  unfolding additive_def by blast

lemma refusal_row_written:
  assumes "action_matches action" "length action \<le> 200" "length code \<le> MAX_REASON_LENGTH"
    "tu = None \<and> ty = ''platform_operator'' \<or> i = None \<and> ty = ''user''"
    "lock_user_is_active d u \<noteq> None"
  shows "\<exists>row. platform_audit_log (record_platform_refusal d now (UserCaller u) action ty i tu code) =
      platform_audit_log d @ [row] \<and> pl_outcome row = DENIED \<and> pl_reason row = Some code \<and>
    pl_actor_user_id row = Some u"
proof -
  obtain d1 row_type row_id where rt: "refusal_target d now ty i tu = (d1, row_type, row_id)"
    by (cases "refusal_target d now ty i tu") auto
  note same = same_but_linksD [OF refusal_target_frame [OF rt]]
  have row: "row_type = ''platform_operator'' \<or> row_type = ''user_subject'' \<or>
      row_type = ''user'' \<and> row_id = None"
    using rt assms(4) by (auto simp: refusal_target_def user_audit_target_def
        split: option.splits sum.splits if_splits)
  have user: "lock_user_is_active d1 u \<noteq> None"
    using assms(5) lock_user_is_active_cong [OF same(1)] by simp
  have "user_target_arguments ty i tu = Inr ()"
    using assms(4) by (auto simp: user_target_arguments_def)
  with assms(1-3) row user show ?thesis
    by (auto simp: record_platform_refusal_def record_platform_outcome_def require_caller_def require_def rt platform_entry_def
        insert_platform_entry_def same(5))
qed

text \<open>A refusal is evidence: when one of the six authority operations refuses an existing
  person (no authority, own operator, amplification, last owner, subject nobody can log in as),
  exactly one \<open>denied\<close> row with that person as actor and the refusal's code as reason is
  appended to the platform audit log, and no operator, grant or user changed.\<close>

theorem refusals_are_recorded:
  assumes "perform r d now (UserCaller u) reason = (d', Inl e)" "refusal_code e = Some code"
    "lock_user_is_active d u \<noteq> None"
  shows "\<exists>row. platform_audit_log d' = platform_audit_log d @ [row] \<and> pl_outcome row = DENIED \<and>
      pl_reason row = Some code \<and> pl_actor_user_id row = Some u \<and>
    platform_operators d' = platform_operators d \<and> platform_grants d' = platform_grants d \<and>
    users d' = users d"
proof -
  obtain spec where spec: "platform_operation (request_key r) = Inr spec"
    "action_matches (po_audit_action spec)" "length (po_audit_action spec) \<le> 200"
    by (rule request_spec)
  obtain ty i tu where target: "request_target r = (ty, i, tu)" by (cases "request_target r") auto
  have shape: "tu = None \<and> ty = ''platform_operator'' \<or> i = None \<and> ty = ''user''"
    using target by (cases r) auto
  have "with_reason d (request_key r) (UserCaller u) reason (\<lambda>value. run_authority d now (request_key r)
      (UserCaller u) ty i tu (request_body r now (UserCaller u) value)) = (d', Inl e)"
    using assms(1) unfolding perform_eq target by simp
  then have "d' = record_platform_refusal d now (UserCaller u) (po_audit_action spec) ty i tu code"
    using assms(2) by (auto simp: with_reason_def run_authority_def recording_platform_refusal_def spec(1)
        validate_reason_def require_caller_def ALL_CALLER_TYPES_def require_def Let_def
        split: sum.splits if_splits option.splits)
  then obtain row where "platform_audit_log d' = platform_audit_log d @ [row]" "pl_outcome row = DENIED"
    "pl_reason row = Some code" "pl_actor_user_id row = Some u"
    using refusal_row_written [OF spec(2,3) _ shape assms(3)] refusal_code_length [OF assms(2)] by blast
  then show ?thesis
    using evidence_onlyD(1-3) [OF any_request.failure [OF assms(1)]] by blast
qed

end
