(* ===== verification/Administrators.thy ===== *)
theory Administrators
  imports Authorization
begin

section \<open>The last tenant administrator\<close>

text \<open>
  \<open>saas_os/core/rbac/administrators.py\<close>: who administers a tenant, the guard that
  records one administrator of each tenant a change can reach, and its verification on
  the changed rows. The locale \<open>guarded_change\<close> is the contract a guarded mutation meets
  (it takes authority away only from its affected users, and only at or below its own
  tenant); from it the invariant is proved once, and every guarded mutation of the
  platform interprets it.
\<close>

definition ADMINISTRATOR_RESOURCE :: string where
  "ADMINISTRATOR_RESOURCE = ''membership_role''"

definition ADMINISTRATOR_ACTION :: string where
  "ADMINISTRATOR_ACTION = ''create''"

definition is_administrator :: "db \<Rightarrow> datetime \<Rightarrow> uuid \<Rightarrow> uuid \<Rightarrow> bool" where
  "is_administrator d now tenant_id user_id =
     can d now user_id tenant_id ADMINISTRATOR_ACTION ADMINISTRATOR_RESOURCE USER None True"

definition is_active_member :: "db \<Rightarrow> uuid \<Rightarrow> uuid list \<Rightarrow> bool" where
  "is_active_member d tenant_id user_ids =
     (if user_ids = [] then False
      else (\<exists>m \<in> set (tenant_memberships d). tm_tenant_id m = tenant_id \<and>
        tm_user_id m \<in> set user_ids \<and> tm_status m = MEMBER_ACTIVE))"

definition administrator_candidates :: "db \<Rightarrow> uuid \<Rightarrow> uuid list" where
  "administrator_candidates d tenant_id = map tm_user_id
     (sort_key (\<lambda>m. (tm_created_at m, tm_id m))
       (filter (\<lambda>m. tm_tenant_id m = tenant_id \<and> tm_status m = MEMBER_ACTIVE)
         (tenant_memberships d)))"

definition find_administrator ::
  "db \<Rightarrow> datetime \<Rightarrow> uuid \<Rightarrow> uuid option \<Rightarrow> uuid option \<Rightarrow> uuid option" where
  "find_administrator d now tenant_id try_first excluding =
     (if (case try_first of
            None \<Rightarrow> False
          | Some u \<Rightarrow> Some u \<noteq> excluding \<and> is_active_member d tenant_id [u] \<and>
              is_administrator d now tenant_id u)
      then try_first
      else find (\<lambda>u. Some u \<noteq> try_first \<and> Some u \<noteq> excluding \<and> is_administrator d now tenant_id u)
             (administrator_candidates d tenant_id))"

text \<open>An \<open>AdministratorGuard\<close> is its \<open>before\<close> tuple.\<close>

type_synonym administrator_guard = "(uuid \<times> uuid option) list"

fun verify :: "db \<Rightarrow> datetime \<Rightarrow> administrator_guard \<Rightarrow> error + unit" where
  "verify d now [] = Inr ()"
| "verify d now ((tenant_id, administrator_before) # before) =
     (case administrator_before of
        None \<Rightarrow> verify d now before
      | Some _ \<Rightarrow>
          if find_administrator d now tenant_id administrator_before None \<noteq> None
          then verify d now before
          else Inl (LastTenantAdministratorError tenant_id))"

definition guard_tenants :: "db \<Rightarrow> datetime \<Rightarrow> uuid list \<Rightarrow> administrator_guard" where
  "guard_tenants d now tenant_ids =
     map (\<lambda>tenant_id. (tenant_id, find_administrator d now tenant_id None None)) tenant_ids"

definition reached_descendants :: "db \<Rightarrow> uuid \<Rightarrow> uuid list \<Rightarrow> uuid list" where
  "reached_descendants d tenant_id affected_users =
     filter (\<lambda>descendant_id. is_active_member d descendant_id (remdups affected_users))
       (descendant_ids_by_depth d tenant_id)"

definition guard_last_administrator ::
  "db \<Rightarrow> datetime \<Rightarrow> uuid \<Rightarrow> uuid list \<Rightarrow> administrator_guard" where
  "guard_last_administrator d now tenant_id affected_users =
     map (\<lambda>guarded. (guarded, find_administrator d now guarded None None))
       (tenant_id # reached_descendants d tenant_id affected_users)"

subsection \<open>Administrators as a relation\<close>

definition administers :: "db \<Rightarrow> datetime \<Rightarrow> uuid \<Rightarrow> uuid \<Rightarrow> bool" where
  "administers d now t u = (is_active_member d t [u] \<and> is_administrator d now t u)"

definition has_administrator :: "db \<Rightarrow> datetime \<Rightarrow> uuid \<Rightarrow> bool" where
  "has_administrator d now t = (\<exists>u. administers d now t u)"

lemma is_active_member_iff [row_simps]:
  "is_active_member d t us \<longleftrightarrow> (\<exists>m \<in> set (tenant_memberships d).
     tm_tenant_id m = t \<and> tm_user_id m \<in> set us \<and> tm_status m = MEMBER_ACTIVE)"
  by (auto simp: is_active_member_def)

lemma set_administrator_candidates:
  "u \<in> set (administrator_candidates d t) \<longleftrightarrow> is_active_member d t [u]"
  by (auto simp: administrator_candidates_def is_active_member_iff)

lemma find_administrator_Some:
  "find_administrator d now t try_first excluding = Some u \<Longrightarrow> administers d now t u \<and> Some u \<noteq> excluding"
  by (auto simp: find_administrator_def administers_def set_administrator_candidates [symmetric]
      split: if_splits option.splits dest!: find_SomeD)

lemma find_administrator_complete:
  assumes "administers d now t u" "find_administrator d now t try_first None = None"
  shows False
proof (cases "try_first = Some u")
  case True
  with assms show False by (simp add: find_administrator_def administers_def)
next
  case False
  with assms show False
    by (auto simp: find_administrator_def administers_def find_None_iff_all
        set_administrator_candidates [symmetric] split: if_splits option.splits)
qed

lemma find_administrator_None:
  "find_administrator d now t try_first None = None \<longleftrightarrow> \<not> has_administrator d now t"
  using find_administrator_complete [of d now t _ try_first]
    find_administrator_Some [of d now t try_first None]
  unfolding has_administrator_def by (cases "find_administrator d now t try_first None") auto

lemma verify_Cons:
  "verify d' now ((t, find_administrator d now t None None) # before) =
    (if has_administrator d now t \<and> \<not> has_administrator d' now t
     then Inl (LastTenantAdministratorError t) else verify d' now before)"
proof (cases "has_administrator d now t")
  case True
  then obtain u where "find_administrator d now t None None = Some u"
    using find_administrator_None [of d now t None] by auto
  with True show ?thesis by (simp add: find_administrator_None)
next
  case False
  then show ?thesis using find_administrator_None [of d now t None] by simp
qed

lemma verify_guard:
  "verify d' now (map (\<lambda>t. (t, find_administrator d now t None None)) ts) = Inr () \<longleftrightarrow>
    (\<forall>t \<in> set ts. has_administrator d now t \<longrightarrow> has_administrator d' now t)"
  by (induction ts) (simp_all add: verify_Cons del: verify.simps(2))

lemma verify_error:
  "verify d' now (map (\<lambda>t. (t, find_administrator d now t None None)) ts) = Inl e \<Longrightarrow>
    \<exists>t \<in> set ts. e = LastTenantAdministratorError t \<and> has_administrator d now t \<and>
      \<not> has_administrator d' now t"
  by (induction ts) (auto simp: verify_Cons simp del: verify.simps(2) split: if_splits)

lemmas guard_ok = verify_guard [folded guard_tenants_def]

lemma admin_authority: "is_authority_changing ADMINISTRATOR_RESOURCE ADMINISTRATOR_ACTION"
  by code_simp

lemma is_administrator_iff:
  "is_administrator d now t u \<longleftrightarrow> admits_principals d t \<and> actor_is_live d u USER None \<and>
     \<not> denied d USER u t ADMINISTRATOR_RESOURCE ADMINISTRATOR_ACTION \<and>
     (\<exists>c s. allows_at d now u USER ADMINISTRATOR_ACTION ADMINISTRATOR_RESOURCE True c [s] \<and>
        scope_reaches d c s t)"
  unfolding is_administrator_def by (rule can_authority_changing [OF admin_authority])

text \<open>What has to survive a change for an administrator to survive it.\<close>

lemma administers_transfer:
  assumes "administers d now t u"
    and "tenants d' = tenants d" and "tenant_ancestries d' = tenant_ancestries d"
    and "users d' = users d" and "service_accounts d' = service_accounts d"
    and member: "is_active_member d t [u] \<Longrightarrow> is_active_member d' t [u]"
    and deny: "\<And>c s. scope_reaches d c s t \<Longrightarrow>
      deny_authority d' USER u c s ADMINISTRATOR_RESOURCE ADMINISTRATOR_ACTION \<Longrightarrow>
      deny_authority d USER u c s ADMINISTRATOR_RESOURCE ADMINISTRATOR_ACTION"
    and allow: "\<And>c s. scope_reaches d c s t \<Longrightarrow>
      allows_at d now u USER ADMINISTRATOR_ACTION ADMINISTRATOR_RESOURCE True c [s] \<Longrightarrow>
      allows_at d' now u USER ADMINISTRATOR_ACTION ADMINISTRATOR_RESOURCE True c [s]"
  shows "administers d' now t u"
proof -
  note frame = admits_principals_cong [OF assms(2)] scope_reaches_cong [OF assms(3)]
    actor_is_live_cong [OF assms(4,5)]
  from deny have "denied d' USER u t ADMINISTRATOR_RESOURCE ADMINISTRATOR_ACTION \<Longrightarrow>
      denied d USER u t ADMINISTRATOR_RESOURCE ADMINISTRATOR_ACTION"
    unfolding denied_def frame by blast
  with assms(1) allow member show ?thesis
    unfolding administers_def is_administrator_iff frame by blast
qed

subsection \<open>The contract of a guarded change\<close>

locale guarded_change =
  fixes inv :: "db \<Rightarrow> bool" and change :: "db \<Rightarrow> db" and site :: uuid
    and affected :: "db \<Rightarrow> uuid list"
  assumes elsewhere: "\<lbrakk>inv d; t \<noteq> site; site \<notin> set (lock_ancestor_ids d t); administers d now t u\<rbrakk>
      \<Longrightarrow> administers (change d) now t u"
    and others: "\<lbrakk>inv d; u \<notin> set (affected d); administers d now t u\<rbrakk>
      \<Longrightarrow> administers (change d) now t u"
begin

lemma guarded_keeps_administrator:
  assumes "inv d"
    and "verify (change d) now (guard_last_administrator d now site (affected d)) = Inr ()"
    and "has_administrator d now t"
  shows "has_administrator (change d) now t"
proof -
  from assms(2) have seen: "has_administrator (change d) now x"
    if "x = site \<or> x \<in> set (reached_descendants d site (affected d))" "has_administrator d now x" for x
    using that unfolding guard_last_administrator_def verify_guard by auto
  from assms(3) obtain u where u: "administers d now t u" by (auto simp: has_administrator_def)
  show ?thesis
  proof (cases "t = site \<or> t \<in> set (reached_descendants d site (affected d))")
    case True
    with seen assms(3) show ?thesis by blast
  next
    case False
    then have "site \<notin> set (lock_ancestor_ids d t) \<or> \<not> is_active_member d t (affected d)"
      by (auto simp: reached_descendants_def set_descendant_ids_by_depth is_active_member_iff)
    moreover from u have "is_active_member d t [u]" by (simp add: administers_def)
    ultimately have "site \<notin> set (lock_ancestor_ids d t) \<or> u \<notin> set (affected d)"
      by (auto simp: is_active_member_iff)
    with False u elsewhere others assms(1) show ?thesis unfolding has_administrator_def by blast
  qed
qed

lemma guarded_refusal:
  assumes "verify (change d) now (guard_last_administrator d now site (affected d)) = Inl e"
  shows "\<exists>t. e = LastTenantAdministratorError t \<and> has_administrator d now t \<and>
    \<not> has_administrator (change d) now t"
  using verify_error [OF assms [unfolded guard_last_administrator_def]] by blast

end

end
