(* ===== verification/Rbac_Roles.thy ===== *)
theory Rbac_Roles
  imports Audit_Log Administrators
begin

section \<open>Roles, permissions and role assignments\<close>

text \<open>
  The first half of \<open>saas_os/core/rbac/service.py\<close>: the authorization step every
  authority-changing operation takes, the global permission catalog, roles, permission
  grants, and role assignments to members and service accounts. Each operation is one
  transaction: an exception is the left value and leaves the store as it was. An insert
  carries the unique constraints, foreign keys and column widths of
  \<open>saas_os/core/rbac/models.py\<close>; a violated one is \<open>IntegrityError\<close> (\<open>DataError\<close> for a
  width), which the operation turns into its own exception exactly where the code has an
  \<open>except\<close> clause.
\<close>

definition PROVISIONING_ONLY :: "system_authority list" where
  "PROVISIONING_ONLY = [PROVISIONING]"

fun principal :: "caller \<Rightarrow> uuid \<times> principal_type \<times> uuid option" where
  "principal (UserCaller u) = (u, USER, None)"
| "principal (ServiceAccountCaller s home) = (s, SERVICE_ACCOUNT, Some home)"
| "principal _ = (0, SYSTEM, None)"

subsection \<open>The permission catalog\<close>

definition find_permission :: "db \<Rightarrow> string \<Rightarrow> string \<Rightarrow> permission option" where
  "find_permission d resource action =
     find (\<lambda>p. pm_resource p = resource \<and> pm_action p = action) (permissions d)"

definition register_permission_in :: "db \<Rightarrow> string \<Rightarrow> string \<Rightarrow> error + (db \<times> permission)" where
  "register_permission_in d resource action = (case find_permission d resource action of
     Some existing \<Rightarrow> Inr (d, existing)
   | None \<Rightarrow>
       if length resource > 100 \<or> length action > 100 then Inl DataError
       else (let (i, d1) = take_uuid d;
                 p = \<lparr>pm_id = i, pm_resource = resource, pm_action = action\<rparr>
             in Inr (d1\<lparr>permissions := permissions d1 @ [p]\<rparr>, p)))"

definition register_permission :: "db \<Rightarrow> string \<Rightarrow> string \<Rightarrow> error + (db \<times> permission)" where
  "register_permission d resource action =
     (if has_control_characters resource \<or> has_control_characters action
      then Inl InvalidPermissionNameError
      else register_permission_in d resource action)"

definition get_permission_by_id :: "db \<Rightarrow> uuid \<Rightarrow> permission option" where
  "get_permission_by_id d permission_id = find (\<lambda>p. pm_id p = permission_id) (permissions d)"

subsection \<open>The authorization step\<close>

definition authorize_caller ::
  "db \<Rightarrow> datetime \<Rightarrow> caller \<Rightarrow> string \<Rightarrow> uuid \<Rightarrow> string \<Rightarrow> string \<Rightarrow> system_authority list \<Rightarrow> error + db"
where
  "authorize_caller d now c operation tenant_id resource action system_authorities =
     ebind (require_caller operation c ALL_CALLER_TYPES) (\<lambda>_.
     case c of
       SystemCaller authority \<Rightarrow>
         if authority \<notin> set system_authorities
         then Inl (AuthorityNotAuthorizedError operation tenant_id) else Inr d
     | _ \<Rightarrow>
         ebind (register_permission d resource action) (\<lambda>(d1, _).
         let (actor_id, actor_type, actor_tenant_id) = principal c in
         if \<not> can d1 now actor_id tenant_id action resource actor_type actor_tenant_id False
         then Inl (AuthorityNotAuthorizedError operation tenant_id) else Inr d1))"

definition require_active_user :: "db \<Rightarrow> caller \<Rightarrow> string \<Rightarrow> uuid \<Rightarrow> error + unit" where
  "require_active_user d c operation tenant_id =
     ebind (require_caller operation c [UserCallerType]) (\<lambda>_.
     let u = fst (principal c) in
     (case lock_user_is_active d u of
        None \<Rightarrow> Inl (InvalidPrincipalError USER u)
      | Some is_active \<Rightarrow>
          if \<not> is_active then Inl (AuthorityNotAuthorizedError operation tenant_id) else Inr ()))"

definition require_no_amplification ::
  "db \<Rightarrow> caller \<Rightarrow> string \<Rightarrow> uuid \<Rightarrow> permission list \<Rightarrow> role_scope \<Rightarrow> error + unit" where
  "require_no_amplification d c operation tenant_id perms scope = (case c of
     SystemCaller _ \<Rightarrow> Inr ()
   | UserCaller u \<Rightarrow>
       require (list_all (\<lambda>p. actor_reaches_tenant_at_scope d u tenant_id (pm_action p)
           (pm_resource p) scope) perms)
         (AuthorityNotAuthorizedError operation tenant_id)
   | _ \<Rightarrow> Inl (AuthorityNotAuthorizedError operation tenant_id))"

subsection \<open>Rows and their constraints\<close>

definition find_role :: "db \<Rightarrow> uuid \<Rightarrow> uuid \<Rightarrow> role option" where
  "find_role d tenant_id role_id =
     find (\<lambda>r. ro_tenant_id r = tenant_id \<and> ro_id r = role_id) (roles d)"

definition find_membership_by_id :: "db \<Rightarrow> uuid \<Rightarrow> uuid \<Rightarrow> tenant_membership option" where
  "find_membership_by_id d tenant_id membership_id =
     find (\<lambda>m. tm_tenant_id m = tenant_id \<and> tm_id m = membership_id) (tenant_memberships d)"

definition get_role :: "db \<Rightarrow> uuid \<Rightarrow> uuid \<Rightarrow> error + role" where
  "get_role d tenant_id role_id = (case find_role d tenant_id role_id of
     None \<Rightarrow> Inl (RoleNotFoundError tenant_id role_id) | Some r \<Rightarrow> Inr r)"

definition get_role_permission :: "db \<Rightarrow> uuid \<Rightarrow> uuid \<Rightarrow> uuid \<Rightarrow> role_permission option" where
  "get_role_permission d tenant_id role_id permission_id = find (\<lambda>g. rp_tenant_id g = tenant_id \<and>
     rp_role_id g = role_id \<and> rp_permission_id g = permission_id) (role_permissions d)"

definition get_membership_role :: "db \<Rightarrow> uuid \<Rightarrow> uuid \<Rightarrow> uuid \<Rightarrow> membership_role option" where
  "get_membership_role d tenant_id membership_id role_id = find (\<lambda>a. mr_tenant_id a = tenant_id \<and>
     mr_membership_id a = membership_id \<and> mr_role_id a = role_id) (membership_roles d)"

definition get_service_account_role ::
  "db \<Rightarrow> uuid \<Rightarrow> uuid \<Rightarrow> uuid \<Rightarrow> service_account_role option" where
  "get_service_account_role d tenant_id service_account_id role_id =
     find (\<lambda>a. sr_tenant_id a = tenant_id \<and> sr_service_account_id a = service_account_id \<and>
       sr_role_id a = role_id) (service_account_roles d)"

definition list_role_permissions :: "db \<Rightarrow> uuid \<Rightarrow> uuid \<Rightarrow> (string \<times> string) list" where
  "list_role_permissions d tenant_id role_id =
     concat (map (\<lambda>g. if rp_tenant_id g = tenant_id \<and> rp_role_id g = role_id
       then map (\<lambda>p. (pm_resource p, pm_action p))
         (filter (\<lambda>p. pm_id p = rp_permission_id g) (permissions d))
       else []) (role_permissions d))"

definition insert_role :: "db \<Rightarrow> uuid \<Rightarrow> string \<Rightarrow> error + (db \<times> uuid)" where
  "insert_role d tenant_id name =
     (if length name > 100 then Inl DataError
      else if find_tenant d tenant_id = None \<or>
        (\<exists>r \<in> set (roles d). ro_tenant_id r = tenant_id \<and> ro_name r = name) then Inl IntegrityError
      else (let (i, d1) = take_uuid d in
        Inr (d1\<lparr>roles := roles d1 @ [\<lparr>ro_id = i, ro_tenant_id = tenant_id, ro_name = name\<rparr>]\<rparr>, i)))"

definition insert_role_permission :: "db \<Rightarrow> uuid \<Rightarrow> uuid \<Rightarrow> uuid \<Rightarrow> error + db" where
  "insert_role_permission d tenant_id role_id permission_id =
     (if find_role d tenant_id role_id = None \<or> get_permission_by_id d permission_id = None \<or>
        (\<exists>g \<in> set (role_permissions d). rp_role_id g = role_id \<and> rp_permission_id g = permission_id)
      then Inl IntegrityError
      else (let (i, d1) = take_uuid d in
        Inr (d1\<lparr>role_permissions := role_permissions d1 @ [\<lparr>rp_id = i, rp_tenant_id = tenant_id,
          rp_role_id = role_id, rp_permission_id = permission_id\<rparr>]\<rparr>)))"

definition insert_membership_role_row :: "db \<Rightarrow> uuid \<Rightarrow> uuid \<Rightarrow> uuid \<Rightarrow> role_scope \<Rightarrow> error + db" where
  "insert_membership_role_row d tenant_id membership_id role_id scope =
     (if find_role d tenant_id role_id = None \<or>
         find_membership_by_id d tenant_id membership_id = None \<or>
        (\<exists>a \<in> set (membership_roles d). mr_membership_id a = membership_id \<and> mr_role_id a = role_id)
      then Inl IntegrityError
      else (let (i, d1) = take_uuid d in
        Inr (d1\<lparr>membership_roles := membership_roles d1 @ [\<lparr>mr_id = i, mr_tenant_id = tenant_id,
          mr_membership_id = membership_id, mr_role_id = role_id, mr_scope = scope\<rparr>]\<rparr>)))"

definition insert_service_account_role_row ::
  "db \<Rightarrow> uuid \<Rightarrow> uuid \<Rightarrow> uuid \<Rightarrow> role_scope \<Rightarrow> error + (db \<times> uuid)" where
  "insert_service_account_role_row d tenant_id service_account_id role_id scope =
     (if find_role d tenant_id role_id = None \<or>
         lock_service_account_status d tenant_id service_account_id = None \<or>
        (\<exists>a \<in> set (service_account_roles d). sr_service_account_id a = service_account_id \<and>
           sr_role_id a = role_id)
      then Inl IntegrityError
      else (let (i, d1) = take_uuid d in
        Inr (d1\<lparr>service_account_roles := service_account_roles d1 @ [\<lparr>sr_id = i,
          sr_tenant_id = tenant_id, sr_service_account_id = service_account_id,
          sr_role_id = role_id, sr_scope = scope\<rparr>]\<rparr>, i)))"

abbreviation integrity_error :: "error \<Rightarrow> bool" where
  "integrity_error e \<equiv> e = IntegrityError"

subsection \<open>Roles\<close>

definition create_role :: "db \<Rightarrow> datetime \<Rightarrow> uuid \<Rightarrow> string \<Rightarrow> caller \<Rightarrow> error + (db \<times> uuid)" where
  "create_role d now tenant_id name c =
     ebind (require_caller ''create_role'' c ALL_CALLER_TYPES) (\<lambda>_.
     ebind (require (\<not> has_control_characters name) InvalidRoleNameError) (\<lambda>_.
     ebind (require_open_tenant d tenant_id) (\<lambda>_.
     catch
       (ebind (authorize_caller d now c ''create_role'' tenant_id ''role'' ''create''
           PROVISIONING_ONLY) (\<lambda>d1.
        ebind (insert_role d1 tenant_id name) (\<lambda>(d2, role_id).
        ebind (record_in_transaction d2 c tenant_id ''role.create'' ''role'' (Some role_id) SUCCESS)
          (\<lambda>d3. Inr (d3, role_id)))))
       integrity_error (Inl (DuplicateRoleNameError tenant_id name)))))"

definition delete_role :: "db \<Rightarrow> datetime \<Rightarrow> uuid \<Rightarrow> uuid \<Rightarrow> caller \<Rightarrow> error + db" where
  "delete_role d now tenant_id role_id c =
     ebind (authorize_caller d now c ''delete_role'' tenant_id ''role'' ''delete'' []) (\<lambda>d1.
     ebind (get_role d1 tenant_id role_id) (\<lambda>_.
     if (\<exists>g \<in> set (role_permissions d1). rp_tenant_id g = tenant_id \<and> rp_role_id g = role_id) \<or>
        (\<exists>a \<in> set (membership_roles d1). mr_tenant_id a = tenant_id \<and> mr_role_id a = role_id) \<or>
        (\<exists>a \<in> set (service_account_roles d1). sr_tenant_id a = tenant_id \<and> sr_role_id a = role_id)
     then Inl IntegrityError
     else record_in_transaction
       (d1\<lparr>roles := delete_where (\<lambda>r. ro_tenant_id r = tenant_id \<and> ro_id r = role_id) (roles d1)\<rparr>)
       c tenant_id ''role.delete'' ''role'' (Some role_id) SUCCESS))"

subsection \<open>Permission grants\<close>

definition grant_permission ::
  "db \<Rightarrow> datetime \<Rightarrow> uuid \<Rightarrow> uuid \<Rightarrow> uuid \<Rightarrow> caller \<Rightarrow> error + db" where
  "grant_permission d now tenant_id role_id permission_id c =
     ebind (require_caller ''grant_permission'' c ALL_CALLER_TYPES) (\<lambda>_.
     ebind (require_open_tenant d tenant_id) (\<lambda>_.
     case get_permission_by_id d permission_id of
       None \<Rightarrow> Inl (PermissionNotFoundError permission_id)
     | Some p \<Rightarrow>
         catch
           (ebind (authorize_caller d now c ''grant_permission'' tenant_id ''role_permission''
               ''grant'' PROVISIONING_ONLY) (\<lambda>d1.
            ebind (require_no_amplification d1 c ''grant_permission'' tenant_id [p] SELF) (\<lambda>_.
            ebind (insert_role_permission d1 tenant_id role_id permission_id) (\<lambda>d2.
            record_in_transaction d2 c tenant_id ''role_permission.grant'' ''role'' (Some role_id)
              SUCCESS))))
           integrity_error
           (if get_role_permission d tenant_id role_id permission_id \<noteq> None
            then Inl (DuplicatePermissionGrantError role_id permission_id)
            else Inl (RoleNotFoundError tenant_id role_id))))"

definition grant_registered_permission_to_role ::
  "db \<Rightarrow> uuid \<Rightarrow> uuid \<Rightarrow> uuid \<Rightarrow> caller \<Rightarrow> error + (db \<times> bool)" where
  "grant_registered_permission_to_role d tenant_id role_id permission_id c =
     (let operation = ''grant_registered_permission_to_role'' in
     ebind (require_caller operation c ALL_CALLER_TYPES) (\<lambda>_.
     if c \<noteq> SystemCaller PERMISSION_UPGRADE then Inl (AuthorityNotAuthorizedError operation tenant_id)
     else (case get_permission_by_id d permission_id of
       None \<Rightarrow> Inl (PermissionNotFoundError permission_id)
     | Some p \<Rightarrow>
         if is_authority_changing (pm_resource p) (pm_action p)
         then Inl (AuthorityNotAuthorizedError operation tenant_id)
         else if find_role d tenant_id role_id = None then Inl (RoleNotFoundError tenant_id role_id)
         else if get_role_permission d tenant_id role_id permission_id \<noteq> None then Inr (d, False)
         else ebind (insert_role_permission d tenant_id role_id permission_id) (\<lambda>d1.
           ebind (record_in_transaction d1 c tenant_id ''role_permission.grant'' ''role''
             (Some role_id) SUCCESS) (\<lambda>d2. Inr (d2, True))))))"

definition role_holders :: "uuid \<Rightarrow> uuid \<Rightarrow> db \<Rightarrow> uuid list" where
  "role_holders tenant_id role_id d =
     concat (map (\<lambda>m. map (\<lambda>_. tm_user_id m) (filter (\<lambda>a. mr_membership_id a = tm_id m \<and>
       mr_tenant_id a = tenant_id \<and> mr_role_id a = role_id) (membership_roles d)))
       (tenant_memberships d))"

definition delete_role_permission :: "uuid \<Rightarrow> uuid \<Rightarrow> uuid \<Rightarrow> db \<Rightarrow> db" where
  "delete_role_permission tenant_id role_id permission_id d =
     d\<lparr>role_permissions := delete_where (\<lambda>g. rp_tenant_id g = tenant_id \<and> rp_role_id g = role_id \<and>
         rp_permission_id g = permission_id) (role_permissions d)\<rparr>"

definition revoke_permission ::
  "db \<Rightarrow> datetime \<Rightarrow> uuid \<Rightarrow> uuid \<Rightarrow> uuid \<Rightarrow> caller \<Rightarrow> error + db" where
  "revoke_permission d now tenant_id role_id permission_id c =
     ebind (authorize_caller d now c ''revoke_permission'' tenant_id ''role_permission'' ''revoke'' [])
       (\<lambda>d1.
     case get_role_permission d1 tenant_id role_id permission_id of
       None \<Rightarrow> Inr d1
     | Some _ \<Rightarrow>
         (let guard = guard_last_administrator d1 now tenant_id (role_holders tenant_id role_id d1);
              d2 = delete_role_permission tenant_id role_id permission_id d1
          in ebind (verify d2 now guard) (\<lambda>_.
            record_in_transaction d2 c tenant_id ''role_permission.revoke'' ''role'' (Some role_id)
              SUCCESS)))"

subsection \<open>Role assignments\<close>

definition insert_membership_role ::
  "db \<Rightarrow> uuid \<Rightarrow> uuid \<Rightarrow> uuid \<Rightarrow> role_scope \<Rightarrow> caller \<Rightarrow> (db \<Rightarrow> error + db) \<Rightarrow> error + db" where
  "insert_membership_role d tenant_id membership_id role_id scope c authorize =
     catch
       (ebind (authorize d) (\<lambda>d1.
        ebind (insert_membership_role_row d1 tenant_id membership_id role_id scope) (\<lambda>d2.
        record_in_transaction d2 c tenant_id ''membership_role.create'' ''tenant_membership''
          (Some membership_id) SUCCESS)))
       integrity_error
       (if get_membership_role d tenant_id membership_id role_id \<noteq> None
        then Inl (DuplicateRoleAssignmentError membership_id role_id)
        else ebind (get_role d tenant_id role_id)
          (\<lambda>_. Inl (MembershipNotFoundError tenant_id membership_id)))"

definition reaches_all ::
  "db \<Rightarrow> uuid \<Rightarrow> uuid \<Rightarrow> (string \<times> string) list \<Rightarrow> role_scope \<Rightarrow> bool" where
  "reaches_all d actor_id tenant_id perms scope = list_all (\<lambda>(resource, action).
     actor_reaches_tenant_at_scope d actor_id tenant_id action resource scope) perms"

definition assign_role ::
  "db \<Rightarrow> datetime \<Rightarrow> uuid \<Rightarrow> uuid \<Rightarrow> uuid \<Rightarrow> role_scope \<Rightarrow> caller \<Rightarrow> error + db" where
  "assign_role d now tenant_id membership_id role_id scope c =
     ebind (require_caller ''assign_role'' c [UserCallerType]) (\<lambda>_.
     let actor_user_id = fst (principal c) in
     ebind (require_open_tenant d tenant_id) (\<lambda>_.
     insert_membership_role d tenant_id membership_id role_id scope c (\<lambda>d0.
       ebind (register_permission d0 ''membership_role'' ''create'') (\<lambda>(d1, _).
       if \<not> can d1 now actor_user_id tenant_id ''create'' ''membership_role'' USER None False
       then Inl (RoleAssignmentNotAuthorizedError actor_user_id tenant_id)
       else if \<not> reaches_all d1 actor_user_id tenant_id
           (list_role_permissions d1 tenant_id role_id) scope
       then Inl (RoleAssignmentNotAuthorizedError actor_user_id tenant_id)
       else Inr d1))))"

definition assign_first_role_for_new_tenant ::
  "db \<Rightarrow> uuid \<Rightarrow> uuid \<Rightarrow> uuid \<Rightarrow> role_scope \<Rightarrow> caller \<Rightarrow> error + db" where
  "assign_first_role_for_new_tenant d tenant_id membership_id role_id scope c =
     ebind (require_caller ''assign_first_role_for_new_tenant'' c [SystemCallerType]) (\<lambda>_.
     if c \<noteq> SystemCaller PROVISIONING
     then Inl (AuthorityNotAuthorizedError ''assign_first_role_for_new_tenant'' tenant_id)
     else ebind (require_open_tenant d tenant_id) (\<lambda>_.
       insert_membership_role d tenant_id membership_id role_id scope c (\<lambda>d0. Inr d0)))"

definition membership_holder :: "uuid \<Rightarrow> uuid \<Rightarrow> db \<Rightarrow> uuid list" where
  "membership_holder tenant_id membership_id d =
     (case find_membership_by_id d tenant_id membership_id of None \<Rightarrow> [] | Some m \<Rightarrow> [tm_user_id m])"

definition delete_membership_role :: "uuid \<Rightarrow> uuid \<Rightarrow> uuid \<Rightarrow> db \<Rightarrow> db" where
  "delete_membership_role tenant_id membership_id role_id d =
     d\<lparr>membership_roles := delete_where (\<lambda>a. mr_tenant_id a = tenant_id \<and>
         mr_membership_id a = membership_id \<and> mr_role_id a = role_id) (membership_roles d)\<rparr>"

definition remove_role ::
  "db \<Rightarrow> datetime \<Rightarrow> uuid \<Rightarrow> uuid \<Rightarrow> uuid \<Rightarrow> caller \<Rightarrow> error + db" where
  "remove_role d now tenant_id membership_id role_id c =
     ebind (authorize_caller d now c ''remove_role'' tenant_id ''membership_role'' ''delete'' [])
       (\<lambda>d1.
     case get_membership_role d1 tenant_id membership_id role_id of
       None \<Rightarrow> Inr d1
     | Some _ \<Rightarrow>
         (let guard = guard_last_administrator d1 now tenant_id
                (membership_holder tenant_id membership_id d1);
              d2 = delete_membership_role tenant_id membership_id role_id d1
          in ebind (verify d2 now guard) (\<lambda>_.
            record_in_transaction d2 c tenant_id ''membership_role.delete'' ''tenant_membership''
              (Some membership_id) SUCCESS)))"

definition assign_service_account_role ::
  "db \<Rightarrow> datetime \<Rightarrow> uuid \<Rightarrow> uuid \<Rightarrow> uuid \<Rightarrow> role_scope \<Rightarrow> caller \<Rightarrow> error + (db \<times> uuid)" where
  "assign_service_account_role d now tenant_id service_account_id role_id scope c =
     ebind (require_caller ''assign_service_account_role'' c [UserCallerType]) (\<lambda>_.
     let actor_user_id = fst (principal c) in
     ebind (require_open_tenant d tenant_id) (\<lambda>_.
     ebind (require (lock_service_account_status d tenant_id service_account_id \<noteq> None)
       (InvalidPrincipalError SERVICE_ACCOUNT service_account_id)) (\<lambda>_.
     ebind (get_role d tenant_id role_id) (\<lambda>_.
     catch
       (ebind (register_permission d ''service_account_role'' ''create'') (\<lambda>(d1, _).
        ebind (require (can d1 now actor_user_id tenant_id ''create'' ''service_account_role'' USER
            None False) (ServiceAccountRoleNotAuthorizedError actor_user_id tenant_id)) (\<lambda>_.
        ebind (require (reaches_all d1 actor_user_id tenant_id
            (list_role_permissions d1 tenant_id role_id) scope)
            (ServiceAccountRoleNotAuthorizedError actor_user_id tenant_id)) (\<lambda>_.
        ebind (insert_service_account_role_row d1 tenant_id service_account_id role_id scope)
          (\<lambda>(d2, assignment_id).
        ebind (record_in_transaction d2 c tenant_id ''service_account_role.create''
          ''service_account_role'' (Some assignment_id) SUCCESS)
          (\<lambda>d3. Inr (d3, assignment_id)))))))
       integrity_error
       (Inl (DuplicateServiceAccountRoleAssignmentError service_account_id role_id))))))"

definition remove_service_account_role ::
  "db \<Rightarrow> datetime \<Rightarrow> uuid \<Rightarrow> uuid \<Rightarrow> uuid \<Rightarrow> caller \<Rightarrow> error + db" where
  "remove_service_account_role d now tenant_id service_account_id role_id c =
     ebind (authorize_caller d now c ''remove_service_account_role'' tenant_id
       ''service_account_role'' ''delete'' []) (\<lambda>d1.
     case get_service_account_role d1 tenant_id service_account_id role_id of
       None \<Rightarrow> Inr d1
     | Some a \<Rightarrow>
         record_in_transaction
           (d1\<lparr>service_account_roles := delete_where (\<lambda>x. sr_id x = sr_id a)
             (service_account_roles d1)\<rparr>)
           c tenant_id ''service_account_role.delete'' ''service_account_role'' (Some (sr_id a))
           SUCCESS)"

subsection \<open>The catalog never changes a decision\<close>

text \<open>
  Foreign keys on permissions, and that primary keys are drawn below the supply. Under
  them registering a permission, which every authorization step may do, is invisible to
  every decision.
\<close>

definition permission_refs_ok :: "db \<Rightarrow> bool" where
  "permission_refs_ok d =
     (distinct (map pm_id (permissions d)) \<and>
      (\<forall>p \<in> set (permissions d). pm_id p < next_uuid d) \<and>
      (\<forall>g \<in> set (role_permissions d). rp_permission_id g \<in> pm_id ` set (permissions d)) \<and>
      (\<forall>g \<in> set (delegation_grants d). dg_permission_id g \<in> pm_id ` set (permissions d)) \<and>
      (\<forall>g \<in> set (deny_grants d). dn_permission_id g \<in> pm_id ` set (permissions d)))"

lemma register_permission_cases:
  assumes "register_permission d resource action = Inr (d', p)"
  obtains "d' = d"
  | "d' = d\<lparr>next_uuid := Suc (next_uuid d), permissions := permissions d @
       [\<lparr>pm_id = next_uuid d, pm_resource = resource, pm_action = action\<rparr>]\<rparr>"
  using assms by (auto simp: register_permission_def register_permission_in_def take_uuid_def Let_def
      split: if_splits option.splits)

lemma register_names_permission:
  assumes "register_permission d resource action = Inr (d', p)"
    and "permission_refs_ok d" and "q \<in> pm_id ` set (permissions d)"
  shows "names_permission d' q r a = names_permission d q r a"
  using assms(1)
proof (cases rule: register_permission_cases)
  case 2
  with assms(2,3) show ?thesis by (auto simp: names_permission_def permission_refs_ok_def)
qed simp

lemma register_tables:
  assumes "register_permission d resource action = Inr (d', p)"
  shows "tenants d' = tenants d" "tenant_ancestries d' = tenant_ancestries d" "users d' = users d"
    "tenant_memberships d' = tenant_memberships d" "service_accounts d' = service_accounts d"
    "roles d' = roles d" "role_permissions d' = role_permissions d"
    "membership_roles d' = membership_roles d" "service_account_roles d' = service_account_roles d"
    "delegation_grants d' = delegation_grants d" "deny_grants d' = deny_grants d"
    "support_access_requests d' = support_access_requests d" "audit_log d' = audit_log d"
  using assms by (cases rule: register_permission_cases; simp)+

lemma register_role_grants:
  assumes "register_permission d resource action = Inr (d', p)" "permission_refs_ok d"
  shows "role_grants d' = role_grants d"
proof -
  have "role_grants d' c r res act = role_grants d c r res act" for c r res act
    unfolding role_grants_def register_tables [OF assms(1)]
    using register_names_permission [OF assms] assms(2) by (auto simp: permission_refs_ok_def)
  then show ?thesis by (simp add: fun_eq_iff)
qed

lemma register_member_grants:
  assumes "register_permission d resource action = Inr (d', p)" "permission_refs_ok d"
  shows "tenant_grants_permission d' = tenant_grants_permission d"
  unfolding fun_eq_iff tenant_grants_permission_def register_role_grants [OF assms]
    lock_membership_cong [OF register_tables(4) [OF assms(1)]]
    lock_accessible_tenant_cong [OF register_tables(1) [OF assms(1)]] register_tables [OF assms(1)]
  by simp

lemma register_allows_at:
  assumes "register_permission d resource action = Inr (d', p)" "permission_refs_ok d"
  shows "allows_at d' = allows_at d"
proof -
  note t = register_tables [OF assms(1)]
  have "(\<exists>g \<in> set (delegation_grants d). P g \<and> names_permission d' (dg_permission_id g) res act) =
      (\<exists>g \<in> set (delegation_grants d). P g \<and> names_permission d (dg_permission_id g) res act)"
    for P res act
    using register_names_permission [OF assms] assms(2) by (auto simp: permission_refs_ok_def)
  from this [of "\<lambda>g. dg_tenant_id g = c \<and> delegation_names ty a g \<and> dg_scope_mode g \<in> set S \<and>
      delegation_valid now ign g" for c ty a S now ign]
  have deleg: "tenant_grants_permission_via_delegation d' = tenant_grants_permission_via_delegation d"
    unfolding fun_eq_iff tenant_grants_permission_via_delegation_def
      delegate_user_membership_permits_authorization_def lock_membership_cong [OF t(4)]
      lock_accessible_tenant_cong [OF t(1)] t by (simp only: conj_assoc) simp
  show ?thesis
    unfolding fun_eq_iff allows_at_def actor_grants_permission_def deleg
      register_member_grants [OF assms] tenant_grants_permission_for_service_account_def
      register_role_grants [OF assms] lock_accessible_tenant_cong [OF t(1)] t by simp
qed

lemma register_denied:
  assumes "register_permission d resource action = Inr (d', p)" "permission_refs_ok d"
  shows "denied d' = denied d"
proof -
  have "deny_authority d' ty a c s res act = deny_authority d ty a c s res act" for ty a c s res act
    unfolding deny_authority.simps register_tables [OF assms(1)]
    using register_names_permission [OF assms] assms(2) by (auto simp: permission_refs_ok_def)
  then show ?thesis
    by (simp add: fun_eq_iff denied_def scope_reaches_cong [OF register_tables(2) [OF assms(1)]])
qed

lemma register_can:
  assumes "register_permission d resource action = Inr (d', p)" "permission_refs_ok d"
  shows "can d' = can d"
proof -
  note t = register_tables [OF assms(1)]
  show ?thesis
    unfolding fun_eq_iff decide_formula is_open_cong [OF t(1)] admits_principals_cong [OF t(1)]
      actor_is_live_cong [OF t(3,5)] register_denied [OF assms] register_allows_at [OF assms]
      scope_reaches_cong [OF t(2)] support_access_cong [OF t(1,2,12)] by simp
qed

lemma register_refs_ok:
  assumes "register_permission d resource action = Inr (d', p)" "permission_refs_ok d"
  shows "permission_refs_ok d'"
  using assms(1)
proof (cases rule: register_permission_cases)
  case 2
  with assms(2) show ?thesis by (fastforce simp: permission_refs_ok_def less_Suc_eq)
qed (use assms in simp)

lemma register_administers:
  assumes "register_permission d resource action = Inr (d', p)" "permission_refs_ok d"
  shows "administers d' = administers d"
  unfolding fun_eq_iff administers_def is_administrator_def register_can [OF assms]
    is_active_member_def register_tables [OF assms(1)] by simp

lemma has_administrator_cong: "administers d' = administers d \<Longrightarrow> has_administrator d' = has_administrator d"
  by (simp add: fun_eq_iff has_administrator_def)

text \<open>What a passed authorization step leaves behind.\<close>

lemma authorize_caller_ok:
  assumes "authorize_caller d now c operation t resource action auths = Inr d'"
  obtains (system) a where "c = SystemCaller a" "a \<in> set auths" "d' = d"
  | (person) p where "register_permission d resource action = Inr (d', p)" "c \<noteq> NotACaller"
      "can d' now (fst (principal c)) t action resource (fst (snd (principal c)))
         (snd (snd (principal c))) False"
  using assms by (cases c) (auto simp: authorize_caller_def require_caller_def split: if_splits)

lemma authorize_administers:
  assumes "authorize_caller d now c operation t resource action auths = Inr d'" "permission_refs_ok d"
  shows "administers d' = administers d"
  using assms(1) by (cases rule: authorize_caller_ok) (simp_all add: register_administers [OF _ assms(2)])

lemma record_administers:
  assumes "record_in_transaction d c t action resource_type resource_id outcome = Inr d'"
  shows "administers d' = administers d"
proof -
  obtain entries where "d' = d\<lparr>audit_log := entries\<rparr>" using assms by (rule record_frame)
  then show ?thesis
    by (simp add: fun_eq_iff administers_def is_administrator_def frame_simps is_active_member_def)
qed

subsection \<open>Taking a permission from a role, or a role from a member\<close>

lemma delete_role_permission_tables:
  "tenants (delete_role_permission t r p d) = tenants d"
  "tenant_ancestries (delete_role_permission t r p d) = tenant_ancestries d"
  "users (delete_role_permission t r p d) = users d"
  "tenant_memberships (delete_role_permission t r p d) = tenant_memberships d"
  "service_accounts (delete_role_permission t r p d) = service_accounts d"
  "membership_roles (delete_role_permission t r p d) = membership_roles d"
  "permissions (delete_role_permission t r p d) = permissions d"
  "delegation_grants (delete_role_permission t r p d) = delegation_grants d"
  "deny_grants (delete_role_permission t r p d) = deny_grants d"
  by (simp_all add: delete_role_permission_def)

lemma delete_role_permission_grants:
  "c \<noteq> t \<or> ro \<noteq> r \<Longrightarrow>
    role_grants (delete_role_permission t r p d) c ro resource action = role_grants d c ro resource action"
  by (auto simp: role_grants_def names_permission_def delete_role_permission_def set_delete_where)

lemma role_holders_iff:
  "u \<in> set (role_holders t r d) \<longleftrightarrow> (\<exists>m \<in> set (tenant_memberships d). \<exists>a \<in> set (membership_roles d).
     tm_user_id m = u \<and> mr_membership_id a = tm_id m \<and> mr_tenant_id a = t \<and> mr_role_id a = r)"
  by (auto simp: role_holders_def)

lemma delete_role_permission_allows:
  assumes "allows_at d now u USER action resource ign c [s]"
    and "c \<noteq> t \<or> u \<notin> set (role_holders t r d)"
  shows "allows_at (delete_role_permission t r p d) now u USER action resource ign c [s]"
proof -
  let ?d = "delete_role_permission t r p d"
  note tables = delete_role_permission_tables [of t r p d]
  have "tenant_grants_permission ?d c u action resource [s]"
    if granted: "tenant_grants_permission d c u action resource [s]"
  proof -
    from granted obtain m a where m: "lock_membership d c u = Some m" "tm_status m = MEMBER_ACTIVE"
      "is_ok (lock_accessible_tenant d c)"
      and a: "a \<in> set (membership_roles d)" "mr_tenant_id a = c" "mr_membership_id a = tm_id m"
        "mr_scope a = s" "role_grants d c (mr_role_id a) resource action"
      by (auto simp: tenant_grants_permission_def sum_case_is_ok split: option.splits)
    from m(1) have "m \<in> set (tenant_memberships d)" "tm_user_id m = u"
      by (auto simp: lock_membership_def dest: find_SomeD)
    with a assms(2) have "c \<noteq> t \<or> mr_role_id a \<noteq> r" by (auto simp: role_holders_iff)
    then have "role_grants ?d c (mr_role_id a) resource action"
      using a(5) by (simp add: delete_role_permission_grants)
    with m a show ?thesis
      unfolding tenant_grants_permission_def lock_membership_cong [OF tables(4)]
        lock_accessible_tenant_cong [OF tables(1)] tables(6) sum_case_is_ok by auto
  qed
  with assms(1) show ?thesis
    unfolding allows_at_def actor_grants_permission_def delegation_cong [OF tables(1,4,7,8)] by auto
qed

interpretation permission_revocation: guarded_change
  "\<lambda>_. True" "delete_role_permission t r p" t "role_holders t r" for t r p
proof unfold_locales
  fix x d now u
  assume "x \<noteq> t" "t \<notin> set (lock_ancestor_ids d x)" and adm: "administers d now x u"
  then have "c \<noteq> t" if "scope_reaches d c s x" for c s using that by (auto simp: scope_reaches_def)
  then show "administers (delete_role_permission t r p d) now x u"
    by (intro administers_transfer [OF adm])
      (auto simp: delete_role_permission_tables is_active_member_iff deny_authority.simps
        names_permission_def intro: delete_role_permission_allows)
next
  fix u d now x
  assume "u \<notin> set (role_holders t r d)" and adm: "administers d now x u"
  then show "administers (delete_role_permission t r p d) now x u"
    by (intro administers_transfer [OF adm])
      (auto simp: delete_role_permission_tables is_active_member_iff deny_authority.simps
        names_permission_def intro: delete_role_permission_allows)
qed

lemma delete_membership_role_tables:
  "tenants (delete_membership_role t m r d) = tenants d"
  "tenant_ancestries (delete_membership_role t m r d) = tenant_ancestries d"
  "users (delete_membership_role t m r d) = users d"
  "tenant_memberships (delete_membership_role t m r d) = tenant_memberships d"
  "service_accounts (delete_membership_role t m r d) = service_accounts d"
  "permissions (delete_membership_role t m r d) = permissions d"
  "role_permissions (delete_membership_role t m r d) = role_permissions d"
  "delegation_grants (delete_membership_role t m r d) = delegation_grants d"
  "deny_grants (delete_membership_role t m r d) = deny_grants d"
  by (simp_all add: delete_membership_role_def)

lemma delete_membership_role_allows:
  assumes "allows_at d now u USER action resource ign c [s]"
    and "c \<noteq> t \<or> (\<forall>x. lock_membership d t u = Some x \<longrightarrow> tm_id x \<noteq> m)"
  shows "allows_at (delete_membership_role t m r d) now u USER action resource ign c [s]"
proof -
  note tables = delete_membership_role_tables [of t m r d]
  have "tenant_grants_permission (delete_membership_role t m r d) c u action resource [s]"
    if "tenant_grants_permission d c u action resource [s]"
    using that assms(2)
    unfolding tenant_grants_permission_def lock_membership_cong [OF tables(4)]
      lock_accessible_tenant_cong [OF tables(1)] role_grants_cong [OF tables(7,6)] sum_case_is_ok
    by (auto simp: delete_membership_role_def set_delete_where split: option.splits)
  with assms(1) show ?thesis
    unfolding allows_at_def actor_grants_permission_def delegation_cong [OF tables(1,4,6,8)] by auto
qed

text \<open>The primary key of memberships.\<close>

definition membership_ids_unique :: "db \<Rightarrow> bool" where
  "membership_ids_unique d = distinct (map tm_id (tenant_memberships d))"

lemma membership_holder_covers:
  assumes "membership_ids_unique d" "lock_membership d t u = Some x" "tm_id x = m"
  shows "u \<in> set (membership_holder t m d)"
proof -
  from assms(2) have x: "x \<in> set (tenant_memberships d)" "tm_tenant_id x = t" "tm_user_id x = u"
    by (auto simp: lock_membership_def dest: find_SomeD)
  with assms(3) obtain y where y: "find_membership_by_id d t m = Some y"
    using find_None_iff_all [of "\<lambda>m'. tm_tenant_id m' = t \<and> tm_id m' = m" "tenant_memberships d"]
    unfolding find_membership_by_id_def by (metis option.exhaust)
  then have "y \<in> set (tenant_memberships d)" "tm_id y = m"
    unfolding find_membership_by_id_def by (auto dest: find_SomeD)
  with x assms have "y = x" by (auto simp: membership_ids_unique_def distinct_map inj_on_def)
  with y x show ?thesis by (simp add: membership_holder_def)
qed

interpretation role_removal: guarded_change
  membership_ids_unique "delete_membership_role t m r" t "membership_holder t m" for t m r
proof unfold_locales
  fix d x now u
  assume "x \<noteq> t" "t \<notin> set (lock_ancestor_ids d x)" and adm: "administers d now x u"
  then have "c \<noteq> t" if "scope_reaches d c s x" for c s using that by (auto simp: scope_reaches_def)
  then show "administers (delete_membership_role t m r d) now x u"
    by (intro administers_transfer [OF adm])
      (auto simp: delete_membership_role_tables is_active_member_iff deny_authority.simps
        names_permission_def intro: delete_membership_role_allows)
next
  fix d u now x
  assume "membership_ids_unique d" "u \<notin> set (membership_holder t m d)"
    and adm: "administers d now x u"
  then have "\<forall>y. lock_membership d t u = Some y \<longrightarrow> tm_id y \<noteq> m"
    using membership_holder_covers by blast
  then show "administers (delete_membership_role t m r d) now x u"
    by (intro administers_transfer [OF adm])
      (auto simp: delete_membership_role_tables is_active_member_iff deny_authority.simps
        names_permission_def intro: delete_membership_role_allows)
qed

text \<open>Two operations that can take a tenant's last administrator away, and do not.\<close>

lemma authorize_tables:
  assumes "authorize_caller d now c operation t resource action auths = Inr d'"
  shows "tenant_memberships d' = tenant_memberships d"
  using assms by (cases rule: authorize_caller_ok) (simp_all add: register_tables)

lemma revoke_permission_guarded:
  assumes "revoke_permission d now t r p c = Inr d'" "permission_refs_ok d"
    and "has_administrator d now x"
  shows "has_administrator d' now x"
proof -
  from assms(1) obtain d1 where auth: "authorize_caller d now c ''revoke_permission'' t
      ''role_permission'' ''revoke'' [] = Inr d1"
    and rest: "d' = d1 \<or> (verify (delete_role_permission t r p d1) now
        (guard_last_administrator d1 now t (role_holders t r d1)) = Inr () \<and>
      record_in_transaction (delete_role_permission t r p d1) c t ''role_permission.revoke'' ''role''
        (Some r) SUCCESS = Inr d')"
    by (auto simp: revoke_permission_def Let_def split: option.splits)
  have before: "has_administrator d1 now x"
    using assms(3) has_administrator_cong [OF authorize_administers [OF auth assms(2)]] by simp
  show ?thesis
    using rest before permission_revocation.guarded_keeps_administrator
      has_administrator_cong [OF record_administers] by metis
qed

lemma remove_role_guarded:
  assumes "remove_role d now t m r c = Inr d'" "permission_refs_ok d" "membership_ids_unique d"
    and "has_administrator d now x"
  shows "has_administrator d' now x"
proof -
  from assms(1) obtain d1 where auth: "authorize_caller d now c ''remove_role'' t
      ''membership_role'' ''delete'' [] = Inr d1"
    and rest: "d' = d1 \<or> (verify (delete_membership_role t m r d1) now
        (guard_last_administrator d1 now t (membership_holder t m d1)) = Inr () \<and>
      record_in_transaction (delete_membership_role t m r d1) c t ''membership_role.delete''
        ''tenant_membership'' (Some m) SUCCESS = Inr d')"
    by (auto simp: remove_role_def Let_def split: option.splits)
  have before: "has_administrator d1 now x"
    using assms(4) has_administrator_cong [OF authorize_administers [OF auth assms(2)]] by simp
  have "membership_ids_unique d1"
    using assms(3) authorize_tables [OF auth] by (simp add: membership_ids_unique_def)
  then show ?thesis
    using rest before role_removal.guarded_keeps_administrator
      has_administrator_cong [OF record_administers] by metis
qed

subsection \<open>Handing out a role\<close>

lemma list_role_permissions_iff:
  "(resource, action) \<in> set (list_role_permissions d t r) \<longleftrightarrow> role_grants d t r resource action"
  by (auto simp: list_role_permissions_def role_grants_def names_permission_def image_iff
      split: if_splits)

lemma reach_extends:
  assumes "actor_reaches_tenant_at_scope d a t action resource s" "scope_reaches d t s x"
    and "ancestry_transitive d"
  shows "actor_reaches_tenant_at_scope d a x action resource SELF"
proof (cases "x = t")
  case True
  with assms(1) show ?thesis unfolding reaches_scope_iff by auto
next
  case False
  with assms(2) have down: "s = SUBTREE" "t \<in> set (lock_ancestor_ids d x)"
    by (auto simp: scope_reaches_def)
  with assms(1) obtain c where "tenant_grants_permission d c a action resource [SUBTREE]"
    "scope_reaches d c SUBTREE t" unfolding reaches_scope_iff by blast
  with subtree_reach_descends [OF assms(3) down(2)] show ?thesis
    unfolding reaches_scope_iff by blast
qed

lemma member_grants_insert:
  assumes "d2 = d1\<lparr>next_uuid := n, membership_roles := membership_roles d1 @ [row]\<rparr>"
    and "tenant_grants_permission d2 c u action resource S"
  shows "tenant_grants_permission d1 c u action resource S \<or>
    (c = mr_tenant_id row \<and> mr_scope row \<in> set S \<and>
     role_grants d1 c (mr_role_id row) resource action)"
proof -
  have same: "lock_membership d2 = lock_membership d1"
    "lock_accessible_tenant d2 = lock_accessible_tenant d1" "role_grants d2 = role_grants d1"
    using assms(1) by (auto intro!: lock_membership_cong lock_accessible_tenant_cong role_grants_cong)
  from assms(2) show ?thesis
    unfolding tenant_grants_permission_def same sum_case_is_ok
    using assms(1) by (auto split: option.splits)
qed

lemma insert_membership_role_ok:
  assumes "insert_membership_role d t m r s c authorize = Inr d'"
  obtains d1 n i entries where "authorize d = Inr d1"
    "d' = d1\<lparr>next_uuid := n, membership_roles := membership_roles d1 @ [\<lparr>mr_id = i,
        mr_tenant_id = t, mr_membership_id = m, mr_role_id = r, mr_scope = s\<rparr>], audit_log := entries\<rparr>"
    "entries = audit_log d1 @ [entry_of c t ''membership_role.create'' ''tenant_membership'' (Some m)
        SUCCESS]"
    "find_role d1 t r \<noteq> None" "find_membership_by_id d1 t m \<noteq> None" "i = next_uuid d1"
    "n = Suc i"
  using assms
  by (auto simp: insert_membership_role_def bind_simps insert_membership_role_row_def take_uuid_def
      Let_def split: if_splits dest!: record_ok)

lemma can_difference:
  assumes "can d' now a x action resource ty home ign" "\<not> can d now a x action resource ty home ign"
    and "tenants d' = tenants d" "tenant_ancestries d' = tenant_ancestries d" "users d' = users d"
    "service_accounts d' = service_accounts d" "denied d' = denied d"
    "support_access_requests d' = support_access_requests d"
  shows "\<exists>c s. allows_at d' now a ty action resource ign c [s] \<and>
    \<not> allows_at d now a ty action resource ign c [s] \<and> scope_reaches d c s x"
  using assms(1,2)
  unfolding decide_formula is_open_cong [OF assms(3)] admits_principals_cong [OF assms(3)]
    actor_is_live_cong [OF assms(5,6)] assms(7) scope_reaches_cong [OF assms(4)]
    support_access_cong [OF assms(3,4,8)] by blast

lemma assign_role_authorized:
  assumes "assign_role d now t m r s c = Inr d'" "permission_refs_ok d"
  obtains u d1 q where "c = UserCaller u"
    "register_permission d ''membership_role'' ''create'' = Inr (d1, q)"
    "user_can d now u t ''create'' ''membership_role''"
    "reaches_all d1 u t (list_role_permissions d1 t r) s"
    "insert_membership_role d1 t m r s c Inr = Inr d'"
proof -
  from assms(1) obtain u where c: "c = UserCaller u" by (cases c) (auto simp: assign_role_def bind_simps)
  from assms(1) obtain d1 q where
    reg: "register_permission d ''membership_role'' ''create'' = Inr (d1, q)"
    and can1: "can d1 now u t ''create'' ''membership_role'' USER None False"
    and all: "reaches_all d1 u t (list_role_permissions d1 t r) s"
    and ins: "insert_membership_role d1 t m r s c Inr = Inr d'"
    unfolding c assign_role_def
    by (auto simp: bind_simps insert_membership_role_def Let_def split: if_splits)
  from can1 have "user_can d now u t ''create'' ''membership_role''"
    unfolding register_can [OF reg assms(2)] .
  with c reg all ins that show ?thesis by blast
qed

lemma assign_role_amplifies_nothing:
  assumes "assign_role d now t m r s c = Inr d'" "permission_refs_ok d" "ancestry_transitive d"
    and "user_can d' now u x action resource" "\<not> user_can d now u x action resource"
  shows "\<exists>giver. c = UserCaller giver \<and>
    actor_reaches_tenant_at_scope d giver x action resource SELF"
proof -
  obtain giver d1 q where c: "c = UserCaller giver"
    and reg: "register_permission d ''membership_role'' ''create'' = Inr (d1, q)"
    and all: "reaches_all d1 giver t (list_role_permissions d1 t r) s"
    and ins: "insert_membership_role d1 t m r s c Inr = Inr d'"
    using assign_role_authorized [OF assms(1,2)] by metis
  obtain n i entries where d': "d' = d1\<lparr>next_uuid := n, membership_roles := membership_roles d1 @
      [\<lparr>mr_id = i, mr_tenant_id = t, mr_membership_id = m, mr_role_id = r, mr_scope = s\<rparr>],
      audit_log := entries\<rparr>"
    using ins by (auto elim!: insert_membership_role_ok)
  let ?row = "\<lparr>mr_id = i, mr_tenant_id = t, mr_membership_id = m, mr_role_id = r, mr_scope = s\<rparr>"
  let ?d2 = "d1\<lparr>next_uuid := n, membership_roles := membership_roles d1 @ [?row]\<rparr>"
  have audit: "can d' = can ?d2" unfolding d' by (rule can_cong) simp_all
  have deny: "denied ?d2 = denied d1" by (rule denied_cong) simp_all
  have was: "\<not> can d1 now u x action resource USER None False"
    using assms(5) unfolding register_can [OF reg assms(2)] .
  have "\<exists>c' s'. allows_at ?d2 now u USER action resource False c' [s'] \<and>
      \<not> allows_at d1 now u USER action resource False c' [s'] \<and> scope_reaches d1 c' s' x"
    using deny by (intro can_difference [OF assms(4) [unfolded audit] was]) simp_all
  then obtain c' s' where new: "allows_at ?d2 now u USER action resource False c' [s']"
    and old: "\<not> allows_at d1 now u USER action resource False c' [s']"
    and reach: "scope_reaches d1 c' s' x" by blast
  have deleg: "tenant_grants_permission_via_delegation ?d2 = tenant_grants_permission_via_delegation d1"
    by (rule delegation_cong) simp_all
  from new old have fresh: "tenant_grants_permission ?d2 c' u action resource [s']"
    "\<not> tenant_grants_permission d1 c' u action resource [s']"
    by (auto simp: allows_at_def actor_grants_permission_def deleg)
  from member_grants_insert [OF refl fresh(1)] fresh(2)
  have "c' = t" "s' = s" "role_grants d1 t r resource action" by auto
  with all have "actor_reaches_tenant_at_scope d1 giver t action resource s"
    by (auto simp: reaches_all_def list_all_iff list_role_permissions_iff [symmetric])
  moreover have "lock_ancestor_ids d1 = lock_ancestor_ids d" "tenant_ancestries d1 = tenant_ancestries d"
    using register_tables [OF reg] by (auto intro!: lock_ancestor_ids_cong)
  then have "ancestry_transitive d1" using assms(3) by (simp add: ancestry_transitive_def)
  ultimately have "actor_reaches_tenant_at_scope d1 giver x action resource SELF"
    using reach \<open>c' = t\<close> \<open>s' = s\<close> by (auto intro: reach_extends)
  moreover have "actor_reaches_tenant_at_scope d1 = actor_reaches_tenant_at_scope d"
    unfolding fun_eq_iff reaches_scope_iff register_member_grants [OF reg assms(2)]
      scope_reaches_cong [OF register_tables(2) [OF reg]] by simp
  ultimately show ?thesis using c by auto
qed

subsection \<open>Permission upgrades\<close>

lemma permission_unique:
  assumes "permission_refs_ok d" "get_permission_by_id d i = Some p"
    "names_permission d i resource action"
  shows "pm_resource p = resource \<and> pm_action p = action"
proof -
  from assms(2) have "p \<in> set (permissions d)" "pm_id p = i"
    unfolding get_permission_by_id_def by (auto dest: find_SomeD)
  with assms(1,3) show ?thesis
    by (auto simp: names_permission_def permission_refs_ok_def distinct_map inj_on_def)
qed

lemma insert_role_permission_ok:
  "insert_role_permission d t r p = Inr d' \<Longrightarrow>
    d' = d\<lparr>next_uuid := Suc (next_uuid d), role_permissions := role_permissions d @ [\<lparr>rp_id = next_uuid d,
      rp_tenant_id = t, rp_role_id = r, rp_permission_id = p\<rparr>]\<rparr> \<and>
    find_role d t r \<noteq> None \<and> get_permission_by_id d p \<noteq> None"
  by (auto simp: insert_role_permission_def take_uuid_def Let_def split: if_splits)

lemma role_grants_insert:
  assumes "insert_role_permission d t r p = Inr d'"
  shows "role_grants d' c ro resource action \<longleftrightarrow> role_grants d c ro resource action \<or>
    (c = t \<and> ro = r \<and> names_permission d p resource action)"
  using insert_role_permission_ok [OF assms]
  by (auto simp: role_grants_def names_permission_def)

lemma upgrade_ok:
  assumes "grant_registered_permission_to_role d t r p c = Inr (d', b)"
  obtains (noop) "d' = d" "c = SystemCaller PERMISSION_UPGRADE"
  | (granted) q d1 entries where "get_permission_by_id d p = Some q"
      "\<not> is_authority_changing (pm_resource q) (pm_action q)"
      "insert_role_permission d t r p = Inr d1" "d' = d1\<lparr>audit_log := entries\<rparr>"
      "c = SystemCaller PERMISSION_UPGRADE"
  using assms
  by (auto simp: grant_registered_permission_to_role_def Let_def bind_simps split: if_splits option.splits
      dest!: record_ok)

lemma allows_at_role_grants:
  assumes "tenants d' = tenants d" "tenant_memberships d' = tenant_memberships d"
    "permissions d' = permissions d" "membership_roles d' = membership_roles d"
    "service_account_roles d' = service_account_roles d"
    "delegation_grants d' = delegation_grants d"
    and same: "\<And>c r. role_grants d' c r resource action = role_grants d c r resource action"
  shows "allows_at d' now a ty action resource ign c S = allows_at d now a ty action resource ign c S"
  unfolding allows_at_def actor_grants_permission_def tenant_grants_permission_def
    tenant_grants_permission_for_service_account_def delegation_cong [OF assms(1,2,3,6)]
    lock_membership_cong [OF assms(2)] lock_accessible_tenant_cong [OF assms(1)] assms(4,5) same ..

lemma upgrade_keeps_authority:
  assumes "grant_registered_permission_to_role d t r p c = Inr (d', b)" "permission_refs_ok d"
    and "is_authority_changing resource action"
  shows "can d' now a x action resource ty home ign = can d now a x action resource ty home ign"
  using assms(1)
proof (cases rule: upgrade_ok)
  case noop
  then show ?thesis by simp
next
  case (granted q d1 entries)
  note d1 = conjunct1 [OF insert_role_permission_ok [OF granted(3)]]
  have tables: "tenants d1 = tenants d" "tenant_ancestries d1 = tenant_ancestries d"
    "users d1 = users d" "service_accounts d1 = service_accounts d"
    "tenant_memberships d1 = tenant_memberships d" "permissions d1 = permissions d"
    "membership_roles d1 = membership_roles d" "service_account_roles d1 = service_account_roles d"
    "delegation_grants d1 = delegation_grants d" "deny_grants d1 = deny_grants d"
    unfolding d1 by simp_all
  have "\<not> names_permission d p resource action"
    using permission_unique [OF assms(2) granted(1)] granted(2) assms(3) by auto
  then have same: "role_grants d1 c ro resource action = role_grants d c ro resource action" for c ro
    using role_grants_insert [OF granted(3)] by auto
  have "allows_at d1 now a ty action resource ign c S = allows_at d now a ty action resource ign c S"
    for c S
    by (rule allows_at_role_grants [OF tables(1,5,6,7,8,9) same])
  then have "can d1 now a x action resource ty home ign = can d now a x action resource ty home ign"
    unfolding can_authority_changing [OF assms(3)] admits_principals_cong [OF tables(1)]
      actor_is_live_cong [OF tables(3,4)] denied_cong [OF tables(10,6,2)]
      scope_reaches_cong [OF tables(2)] by simp
  then show ?thesis by (simp add: granted(4) frame_simps)
qed

subsection \<open>Properties\<close>

text \<open>C4: no tenant loses its last administrator through the role operations. When revoking
  a permission from a role, or removing a role from a member, succeeds, every tenant that had
  an administrator before still has one: the tenant itself, every descendant and every
  unrelated tenant.\<close>

theorem role_operations_keep_administrators:
  assumes "permission_refs_ok d" "membership_ids_unique d" "has_administrator d now x"
    and "revoke_permission d now t r p c = Inr d' \<or> remove_role d now t m r c = Inr d'"
  shows "has_administrator d' now x"
  using assms revoke_permission_guarded remove_role_guarded by blast

theorem role_operations_keep_administrators_witness:
  "\<exists>d'. revoke_permission sample_db 100 2 31 40 (UserCaller 10) = Inr d' \<and> has_administrator d' 100 2"
proof -
  have "permission_refs_ok sample_db" "membership_ids_unique sample_db" by code_simp+
  moreover have "find_administrator sample_db 100 2 None None = Some 11 \<or>
      find_administrator sample_db 100 2 None None = Some 10" by code_simp
  then have "has_administrator sample_db 100 2"
    using find_administrator_Some [of sample_db 100 2 None None] by (auto simp: has_administrator_def)
  moreover have "is_ok (revoke_permission sample_db 100 2 31 40 (UserCaller 10))" by code_simp
  then obtain d' where "revoke_permission sample_db 100 2 31 40 (UserCaller 10) = Inr d'"
    by (auto simp: is_ok_iff)
  ultimately show ?thesis using role_operations_keep_administrators by blast
qed

text \<open>C5: assigning a role amplifies nothing. If after a successful assignment some user is
  allowed an action in some tenant that was not allowed before, the person who assigned the
  role already reached that very tenant for that action through ordinary membership roles.\<close>

theorem assign_role_no_amplification:
  assumes "assign_role d now t m r s c = Inr d'" "permission_refs_ok d" "ancestry_transitive d"
    and "user_can d' now u x action resource" "\<not> user_can d now u x action resource"
  shows "\<exists>giver. c = UserCaller giver \<and>
    actor_reaches_tenant_at_scope d giver x action resource SELF"
  using assms by (rule assign_role_amplifies_nothing)

theorem assign_role_no_amplification_witness:
  "actor_reaches_tenant_at_scope (sample_db\<lparr>membership_roles := take 1 (membership_roles sample_db)\<rparr>)
     10 2 ''create'' ''membership_role'' SELF"
proof -
  let ?d = "sample_db\<lparr>membership_roles := take 1 (membership_roles sample_db)\<rparr>"
  let ?r = "assign_role ?d 100 2 21 31 SELF (UserCaller 10)"
  have "is_ok ?r" by code_simp
  then obtain d' where r: "?r = Inr d'" by (auto simp: is_ok_iff)
  have "case ?r of Inl _ \<Rightarrow> False | Inr e \<Rightarrow> user_can e 100 11 2 ''create'' ''membership_role''"
    by code_simp
  then have new: "user_can d' 100 11 2 ''create'' ''membership_role''" using r by simp
  have "permission_refs_ok ?d" "ancestry_transitive ?d"
    "\<not> user_can ?d 100 11 2 ''create'' ''membership_role''" by code_simp+
  with assign_role_no_amplification [OF r] new show ?thesis by blast
qed

text \<open>Registering a permission, which every authorization step does on demand, changes
  no decision for anybody and keeps the catalog's references intact.\<close>

theorem registration_is_invisible:
  assumes "register_permission d resource action = Inr (d', p)" "permission_refs_ok d"
  shows "can d' = can d \<and> permission_refs_ok d'"
  using register_can [OF assms] register_refs_ok [OF assms] by simp

text \<open>The permission-upgrade purpose changes no authority. The one operation that accepts
  it accepts no other caller, and leaves every decision about an authority resource, a
  billing mutation or tenant self-suspension exactly as it was.\<close>

theorem permission_upgrade_changes_no_authority:
  assumes "grant_registered_permission_to_role d t r p c = Inr (d', b)" "permission_refs_ok d"
  shows "c = SystemCaller PERMISSION_UPGRADE \<and>
    (is_authority_changing resource action \<longrightarrow>
      can d' now a x action resource ty home ign = can d now a x action resource ty home ign)"
  using upgrade_keeps_authority [OF assms] upgrade_ok [OF assms(1)] by blast

definition granter_db :: db where
  "granter_db = sample_db\<lparr>
     users := users sample_db @ [\<lparr>us_id = 14, us_is_active = True\<rparr>],
     tenant_memberships := tenant_memberships sample_db @ [mk_membership 24 1 14 MEMBER_ACTIVE],
     roles := roles sample_db @ [\<lparr>ro_id = 33, ro_tenant_id = 1, ro_name = ''granter''\<rparr>,
       \<lparr>ro_id = 34, ro_tenant_id = 1, ro_name = ''regional''\<rparr>],
     role_permissions := role_permissions sample_db @
       [\<lparr>rp_id = 100, rp_tenant_id = 1, rp_role_id = 33, rp_permission_id = 41\<rparr>,
        \<lparr>rp_id = 101, rp_tenant_id = 1, rp_role_id = 33, rp_permission_id = 42\<rparr>],
     membership_roles := membership_roles sample_db @
       [\<lparr>mr_id = 102, mr_tenant_id = 1, mr_membership_id = 24, mr_role_id = 33, mr_scope = SELF\<rparr>,
        \<lparr>mr_id = 103, mr_tenant_id = 1, mr_membership_id = 24, mr_role_id = 34,
         mr_scope = SUBTREE\<rparr>]\<rparr>"

text \<open>A permission granted to a role reaches as far as the role is assigned, while the
  anti-amplification check on the grant asks only for the tenant itself. A member who may
  grant permissions and holds one with SELF scope only, and who also holds a role with
  SUBTREE scope, gives that permission to the role and is then allowed it in a descendant
  tenant that neither the member nor anyone's ordinary authority of theirs reached before.\<close>

theorem grant_permission_amplifies_through_subtree:
  "\<exists>d d' now t r p u x action resource. permission_refs_ok d \<and> ancestry_transitive d \<and>
     grant_permission d now t r p (UserCaller u) = Inr d' \<and>
     user_can d' now u x action resource \<and> \<not> user_can d now u x action resource \<and>
     \<not> actor_reaches_tenant_at_scope d u x action resource SELF"
proof -
  let ?r = "grant_permission granter_db 100 1 34 41 (UserCaller 14)"
  have "is_ok ?r" by code_simp
  then obtain d' where r: "?r = Inr d'" by (auto simp: is_ok_iff)
  have "case ?r of Inl _ \<Rightarrow> False | Inr e \<Rightarrow> user_can e 100 14 2 ''read'' ''report''" by code_simp
  then have "user_can d' 100 14 2 ''read'' ''report''" using r by simp
  moreover have "permission_refs_ok granter_db" "ancestry_transitive granter_db"
    "\<not> user_can granter_db 100 14 2 ''read'' ''report''"
    "\<not> actor_reaches_tenant_at_scope granter_db 14 2 ''read'' ''report'' SELF" by code_simp+
  ultimately show ?thesis using r by blast
qed


lemma record_service_account:
  "record_in_transaction d (ServiceAccountCaller sa home) t action resource_type resource_id outcome
     = Inr d' \<Longrightarrow> lock_service_account_status d t sa \<noteq> None"
  by (drule record_ok) (simp add: audit_references_ok_def entry_of_def)

text \<open>A service account acts under its audit record. The record's composite foreign key
  admits a service account only in its own tenant, so an account whose SUBTREE role allows
  creating roles in a descendant is nevertheless always refused there, and the refusal it
  gets is that the role name is a duplicate, whether or not any such role exists.\<close>

theorem service_account_refused_as_duplicate:
  assumes "can d now sa t ''create'' ''role'' SERVICE_ACCOUNT (Some home) False"
    and "lock_service_account_status d t sa = None" and "permission_refs_ok d"
    and "\<not> has_control_characters name" "length name \<le> 100"
  shows "create_role d now t name (ServiceAccountCaller sa home) = Inl (DuplicateRoleNameError t name)"
proof -
  let ?c = "ServiceAccountCaller sa home"
  have "is_ok (register_permission d ''role'' ''create'')"
    by (simp add: register_permission_def register_permission_in_def take_uuid_def Let_def
        has_control_characters_def control_character_def split: option.split)
  then obtain d1 q where reg: "register_permission d ''role'' ''create'' = Inr (d1, q)"
    by (auto simp: is_ok_iff)
  have auth: "authorize_caller d now ?c ''create_role'' t ''role'' ''create'' PROVISIONING_ONLY = Inr d1"
    using assms(1) by (simp add: authorize_caller_def require_caller_def ALL_CALLER_TYPES_def reg
        register_can [OF reg assms(3)])
  from assms(1) have "is_open d t" by (simp add: decide_formula)
  then obtain tn where opened: "require_open_tenant d t = Inr tn"
    by (auto simp: require_open_tenant_eq is_open_def is_ok_iff)
  have "insert_role d1 t name = Inl IntegrityError \<or> (\<exists>d2 i. insert_role d1 t name = Inr (d2, i) \<and>
      service_accounts d2 = service_accounts d)"
    using assms(5) by (auto simp: insert_role_def take_uuid_def Let_def register_tables [OF reg])
  moreover have "record_in_transaction d2 ?c t ''role.create'' ''role'' (Some i) SUCCESS =
      Inl IntegrityError" if "service_accounts d2 = service_accounts d" for d2 i
    using assms(2) that
    by (simp add: record_in_transaction_def require_caller_def ALL_CALLER_TYPES_def validated_entry_def
        validate_action_and_resource_def is_blank_def whitespace_character_def
        has_control_characters_def control_character_def audit_references_ok_def
        lock_service_account_status_def require_def)
  ultimately show ?thesis
    using assms(4)
    by (auto simp: create_role_def require_caller_def ALL_CALLER_TYPES_def auth opened require_def
        catch_def)
qed

lemma create_role_ok:
  assumes "create_role d now t name c = Inr (d', i)"
  obtains d1 d2 where "authorize_caller d now c ''create_role'' t ''role'' ''create''
      PROVISIONING_ONLY = Inr d1" "insert_role d1 t name = Inr (d2, i)"
    "record_in_transaction d2 c t ''role.create'' ''role'' (Some i) SUCCESS = Inr d'" "is_open d t"
  using assms by (auto simp: create_role_def bind_simps is_open_def is_ok_iff require_open_tenant_eq)

lemma grant_permission_ok:
  assumes "grant_permission d now t r p c = Inr d'"
  obtains d1 d2 q where "authorize_caller d now c ''grant_permission'' t ''role_permission'' ''grant''
      PROVISIONING_ONLY = Inr d1" "get_permission_by_id d p = Some q"
    "require_no_amplification d1 c ''grant_permission'' t [q] SELF = Inr ()"
    "insert_role_permission d1 t r p = Inr d2"
    "record_in_transaction d2 c t ''role_permission.grant'' ''role'' (Some r) SUCCESS = Inr d'"
    "is_open d t"
  using assms by (auto simp: grant_permission_def bind_simps is_open_def is_ok_iff require_open_tenant_eq
      split: option.splits if_splits)

lemma authorize_audit:
  "authorize_caller d now c operation t resource action auths = Inr d' \<Longrightarrow> audit_log d' = audit_log d"
  by (erule authorize_caller_ok) (simp_all add: register_tables)

text \<open>An operation and its evidence are one. A role, a permission grant or a role
  assignment that is created leaves exactly one new audit record, a success that names the
  caller, the tenant and the affected row; and nothing is written for a closed tenant.\<close>

theorem role_mutations_are_audited:
  "(create_role d now t name c = Inr (d', i) \<longrightarrow> is_open d t \<and>
      audit_log d' = audit_log d @ [entry_of c t ''role.create'' ''role'' (Some i) SUCCESS]) \<and>
   (grant_permission d now t r p c = Inr d' \<longrightarrow> is_open d t \<and>
      audit_log d' = audit_log d @ [entry_of c t ''role_permission.grant'' ''role'' (Some r) SUCCESS]) \<and>
   (assign_role d now t m r s c = Inr d' \<longrightarrow> is_open d t \<and>
      audit_log d' = audit_log d @
        [entry_of c t ''membership_role.create'' ''tenant_membership'' (Some m) SUCCESS])"
proof (intro conjI impI)
  assume r: "create_role d now t name c = Inr (d', i)"
  then show "is_open d t" by (rule create_role_ok)
  from r show "audit_log d' = audit_log d @ [entry_of c t ''role.create'' ''role'' (Some i) SUCCESS]"
    by (rule create_role_ok) (auto simp: insert_role_def take_uuid_def Let_def authorize_audit
        split: if_splits dest!: record_ok)
next
  assume r: "grant_permission d now t r p c = Inr d'"
  then show "is_open d t" by (rule grant_permission_ok)
  from r show "audit_log d' = audit_log d @
      [entry_of c t ''role_permission.grant'' ''role'' (Some r) SUCCESS]"
    by (rule grant_permission_ok) (auto simp: authorize_audit dest!: record_ok
        insert_role_permission_ok)
next
  assume r: "assign_role d now t m r s c = Inr d'"
  then show "is_open d t"
    by (auto simp: assign_role_def bind_simps is_open_def is_ok_iff require_open_tenant_eq Let_def)
  from r show "audit_log d' = audit_log d @
      [entry_of c t ''membership_role.create'' ''tenant_membership'' (Some m) SUCCESS]"
    by (auto simp: assign_role_def Let_def register_tables split: if_splits
        elim!: insert_membership_role_ok)
qed

end
