(* ===== verification/Rbac_Grants.thy ===== *)
theory Rbac_Grants
  imports Rbac_Roles
begin

section \<open>Delegations, denies and support access\<close>

text \<open>
  The second half of \<open>saas_os/core/rbac/service.py\<close>: creating and revoking delegation
  and deny grants, and the life of a support-access request
  (\<open>saas_os/core/rbac/support_status.py\<close>). The check constraints and partial unique
  indexes of \<open>saas_os/core/rbac/models.py\<close> are part of each insert; a unique index treats
  two NULLs as distinct, as PostgreSQL does.
\<close>

subsection \<open>Constraints\<close>

definition user_exists :: "db \<Rightarrow> uuid \<Rightarrow> bool" where
  "user_exists d u = (lock_user_is_active d u \<noteq> None)"

definition principal_pairing :: "principal_type \<Rightarrow> uuid option \<Rightarrow> uuid option \<Rightarrow> bool" where
  "principal_pairing ty user_id service_account_id = (case ty of
     USER \<Rightarrow> user_id \<noteq> None \<and> service_account_id = None
   | SYSTEM \<Rightarrow> user_id = None \<and> service_account_id = None
   | SERVICE_ACCOUNT \<Rightarrow> user_id = None \<and> service_account_id \<noteq> None)"

definition option_all :: "('a \<Rightarrow> bool) \<Rightarrow> 'a option \<Rightarrow> bool" where
  "option_all p x = (case x of None \<Rightarrow> True | Some a \<Rightarrow> p a)"

definition service_account_exists :: "db \<Rightarrow> uuid \<Rightarrow> bool" where
  "service_account_exists d s = (\<exists>a \<in> set (service_accounts d). sa_id a = s)"

definition delegation_checks :: "delegation_grant \<Rightarrow> bool" where
  "delegation_checks g = (
     (dg_delegator_principal_type g = USER \<and> dg_delegator_principal_id g \<noteq> None \<or>
      dg_delegator_principal_type g = SYSTEM \<and> dg_delegator_principal_id g = None) \<and>
     principal_pairing (dg_delegate_principal_type g) (dg_delegate_principal_id g)
       (dg_delegate_service_account_id g) \<and>
     option_all (\<lambda>e. e > dg_starts_at g) (dg_expires_at g))"

definition delegation_references :: "db \<Rightarrow> delegation_grant \<Rightarrow> bool" where
  "delegation_references d g = (find_tenant d (dg_tenant_id g) \<noteq> None \<and>
     option_all (user_exists d) (dg_delegator_principal_id g) \<and>
     option_all (user_exists d) (dg_delegate_principal_id g) \<and>
     option_all (service_account_exists d) (dg_delegate_service_account_id g) \<and>
     get_permission_by_id d (dg_permission_id g) \<noteq> None)"

definition delegation_index_conflict :: "delegation_grant \<Rightarrow> delegation_grant \<Rightarrow> bool" where
  "delegation_index_conflict g h = (dg_revoked_at g = None \<and> dg_revoked_at h = None \<and>
     dg_tenant_id g = dg_tenant_id h \<and>
     dg_delegate_principal_type g = dg_delegate_principal_type h \<and>
     sql_eq (dg_delegate_principal_id g) (dg_delegate_principal_id h) \<and>
     sql_eq (dg_delegate_service_account_id g) (dg_delegate_service_account_id h) \<and>
     dg_scope_mode g = dg_scope_mode h \<and> dg_permission_id g = dg_permission_id h)"

definition insert_delegation :: "db \<Rightarrow> (uuid \<Rightarrow> delegation_grant) \<Rightarrow> error + (db \<times> uuid)" where
  "insert_delegation d row = (let (i, d1) = take_uuid d; g = row i in
     if \<not> delegation_checks g \<or> \<not> delegation_references d1 g \<or>
        (\<exists>h \<in> set (delegation_grants d1). delegation_index_conflict g h)
     then Inl IntegrityError
     else Inr (d1\<lparr>delegation_grants := delegation_grants d1 @ [g]\<rparr>, i))"

definition deny_checks :: "deny_grant \<Rightarrow> bool" where
  "deny_checks g = principal_pairing (dn_principal_type g) (dn_principal_id g)
     (dn_principal_service_account_id g)"

definition deny_references :: "db \<Rightarrow> deny_grant \<Rightarrow> bool" where
  "deny_references d g = (find_tenant d (dn_tenant_id g) \<noteq> None \<and>
     option_all (user_exists d) (dn_principal_id g) \<and>
     option_all (service_account_exists d) (dn_principal_service_account_id g) \<and>
     get_permission_by_id d (dn_permission_id g) \<noteq> None)"

definition deny_index_conflict :: "deny_grant \<Rightarrow> deny_grant \<Rightarrow> bool" where
  "deny_index_conflict g h = (dn_revoked_at g = None \<and> dn_revoked_at h = None \<and>
     dn_tenant_id g = dn_tenant_id h \<and> dn_principal_type g = dn_principal_type h \<and>
     sql_eq (dn_principal_id g) (dn_principal_id h) \<and>
     sql_eq (dn_principal_service_account_id g) (dn_principal_service_account_id h) \<and>
     dn_scope_mode g = dn_scope_mode h \<and> dn_permission_id g = dn_permission_id h)"

definition insert_deny :: "db \<Rightarrow> (uuid \<Rightarrow> deny_grant) \<Rightarrow> error + (db \<times> uuid)" where
  "insert_deny d row = (let (i, d1) = take_uuid d; g = row i in
     if \<not> deny_checks g \<or> \<not> deny_references d1 g \<or>
        (\<exists>h \<in> set (deny_grants d1). deny_index_conflict g h)
     then Inl IntegrityError
     else Inr (d1\<lparr>deny_grants := deny_grants d1 @ [g]\<rparr>, i))"

subsection \<open>Delegations\<close>

definition resolve_start :: "datetime \<Rightarrow> datetime option \<Rightarrow> datetime" where
  "resolve_start now starts_at = (case starts_at of None \<Rightarrow> now | Some s \<Rightarrow> s)"

definition check_window :: "datetime \<Rightarrow> datetime option \<Rightarrow> error + unit" where
  "check_window resolved_starts_at expires_at = (case expires_at of
     None \<Rightarrow> Inr ()
   | Some e \<Rightarrow> if e \<le> resolved_starts_at
       then Inl (InvalidDelegationTimeRangeError resolved_starts_at e) else Inr ())"

definition delegation_transaction ::
  "db \<Rightarrow> datetime \<Rightarrow> caller \<Rightarrow> uuid \<Rightarrow> role_scope \<Rightarrow> permission \<Rightarrow> (uuid \<Rightarrow> delegation_grant)
    \<Rightarrow> error + (db \<times> uuid)" where
  "delegation_transaction d now c tenant_id scope_mode p row =
     (let delegator_user_id = fst (principal c) in
     ebind (register_permission d ''delegation_grant'' ''create'') (\<lambda>(d1, _).
     ebind (require (can d1 now delegator_user_id tenant_id ''create'' ''delegation_grant'' USER None
         False) (DelegationNotAuthorizedError delegator_user_id tenant_id)) (\<lambda>_.
     ebind (require (actor_reaches_tenant_at_scope d1 delegator_user_id tenant_id (pm_action p)
         (pm_resource p) scope_mode) (DelegationNotAuthorizedError delegator_user_id tenant_id)) (\<lambda>_.
     ebind (insert_delegation d1 row) (\<lambda>(d2, grant_id).
     ebind (record_in_transaction d2 c tenant_id ''delegation.create'' ''delegation_grant''
         (Some grant_id) SUCCESS) (\<lambda>d3. Inr (d3, grant_id)))))))"

definition delegation_row ::
  "uuid \<Rightarrow> uuid \<Rightarrow> principal_type \<Rightarrow> uuid option \<Rightarrow> uuid option \<Rightarrow> role_scope \<Rightarrow> uuid \<Rightarrow> datetime \<Rightarrow>
    datetime option \<Rightarrow> bool \<Rightarrow> uuid \<Rightarrow> delegation_grant" where
  "delegation_row tenant_id delegator_user_id delegate_type delegate_user delegate_service_account
      scope_mode permission_id starts_at expires_at allow_redelegate i = \<lparr>dg_id = i,
     dg_tenant_id = tenant_id, dg_delegator_principal_type = USER,
     dg_delegator_principal_id = Some delegator_user_id,
     dg_delegate_principal_type = delegate_type, dg_delegate_principal_id = delegate_user,
     dg_delegate_service_account_id = delegate_service_account, dg_scope_mode = scope_mode,
     dg_permission_id = permission_id, dg_starts_at = starts_at, dg_expires_at = expires_at,
     dg_revoked_at = None, dg_allow_redelegate = allow_redelegate\<rparr>"

definition create_delegation ::
  "db \<Rightarrow> datetime \<Rightarrow> caller \<Rightarrow> uuid \<Rightarrow> uuid \<Rightarrow> role_scope \<Rightarrow> uuid \<Rightarrow> datetime option \<Rightarrow>
    datetime option \<Rightarrow> bool \<Rightarrow> error + (db \<times> uuid)" where
  "create_delegation d now c delegate_user_id tenant_id scope_mode permission_id starts_at expires_at
      allow_redelegate =
     ebind (require_caller ''create_delegation'' c [UserCallerType]) (\<lambda>_.
     let delegator_user_id = fst (principal c);
         resolved_starts_at = resolve_start now starts_at in
     ebind (require_open_tenant d tenant_id) (\<lambda>_.
     ebind (require (user_exists d delegator_user_id) (InvalidPrincipalError USER delegator_user_id)) (\<lambda>_.
     ebind (require (user_exists d delegate_user_id) (InvalidPrincipalError USER delegate_user_id)) (\<lambda>_.
     case get_permission_by_id d permission_id of
       None \<Rightarrow> Inl (PermissionNotFoundError permission_id)
     | Some p \<Rightarrow>
         ebind (check_window resolved_starts_at expires_at) (\<lambda>_.
         delegation_transaction d now c tenant_id scope_mode p
           (delegation_row tenant_id delegator_user_id USER (Some delegate_user_id) None scope_mode
             permission_id resolved_starts_at expires_at allow_redelegate))))))"

definition create_delegation_to_service_account ::
  "db \<Rightarrow> datetime \<Rightarrow> caller \<Rightarrow> uuid \<Rightarrow> uuid \<Rightarrow> uuid \<Rightarrow> role_scope \<Rightarrow> uuid \<Rightarrow> datetime option \<Rightarrow>
    datetime option \<Rightarrow> error + (db \<times> uuid)" where
  "create_delegation_to_service_account d now c service_account_id service_account_tenant_id
      tenant_id scope_mode permission_id starts_at expires_at =
     ebind (require_caller ''create_delegation_to_service_account'' c [UserCallerType]) (\<lambda>_.
     let delegator_user_id = fst (principal c);
         resolved_starts_at = resolve_start now starts_at in
     ebind (require_open_tenant d tenant_id) (\<lambda>_.
     ebind (require (user_exists d delegator_user_id) (InvalidPrincipalError USER delegator_user_id)) (\<lambda>_.
     ebind (require (lock_service_account_status d service_account_tenant_id service_account_id \<noteq> None)
       (InvalidPrincipalError SERVICE_ACCOUNT service_account_id)) (\<lambda>_.
     case get_permission_by_id d permission_id of
       None \<Rightarrow> Inl (PermissionNotFoundError permission_id)
     | Some p \<Rightarrow>
         ebind (check_window resolved_starts_at expires_at) (\<lambda>_.
         delegation_transaction d now c tenant_id scope_mode p
           (delegation_row tenant_id delegator_user_id SERVICE_ACCOUNT None (Some service_account_id)
             scope_mode permission_id resolved_starts_at expires_at False))))))"

definition find_delegation :: "db \<Rightarrow> uuid \<Rightarrow> uuid \<Rightarrow> delegation_grant option" where
  "find_delegation d tenant_id delegation_grant_id =
     find (\<lambda>g. dg_id g = delegation_grant_id \<and> dg_tenant_id g = tenant_id) (delegation_grants d)"

definition delegation_delegate :: "uuid \<Rightarrow> uuid \<Rightarrow> db \<Rightarrow> uuid list" where
  "delegation_delegate tenant_id delegation_grant_id d =
     (case find_delegation d tenant_id delegation_grant_id of
        None \<Rightarrow> []
      | Some row \<Rightarrow>
          if dg_delegate_principal_type row = USER
          then (case dg_delegate_principal_id row of None \<Rightarrow> [] | Some u \<Rightarrow> [u]) else [])"

definition set_delegation_revoked :: "uuid \<Rightarrow> uuid \<Rightarrow> datetime \<Rightarrow> db \<Rightarrow> db" where
  "set_delegation_revoked tenant_id delegation_grant_id now d =
     d\<lparr>delegation_grants := update_where
         (\<lambda>g. dg_id g = delegation_grant_id \<and> dg_tenant_id g = tenant_id)
         (\<lambda>g. g\<lparr>dg_revoked_at := Some now\<rparr>) (delegation_grants d)\<rparr>"

definition revoke_delegation :: "db \<Rightarrow> datetime \<Rightarrow> caller \<Rightarrow> uuid \<Rightarrow> uuid \<Rightarrow> error + db" where
  "revoke_delegation d now c tenant_id delegation_grant_id =
     ebind (require_caller ''revoke_delegation'' c [UserCallerType]) (\<lambda>_.
     let revoker_user_id = fst (principal c) in
     (case find_delegation d tenant_id delegation_grant_id of
        None \<Rightarrow> Inl (DelegationNotFoundError tenant_id delegation_grant_id)
      | Some row \<Rightarrow>
          ebind (if dg_delegator_principal_type row = USER \<and>
                    dg_delegator_principal_id row = Some revoker_user_id
                 then Inr d
                 else ebind (register_permission d ''delegation_grant'' ''revoke'') (\<lambda>(d1, _).
                   if \<not> can d1 now revoker_user_id tenant_id ''revoke'' ''delegation_grant'' USER None
                       False
                   then Inl (DelegationNotAuthorizedError revoker_user_id tenant_id)
                   else Inr d1)) (\<lambda>d1.
          if dg_revoked_at row \<noteq> None then Inr d1
          else (let guard = guard_last_administrator d1 now tenant_id
                      (delegation_delegate tenant_id delegation_grant_id d1);
                    d2 = set_delegation_revoked tenant_id delegation_grant_id now d1
                in ebind (verify d2 now guard) (\<lambda>_.
                  record_in_transaction d2 c tenant_id ''delegation.revoke'' ''delegation_grant''
                    (Some delegation_grant_id) SUCCESS)))))"

subsection \<open>Denies\<close>

definition user_deny_row :: "uuid \<Rightarrow> uuid \<Rightarrow> role_scope \<Rightarrow> uuid \<Rightarrow> uuid \<Rightarrow> deny_grant" where
  "user_deny_row tenant_id principal_user_id scope_mode permission_id i = \<lparr>dn_id = i,
     dn_tenant_id = tenant_id, dn_principal_type = USER, dn_principal_id = Some principal_user_id,
     dn_principal_service_account_id = None, dn_scope_mode = scope_mode,
     dn_permission_id = permission_id, dn_revoked_at = None\<rparr>"

definition create_deny ::
  "db \<Rightarrow> datetime \<Rightarrow> caller \<Rightarrow> uuid \<Rightarrow> uuid \<Rightarrow> role_scope \<Rightarrow> uuid \<Rightarrow> error + (db \<times> uuid)" where
  "create_deny d now c principal_user_id tenant_id scope_mode permission_id =
     ebind (require_caller ''create_deny'' c [UserCallerType]) (\<lambda>_.
     let grantor_user_id = fst (principal c) in
     ebind (require_open_tenant d tenant_id) (\<lambda>_.
     ebind (require (user_exists d principal_user_id) (InvalidPrincipalError USER principal_user_id)) (\<lambda>_.
     ebind (require (get_permission_by_id d permission_id \<noteq> None)
       (PermissionNotFoundError permission_id)) (\<lambda>_.
     ebind (register_permission d ''deny_grant'' ''create'') (\<lambda>(d1, _).
     ebind (require (can d1 now grantor_user_id tenant_id ''create'' ''deny_grant'' USER None False)
       (DenyNotAuthorizedError grantor_user_id tenant_id)) (\<lambda>_.
     let guard = guard_last_administrator d1 now tenant_id [principal_user_id] in
     ebind (require (user_exists d1 principal_user_id)
       (InvalidPrincipalError USER principal_user_id)) (\<lambda>_.
     ebind (insert_deny d1 (user_deny_row tenant_id principal_user_id scope_mode permission_id))
       (\<lambda>(d2, grant_id).
     ebind (verify d2 now guard) (\<lambda>_.
     ebind (record_in_transaction d2 c tenant_id ''deny.create'' ''deny_grant'' (Some grant_id) SUCCESS)
       (\<lambda>d3. Inr (d3, grant_id)))))))))))"

definition create_deny_for_service_account ::
  "db \<Rightarrow> datetime \<Rightarrow> caller \<Rightarrow> uuid \<Rightarrow> uuid \<Rightarrow> uuid \<Rightarrow> role_scope \<Rightarrow> uuid \<Rightarrow> error + (db \<times> uuid)" where
  "create_deny_for_service_account d now c service_account_id service_account_tenant_id tenant_id
      scope_mode permission_id =
     ebind (require_caller ''create_deny_for_service_account'' c [UserCallerType]) (\<lambda>_.
     let grantor_user_id = fst (principal c) in
     ebind (require_open_tenant d tenant_id) (\<lambda>_.
     ebind (require (lock_service_account_status d service_account_tenant_id service_account_id \<noteq> None)
       (InvalidPrincipalError SERVICE_ACCOUNT service_account_id)) (\<lambda>_.
     ebind (require (get_permission_by_id d permission_id \<noteq> None)
       (PermissionNotFoundError permission_id)) (\<lambda>_.
     ebind (register_permission d ''deny_grant'' ''create'') (\<lambda>(d1, _).
     ebind (require (can d1 now grantor_user_id tenant_id ''create'' ''deny_grant'' USER None False)
       (DenyNotAuthorizedError grantor_user_id tenant_id)) (\<lambda>_.
     ebind (require (lock_service_account_status d1 service_account_tenant_id service_account_id \<noteq> None)
       (InvalidPrincipalError SERVICE_ACCOUNT service_account_id)) (\<lambda>_.
     ebind (insert_deny d1 (\<lambda>i. \<lparr>dn_id = i, dn_tenant_id = tenant_id,
         dn_principal_type = SERVICE_ACCOUNT, dn_principal_id = None,
         dn_principal_service_account_id = Some service_account_id, dn_scope_mode = scope_mode,
         dn_permission_id = permission_id, dn_revoked_at = None\<rparr>)) (\<lambda>(d2, grant_id).
     ebind (record_in_transaction d2 c tenant_id ''deny.create'' ''deny_grant'' (Some grant_id) SUCCESS)
       (\<lambda>d3. Inr (d3, grant_id))))))))))"

definition find_deny :: "db \<Rightarrow> uuid \<Rightarrow> uuid \<Rightarrow> deny_grant option" where
  "find_deny d tenant_id deny_grant_id =
     find (\<lambda>g. dn_id g = deny_grant_id \<and> dn_tenant_id g = tenant_id) (deny_grants d)"

definition revoke_deny :: "db \<Rightarrow> datetime \<Rightarrow> caller \<Rightarrow> uuid \<Rightarrow> uuid \<Rightarrow> error + db" where
  "revoke_deny d now c tenant_id deny_grant_id =
     ebind (require_caller ''revoke_deny'' c [UserCallerType]) (\<lambda>_.
     let revoker_user_id = fst (principal c) in
     (case find_deny d tenant_id deny_grant_id of
        None \<Rightarrow> Inl (DenyNotFoundError tenant_id deny_grant_id)
      | Some row \<Rightarrow>
          ebind (register_permission d ''deny_grant'' ''revoke'') (\<lambda>(d1, _).
          ebind (require (can d1 now revoker_user_id tenant_id ''revoke'' ''deny_grant'' USER None False)
            (DenyNotAuthorizedError revoker_user_id tenant_id)) (\<lambda>_.
          if dn_revoked_at row \<noteq> None then Inr d1
          else record_in_transaction
            (d1\<lparr>deny_grants := update_where
               (\<lambda>g. dn_id g = deny_grant_id \<and> dn_tenant_id g = tenant_id)
               (\<lambda>g. g\<lparr>dn_revoked_at := Some now\<rparr>) (deny_grants d1)\<rparr>)
            c tenant_id ''deny.revoke'' ''deny_grant'' (Some deny_grant_id) SUCCESS))))"

subsection \<open>Support access\<close>

definition MAX_SUPPORT_ACCESS_DURATION :: datetime where
  "MAX_SUPPORT_ACCESS_DURATION = 24 * 3600 * 1000000"

definition MAX_SUPPORT_ACCESS_REASON_LENGTH :: nat where
  "MAX_SUPPORT_ACCESS_REASON_LENGTH = 1000"

datatype support_access_status = SA_REQUESTED | SA_APPROVED | SA_LIVE | SA_EXPIRED | SA_REVOKED
  | SA_DENIED

definition compute_support_access_status ::
  "support_access_request \<Rightarrow> datetime \<Rightarrow> support_access_status" where
  "compute_support_access_status request now =
     (if su_revoked_at request \<noteq> None then SA_REVOKED
      else if su_denied_at request \<noteq> None then SA_DENIED
      else if su_approved_at request = None then SA_REQUESTED
      else if su_requested_expires_at request \<le> now then SA_EXPIRED
      else if su_requested_starts_at request \<le> now then SA_LIVE
      else SA_APPROVED)"

definition support_checks :: "support_access_request \<Rightarrow> bool" where
  "support_checks q = (su_requested_expires_at q > su_requested_starts_at q \<and>
     (su_approved_at q = None \<longleftrightarrow> su_approved_by_user_id q = None) \<and>
     (su_denied_at q = None \<longleftrightarrow> su_denied_by_user_id q = None) \<and>
     (su_revoked_by_user_id q = None \<or> su_revoked_at q \<noteq> None) \<and>
     \<not> (su_approved_at q \<noteq> None \<and> su_denied_at q \<noteq> None) \<and>
     (su_revoked_at q = None \<or> su_approved_at q \<noteq> None) \<and>
     (su_approved_by_user_id q = None \<or> su_approved_by_user_id q \<noteq> Some (su_requester_user_id q)))"

definition support_live :: "support_access_request \<Rightarrow> bool" where
  "support_live q = (su_denied_at q = None \<and> su_revoked_at q = None)"

definition support_index_conflict :: "support_access_request \<Rightarrow> support_access_request \<Rightarrow> bool" where
  "support_index_conflict q r = (support_live q \<and> support_live r \<and>
     su_tenant_id q = su_tenant_id r \<and> su_requester_user_id q = su_requester_user_id r \<and>
     su_scope_mode q = su_scope_mode r)"

definition insert_support_request ::
  "db \<Rightarrow> (uuid \<Rightarrow> support_access_request) \<Rightarrow> error + (db \<times> uuid)" where
  "insert_support_request d row = (let (i, d1) = take_uuid d; q = row i in
     if \<not> support_checks q \<or> find_tenant d1 (su_tenant_id q) = None \<or>
        \<not> user_exists d1 (su_requester_user_id q) \<or>
        (\<exists>r \<in> set (support_access_requests d1). support_index_conflict q r)
     then Inl IntegrityError
     else Inr (d1\<lparr>support_access_requests := support_access_requests d1 @ [q]\<rparr>, i))"

definition create_support_access_request ::
  "db \<Rightarrow> datetime \<Rightarrow> caller \<Rightarrow> uuid \<Rightarrow> string \<Rightarrow> datetime \<Rightarrow> role_scope \<Rightarrow> datetime option
    \<Rightarrow> error + (db \<times> uuid)" where
  "create_support_access_request d now c tenant_id reason requested_expires_at scope_mode
      requested_starts_at =
     ebind (require_caller ''create_support_access_request'' c [UserCallerType]) (\<lambda>_.
     let requester_user_id = fst (principal c);
         resolved_starts_at = resolve_start now requested_starts_at in
     ebind (require_open_tenant d tenant_id) (\<lambda>_.
     if is_blank reason then Inl InvalidSupportAccessTimeRangeError
     else if length reason > MAX_SUPPORT_ACCESS_REASON_LENGTH
       then Inl InvalidSupportAccessTimeRangeError
     else if requested_expires_at \<le> resolved_starts_at then Inl InvalidSupportAccessTimeRangeError
     else if requested_expires_at - resolved_starts_at > MAX_SUPPORT_ACCESS_DURATION
       then Inl InvalidSupportAccessTimeRangeError
     else catch
       (ebind (require_active_user d c ''create_support_access_request'' tenant_id) (\<lambda>_.
        ebind (insert_support_request d (\<lambda>i. \<lparr>su_id = i, su_tenant_id = tenant_id,
            su_requester_user_id = requester_user_id, su_scope_mode = scope_mode,
            su_reason = reason, su_requested_starts_at = resolved_starts_at,
            su_requested_expires_at = requested_expires_at, su_approved_at = None,
            su_approved_by_user_id = None, su_denied_at = None, su_denied_by_user_id = None,
            su_revoked_at = None, su_revoked_by_user_id = None\<rparr>)) (\<lambda>(d1, request_id).
        ebind (record_in_transaction d1 c tenant_id ''support_access.request''
          ''support_access_request'' (Some request_id) SUCCESS) (\<lambda>d2. Inr (d2, request_id)))))
       integrity_error
       (Inl (DuplicateSupportAccessRequestError tenant_id requester_user_id))))"

definition get_support_access_request :: "db \<Rightarrow> uuid \<Rightarrow> uuid \<Rightarrow> error + support_access_request" where
  "get_support_access_request d tenant_id request_id =
     (case find (\<lambda>q. su_id q = request_id \<and> su_tenant_id q = tenant_id) (support_access_requests d) of
        None \<Rightarrow> Inl (SupportAccessNotFoundError tenant_id request_id)
      | Some q \<Rightarrow> Inr q)"

definition lock_support_access_request :: "db \<Rightarrow> uuid \<Rightarrow> uuid \<Rightarrow> error + support_access_request" where
  "lock_support_access_request d tenant_id request_id =
     (case find (\<lambda>q. su_tenant_id q = tenant_id \<and> su_id q = request_id) (support_access_requests d) of
        None \<Rightarrow> Inl (SupportAccessNotFoundError tenant_id request_id)
      | Some q \<Rightarrow> Inr q)"

definition set_support_request ::
  "uuid \<Rightarrow> uuid \<Rightarrow> (support_access_request \<Rightarrow> support_access_request) \<Rightarrow> db \<Rightarrow> db" where
  "set_support_request tenant_id request_id f d =
     d\<lparr>support_access_requests := update_where
         (\<lambda>q. su_tenant_id q = tenant_id \<and> su_id q = request_id) f (support_access_requests d)\<rparr>"

definition support_decision ::
  "db \<Rightarrow> datetime \<Rightarrow> caller \<Rightarrow> uuid \<Rightarrow> uuid \<Rightarrow> string \<Rightarrow> string \<Rightarrow>
    (support_access_request \<Rightarrow> error + unit) \<Rightarrow> (support_access_request \<Rightarrow> bool) \<Rightarrow>
    (support_access_request \<Rightarrow> support_access_request) \<Rightarrow> error + db" where
  "support_decision d now c tenant_id request_id action audit_action recheck unchanged f =
     (let user_id = fst (principal c) in
     ebind (register_permission d ''support_access_request'' action) (\<lambda>(d1, _).
     ebind (require (can d1 now user_id tenant_id action ''support_access_request'' USER None False)
       (SupportAccessNotAuthorizedError user_id tenant_id)) (\<lambda>_.
     ebind (lock_support_access_request d1 tenant_id request_id) (\<lambda>row.
     ebind (recheck row) (\<lambda>_.
     if unchanged row then Inr d1
     else if \<not> support_checks (f row) then Inl IntegrityError
     else record_in_transaction (set_support_request tenant_id request_id f d1) c tenant_id
       audit_action ''support_access_request'' (Some request_id) SUCCESS)))))"

definition require_undecided :: "uuid \<Rightarrow> support_access_request \<Rightarrow> error + unit" where
  "require_undecided request_id q =
     require (su_approved_at q = None \<and> su_denied_at q = None)
       (SupportAccessAlreadyDecidedError request_id)"

definition approve_support_access :: "db \<Rightarrow> datetime \<Rightarrow> caller \<Rightarrow> uuid \<Rightarrow> uuid \<Rightarrow> error + db" where
  "approve_support_access d now c tenant_id request_id =
     ebind (require_caller ''approve_support_access'' c [UserCallerType]) (\<lambda>_.
     let approver_user_id = fst (principal c) in
     ebind (require_open_tenant d tenant_id) (\<lambda>_.
     ebind (get_support_access_request d tenant_id request_id) (\<lambda>request.
     ebind (require_undecided request_id request) (\<lambda>_.
     ebind (require (approver_user_id \<noteq> su_requester_user_id request)
       (SupportAccessSelfApprovalError approver_user_id request_id)) (\<lambda>_.
     support_decision d now c tenant_id request_id ''approve'' ''support_access.approve''
       (require_undecided request_id) (\<lambda>_. False)
       (\<lambda>q. q\<lparr>su_approved_at := Some now, su_approved_by_user_id := Some approver_user_id\<rparr>))))))"

definition deny_support_access :: "db \<Rightarrow> datetime \<Rightarrow> caller \<Rightarrow> uuid \<Rightarrow> uuid \<Rightarrow> error + db" where
  "deny_support_access d now c tenant_id request_id =
     ebind (require_caller ''deny_support_access'' c [UserCallerType]) (\<lambda>_.
     let approver_user_id = fst (principal c) in
     ebind (get_support_access_request d tenant_id request_id) (\<lambda>request.
     ebind (require_undecided request_id request) (\<lambda>_.
     support_decision d now c tenant_id request_id ''deny'' ''support_access.deny''
       (require_undecided request_id) (\<lambda>_. False)
       (\<lambda>q. q\<lparr>su_denied_at := Some now, su_denied_by_user_id := Some approver_user_id\<rparr>))))"

definition revoke_support_access :: "db \<Rightarrow> datetime \<Rightarrow> caller \<Rightarrow> uuid \<Rightarrow> uuid \<Rightarrow> error + db" where
  "revoke_support_access d now c tenant_id request_id =
     ebind (require_caller ''revoke_support_access'' c [UserCallerType]) (\<lambda>_.
     let revoker_user_id = fst (principal c) in
     ebind (get_support_access_request d tenant_id request_id) (\<lambda>request.
     ebind (require (su_approved_at request \<noteq> None) (SupportAccessNotApprovedError request_id)) (\<lambda>_.
     support_decision d now c tenant_id request_id ''revoke'' ''support_access.revoke''
       (\<lambda>_. Inr ()) (\<lambda>q. su_revoked_at q \<noteq> None)
       (\<lambda>q. q\<lparr>su_revoked_at := Some now, su_revoked_by_user_id := Some revoker_user_id\<rparr>))))"

fun record_all :: "db \<Rightarrow> caller \<Rightarrow> uuid \<Rightarrow> string \<Rightarrow> string \<Rightarrow> uuid list \<Rightarrow> error + db" where
  "record_all d c tenant_id action resource_type [] = Inr d"
| "record_all d c tenant_id action resource_type (i # ids) =
     ebind (record_in_transaction d c tenant_id action resource_type (Some i) SUCCESS)
       (\<lambda>d1. record_all d1 c tenant_id action resource_type ids)"

definition tenant_support_grants :: "db \<Rightarrow> uuid \<Rightarrow> support_access_request list" where
  "tenant_support_grants d tenant_id = filter (\<lambda>q. su_tenant_id q = tenant_id \<and>
     su_approved_at q \<noteq> None \<and> su_denied_at q = None \<and> su_revoked_at q = None)
     (support_access_requests d)"

definition revoke_tenant_support_access ::
  "db \<Rightarrow> datetime \<Rightarrow> uuid \<Rightarrow> caller \<Rightarrow> error + (db \<times> uuid list)" where
  "revoke_tenant_support_access d now tenant_id c =
     ebind (require_caller ''revoke_tenant_support_access'' c [UserCallerType, SystemCallerType]) (\<lambda>_.
     ebind (require (case c of SystemCaller a \<Rightarrow> a = TENANT_PURGE | _ \<Rightarrow> True)
       (AuthorityNotAuthorizedError ''revoke_tenant_support_access'' tenant_id)) (\<lambda>_.
     let actor_user_id = (case c of UserCaller u \<Rightarrow> Some u | _ \<Rightarrow> None) in
     ebind (require_purging_tenant d tenant_id) (\<lambda>_.
     let revoked = sort (map su_id (tenant_support_grants d tenant_id));
         d1 = d\<lparr>support_access_requests := update_where
           (\<lambda>q. su_tenant_id q = tenant_id \<and> su_approved_at q \<noteq> None \<and> su_denied_at q = None \<and>
              su_revoked_at q = None)
           (\<lambda>q. q\<lparr>su_revoked_at := Some now, su_revoked_by_user_id := actor_user_id\<rparr>)
           (support_access_requests d)\<rparr>
     in ebind (record_all d1 c tenant_id ''support_access.revoke'' ''support_access_request'' revoked)
       (\<lambda>d2. Inr (d2, revoked)))))"

subsection \<open>Revoking a delegation and creating a deny are guarded\<close>

definition delegation_ids_unique :: "db \<Rightarrow> bool" where
  "delegation_ids_unique d = distinct (map dg_id (delegation_grants d))"

lemma set_delegation_revoked_tables:
  "tenants (set_delegation_revoked t i now d) = tenants d"
  "tenant_ancestries (set_delegation_revoked t i now d) = tenant_ancestries d"
  "users (set_delegation_revoked t i now d) = users d"
  "tenant_memberships (set_delegation_revoked t i now d) = tenant_memberships d"
  "service_accounts (set_delegation_revoked t i now d) = service_accounts d"
  "permissions (set_delegation_revoked t i now d) = permissions d"
  "role_permissions (set_delegation_revoked t i now d) = role_permissions d"
  "membership_roles (set_delegation_revoked t i now d) = membership_roles d"
  "deny_grants (set_delegation_revoked t i now d) = deny_grants d"
  by (simp_all add: set_delegation_revoked_def)

lemma delegation_delegate_covers:
  assumes "delegation_ids_unique d" "g \<in> set (delegation_grants d)" "dg_id g = i"
    "dg_tenant_id g = t" "delegation_names USER u g"
  shows "u \<in> set (delegation_delegate t i d)"
proof -
  have "find_delegation d t i \<noteq> None"
    using assms(2-4) by (auto simp: find_delegation_def find_None_iff_all)
  then obtain h where h: "find_delegation d t i = Some h" by auto
  then have "h \<in> set (delegation_grants d)" "dg_id h = i"
    unfolding find_delegation_def by (auto dest: find_SomeD)
  with assms have "h = g" by (auto simp: delegation_ids_unique_def distinct_map inj_on_def)
  with h assms(5) show ?thesis by (simp add: delegation_delegate_def delegation_names_def)
qed

lemma set_delegation_revoked_keeps:
  assumes "g \<in> set (delegation_grants d)" "\<not> (dg_id g = i \<and> dg_tenant_id g = t)"
  shows "g \<in> set (delegation_grants (set_delegation_revoked t i now d))"
  using assms by (force simp: set_delegation_revoked_def set_update_where)

lemma set_delegation_revoked_allows:
  assumes "allows_at d now u USER action resource ign c [s]"
    and "c \<noteq> t \<or> (delegation_ids_unique d \<and> u \<notin> set (delegation_delegate t i d))"
  shows "allows_at (set_delegation_revoked t i now' d) now u USER action resource ign c [s]"
proof -
  note tables = set_delegation_revoked_tables [of t i now' d]
  have "tenant_grants_permission_via_delegation (set_delegation_revoked t i now' d) now c u USER action
      resource [s] ign"
    if "tenant_grants_permission_via_delegation d now c u USER action resource [s] ign"
    using that assms(2) set_delegation_revoked_keeps [of _ d i t now'] delegation_delegate_covers [of d]
    unfolding tenant_grants_permission_via_delegation_def
      delegate_user_membership_permits_authorization_def lock_membership_cong [OF tables(4)]
      lock_accessible_tenant_cong [OF tables(1)] names_permission_cong [OF tables(6)] sum_case_is_ok
    by (auto split: if_splits) blast+
  with assms(1) show ?thesis
    unfolding allows_at_def actor_grants_permission_def tenant_grants_permission_def
      lock_membership_cong [OF tables(4)] lock_accessible_tenant_cong [OF tables(1)]
      role_grants_cong [OF tables(7,6)] tables(8) by auto
qed

interpretation delegation_revocation: guarded_change
  delegation_ids_unique "set_delegation_revoked t i at" t "delegation_delegate t i" for t i at
proof unfold_locales
  fix d x now u
  assume "x \<noteq> t" "t \<notin> set (lock_ancestor_ids d x)" and adm: "administers d now x u"
  then have "c \<noteq> t" if "scope_reaches d c s x" for c s using that by (auto simp: scope_reaches_def)
  then show "administers (set_delegation_revoked t i at d) now x u"
    by (intro administers_transfer [OF adm])
      (auto simp: set_delegation_revoked_tables is_active_member_iff deny_authority.simps
        names_permission_def intro: set_delegation_revoked_allows)
next
  fix d u now x
  assume "delegation_ids_unique d" "u \<notin> set (delegation_delegate t i d)"
    and adm: "administers d now x u"
  then show "administers (set_delegation_revoked t i at d) now x u"
    by (intro administers_transfer [OF adm])
      (auto simp: set_delegation_revoked_tables is_active_member_iff deny_authority.simps
        names_permission_def intro: set_delegation_revoked_allows)
qed

definition add_user_deny :: "uuid \<Rightarrow> uuid \<Rightarrow> role_scope \<Rightarrow> uuid \<Rightarrow> db \<Rightarrow> db" where
  "add_user_deny t u s p d = d\<lparr>next_uuid := Suc (next_uuid d),
     deny_grants := deny_grants d @ [user_deny_row t u s p (next_uuid d)]\<rparr>"

lemma insert_deny_ok:
  assumes "insert_deny d (user_deny_row t u s p) = Inr (d', i)"
  shows "d' = add_user_deny t u s p d" "i = next_uuid d"
  using assms by (auto simp: insert_deny_def take_uuid_def Let_def add_user_deny_def split: if_splits)

lemma add_user_deny_authority:
  assumes "deny_authority (add_user_deny t u s p d) USER v c s' resource action"
    and "c \<noteq> t \<or> v \<noteq> u"
  shows "deny_authority d USER v c s' resource action"
  using assms by (auto simp: deny_authority.simps add_user_deny_def names_permission_def
      user_deny_row_def deny_names_def)

lemma add_user_deny_tables:
  "tenants (add_user_deny t u s p d) = tenants d"
  "tenant_ancestries (add_user_deny t u s p d) = tenant_ancestries d"
  "users (add_user_deny t u s p d) = users d"
  "tenant_memberships (add_user_deny t u s p d) = tenant_memberships d"
  "service_accounts (add_user_deny t u s p d) = service_accounts d"
  by (simp_all add: add_user_deny_def)

lemma add_user_deny_allows: "allows_at (add_user_deny t u s p d) = allows_at d"
  by (rule allows_at_cong) (simp_all add: add_user_deny_def)

interpretation deny_creation: guarded_change
  "\<lambda>_. True" "add_user_deny t v s p" t "\<lambda>_. [v]" for t v s p
proof unfold_locales
  fix d x now u
  assume "x \<noteq> t" "t \<notin> set (lock_ancestor_ids d x)" and adm: "administers d now x u"
  then have "c \<noteq> t" if "scope_reaches d c s' x" for c s' using that by (auto simp: scope_reaches_def)
  then show "administers (add_user_deny t v s p d) now x u"
    by (intro administers_transfer [OF adm])
      (auto simp: add_user_deny_tables add_user_deny_allows is_active_member_iff
        intro: add_user_deny_authority)
next
  fix d u now x
  assume "u \<notin> set [v]" and adm: "administers d now x u"
  then show "administers (add_user_deny t v s p d) now x u"
    by (intro administers_transfer [OF adm])
      (auto simp: add_user_deny_tables add_user_deny_allows is_active_member_iff
        intro: add_user_deny_authority)
qed

lemma revoke_delegation_guarded:
  assumes "revoke_delegation d now c t i = Inr d'" "permission_refs_ok d" "delegation_ids_unique d"
    and "has_administrator d now x"
  shows "has_administrator d' now x"
proof -
  from assms(1) obtain d1 where before: "d1 = d \<or>
      (\<exists>q. register_permission d ''delegation_grant'' ''revoke'' = Inr (d1, q))"
    and rest: "d' = d1 \<or> (verify (set_delegation_revoked t i now d1) now
        (guard_last_administrator d1 now t (delegation_delegate t i d1)) = Inr () \<and>
      record_in_transaction (set_delegation_revoked t i now d1) c t ''delegation.revoke''
        ''delegation_grant'' (Some i) SUCCESS = Inr d')"
    by (auto simp: revoke_delegation_def Let_def split: option.splits if_splits)
  from before have "has_administrator d1 now x" "delegation_ids_unique d1"
    using assms(2-4) has_administrator_cong [OF register_administers]
    by (auto simp: delegation_ids_unique_def register_tables)
  then show ?thesis
    using rest delegation_revocation.guarded_keeps_administrator
      has_administrator_cong [OF record_administers] by metis
qed

lemma create_deny_ok:
  assumes "create_deny d now c u t s p = Inr (d', i)"
  obtains d1 q where "register_permission d ''deny_grant'' ''create'' = Inr (d1, q)"
    "can d1 now (fst (principal c)) t ''create'' ''deny_grant'' USER None False"
    "verify (add_user_deny t u s p d1) now (guard_last_administrator d1 now t [u]) = Inr ()"
    "insert_deny d1 (user_deny_row t u s p) = Inr (add_user_deny t u s p d1, i)"
    "record_in_transaction (add_user_deny t u s p d1) c t ''deny.create'' ''deny_grant'' (Some i)
       SUCCESS = Inr d'"
  using assms by (auto simp: create_deny_def Let_def dest: insert_deny_ok)

lemma create_deny_guarded:
  assumes "create_deny d now c u t s p = Inr (d', i)" "permission_refs_ok d"
    and "has_administrator d now x"
  shows "has_administrator d' now x"
  using assms(1)
proof (rule create_deny_ok)
  fix d1 q
  assume reg: "register_permission d ''deny_grant'' ''create'' = Inr (d1, q)"
    and ok: "verify (add_user_deny t u s p d1) now (guard_last_administrator d1 now t [u]) = Inr ()"
    and rec: "record_in_transaction (add_user_deny t u s p d1) c t ''deny.create'' ''deny_grant''
      (Some i) SUCCESS = Inr d'"
  have "has_administrator d1 now x"
    using assms(2,3) has_administrator_cong [OF register_administers [OF reg]] by simp
  then have "has_administrator (add_user_deny t u s p d1) now x"
    using deny_creation.guarded_keeps_administrator ok by blast
  then show ?thesis using has_administrator_cong [OF record_administers [OF rec]] by simp
qed

subsection \<open>Handing out a delegation\<close>

lemma delegation_grants_insert:
  assumes "d2 = d1\<lparr>next_uuid := n, delegation_grants := delegation_grants d1 @ [g]\<rparr>"
    and "tenant_grants_permission_via_delegation d2 now c a ty action resource S ign"
  shows "tenant_grants_permission_via_delegation d1 now c a ty action resource S ign \<or>
    (c = dg_tenant_id g \<and> dg_scope_mode g \<in> set S \<and>
     names_permission d1 (dg_permission_id g) resource action)"
proof -
  have same: "lock_membership d2 = lock_membership d1"
    "lock_accessible_tenant d2 = lock_accessible_tenant d1" "names_permission d2 = names_permission d1"
    using assms(1) by (auto intro!: lock_membership_cong lock_accessible_tenant_cong names_permission_cong)
  from assms(2) show ?thesis
    unfolding tenant_grants_permission_via_delegation_def
      delegate_user_membership_permits_authorization_def same sum_case_is_ok
    using assms(1) by (auto split: if_splits)
qed

lemma reaches_ignores_delegations:
  "actor_reaches_tenant_at_scope (d\<lparr>delegation_grants := gs\<rparr>) = actor_reaches_tenant_at_scope d"
  by (rule reaches_cong) simp_all

lemma delegation_transaction_ok:
  assumes "delegation_transaction d now c t s p row = Inr (d', i)"
  obtains d1 q entries where "register_permission d ''delegation_grant'' ''create'' = Inr (d1, q)"
    "can d1 now (fst (principal c)) t ''create'' ''delegation_grant'' USER None False"
    "actor_reaches_tenant_at_scope d1 (fst (principal c)) t (pm_action p) (pm_resource p) s"
    "d' = d1\<lparr>next_uuid := Suc (next_uuid d1), delegation_grants := delegation_grants d1 @
       [row (next_uuid d1)], audit_log := entries\<rparr>" "delegation_checks (row (next_uuid d1))"
  using assms by (auto simp: delegation_transaction_def insert_delegation_def take_uuid_def Let_def
      split: if_splits dest!: record_ok)

lemma delegation_amplifies_nothing:
  assumes "delegation_transaction d now c t s p row = Inr (d', i)" "permission_refs_ok d"
    "ancestry_transitive d" "get_permission_by_id d pid = Some p"
    and row: "\<And>j. dg_tenant_id (row j) = t" "\<And>j. dg_scope_mode (row j) = s"
      "\<And>j. dg_permission_id (row j) = pid"
    and "can d' now a x action resource ty home ign" "\<not> can d now a x action resource ty home ign"
  shows "actor_reaches_tenant_at_scope d (fst (principal c)) x action resource SELF"
proof -
  obtain d1 q entries where reg: "register_permission d ''delegation_grant'' ''create'' = Inr (d1, q)"
    and reach: "actor_reaches_tenant_at_scope d1 (fst (principal c)) t (pm_action p) (pm_resource p) s"
    and d': "d' = d1\<lparr>next_uuid := Suc (next_uuid d1), delegation_grants := delegation_grants d1 @
       [row (next_uuid d1)], audit_log := entries\<rparr>"
    using assms(1) by (rule delegation_transaction_ok)
  note tables = register_tables [OF reg]
  let ?d2 = "d1\<lparr>next_uuid := Suc (next_uuid d1), delegation_grants := delegation_grants d1 @
     [row (next_uuid d1)]\<rparr>"
  have audit: "can d' = can ?d2" unfolding d' by (rule can_cong) simp_all
  have deny: "denied ?d2 = denied d1" by (rule denied_cong) simp_all
  have was: "\<not> can d1 now a x action resource ty home ign"
    using assms(9) unfolding register_can [OF reg assms(2)] .
  have "\<exists>c' s'. allows_at ?d2 now a ty action resource ign c' [s'] \<and>
      \<not> allows_at d1 now a ty action resource ign c' [s'] \<and> scope_reaches d1 c' s' x"
    using deny by (intro can_difference [OF assms(8) [unfolded audit] was]) simp_all
  then obtain c' s' where new: "allows_at ?d2 now a ty action resource ign c' [s']"
    and old: "\<not> allows_at d1 now a ty action resource ign c' [s']"
    and at: "scope_reaches d1 c' s' x" by blast
  have "actor_grants_permission ?d2 = actor_grants_permission d1"
    by (rule actor_grants_cong) simp_all
  with new old have fresh: "tenant_grants_permission_via_delegation ?d2 now c' a ty action resource
      [s'] ign" "\<not> tenant_grants_permission_via_delegation d1 now c' a ty action resource [s'] ign"
    by (auto simp: allows_at_def)
  from delegation_grants_insert [OF refl fresh(1)] fresh(2) row
  have here: "c' = t" "s' = s" "names_permission d1 pid resource action" by auto
  have "pid \<in> pm_id ` set (permissions d)"
    using assms(4) by (auto simp: get_permission_by_id_def dest: find_SomeD)
  with here(3) have "names_permission d pid resource action"
    using register_names_permission [OF reg assms(2)] by simp
  then have "pm_resource p = resource" "pm_action p = action"
    using permission_unique [OF assms(2,4)] by auto
  moreover have "actor_reaches_tenant_at_scope d1 = actor_reaches_tenant_at_scope d"
    unfolding fun_eq_iff reaches_scope_iff register_member_grants [OF reg assms(2)]
      scope_reaches_cong [OF tables(2)] by simp
  ultimately show ?thesis
    using reach at here reach_extends [OF _ _ assms(3)] scope_reaches_cong [OF tables(2)] by simp
qed

subsection \<open>The life of a support request\<close>

text \<open>What every stored request satisfies: its check constraints, and the bounded window.\<close>

definition support_ok :: "db \<Rightarrow> bool" where
  "support_ok d = (distinct (map su_id (support_access_requests d)) \<and>
     (\<forall>q \<in> set (support_access_requests d). su_id q < next_uuid d \<and> support_checks q \<and>
        su_requested_expires_at q - su_requested_starts_at q \<le> MAX_SUPPORT_ACCESS_DURATION))"

lemma support_decision_cases:
  assumes "support_decision d now c t i action audit_action recheck unchanged f = Inr d'"
  obtains d1 p row entries where
    "register_permission d ''support_access_request'' action = Inr (d1, p)"
    "can d1 now (fst (principal c)) t action ''support_access_request'' USER None False"
    "lock_support_access_request d1 t i = Inr row" "recheck row = Inr ()"
    "d' = d1 \<or> (support_checks (f row) \<and>
       d' = (set_support_request t i f d1)\<lparr>audit_log := entries\<rparr>)"
  using assms by (auto simp: support_decision_def Let_def split: if_splits dest!: record_ok)

lemma support_decision_ok:
  assumes "support_decision d now c t i action audit_action recheck unchanged f = Inr d'"
    and "support_ok d" and "\<And>q. su_id (f q) = su_id q"
    and "\<And>q. su_requested_expires_at (f q) - su_requested_starts_at (f q) =
      su_requested_expires_at q - su_requested_starts_at q"
  shows "support_ok d'"
  using assms(1)
proof (rule support_decision_cases)
  fix d1 p row entries
  assume reg: "register_permission d ''support_access_request'' action = Inr (d1, p)"
    and row: "lock_support_access_request d1 t i = Inr row"
    and d': "d' = d1 \<or> (support_checks (f row) \<and>
       d' = (set_support_request t i f d1)\<lparr>audit_log := entries\<rparr>)"
  have "next_uuid d \<le> next_uuid d1" using reg by (cases rule: register_permission_cases) auto
  with assms(2) have ok1: "support_ok d1"
    by (auto simp: support_ok_def register_tables [OF reg] intro: less_le_trans)
  from row have found: "row \<in> set (support_access_requests d1)" "su_id row = i"
    by (auto simp: lock_support_access_request_def split: option.splits dest: find_SomeD)
  then have only: "q = row" if "q \<in> set (support_access_requests d1)" "su_id q = i" for q
    using that ok1 by (auto simp: support_ok_def distinct_map inj_on_def)
  from d' show ?thesis
  proof
    assume "d' = d1"
    with ok1 show ?thesis by simp
  next
    assume changed: "support_checks (f row) \<and>
      d' = (set_support_request t i f d1)\<lparr>audit_log := entries\<rparr>"
    let ?g = "\<lambda>q. if su_tenant_id q = t \<and> su_id q = i then f q else q"
    have each: "su_id (?g q) < next_uuid d1 \<and> support_checks (?g q) \<and>
        su_requested_expires_at (?g q) - su_requested_starts_at (?g q) \<le> MAX_SUPPORT_ACCESS_DURATION"
      if "q \<in> set (support_access_requests d1)" for q
      using that ok1 only [OF that] changed assms(3,4) by (auto simp: support_ok_def)
    have same: "map su_id (support_access_requests d') = map su_id (support_access_requests d1)"
      "set (support_access_requests d') = ?g ` set (support_access_requests d1)"
      "next_uuid d' = next_uuid d1"
      using changed assms(3)
      by (simp_all add: set_support_request_def map_update_where [of su_id f] set_update_where)
    show ?thesis
      using ok1 each unfolding support_ok_def same by (simp only: ball_simps(9) simp_thms ball_triv) blast
  qed
qed

lemma support_operations_ok:
  assumes "support_ok d"
  shows "create_support_access_request d now c t reason e s b = Inr (d', i) \<Longrightarrow> support_ok d'"
    and "approve_support_access d now c t i = Inr d' \<Longrightarrow> support_ok d'"
    and "deny_support_access d now c t i = Inr d' \<Longrightarrow> support_ok d'"
    and "revoke_support_access d now c t i = Inr d' \<Longrightarrow> support_ok d'"
proof -
  assume r: "create_support_access_request d now c t reason e s b = Inr (d', i)"
  have "next_uuid d \<notin> su_id ` set (support_access_requests d)"
    using assms by (force simp: support_ok_def)
  with r show "support_ok d'"
    using assms by (auto simp: create_support_access_request_def Let_def catch_Inr_iff
        insert_support_request_def take_uuid_def support_ok_def less_Suc_eq
        split: if_splits dest!: record_ok)
next
  assume "approve_support_access d now c t i = Inr d'"
  then show "support_ok d'"
    by (auto simp: approve_support_access_def Let_def elim!: support_decision_ok [OF _ assms])
next
  assume "deny_support_access d now c t i = Inr d'"
  then show "support_ok d'"
    by (auto simp: deny_support_access_def Let_def elim!: support_decision_ok [OF _ assms])
next
  assume "revoke_support_access d now c t i = Inr d'"
  then show "support_ok d'"
    by (auto simp: revoke_support_access_def Let_def elim!: support_decision_ok [OF _ assms])
qed

lemma support_ok_active:
  assumes "support_ok d" "q \<in> set (support_access_requests d)" "support_request_active now q"
  shows "(\<exists>v. su_approved_by_user_id q = Some v \<and> v \<noteq> su_requester_user_id q) \<and>
    now < su_requested_starts_at q + MAX_SUPPORT_ACCESS_DURATION"
  using assms by (auto simp: support_ok_def support_checks_def support_request_active_def)

lemma decided_rows_stay:
  assumes "support_decision d now c t i action audit_action recheck unchanged f = Inr d'"
    and "support_ok d" "q \<in> set (support_access_requests d)"
    and "recheck q = Inr () \<Longrightarrow> \<not> unchanged q \<Longrightarrow> support_checks (f q) \<Longrightarrow> False"
  shows "q \<in> set (support_access_requests d')"
proof -
  from assms(1) obtain d1 p row where reg: "register_permission d ''support_access_request'' action =
      Inr (d1, p)" and row: "lock_support_access_request d1 t i = Inr row" "recheck row = Inr ()"
    and d': "d' = d1 \<or> \<not> unchanged row \<and> support_checks (f row) \<and>
      support_access_requests d' = support_access_requests (set_support_request t i f d1)"
    by (auto simp: support_decision_def Let_def split: if_splits dest!: record_ok)
  have same: "support_access_requests d1 = support_access_requests d"
    using register_tables [OF reg] by simp
  from row(1) have "row \<in> set (support_access_requests d)" "su_id row = i"
    by (auto simp: lock_support_access_request_def same split: option.splits dest: find_SomeD)
  then have "q = row" if "su_id q = i"
    using that assms(2,3) by (auto simp: support_ok_def distinct_map inj_on_def)
  with d' row(2) assms(4) have "d' = d1 \<or> su_id q \<noteq> i \<and>
      support_access_requests d' = support_access_requests (set_support_request t i f d1)" by blast
  then show ?thesis
    using assms(3) by (force simp: set_support_request_def set_update_where same)
qed

lemma support_decisions_final:
  assumes "support_ok d" "q \<in> set (support_access_requests d)"
    and "su_denied_at q \<noteq> None \<or> su_revoked_at q \<noteq> None"
    and "approve_support_access d now c t i = Inr d' \<or> deny_support_access d now c t i = Inr d' \<or>
      revoke_support_access d now c t i = Inr d'"
  shows "q \<in> set (support_access_requests d')"
proof -
  have checks: "support_checks q" using assms(1,2) by (auto simp: support_ok_def)
  with assms(3) have decided: "\<not> (su_approved_at q = None \<and> su_denied_at q = None)"
    by (auto simp: support_checks_def)
  note stay = decided_rows_stay [OF _ assms(1,2)]
  from assms(4) show ?thesis
  proof (elim disjE)
    assume "approve_support_access d now c t i = Inr d'"
    then show ?thesis
      unfolding approve_support_access_def Let_def ebind_Inr_iff
      by (elim exE conjE, elim stay) (use decided in \<open>simp add: require_undecided_def\<close>)
  next
    assume "deny_support_access d now c t i = Inr d'"
    then show ?thesis
      unfolding deny_support_access_def Let_def ebind_Inr_iff
      by (elim exE conjE, elim stay) (use decided in \<open>simp add: require_undecided_def\<close>)
  next
    assume "revoke_support_access d now c t i = Inr d'"
    then show ?thesis
      unfolding revoke_support_access_def Let_def ebind_Inr_iff
      by (elim exE conjE, elim stay) (use assms(3) checks in \<open>auto simp: support_checks_def\<close>)
  qed
qed

lemma approve_ok:
  assumes "approve_support_access d now c t i = Inr d'" "permission_refs_ok d"
  obtains v q where "c = UserCaller v" "get_support_access_request d t i = Inr q"
    "v \<noteq> su_requester_user_id q" "su_approved_at q = None" "su_denied_at q = None" "is_open d t"
    "user_can d now v t ''approve'' ''support_access_request''"
proof -
  from assms(1) obtain v where c: "c = UserCaller v"
    by (cases c) (auto simp: approve_support_access_def bind_simps)
  from assms(1) obtain q where q: "get_support_access_request d t i = Inr q"
    "v \<noteq> su_requester_user_id q" "su_approved_at q = None" "su_denied_at q = None" "is_open d t"
    and r: "support_decision d now c t i ''approve'' ''support_access.approve'' (require_undecided i)
      (\<lambda>_. False) (\<lambda>q. q\<lparr>su_approved_at := Some now, su_approved_by_user_id := Some v\<rparr>) = Inr d'"
    unfolding c by (auto simp: approve_support_access_def bind_simps Let_def is_open_def is_ok_iff
        require_undecided_def require_open_tenant_eq)
  obtain d1 p where "register_permission d ''support_access_request'' ''approve'' = Inr (d1, p)"
    "can d1 now v t ''approve'' ''support_access_request'' USER None False"
    using r c by (auto elim!: support_decision_cases)
  then have "user_can d now v t ''approve'' ''support_access_request''"
    using register_can [OF _ assms(2)] by metis
  with c q that show ?thesis by blast
qed

lemma tenant_support_grants_revoked:
  "tenant_support_grants (d\<lparr>support_access_requests := update_where
     (\<lambda>q. su_tenant_id q = t \<and> su_approved_at q \<noteq> None \<and> su_denied_at q = None \<and>
        su_revoked_at q = None)
     (\<lambda>q. q\<lparr>su_revoked_at := Some now, su_revoked_by_user_id := by\<rparr>)
     (support_access_requests d)\<rparr>) t = []"
  using filter_update_where [of "\<lambda>q. su_tenant_id q = t \<and> su_approved_at q \<noteq> None \<and>
      su_denied_at q = None \<and> su_revoked_at q = None"
      "\<lambda>q. q\<lparr>su_revoked_at := Some now, su_revoked_by_user_id := by\<rparr>" "support_access_requests d"]
  by (simp add: tenant_support_grants_def)

lemma record_all_frame:
  "record_all d c t action resource_type ids = Inr d' \<Longrightarrow>
    d' = d\<lparr>audit_log := audit_log d @ map (\<lambda>i. entry_of c t action resource_type (Some i) SUCCESS) ids\<rparr>"
proof (induction ids arbitrary: d)
  case (Cons i ids)
  then obtain d1 where "d1 = d\<lparr>audit_log := audit_log d @ [entry_of c t action resource_type (Some i)
      SUCCESS]\<rparr>" "record_all d1 c t action resource_type ids = Inr d'" by (auto dest: record_ok)
  with Cons.IH [of d1] show ?case by simp
qed simp

text \<open>The revocation of a whole tenant writes the requests that are approved and neither denied nor
  revoked, and no other row.\<close>

lemma tenant_revocation_rows:
  assumes "revoke_tenant_support_access d now t c = Inr (d', ids)"
  shows "next_uuid d' = next_uuid d \<and> support_access_requests d' = update_where
    (\<lambda>q. su_tenant_id q = t \<and> su_approved_at q \<noteq> None \<and> su_denied_at q = None \<and> su_revoked_at q = None)
    (\<lambda>q. q\<lparr>su_revoked_at := Some now,
      su_revoked_by_user_id := (case c of UserCaller u \<Rightarrow> Some u | _ \<Rightarrow> None)\<rparr>)
    (support_access_requests d)"
  using assms by (auto simp: revoke_tenant_support_access_def Let_def bind_simps split: if_splits
      dest!: record_all_frame)

lemma tenant_revocation_ok:
  assumes "support_ok d" "revoke_tenant_support_access d now t c = Inr (d', ids)"
  shows "support_ok d'"
proof -
  let ?live = "\<lambda>q. su_tenant_id q = t \<and> su_approved_at q \<noteq> None \<and> su_denied_at q = None \<and> su_revoked_at q = None"
  let ?revoke = "\<lambda>q. q\<lparr>su_revoked_at := Some now,
    su_revoked_by_user_id := (case c of UserCaller u \<Rightarrow> Some u | _ \<Rightarrow> None)\<rparr>"
  note rows = tenant_revocation_rows [OF assms(2)]
  have "support_checks (?revoke q)" if "support_checks q" "?live q" for q
    using that by (auto simp: support_checks_def)
  then show ?thesis using assms(1) rows
    by (auto simp: support_ok_def set_update_where map_update_where [of su_id ?revoke])
qed

lemma support_requests_final:
  assumes "support_ok d" "q \<in> set (support_access_requests d)"
    and "su_denied_at q \<noteq> None \<or> su_revoked_at q \<noteq> None"
    and "create_support_access_request d now c t reason e s b = Inr (d', i) \<or>
      approve_support_access d now c t i = Inr d' \<or> deny_support_access d now c t i = Inr d' \<or>
      revoke_support_access d now c t i = Inr d' \<or> revoke_tenant_support_access d now t c = Inr (d', ids)"
  shows "q \<in> set (support_access_requests d')"
proof -
  consider "create_support_access_request d now c t reason e s b = Inr (d', i)"
    | "approve_support_access d now c t i = Inr d' \<or> deny_support_access d now c t i = Inr d' \<or>
        revoke_support_access d now c t i = Inr d'"
    | "revoke_tenant_support_access d now t c = Inr (d', ids)" using assms(4) by blast
  then show ?thesis
  proof cases
    case 1
    then show ?thesis using assms(2) by (auto simp: create_support_access_request_def Let_def catch_Inr_iff
        insert_support_request_def take_uuid_def split: if_splits dest!: record_ok)
  next
    case 2
    then show ?thesis by (rule support_decisions_final [OF assms(1-3)])
  next
    case 3
    show ?thesis using tenant_revocation_rows [OF 3] assms(2,3) by (force simp: set_update_where)
  qed
qed

subsection \<open>Properties\<close>

text \<open>C6: no tenant loses its last administrator by the revocation of a delegation or by a deny.
  When either succeeds, every tenant that had an administrator still has one.\<close>

theorem grant_operations_keep_administrators:
  assumes "permission_refs_ok d" "delegation_ids_unique d" "has_administrator d now x"
    and "revoke_delegation d now c t i = Inr d' \<or> create_deny d now c u t s p = Inr (d', i)"
  shows "has_administrator d' now x"
  using assms revoke_delegation_guarded create_deny_guarded by blast

theorem grant_operations_keep_administrators_witness:
  "\<exists>d' i. create_deny sample_db 100 (UserCaller 10) 11 2 SELF 40 = Inr (d', i) \<and>
    has_administrator d' 100 2"
proof -
  have "permission_refs_ok sample_db" "delegation_ids_unique sample_db" by code_simp+
  moreover have "find_administrator sample_db 100 2 None None \<noteq> None" by code_simp
  then have "has_administrator sample_db 100 2" by (simp add: find_administrator_None)
  moreover have "is_ok (create_deny sample_db 100 (UserCaller 10) 11 2 SELF 40)" by code_simp
  then obtain d' i where "create_deny sample_db 100 (UserCaller 10) 11 2 SELF 40 = Inr (d', i)"
    by (auto simp: is_ok_iff)
  ultimately show ?thesis using grant_operations_keep_administrators by blast
qed

text \<open>C7: a delegation amplifies nothing and cannot be passed on. If after a successful
  delegation, to a person or to a service account, any principal is allowed something it was
  not allowed before, the delegator already reached that tenant for that action through
  membership roles alone, with every delegation in the store left out.\<close>

theorem delegation_no_amplification:
  assumes "create_delegation d now c u t s p b e allow = Inr (d', i) \<or>
      create_delegation_to_service_account d now c sa home' t s p b e = Inr (d', i)"
    and "permission_refs_ok d" "ancestry_transitive d"
    and "can d' now a x action resource ty home ign" "\<not> can d now a x action resource ty home ign"
  shows "\<exists>giver. c = UserCaller giver \<and>
    actor_reaches_tenant_at_scope (d\<lparr>delegation_grants := []\<rparr>) giver x action resource SELF"
proof -
  from assms(1) obtain giver where c: "c = UserCaller giver"
    by (cases c) (auto simp: create_delegation_def create_delegation_to_service_account_def bind_simps)
  from assms(1) obtain q k v w al where p: "get_permission_by_id d p = Some q"
    and tx: "delegation_transaction d now c t s q
      (delegation_row t giver k v w s p (resolve_start now b) e al) = Inr (d', i)"
    unfolding c by (auto simp: create_delegation_def create_delegation_to_service_account_def Let_def
        split: option.splits)
  have "actor_reaches_tenant_at_scope d giver x action resource SELF"
    using delegation_amplifies_nothing [OF tx assms(2,3) p _ _ _ assms(4,5)] c
    by (simp add: delegation_row_def)
  then show ?thesis using c by (simp add: reaches_ignores_delegations)
qed

theorem delegation_no_amplification_witness:
  "actor_reaches_tenant_at_scope (sample_db\<lparr>delegation_grants := []\<rparr>) 10 2 ''create''
     ''membership_role'' SELF"
proof -
  let ?r = "create_delegation sample_db 100 (UserCaller 10) 12 2 SELF 40 None None False"
  have "is_ok ?r" by code_simp
  then obtain d' i where r: "?r = Inr (d', i)" by (auto simp: is_ok_iff)
  have "case ?r of Inl _ \<Rightarrow> False
    | Inr (e, _) \<Rightarrow> user_can e 100 12 2 ''create'' ''membership_role''" by code_simp
  then have "user_can d' 100 12 2 ''create'' ''membership_role''" using r by simp
  moreover have "permission_refs_ok sample_db" "ancestry_transitive sample_db"
    "\<not> user_can sample_db 100 12 2 ''create'' ''membership_role''" by code_simp+
  ultimately show ?thesis using delegation_no_amplification [OF disjI1 [OF r]] by blast
qed

text \<open>The partial unique indexes on active delegations and denies never reject a row. Each
  index lists both the user column and the service-account column, and the pairing check makes
  one of them NULL in every row, so no two rows that satisfy their checks ever collide, equal
  or not.\<close>

theorem active_grant_indexes_never_fire:
  "(delegation_checks g \<longrightarrow> \<not> delegation_index_conflict g h) \<and>
   (deny_checks e \<longrightarrow> \<not> deny_index_conflict e f)"
  by (auto simp: delegation_checks_def deny_checks_def principal_pairing_def
      delegation_index_conflict_def deny_index_conflict_def split: principal_type.splits)

text \<open>The status shown for a support request and the query that honours it agree: a request
  is displayed as active exactly when the decision's own predicate accepts it.\<close>

theorem support_status_agrees:
  "compute_support_access_status q now = SA_LIVE \<longleftrightarrow> support_request_active now q"
  by (auto simp: compute_support_access_status_def support_request_active_def)

text \<open>C8: support access needs a second person and ends. On a store whose requests and
  permission references are well formed, each of the five operations that write requests (creating, approving, denying and revoking one, and the revocation of all of a tenant's in
  its purge) keeps the invariant under which an effective request was approved by someone other than
  its requester and stops being effective at most 24 hours after it starts; an approval is made on an
  undecided request of an open tenant by a person allowed to approve; and none of the five changes a
  request that has been denied or revoked.\<close>

theorem support_access_is_controlled:
  assumes "support_ok d" "permission_refs_ok d"
    and "create_support_access_request d now c t reason e s b = Inr (d', i) \<or>
      approve_support_access d now c t i = Inr d' \<or> deny_support_access d now c t i = Inr d' \<or>
      revoke_support_access d now c t i = Inr d' \<or> revoke_tenant_support_access d now t c = Inr (d', ids)"
  shows "support_ok d' \<and>
    (\<forall>q \<in> set (support_access_requests d'). support_request_active now' q \<longrightarrow>
      (\<exists>v. su_approved_by_user_id q = Some v \<and> v \<noteq> su_requester_user_id q) \<and>
      now' < su_requested_starts_at q + MAX_SUPPORT_ACCESS_DURATION) \<and>
    (approve_support_access d now c t i = Inr d' \<longrightarrow>
      (\<exists>v q. c = UserCaller v \<and> get_support_access_request d t i = Inr q \<and> is_open d t \<and>
        v \<noteq> su_requester_user_id q \<and> su_approved_at q = None \<and> su_denied_at q = None \<and>
        user_can d now v t ''approve'' ''support_access_request'')) \<and>
    (\<forall>q \<in> set (support_access_requests d). su_denied_at q \<noteq> None \<or> su_revoked_at q \<noteq> None \<longrightarrow>
      q \<in> set (support_access_requests d'))"
proof -
  have ok: "support_ok d'"
    using assms(3) support_operations_ok [OF assms(1)] tenant_revocation_ok [OF assms(1)] by metis
  moreover have "\<forall>q \<in> set (support_access_requests d'). support_request_active now' q \<longrightarrow>
      (\<exists>v. su_approved_by_user_id q = Some v \<and> v \<noteq> su_requester_user_id q) \<and>
      now' < su_requested_starts_at q + MAX_SUPPORT_ACCESS_DURATION"
    using support_ok_active [OF ok] by blast
  moreover have "\<exists>v q. c = UserCaller v \<and> get_support_access_request d t i = Inr q \<and> is_open d t \<and>
        v \<noteq> su_requester_user_id q \<and> su_approved_at q = None \<and> su_denied_at q = None \<and>
        user_can d now v t ''approve'' ''support_access_request''"
    if "approve_support_access d now c t i = Inr d'"
    using approve_ok [OF that assms(2)] by blast
  moreover note support_requests_final [OF assms(1) _ _ assms(3)]
  ultimately show ?thesis by blast
qed

theorem support_access_is_controlled_witness:
  "\<exists>d' i. create_support_access_request sample_db 100 (UserCaller 11) 1 ''ticket'' 500 SELF None =
     Inr (d', i) \<and> support_ok d'"
proof -
  let ?r = "create_support_access_request sample_db 100 (UserCaller 11) 1 ''ticket'' 500 SELF None"
  have "is_ok ?r" by code_simp
  then obtain d' i where r: "?r = Inr (d', i)" by (auto simp: is_ok_iff)
  have "support_ok sample_db" "permission_refs_ok sample_db" by code_simp+
  with support_access_is_controlled [OF _ _ disjI1 [OF r]] r show ?thesis by blast
qed

text \<open>Winding a tenant down ends every support grant on it. When the purge revocation
  succeeds the tenant is in its purge phase, no approved and unrevoked request of it is left,
  no request row is removed, and exactly the requests that were live are reported and audited.\<close>

theorem purge_revokes_support:
  assumes "revoke_tenant_support_access d now t c = Inr (d', ids)"
  shows "tenant_support_grants d' t = [] \<and>
    map su_id (support_access_requests d') = map su_id (support_access_requests d) \<and>
    set ids = su_id ` set (tenant_support_grants d t) \<and>
    audit_log d' = audit_log d @ map (\<lambda>i. entry_of c t ''support_access.revoke''
      ''support_access_request'' (Some i) SUCCESS) ids \<and>
    tenant_status_of d t \<in> {Some PURGING, Some PURGED}"
proof -
  let ?live = "\<lambda>q. su_tenant_id q = t \<and> su_approved_at q \<noteq> None \<and> su_denied_at q = None \<and>
    su_revoked_at q = None"
  let ?revoke = "\<lambda>q. q\<lparr>su_revoked_at := Some now,
    su_revoked_by_user_id := (case c of UserCaller u \<Rightarrow> Some u | _ \<Rightarrow> None)\<rparr>"
  let ?d1 = "d\<lparr>support_access_requests := update_where ?live ?revoke (support_access_requests d)\<rparr>"
  from assms have ids: "ids = sort (map su_id (tenant_support_grants d t))"
    and rec: "record_all ?d1 c t ''support_access.revoke'' ''support_access_request'' ids = Inr d'"
    and status: "tenant_status_of d t \<in> {Some PURGING, Some PURGED}"
    by (auto simp: revoke_tenant_support_access_def Let_def require_purging_tenant_def
        tenant_status_of_def bind_simps split: if_splits)
  have "tenant_support_grants d' t = tenant_support_grants ?d1 t"
    using record_all_frame [OF rec] by (simp add: tenant_support_grants_def)
  also have "\<dots> = []" by (rule tenant_support_grants_revoked)
  finally show ?thesis
    using record_all_frame [OF rec] status ids by (simp add: map_update_where [of su_id ?revoke])
qed

end
