(* ===== verification/Digest.thy ===== *)
theory Digest
  imports Store "HOL-Library.Word"
begin

section \<open>Token digests\<close>

text \<open>
  A bearer secret is stored as \<open>hashlib.sha256(raw.encode("utf-8")).hexdigest()\<close>
  (\<open>saas_os/core/identity/service.py\<close>, \<open>sessions.py\<close>, \<open>saas_os/core/api_keys/service.py\<close>).
  The digest is the SHA-256 of FIPS 180-4 on 32-bit words, where additions wrap. A token is
  ASCII, so its UTF-8 encoding is its characters. Nothing below rests on a property of the
  digest but that it is a function: that two tokens have different digests is stated where it
  is used.
\<close>

unbundle bit_operations_syntax

type_synonym word32 = "32 word"
type_synonym sha_state =
  "word32 \<times> word32 \<times> word32 \<times> word32 \<times> word32 \<times> word32 \<times> word32 \<times> word32"

definition sha256_K :: "word32 list" where
  "sha256_K = [
    1116352408, 1899447441, 3049323471, 3921009573, 961987163, 1508970993, 2453635748, 2870763221,
    3624381080, 310598401, 607225278, 1426881987, 1925078388, 2162078206, 2614888103, 3248222580,
    3835390401, 4022224774, 264347078, 604807628, 770255983, 1249150122, 1555081692, 1996064986,
    2554220882, 2821834349, 2952996808, 3210313671, 3336571891, 3584528711, 113926993, 338241895,
    666307205, 773529912, 1294757372, 1396182291, 1695183700, 1986661051, 2177026350, 2456956037,
    2730485921, 2820302411, 3259730800, 3345764771, 3516065817, 3600352804, 4094571909, 275423344,
    430227734, 506948616, 659060556, 883997877, 958139571, 1322822218, 1537002063, 1747873779,
    1955562222, 2024104815, 2227730452, 2361852424, 2428436474, 2756734187, 3204031479, 3329325298]"

definition sha256_init :: sha_state where
  "sha256_init = (1779033703, 3144134277, 1013904242, 2773480762, 1359893119, 2600822924,
    528734635, 1541459225)"

definition small_sigma0 :: "word32 \<Rightarrow> word32" where
  "small_sigma0 x = word_rotr 7 x XOR word_rotr 18 x XOR drop_bit 3 x"

definition small_sigma1 :: "word32 \<Rightarrow> word32" where
  "small_sigma1 x = word_rotr 17 x XOR word_rotr 19 x XOR drop_bit 10 x"

definition big_sigma0 :: "word32 \<Rightarrow> word32" where
  "big_sigma0 x = word_rotr 2 x XOR word_rotr 13 x XOR word_rotr 22 x"

definition big_sigma1 :: "word32 \<Rightarrow> word32" where
  "big_sigma1 x = word_rotr 6 x XOR word_rotr 11 x XOR word_rotr 25 x"

definition choose_bits :: "word32 \<Rightarrow> word32 \<Rightarrow> word32 \<Rightarrow> word32" where
  "choose_bits e f g = (e AND f) XOR (NOT e AND g)"

definition majority_bits :: "word32 \<Rightarrow> word32 \<Rightarrow> word32 \<Rightarrow> word32" where
  "majority_bits a b c = (a AND b) XOR (a AND c) XOR (b AND c)"

text \<open>The message schedule: forty-eight words appended to the sixteen of the block.\<close>

fun extend_schedule :: "nat \<Rightarrow> word32 list \<Rightarrow> word32 list" where
  "extend_schedule 0 w = w"
| "extend_schedule (Suc n) w = (let t = length w in
     extend_schedule n (w @ [small_sigma1 (w ! (t - 2)) + w ! (t - 7) +
       small_sigma0 (w ! (t - 15)) + w ! (t - 16)]))"

definition sha256_round :: "sha_state \<Rightarrow> word32 \<times> word32 \<Rightarrow> sha_state" where
  "sha256_round s kw = (case (s, kw) of ((a, b, c, d, e, f, g, h), (k, w)) \<Rightarrow>
     (let t1 = h + big_sigma1 e + choose_bits e f g + k + w;
          t2 = big_sigma0 a + majority_bits a b c
      in (t1 + t2, a, b, c, d + t1, e, f, g)))"

definition add_states :: "sha_state \<Rightarrow> sha_state \<Rightarrow> sha_state" where
  "add_states s s' = (case (s, s') of ((a, b, c, d, e, f, g, h), (a', b', c', d', e', f', g', h')) \<Rightarrow>
     (a + a', b + b', c + c', d + d', e + e', f + f', g + g', h + h'))"

definition sha256_block :: "sha_state \<Rightarrow> word32 list \<Rightarrow> sha_state" where
  "sha256_block s block =
     add_states s (fold (\<lambda>kw st. sha256_round st kw) (zip sha256_K (extend_schedule 48 block)) s)"

text \<open>Padding to a multiple of 64 bytes, and big-endian words.\<close>

definition byte_values :: "string \<Rightarrow> nat list" where
  "byte_values s = map (\<lambda>c. of_char c) s"

definition be_bytes :: "nat \<Rightarrow> nat \<Rightarrow> nat list" where
  "be_bytes n x = map (\<lambda>i. x div 256 ^ (n - 1 - i) mod 256) [0..<n]"

definition pad_message :: "nat list \<Rightarrow> nat list" where
  "pad_message m = m @ [128] @ replicate ((119 - length m mod 64) mod 64) 0 @ be_bytes 8 (8 * length m)"

fun words_of_bytes :: "nat list \<Rightarrow> word32 list" where
  "words_of_bytes (a # b # c # d # rest) =
     of_nat (((a * 256 + b) * 256 + c) * 256 + d) # words_of_bytes rest"
| "words_of_bytes _ = []"

fun sha256_blocks :: "nat \<Rightarrow> sha_state \<Rightarrow> word32 list \<Rightarrow> sha_state" where
  "sha256_blocks 0 s ws = s"
| "sha256_blocks (Suc n) s ws = sha256_blocks n (sha256_block s (take 16 ws)) (drop 16 ws)"

definition hex_digit :: "nat \<Rightarrow> char" where
  "hex_digit n = ''0123456789abcdef'' ! n"

definition hex_word :: "word32 \<Rightarrow> string" where
  "hex_word w = map (\<lambda>i. hex_digit (unat (drop_bit (4 * (7 - i)) w AND 15))) [0..<8]"

definition sha256_words :: "string \<Rightarrow> word32 list" where
  "sha256_words s =
     (let words = words_of_bytes (pad_message (byte_values s));
          (a, b, c, d, e, f, g, h) = sha256_blocks (length words div 16) sha256_init words
      in [a, b, c, d, e, f, g, h])"

definition sha256_hexdigest :: "string \<Rightarrow> string" where
  "sha256_hexdigest s = concat (map hex_word (sha256_words s))"

definition sha256_digest :: "string \<Rightarrow> nat list" where
  "sha256_digest s = concat (map (\<lambda>w. map (\<lambda>i. unat (drop_bit (8 * (3 - i)) w AND 255)) [0..<4])
     (sha256_words s))"

text \<open>A digest has 32 bytes, or 64 hexadecimal characters, the width of its column.\<close>

lemma sha256_words_length: "length (sha256_words s) = 8"
  by (simp add: sha256_words_def Let_def split: prod.splits)

lemma sha256_hexdigest_length: "length (sha256_hexdigest s) = 64"
  by (simp add: sha256_hexdigest_def hex_word_def length_concat comp_def sum_list_triv sha256_words_length)

lemma sha256_digest_length: "length (sha256_digest s) = 32"
  by (simp add: sha256_digest_def length_concat comp_def sum_list_triv sha256_words_length)

end
