(* ===== verification/Memberships.thy ===== *)
theory Memberships
  imports Rbac_Grants Platform_Operations Digest
begin

section \<open>Memberships, service accounts and invitations\<close>

text \<open>
  \<open>saas_os/core/identity/service.py\<close>: the global identity rows, the tenant-owned
  memberships and service accounts with their lifecycles, and the invitations that let a
  person join a tenant, with the module's three purge steps. Every mutation takes its typed
  caller and decides in its own transaction; suspending or revoking a membership is a guarded
  mutation of the last-administrator rule. A random token is an argument of the operation that
  draws it.

  A string is a list of characters below 256, read as Latin-1 code points. \<open>casefold\<close> is
  Python's on those, but for the micro sign, whose case folding lies outside that range.
\<close>

subsection \<open>Users and external identities\<close>

definition create_user :: "db \<Rightarrow> db \<times> uuid" where
  "create_user d = (let (user_id, d1) = take_uuid d in
     (d1\<lparr>users := users d1 @ [\<lparr>us_id = user_id, us_is_active = True\<rparr>]\<rparr>, user_id))"

definition get_user :: "db \<Rightarrow> uuid \<Rightarrow> user option" where
  "get_user d user_id = find (\<lambda>u. us_id u = user_id) (users d)"

definition get_user_or_raise :: "db \<Rightarrow> uuid \<Rightarrow> error + user" where
  "get_user_or_raise d user_id =
     (case get_user d user_id of None \<Rightarrow> Inl (UserNotFoundError user_id) | Some u \<Rightarrow> Inr u)"

definition validate_external_identity :: "string \<Rightarrow> string \<Rightarrow> error + unit" where
  "validate_external_identity issuer subject =
     require (\<not> has_control_characters issuer \<and> \<not> has_control_characters subject)
       InvalidExternalIdentityError"

definition find_external_identity ::
  "db \<Rightarrow> string \<Rightarrow> string \<Rightarrow> error + external_identity option" where
  "find_external_identity d issuer subject =
     ebind (validate_external_identity issuer subject) (\<lambda>_.
     one_or_none (filter (\<lambda>x. ei_issuer x = issuer \<and> ei_subject x = subject)
       (external_identities d)))"

definition link_external_identity :: "db \<Rightarrow> uuid \<Rightarrow> string \<Rightarrow> string \<Rightarrow> error + (db \<times> uuid)" where
  "link_external_identity d user_id issuer subject =
     ebind (validate_external_identity issuer subject) (\<lambda>_.
     if length issuer > 2048 \<or> length subject > 255 then Inl DataError
     else if list_ex (\<lambda>x. ei_issuer x = issuer \<and> ei_subject x = subject) (external_identities d) \<or>
         get_user d user_id = None
     then Inl (DuplicateExternalIdentityError issuer subject)
     else (let (link_id, d1) = take_uuid d in
       Inr (d1\<lparr>external_identities := external_identities d1 @ [\<lparr>ei_id = link_id,
         ei_user_id = user_id, ei_issuer = issuer, ei_subject = subject\<rparr>]\<rparr>, link_id)))"

text \<open>
  Three transactions: the user row stays when the link is refused. With no concurrent login
  the refused link means an identity that appeared in between, so it is found again.
\<close>

definition get_or_create_user_for_external_identity ::
  "db \<Rightarrow> string \<Rightarrow> string \<Rightarrow> db \<times> (error + user)" where
  "get_or_create_user_for_external_identity d issuer subject =
     (case find_external_identity d issuer subject of
        Inl e \<Rightarrow> (d, Inl e)
      | Inr (Some existing) \<Rightarrow> (d, get_user_or_raise d (ei_user_id existing))
      | Inr None \<Rightarrow>
          (let (d1, user_id) = create_user d in
           case link_external_identity d1 user_id issuer subject of
             Inr (d2, _) \<Rightarrow> (d2, get_user_or_raise d2 user_id)
           | Inl (DuplicateExternalIdentityError i s) \<Rightarrow>
               (case find_external_identity d1 issuer subject of
                  Inl e \<Rightarrow> (d1, Inl e)
                | Inr (Some existing) \<Rightarrow> (d1, get_user_or_raise d1 (ei_user_id existing))
                | Inr None \<Rightarrow> (d1, Inl (DuplicateExternalIdentityError issuer subject)))
           | Inl e \<Rightarrow> (d1, Inl e)))"

subsection \<open>Direct membership\<close>

definition insert_membership :: "db \<Rightarrow> datetime \<Rightarrow> uuid \<Rightarrow> uuid \<Rightarrow> error + (db \<times> uuid)" where
  "insert_membership d now tenant_id user_id =
     (if list_ex (\<lambda>m. tm_tenant_id m = tenant_id \<and> tm_user_id m = user_id) (tenant_memberships d) \<or>
         find_tenant d tenant_id = None \<or> get_user d user_id = None
      then Inl IntegrityError
      else (let (membership_id, d1) = take_uuid d in
        Inr (d1\<lparr>tenant_memberships := tenant_memberships d1 @ [\<lparr>tm_id = membership_id,
          tm_tenant_id = tenant_id, tm_user_id = user_id, tm_status = MEMBER_ACTIVE,
          tm_created_at = now\<rparr>]\<rparr>, membership_id)))"

definition add_tenant_membership ::
  "db \<Rightarrow> datetime \<Rightarrow> uuid \<Rightarrow> uuid \<Rightarrow> caller \<Rightarrow> error + (db \<times> uuid)" where
  "add_tenant_membership d now tenant_id user_id c =
     ebind (require_caller ''add_tenant_membership'' c ALL_CALLER_TYPES) (\<lambda>_.
     ebind (require_open_tenant d tenant_id) (\<lambda>_.
     ebind (authorize_caller d now c ''add_tenant_membership'' tenant_id ''membership'' ''create''
       PROVISIONING_ONLY) (\<lambda>d1.
     ebind (insert_membership d1 now tenant_id user_id) (\<lambda>(d2, membership_id).
     ebind (record_in_transaction d2 c tenant_id ''membership.create'' ''tenant_membership''
       (Some membership_id) SUCCESS) (\<lambda>d3. Inr (d3, membership_id))))))"

definition get_membership :: "db \<Rightarrow> uuid \<Rightarrow> uuid \<Rightarrow> tenant_membership option" where
  "get_membership d tenant_id user_id =
     find (\<lambda>m. tm_tenant_id m = tenant_id \<and> tm_user_id m = user_id) (tenant_memberships d)"

text \<open>A page: rows after the offset, at most \<open>limit\<close> of them.\<close>

definition check_page :: "int option \<Rightarrow> int \<Rightarrow> error + unit" where
  "check_page limit offset =
     require ((case limit of None \<Rightarrow> True | Some n \<Rightarrow> n \<ge> 0) \<and> offset \<ge> 0) ValueError"

definition page_of :: "int option \<Rightarrow> int \<Rightarrow> 'a list \<Rightarrow> 'a list" where
  "page_of limit offset rows = (let rest = drop (nat offset) rows in
     case limit of None \<Rightarrow> rest | Some n \<Rightarrow> take (nat n) rest)"

definition list_tenant_members ::
  "db \<Rightarrow> uuid \<Rightarrow> int option \<Rightarrow> int \<Rightarrow> error + tenant_membership list" where
  "list_tenant_members d tenant_id limit offset =
     ebind (check_page limit offset) (\<lambda>_.
     Inr (page_of limit offset (sort_key (\<lambda>m. (tm_created_at m, tm_id m))
       (filter (\<lambda>m. tm_tenant_id m = tenant_id) (tenant_memberships d)))))"

subsection \<open>Service accounts\<close>

definition insert_service_account :: "db \<Rightarrow> uuid \<Rightarrow> string \<Rightarrow> error + (db \<times> uuid)" where
  "insert_service_account d tenant_id name =
     (if length name > 200 then Inl DataError
      else if list_ex (\<lambda>s. sa_tenant_id s = tenant_id \<and> sa_name s = name) (service_accounts d) \<or>
         find_tenant d tenant_id = None
      then Inl IntegrityError
      else (let (account_id, d1) = take_uuid d in
        Inr (d1\<lparr>service_accounts := service_accounts d1 @ [\<lparr>sa_id = account_id,
          sa_tenant_id = tenant_id, sa_name = name, sa_status = SA_ACTIVE\<rparr>]\<rparr>, account_id)))"

definition create_service_account ::
  "db \<Rightarrow> datetime \<Rightarrow> uuid \<Rightarrow> string \<Rightarrow> caller \<Rightarrow> error + (db \<times> uuid)" where
  "create_service_account d now tenant_id name c =
     ebind (require_caller ''create_service_account'' c ALL_CALLER_TYPES) (\<lambda>_.
     ebind (require (\<not> has_control_characters name) InvalidServiceAccountNameError) (\<lambda>_.
     ebind (require_open_tenant d tenant_id) (\<lambda>_.
     catch
       (ebind (authorize_caller d now c ''create_service_account'' tenant_id ''service_account''
         ''create'' PROVISIONING_ONLY) (\<lambda>d1.
       ebind (lock_accessible_tenant d1 tenant_id) (\<lambda>_.
       ebind (insert_service_account d1 tenant_id name) (\<lambda>(d2, account_id).
       ebind (record_in_transaction d2 c tenant_id ''service_account.create'' ''service_account''
         (Some account_id) SUCCESS) (\<lambda>d3. Inr (d3, account_id))))))
       (\<lambda>e. e = IntegrityError) (Inl (DuplicateServiceAccountNameError tenant_id name)))))"

definition get_service_account :: "db \<Rightarrow> uuid \<Rightarrow> uuid \<Rightarrow> service_account option" where
  "get_service_account d tenant_id service_account_id =
     find (\<lambda>s. sa_tenant_id s = tenant_id \<and> sa_id s = service_account_id) (service_accounts d)"

definition list_service_accounts :: "db \<Rightarrow> uuid \<Rightarrow> service_account list" where
  "list_service_accounts d tenant_id = filter (\<lambda>s. sa_tenant_id s = tenant_id) (service_accounts d)"

definition write_service_account_status ::
  "uuid \<Rightarrow> uuid \<Rightarrow> service_account_status \<Rightarrow> db \<Rightarrow> db" where
  "write_service_account_status tenant_id service_account_id status d = d\<lparr>service_accounts :=
     update_where (\<lambda>s. sa_tenant_id s = tenant_id \<and> sa_id s = service_account_id)
       (\<lambda>s. s\<lparr>sa_status := status\<rparr>) (service_accounts d)\<rparr>"

definition set_service_account_status ::
  "db \<Rightarrow> uuid \<Rightarrow> uuid \<Rightarrow> service_account_status \<Rightarrow> caller \<Rightarrow> string \<Rightarrow> (db \<Rightarrow> error + db)
    \<Rightarrow> error + db" where
  "set_service_account_status d tenant_id service_account_id status c audit_action authorize =
     ebind (authorize d) (\<lambda>d1.
     case get_service_account d1 tenant_id service_account_id of
       None \<Rightarrow> Inl (ServiceAccountNotFoundError tenant_id service_account_id)
     | Some account \<Rightarrow>
         if sa_status account \<noteq> status
         then record_in_transaction
           (write_service_account_status tenant_id service_account_id status d1) c tenant_id
           audit_action ''service_account'' (Some service_account_id) SUCCESS
         else Inr d1)"

definition disable_service_account ::
  "db \<Rightarrow> datetime \<Rightarrow> uuid \<Rightarrow> uuid \<Rightarrow> caller \<Rightarrow> error + db" where
  "disable_service_account d now tenant_id service_account_id c =
     set_service_account_status d tenant_id service_account_id SA_DISABLED c
       ''service_account.disable'' (\<lambda>d. authorize_caller d now c ''disable_service_account''
         tenant_id ''service_account'' ''disable'' [])"

definition enable_service_account ::
  "db \<Rightarrow> datetime \<Rightarrow> uuid \<Rightarrow> uuid \<Rightarrow> caller \<Rightarrow> error + db" where
  "enable_service_account d now tenant_id service_account_id c =
     ebind (require_caller ''enable_service_account'' c ALL_CALLER_TYPES) (\<lambda>_.
     ebind (require_open_tenant d tenant_id) (\<lambda>_.
     set_service_account_status d tenant_id service_account_id SA_ACTIVE c
       ''service_account.enable'' (\<lambda>d. authorize_caller d now c ''enable_service_account''
         tenant_id ''service_account'' ''enable'' [])))"

subsection \<open>Membership lifecycle\<close>

definition write_membership_status ::
  "uuid \<Rightarrow> uuid \<Rightarrow> membership_status \<Rightarrow> db \<Rightarrow> db" where
  "write_membership_status tenant_id membership_id status d = d\<lparr>tenant_memberships :=
     update_where (\<lambda>m. tm_tenant_id m = tenant_id \<and> tm_id m = membership_id)
       (\<lambda>m. m\<lparr>tm_status := status\<rparr>) (tenant_memberships d)\<rparr>"

definition transition_membership_status ::
  "db \<Rightarrow> datetime \<Rightarrow> uuid \<Rightarrow> uuid \<Rightarrow> membership_status list \<Rightarrow> membership_status
    \<Rightarrow> membership_status list \<Rightarrow> caller \<Rightarrow> string \<Rightarrow> error + db" where
  "transition_membership_status d now tenant_id membership_id allowed_from to_status
      idempotent_from c verb =
     ebind (authorize_caller d now c (verb @ ''_membership'') tenant_id ''membership'' verb [])
       (\<lambda>d1.
     case find_membership_by_id d1 tenant_id membership_id of
       None \<Rightarrow> Inl (MembershipNotFoundError tenant_id membership_id)
     | Some membership \<Rightarrow>
         if tm_status membership \<in> set idempotent_from then Inr d1
         else if tm_status membership \<notin> set allowed_from
         then Inl (InvalidMembershipTransitionError membership_id (tm_status membership) to_status)
         else (let d2 = write_membership_status tenant_id membership_id to_status d1 in
           ebind (if to_status \<noteq> MEMBER_ACTIVE
               then verify d2 now (guard_last_administrator d1 now tenant_id [tm_user_id membership])
               else Inr ()) (\<lambda>_.
           record_in_transaction d2 c tenant_id (''membership.'' @ verb) ''tenant_membership''
             (Some membership_id) SUCCESS)))"

definition suspend_membership :: "db \<Rightarrow> datetime \<Rightarrow> uuid \<Rightarrow> uuid \<Rightarrow> caller \<Rightarrow> error + db" where
  "suspend_membership d now tenant_id membership_id c =
     ebind (require_caller ''suspend_membership'' c ALL_CALLER_TYPES) (\<lambda>_.
     transition_membership_status d now tenant_id membership_id [MEMBER_ACTIVE] MEMBER_SUSPENDED
       [MEMBER_SUSPENDED] c ''suspend'')"

definition reactivate_membership ::
  "db \<Rightarrow> datetime \<Rightarrow> uuid \<Rightarrow> uuid \<Rightarrow> caller \<Rightarrow> error + db" where
  "reactivate_membership d now tenant_id membership_id c =
     ebind (require_caller ''reactivate_membership'' c ALL_CALLER_TYPES) (\<lambda>_.
     ebind (require_open_tenant d tenant_id) (\<lambda>_.
     transition_membership_status d now tenant_id membership_id [MEMBER_SUSPENDED] MEMBER_ACTIVE
       [MEMBER_ACTIVE] c ''reactivate''))"

definition revoke_membership :: "db \<Rightarrow> datetime \<Rightarrow> uuid \<Rightarrow> uuid \<Rightarrow> caller \<Rightarrow> error + db" where
  "revoke_membership d now tenant_id membership_id c =
     ebind (require_caller ''revoke_membership'' c ALL_CALLER_TYPES) (\<lambda>_.
     transition_membership_status d now tenant_id membership_id [MEMBER_ACTIVE, MEMBER_SUSPENDED]
       MEMBER_REVOKED [MEMBER_REVOKED] c ''revoke'')"

subsection \<open>Invitations\<close>

definition DEFAULT_INVITATION_LIFETIME :: int where
  "DEFAULT_INVITATION_LIFETIME = 7 * 86400 * 1000000"

definition MAX_INVITATION_LIFETIME :: int where
  "MAX_INVITATION_LIFETIME = 30 * 86400 * 1000000"

definition MAX_INVITED_EMAIL_LENGTH :: nat where
  "MAX_INVITED_EMAIL_LENGTH = 320"

definition hash_invitation_token :: "string \<Rightarrow> string" where
  "hash_invitation_token raw_token = sha256_hexdigest raw_token"

definition casefold_char :: "char \<Rightarrow> string" where
  "casefold_char c = (let n = of_char c :: nat in
     if 65 \<le> n \<and> n \<le> 90 \<or> 192 \<le> n \<and> n \<le> 222 \<and> n \<noteq> 215 then [char_of (n + 32)]
     else if n = 223 then ''ss'' else [c])"

definition casefold :: "string \<Rightarrow> string" where
  "casefold s = concat (map casefold_char s)"

definition isascii :: "string \<Rightarrow> bool" where
  "isascii s = list_all (\<lambda>c. of_char c < (128 :: nat)) s"

definition normalize_email :: "string \<Rightarrow> error + string" where
  "normalize_email invited_email = (let normalized = casefold (strip invited_email) in
     if has_control_characters normalized then Inl InvalidInvitationEmailError
     else if normalized = [] \<or> CHR ''@'' \<notin> set normalized \<or> hd normalized = CHR ''@''
       then Inl InvalidInvitationEmailError
     else if length normalized > MAX_INVITED_EMAIL_LENGTH then Inl InvalidInvitationEmailError
     else Inr normalized)"

definition resolve_expiry :: "datetime \<Rightarrow> datetime option \<Rightarrow> datetime" where
  "resolve_expiry now expires_at =
     (let resolved = (case expires_at of Some e \<Rightarrow> e | None \<Rightarrow> now + DEFAULT_INVITATION_LIFETIME)
      in if resolved - now > MAX_INVITATION_LIFETIME then now + MAX_INVITATION_LIFETIME
         else resolved)"

definition invitation_live :: "invitation \<Rightarrow> bool" where
  "invitation_live i = (iv_accepted_at i = None \<and> iv_revoked_at i = None)"

text \<open>The insert, under the checks, keys and the live index of \<open>core.invitations\<close>.\<close>

definition insert_invitation ::
  "db \<Rightarrow> datetime \<Rightarrow> uuid \<Rightarrow> string \<Rightarrow> string \<Rightarrow> uuid \<Rightarrow> datetime \<Rightarrow> error + (db \<times> uuid)" where
  "insert_invitation d now tenant_id email token_hash inviter expires_at =
     (if \<not> expires_at > now \<or> find_tenant d tenant_id = None \<or> get_user d inviter = None \<or>
         list_ex (\<lambda>i. iv_token_hash i = token_hash) (invitations d) \<or>
         list_ex (\<lambda>i. iv_tenant_id i = tenant_id \<and> iv_invited_email i = email \<and> invitation_live i)
           (invitations d)
      then Inl IntegrityError
      else (let (invitation_id, d1) = take_uuid d in
        Inr (d1\<lparr>invitations := invitations d1 @ [\<lparr>iv_id = invitation_id, iv_tenant_id = tenant_id,
          iv_invited_email = email, iv_token_hash = token_hash, iv_inviter_user_id = inviter,
          iv_created_at = now, iv_expires_at = expires_at, iv_accepted_at = None,
          iv_accepted_by_user_id = None, iv_revoked_at = None, iv_revoked_by_user_id = None\<rparr>]\<rparr>,
          invitation_id)))"

definition create_invitation ::
  "db \<Rightarrow> datetime \<Rightarrow> uuid \<Rightarrow> string \<Rightarrow> caller \<Rightarrow> datetime option \<Rightarrow> string
    \<Rightarrow> error + (db \<times> uuid \<times> string)" where
  "create_invitation d now tenant_id invited_email c expires_at raw_token =
     ebind (require_caller ''create_invitation'' c [UserCallerType]) (\<lambda>_.
     let inviter = fst (principal c) in
     ebind (require_open_tenant d tenant_id) (\<lambda>_.
     ebind (normalize_email invited_email) (\<lambda>email.
     catch
       (ebind (register_permission d ''invitation'' ''create'') (\<lambda>(d1, _).
       ebind (require (user_can d1 now inviter tenant_id ''create'' ''invitation'')
         (InvitationNotAuthorizedError inviter tenant_id)) (\<lambda>_.
       ebind (insert_invitation d1 now tenant_id email (hash_invitation_token raw_token) inviter
         (resolve_expiry now expires_at)) (\<lambda>(d2, invitation_id).
       ebind (record_in_transaction d2 c tenant_id ''invitation.create'' ''invitation''
         (Some invitation_id) SUCCESS) (\<lambda>d3. Inr (d3, invitation_id, raw_token))))))
       (\<lambda>e. e = IntegrityError) (Inl (DuplicateInvitationError tenant_id email)))))"

definition get_invitation :: "db \<Rightarrow> uuid \<Rightarrow> uuid \<Rightarrow> invitation option" where
  "get_invitation d tenant_id invitation_id =
     find (\<lambda>i. iv_tenant_id i = tenant_id \<and> iv_id i = invitation_id) (invitations d)"

definition list_invitations_for_tenant ::
  "db \<Rightarrow> uuid \<Rightarrow> int option \<Rightarrow> int \<Rightarrow> error + invitation list" where
  "list_invitations_for_tenant d tenant_id limit offset =
     ebind (check_page limit offset) (\<lambda>_.
     Inr (page_of limit offset (sort_key (\<lambda>i. (iv_created_at i, iv_id i))
       (filter (\<lambda>i. iv_tenant_id i = tenant_id) (invitations d)))))"

definition write_invitation :: "uuid \<Rightarrow> (invitation \<Rightarrow> invitation) \<Rightarrow> db \<Rightarrow> db" where
  "write_invitation invitation_id f d =
     d\<lparr>invitations := update_where (\<lambda>i. iv_id i = invitation_id) f (invitations d)\<rparr>"

definition revoke_invitation ::
  "db \<Rightarrow> datetime \<Rightarrow> uuid \<Rightarrow> uuid \<Rightarrow> caller \<Rightarrow> error + db" where
  "revoke_invitation d now tenant_id invitation_id c =
     ebind (require_caller ''revoke_invitation'' c [UserCallerType]) (\<lambda>_.
     let actor = fst (principal c) in
     ebind (register_permission d ''invitation'' ''revoke'') (\<lambda>(d1, _).
     ebind (require (user_can d1 now actor tenant_id ''revoke'' ''invitation'')
       (InvitationNotAuthorizedError actor tenant_id)) (\<lambda>_.
     case get_invitation d1 tenant_id invitation_id of
       None \<Rightarrow> Inl (InvitationNotFoundError tenant_id invitation_id)
     | Some invitation \<Rightarrow>
         if iv_revoked_at invitation \<noteq> None then Inr d1
         else if iv_accepted_at invitation \<noteq> None
         then Inl (InvitationAlreadyAcceptedError invitation_id)
         else record_in_transaction (write_invitation invitation_id (\<lambda>i. i\<lparr>iv_revoked_at := Some now,
             iv_revoked_by_user_id := Some actor\<rparr>) d1) c tenant_id ''invitation.revoke''
           ''invitation'' (Some invitation_id) SUCCESS)))"

text \<open>The verified address of the accepting person, compared without case, ASCII only.\<close>

definition email_bound :: "string option \<Rightarrow> string \<Rightarrow> bool" where
  "email_bound accepting_email invited_email = (case accepting_email of
     None \<Rightarrow> True
   | Some e \<Rightarrow> isascii e \<and> isascii invited_email \<and> casefold (strip e) = invited_email)"

definition activate_membership :: "db \<Rightarrow> datetime \<Rightarrow> uuid \<Rightarrow> uuid \<Rightarrow> error + db" where
  "activate_membership d now tenant_id user_id =
     (case get_membership d tenant_id user_id of
        None \<Rightarrow> ebind (insert_membership d now tenant_id user_id) (\<lambda>(d1, _). Inr d1)
      | Some membership \<Rightarrow>
          if tm_status membership \<noteq> MEMBER_ACTIVE
          then Inl (InvalidMembershipTransitionError (tm_id membership) (tm_status membership)
                 MEMBER_ACTIVE)
          else Inr d)"

definition consume_locked_invitation ::
  "db \<Rightarrow> datetime \<Rightarrow> uuid \<Rightarrow> uuid \<Rightarrow> string \<Rightarrow> uuid \<Rightarrow> string option \<Rightarrow> error + db" where
  "consume_locked_invitation d now tenant_id invitation_id token_hash accepting_user_id
      accepting_email =
     (case find (\<lambda>i. iv_id i = invitation_id) (invitations d) of
        None \<Rightarrow> Inl InvitationInvalidError
      | Some invitation \<Rightarrow>
          if \<not> is_ok (lock_accessible_tenant d tenant_id) then Inl InvitationInvalidError
          else if iv_tenant_id invitation \<noteq> tenant_id \<or> iv_token_hash invitation \<noteq> token_hash \<or>
              iv_accepted_at invitation \<noteq> None \<or> iv_revoked_at invitation \<noteq> None \<or>
              iv_expires_at invitation \<le> now
          then Inl InvitationInvalidError
          else if \<not> email_bound accepting_email (iv_invited_email invitation)
          then Inl InvitationInvalidError
          else activate_membership (write_invitation invitation_id (\<lambda>i. i\<lparr>iv_accepted_at := Some now,
              iv_accepted_by_user_id := Some accepting_user_id\<rparr>) d) now tenant_id accepting_user_id)"

definition accept_invitation ::
  "db \<Rightarrow> datetime \<Rightarrow> string \<Rightarrow> uuid \<Rightarrow> caller \<Rightarrow> string option \<Rightarrow> error + db" where
  "accept_invitation d now raw_token tenant_id c accepting_email =
     ebind (require_caller ''accept_invitation'' c [UserCallerType]) (\<lambda>_.
     let accepting_user_id = fst (principal c); token_hash = hash_invitation_token raw_token in
     ebind (require_active_user d c ''accept_invitation'' tenant_id) (\<lambda>_.
     ebind (one_or_none (filter (\<lambda>i. iv_tenant_id i = tenant_id \<and> iv_token_hash i = token_hash)
       (invitations d))) (\<lambda>row.
     case row of
       None \<Rightarrow> Inl InvitationInvalidError
     | Some invitation \<Rightarrow>
         ebind (consume_locked_invitation d now tenant_id (iv_id invitation) token_hash
           accepting_user_id accepting_email) (\<lambda>d1.
         record_in_transaction d1 c tenant_id ''invitation.accept'' ''invitation''
           (Some (iv_id invitation)) SUCCESS))))"

text \<open>The derived status of \<open>invitation_status.py\<close>.\<close>

datatype invitation_status = INVITATION_PENDING | INVITATION_ACCEPTED | INVITATION_EXPIRED
  | INVITATION_REVOKED

definition compute_invitation_status :: "invitation \<Rightarrow> datetime \<Rightarrow> invitation_status" where
  "compute_invitation_status i now =
     (if iv_revoked_at i \<noteq> None then INVITATION_REVOKED
      else if iv_accepted_at i \<noteq> None then INVITATION_ACCEPTED
      else if iv_expires_at i \<le> now then INVITATION_EXPIRED
      else INVITATION_PENDING)"

subsection \<open>Purge and erasure steps\<close>

definition purge_tenant_invitations :: "db \<Rightarrow> uuid \<Rightarrow> error + (db \<times> nat)" where
  "purge_tenant_invitations d tenant_id =
     ebind (require_purging_tenant d tenant_id) (\<lambda>_.
     Inr (d\<lparr>invitations := delete_where (\<lambda>i. iv_tenant_id i = tenant_id) (invitations d)\<rparr>,
       length (filter (\<lambda>i. iv_tenant_id i = tenant_id) (invitations d))))"

fun normalize_invitation_addresses :: "string list \<Rightarrow> error + string list" where
  "normalize_invitation_addresses [] = Inr []"
| "normalize_invitation_addresses (a # as) = ebind (normalize_email a) (\<lambda>e.
     ebind (normalize_invitation_addresses as) (\<lambda>es. Inr (e # es)))"

definition delete_user_invitations_in_tenant ::
  "db \<Rightarrow> uuid \<Rightarrow> uuid \<Rightarrow> string list \<Rightarrow> db \<times> nat" where
  "delete_user_invitations_in_tenant d tenant_id user_id addresses =
     (let accepted = map iv_invited_email (filter (\<lambda>i. iv_tenant_id i = tenant_id \<and>
            iv_accepted_by_user_id i = Some user_id) (invitations d));
          match = (\<lambda>i. iv_tenant_id i = tenant_id \<and> (iv_accepted_by_user_id i = Some user_id \<or>
            iv_invited_email i \<in> set (addresses @ accepted)))
      in (d\<lparr>invitations := delete_where match (invitations d)\<rparr>,
          length (filter match (invitations d))))"

definition referenced_service_account_ids :: "db \<Rightarrow> uuid \<Rightarrow> uuid list" where
  "referenced_service_account_ids d tenant_id = List.map_filter al_actor_service_account_id
     (filter (\<lambda>e. al_tenant_id e = tenant_id) (audit_log d))"

text \<open>The rows that hold a foreign key onto a service account, in whatever tenant they are.\<close>

definition service_account_held :: "db \<Rightarrow> service_account \<Rightarrow> bool" where
  "service_account_held d s =
     (list_ex (\<lambda>k. ak_tenant_id k = sa_tenant_id s \<and> ak_service_account_id k = Some (sa_id s))
        (api_keys d) \<or>
      list_ex (\<lambda>r. sr_tenant_id r = sa_tenant_id s \<and> sr_service_account_id r = sa_id s)
        (service_account_roles d) \<or>
      list_ex (\<lambda>e. al_tenant_id e = sa_tenant_id s \<and> al_actor_service_account_id e = Some (sa_id s))
        (audit_log d) \<or>
      list_ex (\<lambda>g. dg_delegate_service_account_id g = Some (sa_id s)) (delegation_grants d) \<or>
      list_ex (\<lambda>g. dn_principal_service_account_id g = Some (sa_id s)) (deny_grants d))"

definition purge_tenant_service_accounts ::
  "db \<Rightarrow> uuid \<Rightarrow> uuid list \<Rightarrow> error + (db \<times> nat \<times> uuid list)" where
  "purge_tenant_service_accounts d tenant_id keep_service_account_ids =
     ebind (require_purging_tenant d tenant_id) (\<lambda>_.
     let keep = referenced_service_account_ids d tenant_id @ keep_service_account_ids;
         doomed = filter (\<lambda>s. sa_tenant_id s = tenant_id \<and> sa_id s \<notin> set keep) (service_accounts d);
         disabled = update_where (\<lambda>s. sa_tenant_id s = tenant_id) (\<lambda>s. s\<lparr>sa_status := SA_DISABLED\<rparr>)
           (service_accounts d) in
     if list_ex (service_account_held d) doomed then Inl IntegrityError
     else Inr (d\<lparr>service_accounts := delete_where
         (\<lambda>s. sa_tenant_id s = tenant_id \<and> sa_id s \<notin> set keep) disabled\<rparr>,
       length doomed,
       map sa_id (filter (\<lambda>s. sa_tenant_id s = tenant_id \<and> sa_id s \<in> set keep) (service_accounts d))))"

definition membership_held :: "db \<Rightarrow> tenant_membership \<Rightarrow> bool" where
  "membership_held d m =
     (list_ex (\<lambda>k. ak_tenant_id k = tm_tenant_id m \<and> ak_user_id k = Some (tm_user_id m)) (api_keys d) \<or>
      list_ex (\<lambda>r. mr_tenant_id r = tm_tenant_id m \<and> mr_membership_id r = tm_id m)
        (membership_roles d))"

definition purge_tenant_memberships :: "db \<Rightarrow> uuid \<Rightarrow> error + (db \<times> nat)" where
  "purge_tenant_memberships d tenant_id =
     ebind (require_purging_tenant d tenant_id) (\<lambda>_.
     let rows = filter (\<lambda>m. tm_tenant_id m = tenant_id) (tenant_memberships d) in
     if list_ex (membership_held d) rows then Inl IntegrityError
     else Inr (d\<lparr>tenant_memberships := delete_where (\<lambda>m. tm_tenant_id m = tenant_id)
       (tenant_memberships d)\<rparr>, length rows))"

end
