(* ===== verification/Membership_Invariants.thy ===== *)
theory Membership_Invariants
  imports Memberships
begin

section \<open>What the membership operations keep\<close>

text \<open>
  Every request on memberships, invitations and service accounts is a sequence of small
  steps on the store, \<open>membership_step\<close>: a permission is registered, a record or an
  invitation is written, a person joins, a membership leaves the ACTIVE status under the
  last-administrator guard, or a suspended one returns. The invariants of the component are
  proved by induction over those steps: the keys of the membership table, the finality of a
  revocation, and that no tenant loses its last administrator.
\<close>

subsection \<open>The step relation\<close>

inductive membership_step :: "datetime \<Rightarrow> db \<Rightarrow> db \<Rightarrow> bool" for now :: datetime where
  registers: "register_permission d resource action = Inr (d', p) \<Longrightarrow> membership_step now d d'"
| writes: "next_uuid d \<le> next_uuid d' \<Longrightarrow> d' = d\<lparr>next_uuid := next_uuid d', audit_log := audit_log d',
    invitations := invitations d', service_accounts := service_accounts d'\<rparr> \<Longrightarrow>
    membership_step now d d'"
| joins: "insert_membership d now t u = Inr (d', m) \<Longrightarrow> membership_step now d d'"
| leaves: "find_membership_by_id d t m = Some x \<Longrightarrow> tm_status x \<noteq> MEMBER_REVOKED \<Longrightarrow>
    s \<noteq> MEMBER_ACTIVE \<Longrightarrow> d' = write_membership_status t m s d \<Longrightarrow>
    verify d' now (guard_last_administrator d now t [tm_user_id x]) = Inr () \<Longrightarrow>
    membership_step now d d'"
| returns: "find_membership_by_id d t m = Some x \<Longrightarrow> tm_status x = MEMBER_SUSPENDED \<Longrightarrow>
    d' = write_membership_status t m MEMBER_ACTIVE d \<Longrightarrow> membership_step now d d'"

inductive_cases membership_stepE: "membership_step now d d'"

datatype membership_request =
    Add_Member uuid uuid
  | Suspend_Member uuid uuid
  | Reactivate_Member uuid uuid
  | Revoke_Member uuid uuid
  | Invite_Person uuid string "datetime option" string
  | Revoke_Invitation uuid uuid
  | Accept_Invitation string uuid "string option"
  | Create_Account uuid string
  | Disable_Account uuid uuid
  | Enable_Account uuid uuid

text \<open>A request is one transaction: an exception leaves the store as it was.\<close>

definition committed :: "db \<Rightarrow> ('a \<Rightarrow> db) \<Rightarrow> error + 'a \<Rightarrow> db" where
  "committed d f r = (case r of Inl _ \<Rightarrow> d | Inr a \<Rightarrow> f a)"

fun handle_membership :: "db \<Rightarrow> datetime \<Rightarrow> caller \<Rightarrow> membership_request \<Rightarrow> db" where
  "handle_membership d now c (Add_Member t u) = committed d fst (add_tenant_membership d now t u c)"
| "handle_membership d now c (Suspend_Member t m) = committed d id (suspend_membership d now t m c)"
| "handle_membership d now c (Reactivate_Member t m) =
     committed d id (reactivate_membership d now t m c)"
| "handle_membership d now c (Revoke_Member t m) = committed d id (revoke_membership d now t m c)"
| "handle_membership d now c (Invite_Person t email expires token) =
     committed d fst (create_invitation d now t email c expires token)"
| "handle_membership d now c (Revoke_Invitation t i) = committed d id (revoke_invitation d now t i c)"
| "handle_membership d now c (Accept_Invitation token t email) =
     committed d id (accept_invitation d now token t c email)"
| "handle_membership d now c (Create_Account t name) =
     committed d fst (create_service_account d now t name c)"
| "handle_membership d now c (Disable_Account t s) =
     committed d id (disable_service_account d now t s c)"
| "handle_membership d now c (Enable_Account t s) =
     committed d id (enable_service_account d now t s c)"

fun handle_memberships ::
  "db \<Rightarrow> (datetime \<times> caller \<times> membership_request) list \<Rightarrow> db" where
  "handle_memberships d [] = d"
| "handle_memberships d ((now, c, r) # rest) =
     handle_memberships (handle_membership d now c r) rest"

abbreviation membership_steps :: "datetime \<Rightarrow> db \<Rightarrow> db \<Rightarrow> bool" where
  "membership_steps now \<equiv> (membership_step now)\<^sup>*\<^sup>*"

lemma committed_cases:
  assumes "\<And>a. r = Inr a \<Longrightarrow> P (f a)" "P d" shows "P (committed d f r)"
  using assms by (cases r) (auto simp: committed_def)

lemma record_step:
  assumes "record_in_transaction d c t action resource_type resource_id outcome = Inr d'"
  shows "membership_step now d d'"
proof -
  obtain entries where "d' = d\<lparr>audit_log := entries\<rparr>" using assms by (rule record_frame)
  then show ?thesis by (intro membership_step.writes) simp_all
qed

lemma authorize_steps:
  assumes "authorize_caller d now c operation t resource action auths = Inr d'"
  shows "membership_steps now d d'"
  using assms by (cases rule: authorize_caller_ok) (auto dest: membership_step.registers)

lemma insert_invitation_step:
  "insert_invitation d now t email h inviter e = Inr (d', i) \<Longrightarrow> membership_step now d d'"
  by (auto simp: insert_invitation_def take_uuid_def Let_def split: if_splits
      intro!: membership_step.writes)

lemma write_invitation_step: "membership_step now d (write_invitation i f d)"
  by (rule membership_step.writes) (simp_all add: write_invitation_def)

lemma insert_account_step:
  "insert_service_account d t name = Inr (d', s) \<Longrightarrow> membership_step now d d'"
  by (auto simp: insert_service_account_def take_uuid_def Let_def split: if_splits
      intro!: membership_step.writes)

lemma account_status_step: "membership_step now d (write_service_account_status t s status d)"
  by (rule membership_step.writes) (simp_all add: write_service_account_status_def)

lemma transition_steps:
  assumes "transition_membership_status d now t m from to same c verb = Inr d'"
    and "MEMBER_REVOKED \<notin> set from" and "to = MEMBER_ACTIVE \<Longrightarrow> set from = {MEMBER_SUSPENDED}"
  shows "membership_steps now d d'"
proof -
  from assms(1) obtain d1 x where auth: "membership_steps now d d1"
    and x: "find_membership_by_id d1 t m = Some x"
    and rest: "d' = d1 \<or> tm_status x \<in> set from \<and>
      (to \<noteq> MEMBER_ACTIVE \<longrightarrow> verify (write_membership_status t m to d1) now
        (guard_last_administrator d1 now t [tm_user_id x]) = Inr ()) \<and>
      membership_step now (write_membership_status t m to d1) d'"
    by (auto simp: transition_membership_status_def Let_def dest!: authorize_steps
        split: option.splits if_splits dest: record_step)
  have "membership_step now d1 (write_membership_status t m to d1)" if "d' \<noteq> d1"
  proof (cases "to = MEMBER_ACTIVE")
    case True
    with that rest assms(3) x show ?thesis by (auto intro: membership_step.returns)
  next
    case False
    with that rest assms(2) x show ?thesis by (intro membership_step.leaves) auto
  qed
  with auth rest show ?thesis by (metis rtranclp.rtrancl_into_rtrancl)
qed

lemma account_status_steps:
  assumes "set_service_account_status d t s status c action authorize = Inr d'"
    and "\<And>d1. authorize d = Inr d1 \<Longrightarrow> membership_steps now d d1"
  shows "membership_steps now d d'"
proof -
  from assms(1) obtain d1 where "authorize d = Inr d1"
    and "d' = d1 \<or> membership_step now (write_service_account_status t s status d1) d'"
    by (auto simp: set_service_account_status_def split: option.splits if_splits dest: record_step)
  with assms(2) account_status_step show ?thesis by (metis rtranclp.rtrancl_into_rtrancl)
qed

lemma activate_steps:
  "activate_membership d now t u = Inr d' \<Longrightarrow> membership_steps now d d'"
  by (auto simp: activate_membership_def split: option.splits if_splits dest: membership_step.joins)

lemma consume_steps:
  assumes "consume_locked_invitation d now t i h u email = Inr d'"
  shows "membership_steps now d d'"
  using assms write_invitation_step [of now d]
  by (auto simp: consume_locked_invitation_def split: option.splits if_splits
      dest!: activate_steps intro: converse_rtranclp_into_rtranclp)

lemma lifecycle_steps:
  "suspend_membership d now t m c = Inr d' \<Longrightarrow> membership_steps now d d'"
  "reactivate_membership d now t m c = Inr d' \<Longrightarrow> membership_steps now d d'"
  "revoke_membership d now t m c = Inr d' \<Longrightarrow> membership_steps now d d'"
  unfolding suspend_membership_def reactivate_membership_def revoke_membership_def
  by (auto elim!: transition_steps)

lemma join_steps:
  assumes "add_tenant_membership d now t u c = Inr (d', m)"
  shows "membership_steps now d d'"
proof -
  from assms obtain d1 d2 where "membership_steps now d d1" "membership_step now d1 d2"
    "membership_step now d2 d'"
    by (auto simp: add_tenant_membership_def dest!: authorize_steps record_step
        membership_step.joins)
  then show ?thesis by (metis rtranclp.rtrancl_into_rtrancl)
qed

lemma invite_steps:
  assumes "create_invitation d now t email c expires token = Inr (d', i, raw)"
  shows "membership_steps now d d'"
proof -
  from assms obtain d1 d2 where "membership_step now d d1" "membership_step now d1 d2"
    "membership_step now d2 d'"
    by (auto simp: create_invitation_def Let_def catch_Inr_iff
        dest!: record_step membership_step.registers insert_invitation_step)
  then show ?thesis by (meson r_into_rtranclp rtranclp.rtrancl_into_rtrancl)
qed

lemma revoke_invitation_steps:
  assumes "revoke_invitation d now t i c = Inr d'"
  shows "membership_steps now d d'"
proof -
  let ?f = "\<lambda>x. x\<lparr>iv_revoked_at := Some now, iv_revoked_by_user_id := Some (fst (principal c))\<rparr>"
  from assms obtain d1 p x where registered: "register_permission d ''invitation'' ''revoke'' = Inr (d1, p)"
    and found: "get_invitation d1 t i = Some x"
    and rest: "(if iv_revoked_at x \<noteq> None then Inr d1
      else if iv_accepted_at x \<noteq> None then Inl (InvitationAlreadyAcceptedError i)
      else record_in_transaction (write_invitation i ?f d1) c t ''invitation.revoke'' ''invitation''
        (Some i) SUCCESS) = Inr d'"
    unfolding revoke_invitation_def Let_def ebind_Inr_iff
    by (auto split: option.splits)
  from rest have "d' = d1 \<or> membership_step now (write_invitation i ?f d1) d'"
    by (auto split: if_splits dest: record_step)
  with write_invitation_step membership_step.registers [OF registered] show ?thesis
    by (meson r_into_rtranclp rtranclp.rtrancl_into_rtrancl)
qed

lemma accept_steps:
  assumes "accept_invitation d now token t c email = Inr d'"
  shows "membership_steps now d d'"
proof -
  from assms obtain d1 where "membership_steps now d d1" "membership_step now d1 d'"
    by (auto simp: accept_invitation_def Let_def split: option.splits
        dest!: consume_steps record_step)
  then show ?thesis by (rule rtranclp.rtrancl_into_rtrancl)
qed

lemma account_steps:
  "create_service_account d now t name c = Inr (d', s) \<Longrightarrow> membership_steps now d d'"
  "disable_service_account d now t s c = Inr d' \<Longrightarrow> membership_steps now d d'"
  "enable_service_account d now t s c = Inr d' \<Longrightarrow> membership_steps now d d'"
proof -
  assume "create_service_account d now t name c = Inr (d', s)"
  then obtain d1 d2 where "membership_steps now d d1" "membership_step now d1 d2"
    "membership_step now d2 d'"
    by (auto simp: create_service_account_def catch_Inr_iff
        dest!: authorize_steps record_step insert_account_step)
  then show "membership_steps now d d'" by (metis rtranclp.rtrancl_into_rtrancl)
next
  assume "disable_service_account d now t s c = Inr d'"
  then show "membership_steps now d d'"
    unfolding disable_service_account_def by (rule account_status_steps) (rule authorize_steps)
next
  assume "enable_service_account d now t s c = Inr d'"
  then show "membership_steps now d d'"
    unfolding enable_service_account_def ebind_Inr_iff
    by (elim exE conjE) (rule account_status_steps, assumption, rule authorize_steps)
qed

lemma handle_membership_steps: "membership_steps now d (handle_membership d now c r)"
  by (cases r; simp only: handle_membership.simps; rule committed_cases)
    (auto intro: lifecycle_steps join_steps invite_steps revoke_invitation_steps accept_steps account_steps)

subsection \<open>Changing the status of a membership\<close>

definition written :: "uuid \<Rightarrow> uuid \<Rightarrow> membership_status \<Rightarrow> tenant_membership \<Rightarrow> tenant_membership" where
  "written t m s x = (if tm_tenant_id x = t \<and> tm_id x = m then x\<lparr>tm_status := s\<rparr> else x)"

lemma written_simps [simp]:
  "tm_id (written t m s x) = tm_id x" "tm_tenant_id (written t m s x) = tm_tenant_id x"
  "tm_user_id (written t m s x) = tm_user_id x"
  by (simp_all add: written_def)

lemma write_status_frame:
  "write_membership_status t m s d =
    d\<lparr>tenant_memberships := map (written t m s) (tenant_memberships d)\<rparr>"
  by (simp add: write_membership_status_def update_where_def written_def [abs_def])

lemma find_membership_by_id_iff:
  assumes "membership_ids_unique d"
  shows "find_membership_by_id d t m = Some x \<longleftrightarrow>
    x \<in> set (tenant_memberships d) \<and> tm_tenant_id x = t \<and> tm_id x = m"
proof
  have keys: "distinct (map (\<lambda>x. (tm_tenant_id x, tm_id x)) (tenant_memberships d))"
    using assms by (auto simp: membership_ids_unique_def distinct_map inj_on_def)
  assume "x \<in> set (tenant_memberships d) \<and> tm_tenant_id x = t \<and> tm_id x = m"
  then show "find_membership_by_id d t m = Some x"
    using find_unique [OF keys, of x] by (simp add: find_membership_by_id_def)
qed (auto simp: find_membership_by_id_def dest: find_SomeD)

lemma lock_membership_row:
  "lock_membership d c u = Some y \<Longrightarrow> y \<in> set (tenant_memberships d) \<and> tm_tenant_id y = c \<and> tm_user_id y = u"
  by (auto simp: lock_membership_def dest: find_SomeD)

lemma lock_membership_written:
  "lock_membership (write_membership_status t m s d) c u = map_option (written t m s) (lock_membership d c u)"
proof -
  have "find (\<lambda>x. tm_tenant_id x = c \<and> tm_user_id x = u) (map (written t m s) xs) =
    map_option (written t m s) (find (\<lambda>x. tm_tenant_id x = c \<and> tm_user_id x = u) xs)" for xs
    by (induction xs) auto
  then show ?thesis by (simp add: lock_membership_def write_status_frame)
qed

text \<open>A person whose membership rows keep their status keeps what the rows grant.\<close>

lemma allows_at_membership_rows:
  assumes "allows_at d now u USER action resource ign c [s]"
    and "d' = d\<lparr>tenant_memberships := rows\<rparr>"
    and "\<And>x. lock_membership d c u = Some x \<Longrightarrow>
      \<exists>y. lock_membership d' c u = Some y \<and> tm_id y = tm_id x \<and> (tm_status x = MEMBER_ACTIVE \<longrightarrow> tm_status y = MEMBER_ACTIVE)"
    and "\<And>y. lock_membership d c u = None \<Longrightarrow> lock_membership d' c u = Some y \<Longrightarrow> tm_status y = MEMBER_ACTIVE"
  shows "allows_at d' now u USER action resource ign c [s]"
proof -
  have tables: "tenants d' = tenants d" "permissions d' = permissions d"
    "role_permissions d' = role_permissions d" "membership_roles d' = membership_roles d"
    "delegation_grants d' = delegation_grants d" by (simp_all add: assms(2))
  have "tenant_grants_permission d' c u action resource [s]"
    if "tenant_grants_permission d c u action resource [s]"
    using that assms(3)
    unfolding tenant_grants_permission_def lock_accessible_tenant_cong [OF tables(1)]
      role_grants_cong [OF tables(3,2)] tables(4) sum_case_is_ok
    by (fastforce split: option.splits)
  moreover have "delegate_user_membership_permits_authorization d' c u"
    if "delegate_user_membership_permits_authorization d c u"
    using that assms(3,4)
    by (fastforce simp: delegate_user_membership_permits_authorization_def split: option.splits)
  ultimately show ?thesis
    using assms(1)
    unfolding allows_at_def actor_grants_permission_def tenant_grants_permission_via_delegation_def
      lock_accessible_tenant_cong [OF tables(1)] names_permission_cong [OF tables(2)] tables(5)
    by (auto split: if_splits)
qed

lemma administers_membership_rows:
  assumes "administers d now x u" and "d' = d\<lparr>tenant_memberships := rows\<rparr>"
    and "is_active_member d x [u] \<Longrightarrow> is_active_member d' x [u]"
    and "\<And>c s y. scope_reaches d c s x \<Longrightarrow> lock_membership d c u = Some y \<Longrightarrow>
      \<exists>z. lock_membership d' c u = Some z \<and> tm_id z = tm_id y \<and> (tm_status y = MEMBER_ACTIVE \<longrightarrow> tm_status z = MEMBER_ACTIVE)"
    and "\<And>c y. lock_membership d c u = None \<Longrightarrow> lock_membership d' c u = Some y \<Longrightarrow> tm_status y = MEMBER_ACTIVE"
  shows "administers d' now x u"
proof (rule administers_transfer [OF assms(1)])
  fix c s
  assume "scope_reaches d c s x"
    and "allows_at d now u USER ADMINISTRATOR_ACTION ADMINISTRATOR_RESOURCE True c [s]"
  then show "allows_at d' now u USER ADMINISTRATOR_ACTION ADMINISTRATOR_RESOURCE True c [s]"
    using allows_at_membership_rows [OF _ assms(2)] assms(4,5) by blast
qed (use assms(3) in \<open>auto simp: assms(2) deny_authority.simps names_permission_def\<close>)

interpretation status_change: guarded_change
  membership_ids_unique "write_membership_status t m s" t "membership_holder t m" for t m s
proof unfold_locales
  fix d x now u
  assume "x \<noteq> t" "t \<notin> set (lock_ancestor_ids d x)" and adm: "administers d now x u"
  then have elsewhere: "c \<noteq> t" if "scope_reaches d c s' x" for c s'
    using that by (auto simp: scope_reaches_def)
  show "administers (write_membership_status t m s d) now x u"
  proof (rule administers_membership_rows [OF adm write_status_frame])
    show "is_active_member (write_membership_status t m s d) x [u]" if "is_active_member d x [u]"
      using that \<open>x \<noteq> t\<close> by (auto simp: is_active_member_iff write_status_frame written_def)
  qed (use elsewhere in \<open>auto simp: lock_membership_written written_def dest: lock_membership_row\<close>)
next
  fix d u now x
  assume unique: "membership_ids_unique d" and other: "u \<notin> set (membership_holder t m d)"
    and adm: "administers d now x u"
  have spared: "written t m s y = y" if "y \<in> set (tenant_memberships d)" "tm_user_id y = u" for y
  proof (rule ccontr)
    assume "written t m s y \<noteq> y"
    then have "find_membership_by_id d t m = Some y"
      using that unique by (auto simp: written_def find_membership_by_id_iff split: if_splits)
    with that other show False by (simp add: membership_holder_def)
  qed
  show "administers (write_membership_status t m s d) now x u"
  proof (rule administers_membership_rows [OF adm write_status_frame])
    show "is_active_member (write_membership_status t m s d) x [u]" if "is_active_member d x [u]"
      using that spared by (force simp: is_active_member_iff write_status_frame)
  qed (use spared in \<open>auto simp: lock_membership_written dest: lock_membership_row\<close>)
qed

subsection \<open>The invariant\<close>

text \<open>
  The primary key and the unique constraint of the membership table, every identifier drawn
  before the next one, and every reference to a permission resolved.
\<close>

definition memberships_ok :: "db \<Rightarrow> bool" where
  "memberships_ok d = (permission_refs_ok d \<and> memberships_unique d \<and> membership_ids_unique d \<and>
     list_all (\<lambda>m. tm_id m < next_uuid d) (tenant_memberships d) \<and>
     list_all (\<lambda>r. mr_membership_id r < next_uuid d) (membership_roles d))"

lemma insert_membership_ok:
  assumes "insert_membership d now t u = Inr (d', m)"
  shows "m = next_uuid d" "lock_membership d t u = None"
    "d' = d\<lparr>next_uuid := Suc (next_uuid d), tenant_memberships := tenant_memberships d @
       [\<lparr>tm_id = next_uuid d, tm_tenant_id = t, tm_user_id = u, tm_status = MEMBER_ACTIVE,
         tm_created_at = now\<rparr>]\<rparr>"
  using assms by (auto simp: insert_membership_def take_uuid_def Let_def list_ex_iff
      lock_membership_None split: if_splits)

lemma lock_membership_inserted:
  assumes "insert_membership d now t u = Inr (d', m)"
  shows "lock_membership d' c v = (case lock_membership d c v of Some x \<Rightarrow> Some x
    | None \<Rightarrow> if c = t \<and> v = u then Some \<lparr>tm_id = next_uuid d, tm_tenant_id = t, tm_user_id = u,
        tm_status = MEMBER_ACTIVE, tm_created_at = now\<rparr> else None)"
  unfolding insert_membership_ok(3) [OF assms] lock_membership_def
  by (auto simp: find_append split: option.splits)

lemma membership_step_ok:
  assumes "membership_step now d d'" "memberships_ok d"
  shows "memberships_ok d'"
  using assms(1)
proof cases
  case (registers resource action p)
  from registers have "next_uuid d \<le> next_uuid d'" by (cases rule: register_permission_cases) auto
  with assms(2) register_refs_ok [OF registers] register_tables [OF registers] show ?thesis
    by (auto simp: memberships_ok_def memberships_unique_def membership_ids_unique_def list_all_iff
        intro: less_le_trans)
next
  case writes
  have "permission_refs_ok d'"
    using assms(2) writes(1) by (subst writes(2)) (auto simp: memberships_ok_def permission_refs_ok_def)
  moreover have "tenant_memberships d' = tenant_memberships d" "membership_roles d' = membership_roles d"
    by (subst writes(2), simp)+
  ultimately show ?thesis
    using assms(2) writes(1)
    by (auto simp: memberships_ok_def memberships_unique_def membership_ids_unique_def list_all_iff
        intro: less_le_trans)
next
  case (joins t u m)
  then show ?thesis
    using assms(2) insert_membership_ok [OF joins]
    by (force simp: memberships_ok_def permission_refs_ok_def memberships_unique_def
        membership_ids_unique_def list_all_iff lock_membership_None)
next
  case (leaves t m x s)
  then show ?thesis
    using assms(2) by (auto simp: memberships_ok_def permission_refs_ok_def memberships_unique_def
        membership_ids_unique_def list_all_iff write_status_frame comp_def)
next
  case (returns t m x)
  then show ?thesis
    using assms(2) by (auto simp: memberships_ok_def permission_refs_ok_def memberships_unique_def
        membership_ids_unique_def list_all_iff write_status_frame comp_def)
qed

lemma membership_steps_ok: "membership_steps now d d' \<Longrightarrow> memberships_ok d \<Longrightarrow> memberships_ok d'"
  by (induction rule: rtranclp_induct) (auto intro: membership_step_ok)

subsection \<open>A revoked membership stays revoked\<close>

definition revoked_member :: "db \<Rightarrow> uuid \<Rightarrow> uuid \<Rightarrow> bool" where
  "revoked_member d t u = (case get_membership d t u of
     None \<Rightarrow> False | Some m \<Rightarrow> tm_status m = MEMBER_REVOKED)"

lemma revoked_member_iff:
  "revoked_member d t u \<longleftrightarrow> (\<exists>y. lock_membership d t u = Some y \<and> tm_status y = MEMBER_REVOKED)"
  by (simp add: revoked_member_def get_membership_def lock_membership_def split: option.splits)

lemma written_revoked:
  assumes "find_membership_by_id d t m = Some x" "tm_status x \<noteq> MEMBER_REVOKED" "memberships_ok d"
    and "y \<in> set (tenant_memberships d)" "tm_status y = MEMBER_REVOKED"
  shows "written t m s y = y"
  using assms by (auto simp: written_def memberships_ok_def find_membership_by_id_iff
      membership_ids_unique_def distinct_map inj_on_def)

lemma revoked_member_step:
  assumes "membership_step now d d'" "memberships_ok d" "revoked_member d t u"
  shows "revoked_member d' t u"
proof -
  from assms(3) obtain y where y: "lock_membership d t u = Some y" "tm_status y = MEMBER_REVOKED"
    by (auto simp: revoked_member_iff)
  note row = lock_membership_row [OF y(1)]
  from assms(1) have "lock_membership d' t u = Some y"
  proof cases
    case (registers resource action p)
    with y show ?thesis by (simp add: lock_membership_def register_tables)
  next
    case writes
    have "lock_membership d' = lock_membership d" by (rule lock_membership_cong, subst writes(2), simp)
    with y show ?thesis by simp
  next
    case (joins t' u' m')
    with y show ?thesis by (simp add: lock_membership_inserted [OF joins])
  next
    case (leaves t' m' x s)
    with y row written_revoked [OF leaves(1,2) assms(2)] show ?thesis
      by (simp add: lock_membership_written)
  next
    case (returns t' m' x)
    with y row written_revoked [OF returns(1) _ assms(2), of y] show ?thesis
      by (simp add: lock_membership_written)
  qed
  with y show ?thesis by (simp add: revoked_member_iff)
qed

lemma revoked_member_steps:
  assumes "membership_steps now d d'" "memberships_ok d" "revoked_member d t u"
  shows "revoked_member d' t u"
  using assms by (induction rule: rtranclp_induct) (auto intro: revoked_member_step membership_steps_ok)

subsection \<open>Administrators survive\<close>

lemma administers_same_users:
  assumes "d' = d\<lparr>next_uuid := n, audit_log := a, invitations := i, service_accounts := s\<rparr>"
  shows "administers d' = administers d"
proof -
  have tables: "tenants d' = tenants d" "tenant_ancestries d' = tenant_ancestries d"
    "tenant_memberships d' = tenant_memberships d" "permissions d' = permissions d"
    "role_permissions d' = role_permissions d" "membership_roles d' = membership_roles d"
    "service_account_roles d' = service_account_roles d" "delegation_grants d' = delegation_grants d"
    "deny_grants d' = deny_grants d" "users d' = users d"
    by (simp_all add: assms)
  show ?thesis
    unfolding fun_eq_iff administers_def is_administrator_iff is_active_member_def tables
      admits_principals_cong [OF tables(1)] denied_cong [OF tables(9,4,2)]
      allows_at_cong [OF tables(1,3,4,5,6,7,8)] scope_reaches_cong [OF tables(2)]
    by (simp add: actor_is_live_def lock_user_is_active_def tables)
qed

lemma membership_step_administrators:
  assumes "membership_step now d d'" "memberships_ok d" "has_administrator d now x"
  shows "has_administrator d' now x"
  using assms(1)
proof cases
  case (registers resource action p)
  then show ?thesis
    using assms has_administrator_cong [OF register_administers] by (simp add: memberships_ok_def)
next
  case writes
  then show ?thesis using assms(3) has_administrator_cong [OF administers_same_users] by metis
next
  case (joins t u m)
  from assms(3) obtain v where v: "administers d now x v" by (auto simp: has_administrator_def)
  let ?d = "d\<lparr>tenant_memberships := tenant_memberships d'\<rparr>"
  have lock: "lock_membership ?d = lock_membership d'" by (rule lock_membership_cong) simp
  have rows: "set (tenant_memberships d) \<subseteq> set (tenant_memberships d')"
    by (auto simp: insert_membership_ok(3) [OF joins])
  have "administers ?d now x v"
    by (rule administers_membership_rows [OF v refl], unfold lock lock_membership_inserted [OF joins])
      (use rows in \<open>auto simp: is_active_member_iff split: if_splits\<close>)
  moreover have "administers d' = administers ?d"
    by (rule administers_same_users [where n = "next_uuid d'" and a = "audit_log d" and
      i = "invitations d" and s = "service_accounts d"])
      (cases d, simp add: insert_membership_ok(3) [OF joins])
  ultimately show ?thesis by (auto simp: has_administrator_def)
next
  case (leaves t m x' s)
  then have "membership_holder t m d = [tm_user_id x']" by (simp add: membership_holder_def)
  with leaves assms(2,3) show ?thesis
    using status_change.guarded_keeps_administrator [of d t m s now x] by (simp add: memberships_ok_def)
next
  case (returns t m x')
  from assms(3) obtain v where v: "administers d now x v" by (auto simp: has_administrator_def)
  have "is_active_member d' x [v]" if "is_active_member d x [v]"
    using that by (force simp: returns(3) is_active_member_iff write_status_frame written_def)
  then have "administers d' now x v"
    unfolding returns(3)
    by (intro administers_membership_rows [OF v write_status_frame])
      (auto simp: lock_membership_written, auto simp: written_def)
  then show ?thesis by (auto simp: has_administrator_def)
qed

lemma membership_steps_administrators:
  assumes "membership_steps now d d'" "memberships_ok d" "has_administrator d now x"
  shows "has_administrator d' now x"
  using assms by (induction rule: rtranclp_induct)
    (auto intro: membership_step_administrators membership_steps_ok)

subsection \<open>Joining grants nothing\<close>

lemma join_can:
  assumes "insert_membership d now t u = Inr (d', m)" "memberships_ok d"
  shows "can d' = can d"
proof -
  have tables: "tenants d' = tenants d" "permissions d' = permissions d" "tenant_ancestries d' = tenant_ancestries d"
    "role_permissions d' = role_permissions d" "membership_roles d' = membership_roles d"
    "service_account_roles d' = service_account_roles d" "delegation_grants d' = delegation_grants d"
    "deny_grants d' = deny_grants d" "users d' = users d" "service_accounts d' = service_accounts d"
    "support_access_requests d' = support_access_requests d"
    by (simp_all add: insert_membership_ok(3) [OF assms(1)])
  have fresh: "mr_membership_id r \<noteq> next_uuid d" if "r \<in> set (membership_roles d)" for r
    using assms(2) that by (auto simp: memberships_ok_def list_all_iff)
  have "tenant_grants_permission d' c v action resource S = tenant_grants_permission d c v action resource S"
    for c v action resource S
    unfolding tenant_grants_permission_def lock_membership_inserted [OF assms(1)]
      lock_accessible_tenant_cong [OF tables(1)] role_grants_cong [OF tables(4,2)] tables(5)
    using fresh by (auto split: option.splits sum.splits)
  moreover have "delegate_user_membership_permits_authorization d' c v =
      delegate_user_membership_permits_authorization d c v" for c v
    unfolding delegate_user_membership_permits_authorization_def lock_membership_inserted [OF assms(1)]
    by (auto split: option.splits)
  ultimately have "allows_at d' = allows_at d"
    unfolding fun_eq_iff allows_at_def actor_grants_permission_def
      tenant_grants_permission_via_delegation_def tenant_grants_permission_for_service_account_def
      lock_accessible_tenant_cong [OF tables(1)] role_grants_cong [OF tables(4,2)]
      names_permission_cong [OF tables(2)] tables by simp
  then show ?thesis
    unfolding fun_eq_iff decide_formula is_open_cong [OF tables(1)] admits_principals_cong [OF tables(1)]
      actor_is_live_cong [OF tables(9,10)] denied_cong [OF tables(8,2,3)]
      scope_reaches_cong [OF tables(3)] support_access_cong [OF tables(1,3,11)] by simp
qed

subsection \<open>Properties\<close>

definition membership_history :: "(datetime \<times> caller \<times> membership_request) list" where
  "membership_history =
     [(100, UserCaller 10, Suspend_Member 1 22), (200, SystemCaller PROVISIONING, Add_Member 2 12),
      (300, UserCaller 10, Suspend_Member 1 20), (400, UserCaller 10, Revoke_Member 1 22)]"

lemma administrators_later:
  assumes "has_administrator d now x" "now \<le> now'"
  shows "has_administrator d now' x"
proof -
  from assms(1) obtain u where u: "administers d now x u" by (auto simp: has_administrator_def)
  have "allows_at d now' u USER ADMINISTRATOR_ACTION ADMINISTRATOR_RESOURCE True c S"
    if "allows_at d now u USER ADMINISTRATOR_ACTION ADMINISTRATOR_RESOURCE True c S" for c S
    by (rule allows_at_mono [OF _ that]) (rule delegation_valid_later [OF _ assms(2)])
  with u have "administers d now' x u" unfolding administers_def is_administrator_iff by blast
  then show ?thesis by (auto simp: has_administrator_def)
qed

text \<open>C18: no sequence of membership requests leaves a tenant without an administrator. Through
  any sequence of additions, suspensions, reactivations, revocations, invitations, acceptances
  and service-account changes, each decided at its own instant and the clock never going
  back, a tenant that some active member could administer before can be administered
  by some active member afterwards, whoever the callers are.\<close>

theorem membership_history_keeps_administrators:
  assumes "memberships_ok d" "sorted (now # map fst history)" "has_administrator d now t"
  shows "has_administrator (handle_memberships d history) (last (now # map fst history)) t"
  using assms
proof (induction history arbitrary: d now)
  case (Cons request history)
  obtain at c r where request: "request = (at, c, r)" by (cases request)
  let ?d = "handle_membership d at c r"
  from Cons.prems request have "has_administrator d at t" by (auto intro: administrators_later)
  with Cons.prems have "has_administrator ?d at t" "memberships_ok ?d"
    using membership_steps_administrators membership_steps_ok handle_membership_steps by blast+
  with Cons request show ?case by simp
qed simp

theorem membership_history_keeps_administrators_witness:
  "has_administrator (handle_memberships sample_db membership_history) 400 1"
proof -
  have "is_active_member sample_db 1 [10]" "is_administrator sample_db 100 1 10" by code_simp+
  then have "has_administrator sample_db 100 1" by (auto simp: has_administrator_def administers_def)
  moreover have "memberships_ok sample_db" by code_simp
  moreover have "sorted (100 # map fst membership_history)" by (simp add: membership_history_def)
  ultimately show ?thesis
    using membership_history_keeps_administrators [where d = sample_db and now = 100 and t = 1 and
      history = membership_history]
    by (simp add: membership_history_def)
qed

text \<open>C19: a revoked membership is final. Once a person's membership of a tenant is REVOKED it
  stays so through any sequence of membership requests: neither reactivation nor a new
  invitation to the same tenant brings it back.\<close>

theorem revoked_membership_is_final:
  assumes "memberships_ok d" "revoked_member d t u"
  shows "revoked_member (handle_memberships d history) t u"
  using assms
proof (induction history arbitrary: d)
  case (Cons request history)
  obtain at c r where request: "request = (at, c, r)" by (cases request)
  from Cons.prems have "revoked_member (handle_membership d at c r) t u"
    "memberships_ok (handle_membership d at c r)"
    using revoked_member_steps membership_steps_ok handle_membership_steps by blast+
  with Cons.IH request show ?case by simp
qed simp

definition revoked_db :: db where
  "revoked_db = write_membership_status 1 22 MEMBER_REVOKED sample_db"

theorem revoked_membership_is_final_witness:
  "revoked_member (handle_memberships revoked_db
     [(100, UserCaller 10, Reactivate_Member 1 22), (200, SystemCaller PROVISIONING, Add_Member 1 12)]) 1 12"
proof -
  have "memberships_ok revoked_db" "revoked_member revoked_db 1 12" by code_simp+
  then show ?thesis by (rule revoked_membership_is_final)
qed

subsection \<open>A purge that cannot finish\<close>

text \<open>
  The foreign key of a deny grant names the account alone, so a deny that another tenant holds
  against a purging tenant's service account is not removed by that tenant's purge steps; the
  step that deletes service accounts then fails, however often it is repeated.
\<close>

theorem foreign_deny_blocks_account_purge:
  assumes "find_tenant d t = Some tenant" "tn_status tenant = PURGING"
    and "s \<in> set (service_accounts d)" "sa_tenant_id s = t"
    and "g \<in> set (deny_grants d)" "dn_tenant_id g \<noteq> t" "dn_principal_service_account_id g = Some (sa_id s)"
    and "sa_id s \<notin> set (referenced_service_account_ids d t @ keep)"
  shows "purge_tenant_service_accounts d t keep = Inl IntegrityError"
proof -
  have "require_purging_tenant d t = Inr tenant"
    using assms(1,2) by (simp add: require_purging_tenant_def get_tenant_def)
  moreover have "service_account_held d s"
    using assms(5,7) by (auto simp: service_account_held_def list_ex_iff)
  ultimately show ?thesis
    using assms(3,4,8) by (auto simp: purge_tenant_service_accounts_def Let_def list_ex_iff)
qed

end
