(* ===== verification/Invitations.thy ===== *)
theory Invitations
  imports Membership_Invariants
begin

section \<open>Invitations: normalisation, round trip, single use\<close>

text \<open>
  What an invitation promises: the address it stores is a fixed point of the normalisation,
  its lifetime lies between now and thirty days from now, the secret returned to the inviter
  opens exactly that invitation once, and accepting it adds a membership that carries no
  authority of its own.
\<close>

subsection \<open>Addresses\<close>

lemma casefold_char_cases:
  obtains (same) "casefold_char c = [c]"
  | (lower) x where "casefold_char c = [x]" "of_char x = (of_char c :: nat) + 32"
      "65 \<le> (of_char c :: nat) \<and> (of_char c :: nat) \<le> 90 \<or>
       192 \<le> (of_char c :: nat) \<and> (of_char c :: nat) \<le> 222 \<and> (of_char c :: nat) \<noteq> 215"
  | (sharp) "casefold_char c = ''ss''"
  by (fastforce simp: casefold_char_def Let_def split: if_splits)

lemma casefold_char_fixed:
  assumes "x \<in> set (casefold_char c)" shows "casefold_char x = [x]"
proof (cases c rule: casefold_char_cases)
  case same
  with assms show ?thesis by simp
next
  case (lower y)
  with assms show ?thesis by (auto simp: casefold_char_def Let_def)
next
  case sharp
  with assms show ?thesis by (simp add: casefold_char_def)
qed

lemma casefold_fixed: "\<forall>x \<in> set s. casefold_char x = [x] \<Longrightarrow> casefold s = s"
  by (induction s) (auto simp: casefold_def)

lemma casefold_idem: "casefold (casefold s) = casefold s"
  by (rule casefold_fixed) (auto simp: casefold_def intro: casefold_char_fixed)

lemma casefold_char_whitespace:
  "x \<in> set (casefold_char c) \<Longrightarrow> whitespace_character x = whitespace_character c"
  by (cases c rule: casefold_char_cases)
    (auto simp: whitespace_character_def casefold_char_def Let_def split: if_splits)

lemma casefold_char_nonempty: "casefold_char c \<noteq> []"
  by (cases c rule: casefold_char_cases) auto

definition trimmed :: "string \<Rightarrow> bool" where
  "trimmed s = (s = [] \<or> \<not> whitespace_character (hd s) \<and> \<not> whitespace_character (last s))"

lemma strip_fixed:
  assumes "trimmed s" shows "strip s = s"
proof -
  have "dropWhile whitespace_character s = s" using assms by (cases s) (auto simp: trimmed_def)
  moreover have "dropWhile whitespace_character (rev s) = rev s"
    using assms by (cases s rule: rev_cases) (auto simp: trimmed_def)
  ultimately show ?thesis by (simp add: strip_def)
qed

lemma strip_trimmed: "trimmed (strip s)"
proof -
  define u where "u = dropWhile whitespace_character s"
  have "u = rev (dropWhile whitespace_character (rev u)) @ rev (takeWhile whitespace_character (rev u))"
    by (metis rev_append rev_rev_ident takeWhile_dropWhile_id)
  then have split: "u = strip s @ rev (takeWhile whitespace_character (rev u))"
    by (simp add: strip_def u_def)
  have "\<not> whitespace_character (hd (strip s))" "\<not> whitespace_character (last (strip s))"
    if "strip s \<noteq> []"
  proof -
    from that split have "u \<noteq> []" "hd u = hd (strip s)" by (metis append_is_Nil_conv, metis hd_append2)
    then show "\<not> whitespace_character (hd (strip s))" by (metis hd_dropWhile u_def)
    from that show "\<not> whitespace_character (last (strip s))"
      unfolding strip_def by (simp add: last_rev hd_dropWhile)
  qed
  then show ?thesis by (auto simp: trimmed_def)
qed

lemma casefold_trimmed:
  assumes "trimmed s" shows "trimmed (casefold s)"
proof (cases s)
  case (Cons c cs)
  obtain l ls where rev: "s = ls @ [l]" using Cons by (metis list.distinct(1) rev_exhaust)
  have "hd (casefold s) \<in> set (casefold_char c)" "last (casefold s) \<in> set (casefold_char l)"
    using casefold_char_nonempty [of c] casefold_char_nonempty [of l]
    by (simp add: casefold_def Cons) (simp add: casefold_def rev last_append casefold_char_nonempty)
  moreover have "c = hd s" "l = last s" by (simp add: Cons) (simp add: rev)
  ultimately have "whitespace_character (hd (casefold s)) = whitespace_character (hd s)"
    "whitespace_character (last (casefold s)) = whitespace_character (last s)"
    using casefold_char_whitespace by blast+
  with assms Cons show ?thesis unfolding trimmed_def by blast
qed (simp add: casefold_def trimmed_def)

lemma normalize_email_fixed:
  assumes "normalize_email e = Inr n"
  shows "normalize_email n = Inr n" "n = casefold (strip e)"
proof -
  show n: "n = casefold (strip e)"
    using assms by (auto simp: normalize_email_def Let_def split: if_splits)
  have "strip n = n" unfolding n by (intro strip_fixed casefold_trimmed strip_trimmed)
  then have "casefold (strip n) = n" using n by (simp add: casefold_idem)
  with assms show "normalize_email n = Inr n"
    unfolding normalize_email_def n [symmetric] by simp
qed

lemma normalize_email_ok:
  "normalize_email e = Inr n \<Longrightarrow> length n \<le> MAX_INVITED_EMAIL_LENGTH \<and> CHR ''@'' \<in> set n \<and>
    \<not> has_control_characters n"
  by (auto simp: normalize_email_def Let_def split: if_splits)

subsection \<open>What creating and accepting do\<close>

definition invitation_row ::
  "uuid \<Rightarrow> datetime \<Rightarrow> uuid \<Rightarrow> string \<Rightarrow> string \<Rightarrow> uuid \<Rightarrow> datetime \<Rightarrow> invitation" where
  "invitation_row i now t email h inviter e = \<lparr>iv_id = i, iv_tenant_id = t, iv_invited_email = email,
     iv_token_hash = h, iv_inviter_user_id = inviter, iv_created_at = now, iv_expires_at = e,
     iv_accepted_at = None, iv_accepted_by_user_id = None, iv_revoked_at = None,
     iv_revoked_by_user_id = None\<rparr>"

lemma insert_invitation_ok:
  assumes "insert_invitation d now t email h inviter e = Inr (d', i)"
  shows "e > now" "i = next_uuid d" "\<forall>x \<in> set (invitations d). iv_token_hash x \<noteq> h"
    "d' = d\<lparr>next_uuid := Suc (next_uuid d),
      invitations := invitations d @ [invitation_row i now t email h inviter e]\<rparr>"
  using assms by (auto simp: insert_invitation_def take_uuid_def Let_def list_ex_iff
      invitation_row_def split: if_splits)

lemma create_invitation_ok:
  assumes "create_invitation d now t email c expires token = Inr (d', i, raw)"
  obtains u n d1 p entries where "c = UserCaller u" "raw = token" "normalize_email email = Inr n"
    "register_permission d ''invitation'' ''create'' = Inr (d1, p)"
    "user_can d1 now u t ''create'' ''invitation''" "i = next_uuid d1"
    "resolve_expiry now expires > now"
    "\<forall>x \<in> set (invitations d1). iv_token_hash x \<noteq> hash_invitation_token token"
    "d' = d1\<lparr>next_uuid := Suc (next_uuid d1), audit_log := entries, invitations := invitations d1 @
      [invitation_row i now t n (hash_invitation_token token) u (resolve_expiry now expires)]\<rparr>"
proof -
  from assms obtain n d1 p d2 where "require_caller ''create_invitation'' c [UserCallerType] = Inr ()"
    and n: "normalize_email email = Inr n"
    and reg: "register_permission d ''invitation'' ''create'' = Inr (d1, p)"
      "user_can d1 now (fst (principal c)) t ''create'' ''invitation''" "raw = token"
    and ins: "insert_invitation d1 now t n (hash_invitation_token token) (fst (principal c))
      (resolve_expiry now expires) = Inr (d2, i)"
    and rec: "record_in_transaction d2 c t ''invitation.create'' ''invitation'' (Some i) SUCCESS = Inr d'"
    by (auto simp: create_invitation_def Let_def catch_Inr_iff)
  then obtain u where "c = UserCaller u" by (cases c) (auto simp: require_caller_def)
  moreover obtain entries where "d' = d2\<lparr>audit_log := entries\<rparr>" using rec by (rule record_frame)
  ultimately show ?thesis
    using n reg insert_invitation_ok [OF ins] by (intro that [of u n d1 p entries]) auto
qed

lemma record_user:
  assumes "find_tenant d t \<noteq> None" "lock_user_is_active d u \<noteq> None"
    and "validate_action_and_resource action resource = Inr ()"
  shows "record_in_transaction d (UserCaller u) t action resource i SUCCESS =
    Inr (d\<lparr>audit_log := audit_log d @ [entry_of (UserCaller u) t action resource i SUCCESS]\<rparr>)"
  using assms by (simp add: record_in_transaction_def require_caller_def ALL_CALLER_TYPES_def
      validated_entry_def require_def audit_references_ok_def entry_of_def)

lemma invitation_actions:
  "validate_action_and_resource ''invitation.accept'' ''invitation'' = Inr ()"
  "validate_action_and_resource ''invitation.create'' ''invitation'' = Inr ()"
  by code_simp+

text \<open>The conditions under which an acceptance goes through.\<close>

lemma accept_invitation_goes_through:
  assumes "filter (\<lambda>x. iv_tenant_id x = t \<and> iv_token_hash x = hash_invitation_token token)
      (invitations d) = [row]"
    and "find (\<lambda>x. iv_id x = iv_id row) (invitations d) = Some row"
    and "lock_user_is_active d u = Some True" "admits_principals d t" "get_membership d t u = None"
    and "invitation_live row" "now < iv_expires_at row" "email_bound email (iv_invited_email row)"
  shows "\<exists>d1 d2 entries. d1 = write_invitation (iv_id row) (\<lambda>x. x\<lparr>iv_accepted_at := Some now,
      iv_accepted_by_user_id := Some u\<rparr>) d \<and> insert_membership d1 now t u = Inr (d2, next_uuid d) \<and>
    accept_invitation d now token t (UserCaller u) email = Inr (d2\<lparr>audit_log := entries\<rparr>)"
proof -
  let ?d1 = "write_invitation (iv_id row) (\<lambda>x. x\<lparr>iv_accepted_at := Some now,
      iv_accepted_by_user_id := Some u\<rparr>) d"
  from assms(1) have "row \<in> {x \<in> set (invitations d).
      iv_tenant_id x = t \<and> iv_token_hash x = hash_invitation_token token}"
    unfolding set_filter [symmetric] by simp
  then have row: "iv_tenant_id row = t" "iv_token_hash row = hash_invitation_token token" by auto
  from assms(4) obtain tenant where tenant: "find_tenant d t = Some tenant"
    by (auto simp: admits_principals_def is_ok_iff lock_accessible_tenant_ok)
  from assms(3) have user: "get_user d u \<noteq> None"
    by (auto simp: lock_user_is_active_def get_user_def split: option.splits)
  have reads: "find_tenant ?d1 t = find_tenant d t" "get_user ?d1 u = get_user d u"
    "tenant_memberships ?d1 = tenant_memberships d" "next_uuid ?d1 = next_uuid d"
    by (simp_all add: write_invitation_def find_tenant_def get_user_def)
  obtain d2 where d2: "insert_membership ?d1 now t u = Inr (d2, next_uuid d)"
    using assms(5) tenant user reads
    by (auto simp: insert_membership_def get_membership_def list_ex_iff find_None_iff take_uuid_def Let_def)
  have "find_tenant d2 t \<noteq> None" "lock_user_is_active d2 u \<noteq> None"
    using tenant assms(3)
    by (auto simp: insert_membership_ok(3) [OF d2] find_tenant_def lock_user_is_active_def
        write_invitation_def)
  note recording = record_user [OF this invitation_actions(1)]
  have "accept_invitation d now token t (UserCaller u) email =
      Inr (d2\<lparr>audit_log := audit_log d2 @ [entry_of (UserCaller u) t ''invitation.accept''
        ''invitation'' (Some (iv_id row)) SUCCESS]\<rparr>)"
    using assms row d2 recording [of "Some (iv_id row)"]
    by (simp add: accept_invitation_def require_caller_def require_active_user_def one_or_none_def
        consume_locked_invitation_def admits_principals_def activate_membership_def
        get_membership_def reads invitation_live_def)
  with d2 show ?thesis by blast
qed

lemma accept_invitation_ok:
  assumes "accept_invitation d now token t c email = Inr d'"
  obtains u row d1 d2 entries where "c = UserCaller u" "row \<in> set (invitations d)" "iv_tenant_id row = t"
    "iv_token_hash row = hash_invitation_token token" "invitation_live row" "now < iv_expires_at row"
    "email_bound email (iv_invited_email row)"
    "d1 = write_invitation (iv_id row) (\<lambda>x. x\<lparr>iv_accepted_at := Some now,
      iv_accepted_by_user_id := Some u\<rparr>) d"
    "activate_membership d1 now t u = Inr d2" "d' = d2\<lparr>audit_log := entries\<rparr>"
proof -
  let ?h = "hash_invitation_token token" and ?u = "fst (principal c)"
  from assms obtain row :: invitation and d2 where c: "require_caller ''accept_invitation'' c [UserCallerType] = Inr ()"
    and "consume_locked_invitation d now t (iv_id row) ?h ?u email = Inr d2"
    and rec: "record_in_transaction d2 c t ''invitation.accept'' ''invitation'' (Some (iv_id row)) SUCCESS = Inr d'"
    by (auto simp: accept_invitation_def Let_def split: option.splits)
  then obtain row' where "find (\<lambda>i. iv_id i = iv_id row) (invitations d) = Some row'"
    and facts: "iv_tenant_id row' = t" "iv_token_hash row' = ?h" "invitation_live row'"
      "now < iv_expires_at row'" "email_bound email (iv_invited_email row')"
    and act: "activate_membership (write_invitation (iv_id row) (\<lambda>x. x\<lparr>iv_accepted_at := Some now,
      iv_accepted_by_user_id := Some ?u\<rparr>) d) now t ?u = Inr d2"
    by (auto simp: consume_locked_invitation_def invitation_live_def split: option.splits if_splits)
  then have "row' \<in> set (invitations d)" "iv_id row = iv_id row'" by (auto dest: find_SomeD)
  moreover from c obtain u where "c = UserCaller u" by (cases c) (auto simp: require_caller_def)
  moreover obtain entries where "d' = d2\<lparr>audit_log := entries\<rparr>" using rec by (rule record_frame)
  ultimately show ?thesis using facts act by (intro that [of u row' _ d2 entries]) auto
qed

lemma activate_can:
  assumes "activate_membership d now t u = Inr d'" "memberships_ok d"
  shows "can d' = can d"
  using assms by (auto simp: activate_membership_def join_can split: option.splits if_splits)

lemma write_invitation_frame: "can (write_invitation i f d) = can d"
  "memberships_ok (write_invitation i f d) = memberships_ok d"
  unfolding write_invitation_def
  by (rule can_cong; simp) (simp add: memberships_ok_def permission_refs_ok_def memberships_unique_def
      membership_ids_unique_def)

lemma accept_can:
  assumes "accept_invitation d now token t c email = Inr d'" "memberships_ok d"
  shows "can d' = can d"
  using assms(1)
proof (rule accept_invitation_ok)
  fix u row d1 d2 entries
  assume "d1 = write_invitation (iv_id row) (\<lambda>x. x\<lparr>iv_accepted_at := Some now,
      iv_accepted_by_user_id := Some u\<rparr>) d" "activate_membership d1 now t u = Inr d2"
    "d' = d2\<lparr>audit_log := entries\<rparr>"
  with assms(2) show ?thesis by (simp add: activate_can write_invitation_frame can_audit)
qed

lemma isascii_casefold: "isascii s \<Longrightarrow> isascii (casefold s)"
proof (induction s)
  case (Cons c s)
  then have "isascii (casefold_char c)"
    by (cases c rule: casefold_char_cases) (auto simp: isascii_def)
  with Cons show ?case by (simp add: isascii_def casefold_def)
qed (simp add: isascii_def casefold_def)

lemma isascii_strip: "isascii s \<Longrightarrow> isascii (strip s)"
  by (auto simp: isascii_def strip_def list_all_iff dest!: set_dropWhileD)

subsection \<open>Properties\<close>

text \<open>Accepting an invitation confers no authority. Whenever an acceptance goes through, the
  token named a live, unexpired invitation of that very tenant, bound to the accepting
  person's verified address if one was given, and every authorization decision in the
  system is what it was before: the membership it activates carries no role.\<close>

theorem accepting_confers_no_authority:
  assumes "accept_invitation d now token t c email = Inr d'" "memberships_ok d"
  shows "can d' = can d \<and> (\<exists>row \<in> set (invitations d). iv_tenant_id row = t \<and>
    iv_token_hash row = hash_invitation_token token \<and> invitation_live row \<and>
    now < iv_expires_at row \<and> email_bound email (iv_invited_email row))"
  using accept_can [OF assms] accept_invitation_ok [OF assms(1)] by metis

text \<open>A store whose tenant 1 has one live invitation.\<close>

definition invited_db :: db where
  "invited_db = sample_db\<lparr>next_uuid := 1001, invitations := [invitation_row 1000 50 1 ''a@b.io''
     (hash_invitation_token ''secret'') 10 500]\<rparr>"

lemma accept_sample:
  "\<exists>d. accept_invitation invited_db 100 ''secret'' 1 (UserCaller 11) (Some ''A@b.io'') = Inr d"
proof -
  let ?row = "invitation_row 1000 50 1 ''a@b.io'' (hash_invitation_token ''secret'') 10 500"
  have rows: "invitations invited_db = [?row]" by (simp add: invited_db_def)
  have "lock_user_is_active invited_db 11 = Some True" "admits_principals invited_db 1"
    "get_membership invited_db 1 11 = None"
    by (simp_all add: invited_db_def fixture_defs lock_user_is_active_def admits_principals_def
        lock_accessible_tenant_def find_tenant_def get_membership_def is_accessible_to_principals_def
        PRINCIPAL_INACCESSIBLE_STATUSES_def CLOSED_STATUSES_def)
  moreover have "email_bound (Some ''A@b.io'') ''a@b.io''" by code_simp
  ultimately show ?thesis
    using accept_invitation_goes_through [of 1 "''secret''" invited_db ?row 11 100 "Some ''A@b.io''"]
    by (auto simp: rows invitation_row_def invitation_live_def)
qed

text \<open>C20: bounds on a stored invitation. The row an invitation request adds expires after now and
  at most thirty days from now whatever expiry was asked for; its address is at most 320
  characters, has an at sign, no control character, and is its own normal form; and it
  holds the 64-character digest of the secret.\<close>

theorem stored_invitation_bounds:
  assumes "create_invitation d now t email c expires token = Inr (d', i, raw)"
  shows "\<exists>row \<in> set (invitations d'). iv_id row = i \<and> iv_tenant_id row = t \<and> invitation_live row \<and>
    now < iv_expires_at row \<and> iv_expires_at row \<le> now + MAX_INVITATION_LIFETIME \<and>
    length (iv_invited_email row) \<le> 320 \<and> CHR ''@'' \<in> set (iv_invited_email row) \<and>
    \<not> has_control_characters (iv_invited_email row) \<and>
    normalize_email (iv_invited_email row) = Inr (iv_invited_email row) \<and>
    iv_token_hash row = hash_invitation_token raw \<and> length (iv_token_hash row) = 64"
  using assms
proof (rule create_invitation_ok)
  fix u n d1 p entries
  let ?row = "invitation_row i now t n (hash_invitation_token token) u (resolve_expiry now expires)"
  assume n: "normalize_email email = Inr n" and live: "now < resolve_expiry now expires" "raw = token"
    and "d' = d1\<lparr>next_uuid := Suc (next_uuid d1), audit_log := entries,
      invitations := invitations d1 @ [?row]\<rparr>"
  then have "?row \<in> set (invitations d')" by simp
  moreover have "resolve_expiry now expires \<le> now + MAX_INVITATION_LIFETIME"
    by (simp add: resolve_expiry_def Let_def)
  moreover note normalize_email_fixed(1) [OF n] normalize_email_ok [OF n] live
  ultimately show ?thesis
    by (intro bexI [of _ ?row]) (auto simp: invitation_row_def invitation_live_def
        MAX_INVITED_EMAIL_LENGTH_def hash_invitation_token_def sha256_hexdigest_length)
qed

lemma register_invitation_frame:
  assumes "register_permission d resource action = Inr (d1, p)"
  shows "invitations d1 = invitations d" "next_uuid d \<le> next_uuid d1" "find_tenant d1 = find_tenant d"
    "get_membership d1 = get_membership d" "lock_user_is_active d1 = lock_user_is_active d"
    "admits_principals d1 = admits_principals d"
  using assms by (cases rule: register_permission_cases;
      simp add: fun_eq_iff find_tenant_def get_membership_def lock_user_is_active_def
        admits_principals_def lock_accessible_tenant_def)+

text \<open>An invitation opens once. The secret handed to the inviter is accepted before the
  expiry from any active person who is not yet a member, either without an address or with
  the invited ASCII address in any letter case; that person is then an active member, no
  authorization decision has changed, and the secret opens nothing a second time, for
  any caller, address or instant.\<close>

theorem invitation_round_trip:
  assumes "create_invitation d now t email c expires token = Inr (d1, i, raw)"
    and "memberships_ok d" and "list_all (\<lambda>x. iv_id x < next_uuid d) (invitations d)"
    and "lock_user_is_active d u = Some True" "admits_principals d t" "get_membership d t u = None"
    and "at < resolve_expiry now expires"
    and "accepting = None \<or> isascii email \<and> accepting = Some email"
  shows "\<exists>d2 m. accept_invitation d1 at raw t (UserCaller u) accepting = Inr d2 \<and>
    get_membership d2 t u = Some m \<and> tm_status m = MEMBER_ACTIVE \<and> can d2 = can d \<and>
    (\<forall>later caller address. \<not> is_ok (accept_invitation d2 later raw t caller address))"
  using assms(1)
proof (rule create_invitation_ok)
  fix v n d0 p entries
  let ?h = "hash_invitation_token token"
  let ?row = "invitation_row i now t n ?h v (resolve_expiry now expires)"
  assume n: "normalize_email email = Inr n" and raw: "raw = token" and i: "i = next_uuid d0"
    and reg: "register_permission d ''invitation'' ''create'' = Inr (d0, p)"
    and fresh: "\<forall>x \<in> set (invitations d0). iv_token_hash x \<noteq> ?h"
    and d1: "d1 = d0\<lparr>next_uuid := Suc (next_uuid d0), audit_log := entries,
      invitations := invitations d0 @ [?row]\<rparr>"
  note frame = register_invitation_frame [OF reg]
  have ids: "\<forall>x \<in> set (invitations d0). iv_id x < i"
    using assms(3) frame(1,2) by (auto simp: i list_all_iff intro: less_le_trans)
  have opened: "filter (\<lambda>x. iv_tenant_id x = t \<and> iv_token_hash x = ?h) (invitations d1) = [?row]"
    using fresh by (simp add: d1 filter_empty_conv invitation_row_def)
  have found: "find (\<lambda>x. iv_id x = iv_id ?row) (invitations d1) = Some ?row"
    using ids by (auto simp: d1 find_append invitation_row_def find_None_iff split: option.splits
        dest: find_SomeD)
  have bound: "email_bound accepting (iv_invited_email ?row)"
    using assms(8) normalize_email_fixed(2) [OF n] isascii_casefold isascii_strip
    by (auto simp: email_bound_def invitation_row_def)
  have "lock_user_is_active d1 u = lock_user_is_active d0 u" "admits_principals d1 t = admits_principals d0 t"
    "get_membership d1 t u = get_membership d0 t u"
    by (simp_all add: d1 lock_user_is_active_def admits_principals_def lock_accessible_tenant_def
        find_tenant_def get_membership_def)
  with assms(4-6) frame have "lock_user_is_active d1 u = Some True" "admits_principals d1 t"
    "get_membership d1 t u = None" by simp_all
  from accept_invitation_goes_through [OF opened found this _ _ bound, of at] assms(7) obtain d2' d2 entries'
    where joined: "insert_membership (write_invitation i (\<lambda>x. x\<lparr>iv_accepted_at := Some at,
        iv_accepted_by_user_id := Some u\<rparr>) d1) at t u = Inr (d2', next_uuid d1)"
      and d2: "d2 = d2'\<lparr>audit_log := entries'\<rparr>"
      and accepted: "accept_invitation d1 at token t (UserCaller u) accepting = Inr d2"
    by (auto simp: invitation_live_def invitation_row_def)
  have used: "\<not> invitation_live x"
    if "x \<in> set (invitations d2)" "iv_token_hash x = ?h" for x
    using that fresh by (auto simp: d2 insert_membership_ok(3) [OF joined] write_invitation_def d1
        set_update_where invitation_row_def invitation_live_def split: if_splits)
  have member: "get_membership d2 t u = lock_membership d2' t u" by (simp add: d2 get_membership_def lock_membership_def)
  have "memberships_ok d1" using membership_steps_ok [OF invite_steps [OF assms(1)] assms(2)] .
  moreover have "can d1 = can d0" unfolding d1 by (rule can_cong) simp_all
  ultimately have "can d2 = can d"
    using accept_can [OF accepted] register_can [OF reg] assms(2) by (simp add: memberships_ok_def)
  moreover have "\<not> is_ok (accept_invitation d2 later token t caller address)" for later caller address
    using used by (auto simp: is_ok_iff elim!: accept_invitation_ok)
  moreover have "\<exists>m. get_membership d2 t u = Some m \<and> tm_status m = MEMBER_ACTIVE"
    unfolding member lock_membership_inserted [OF joined] using insert_membership_ok(2) [OF joined]
    by simp
  ultimately show ?thesis using accepted raw by blast
qed

text \<open>The organisation with the permission to invite granted to its administrators' role.\<close>

definition inviting_db :: db where
  "inviting_db = sample_db\<lparr>permissions := permissions sample_db @
       [\<lparr>pm_id = 49, pm_resource = ''invitation'', pm_action = ''create''\<rparr>],
     role_permissions := role_permissions sample_db @
       [\<lparr>rp_id = 99, rp_tenant_id = 1, rp_role_id = 30, rp_permission_id = 49\<rparr>]\<rparr>"

lemma create_invitation_inserts:
  assumes "is_open d t" "normalize_email email = Inr n"
    and "register_permission d ''invitation'' ''create'' = Inr (d1, p)"
    and "user_can d1 now u t ''create'' ''invitation''"
  shows "create_invitation d now t email (UserCaller u) expires token =
    catch (ebind (insert_invitation d1 now t n (hash_invitation_token token) u (resolve_expiry now expires))
      (\<lambda>(d2, i). ebind (record_in_transaction d2 (UserCaller u) t ''invitation.create'' ''invitation''
        (Some i) SUCCESS) (\<lambda>d3. Inr (d3, i, token))))
      (\<lambda>e. e = IntegrityError) (Inl (DuplicateInvitationError t n))"
proof -
  from assms(1) obtain x where "require_open_tenant d t = Inr x"
    by (auto simp: is_open_def is_ok_iff require_open_tenant_eq)
  with assms(2-) show ?thesis
    by (simp add: create_invitation_def require_caller_def require_def)
qed

lemma create_sample:
  "\<exists>d i. create_invitation inviting_db 100 1 ''A@b.io'' (UserCaller 10) None ''secret'' =
    Inr (d, i, ''secret'')"
proof -
  have opened: "is_open inviting_db 1" by code_simp
  have email: "normalize_email ''A@b.io'' = Inr ''a@b.io''" by code_simp
  obtain p where registered: "register_permission inviting_db ''invitation'' ''create'' = Inr (inviting_db, p)"
    by (simp add: register_permission_def register_permission_in_def find_permission_def
        inviting_db_def fixture_defs has_control_characters_def control_character_def)
  have allowed: "user_can inviting_db 100 10 1 ''create'' ''invitation''" by code_simp
  have expiry: "100 < resolve_expiry 100 None" by code_simp
  have rows: "find_tenant inviting_db 1 \<noteq> None" "get_user inviting_db 10 \<noteq> None"
    "invitations inviting_db = []" "lock_user_is_active inviting_db 10 \<noteq> None"
    by (simp_all add: inviting_db_def fixture_defs find_tenant_def get_user_def lock_user_is_active_def)
  have reads: "find_tenant (d\<lparr>next_uuid := n, invitations := r\<rparr>) = find_tenant d"
    "lock_user_is_active (d\<lparr>next_uuid := n, invitations := r\<rparr>) = lock_user_is_active d" for d n r
    by (simp_all add: fun_eq_iff find_tenant_def lock_user_is_active_def)
  obtain d i where inserted: "insert_invitation inviting_db 100 1 ''a@b.io''
      (hash_invitation_token ''secret'') 10 (resolve_expiry 100 None) = Inr (d, i)"
    using rows expiry by (simp add: insert_invitation_def take_uuid_def)
  have "find_tenant d 1 \<noteq> None" "lock_user_is_active d 10 \<noteq> None"
    unfolding insert_invitation_ok(4) [OF inserted] reads using rows by auto
  note recorded = record_user [OF this invitation_actions(2), of "Some i"]
  show ?thesis
    unfolding create_invitation_inserts [OF opened email registered allowed] inserted
    by (simp only: ebind.simps prod.case recorded catch_def sum.case) blast
qed

theorem stored_invitation_bounds_witness:
  "\<exists>d i. create_invitation inviting_db 100 1 ''A@b.io'' (UserCaller 10) None ''secret'' =
    Inr (d, i, ''secret'') \<and> (\<exists>row \<in> set (invitations d). iv_id row = i \<and>
      iv_expires_at row \<le> 100 + MAX_INVITATION_LIFETIME)"
  using create_sample stored_invitation_bounds by meson

subsection \<open>A refused expiry\<close>

text \<open>
  An authorized request whose expiry is not in the future violates the table's time range, and
  the handler reports it as a duplicate invitation, also when the tenant has none.
\<close>

theorem past_expiry_reported_as_duplicate:
  assumes "is_open d t" "normalize_email email = Inr n"
    and "register_permission d ''invitation'' ''create'' = Inr (d1, p)"
    and "user_can d1 now u t ''create'' ''invitation''" "expires \<le> now"
  shows "create_invitation d now t email (UserCaller u) (Some expires) token =
    Inl (DuplicateInvitationError t n)"
proof -
  have "\<not> resolve_expiry now (Some expires) > now"
    using assms(5) by (simp add: resolve_expiry_def MAX_INVITATION_LIFETIME_def Let_def)
  then show ?thesis
    by (simp add: create_invitation_inserts [OF assms(1-4)] insert_invitation_def catch_def)
qed

end
