(* ===== verification/Credentials.thy ===== *)
theory Credentials
  imports Invitations Platform_Authority
begin

section \<open>Sessions, login transactions and API keys\<close>

text \<open>
  \<open>saas_os/core/identity/sessions.py\<close>, \<open>saas_os/core/identity/login_transactions.py\<close> and
  \<open>saas_os/core/api_keys/service.py\<close>. Only the digest of a bearer secret is stored; the secret
  drawn by an operation is one of its arguments. A validation that is denied for an API key
  is recorded in a transaction of its own before the exception is raised, so it returns the
  store with the outcome.
\<close>

subsection \<open>Sessions\<close>

definition DEFAULT_SESSION_LIFETIME :: int where
  "DEFAULT_SESSION_LIFETIME = 12 * 3600 * 1000000"

definition hash_token :: "string \<Rightarrow> string" where
  "hash_token raw_token = sha256_hexdigest raw_token"

definition normalize_verified_email :: "string option \<Rightarrow> string option" where
  "normalize_verified_email email = (case email of
     None \<Rightarrow> None
   | Some e \<Rightarrow>
       if \<not> isascii e then None
       else (let normalized = casefold (strip e) in
         if normalized = [] \<or> length normalized > 320 then None else Some normalized))"

definition OPERATOR_SESSION_ISSUED :: string where
  "OPERATOR_SESSION_ISSUED = ''platform.operator.session_issued''"

definition record_operator_session_issued_in_transaction ::
  "db \<Rightarrow> datetime \<Rightarrow> uuid \<Rightarrow> uuid \<Rightarrow> error + (db \<times> bool)" where
  "record_operator_session_issued_in_transaction d now user_id session_id =
     (if \<not> unrevoked_operator_exists d user_id then Inr (d, False)
      else ebind (record_platform_event_in_transaction d now (UserCaller user_id)
        OPERATOR_SESSION_ISSUED ''session'' (Some session_id) None None SUCCESS None)
        (\<lambda>d1. Inr (d1, True)))"

definition insert_session :: "db \<Rightarrow> (uuid \<Rightarrow> user_session) \<Rightarrow> error + (db \<times> uuid)" where
  "insert_session d row = (let (session_id, d1) = take_uuid d; r = row session_id in
     if list_ex (\<lambda>s. ss_token_hash s = ss_token_hash r) (user_sessions d) \<or>
        get_user d (ss_user_id r) = None
     then Inl IntegrityError
     else Inr (d1\<lparr>user_sessions := user_sessions d1 @ [r]\<rparr>, session_id))"

definition issue_session ::
  "db \<Rightarrow> datetime \<Rightarrow> uuid \<Rightarrow> int \<Rightarrow> string option \<Rightarrow> bool \<Rightarrow> datetime option \<Rightarrow> string
    \<Rightarrow> error + (db \<times> uuid \<times> string)" where
  "issue_session d now user_id lifetime verified_email multi_factor provider_authenticated_at
      raw_token =
     (if lock_user_is_active d user_id \<noteq> Some True then Inl (InactiveUserError user_id)
      else ebind (insert_session d (\<lambda>i. \<lparr>ss_id = i, ss_user_id = user_id,
          ss_token_hash = hash_token raw_token, ss_expires_at = now + lifetime,
          ss_revoked_at = None, ss_verified_email = normalize_verified_email verified_email,
          ss_multi_factor = multi_factor,
          ss_provider_authenticated_at = provider_authenticated_at\<rparr>)) (\<lambda>(d1, session_id).
        ebind (record_operator_session_issued_in_transaction d1 now user_id session_id)
          (\<lambda>(d2, _). Inr (d2, session_id, raw_token))))"

definition validate_session :: "db \<Rightarrow> datetime \<Rightarrow> string \<Rightarrow> error + user_session" where
  "validate_session d now raw_token =
     ebind (one_or_none (filter (\<lambda>s. ss_token_hash s = hash_token raw_token) (user_sessions d)))
       (\<lambda>row. case row of
          None \<Rightarrow> Inl SessionNotFoundError
        | Some s \<Rightarrow>
            if ss_revoked_at s \<noteq> None then Inl (SessionRevokedError (ss_id s))
            else if ss_expires_at s \<le> now then Inl (SessionExpiredError (ss_id s))
            else (case get_user d (ss_user_id s) of
                None \<Rightarrow> Inl (InactiveUserError (ss_user_id s))
              | Some u \<Rightarrow> if \<not> us_is_active u then Inl (InactiveUserError (ss_user_id s)) else Inr s))"

definition revoke_session :: "db \<Rightarrow> datetime \<Rightarrow> uuid \<Rightarrow> error + db" where
  "revoke_session d now session_id =
     (case find (\<lambda>s. ss_id s = session_id) (user_sessions d) of
        None \<Rightarrow> Inl SessionNotFoundError
      | Some _ \<Rightarrow> Inr (d\<lparr>user_sessions := update_where (\<lambda>s. ss_id s = session_id)
          (\<lambda>s. s\<lparr>ss_revoked_at := (case ss_revoked_at s of None \<Rightarrow> Some now | Some r \<Rightarrow> Some r),
            ss_verified_email := None\<rparr>) (user_sessions d)\<rparr>))"

definition list_user_verified_emails :: "db \<Rightarrow> uuid \<Rightarrow> string list" where
  "list_user_verified_emails d user_id = remdups (filter (\<lambda>e. e \<noteq> []) (List.map_filter ss_verified_email
     (filter (\<lambda>s. ss_user_id s = user_id) (user_sessions d))))"

definition purge_user_sessions :: "db \<Rightarrow> uuid \<Rightarrow> db \<times> nat" where
  "purge_user_sessions d user_id =
     (d\<lparr>user_sessions := delete_where (\<lambda>s. ss_user_id s = user_id) (user_sessions d)\<rparr>,
      length (filter (\<lambda>s. ss_user_id s = user_id) (user_sessions d)))"

subsection \<open>Login transactions\<close>

definition DEFAULT_LIFETIME :: int where
  "DEFAULT_LIFETIME = 10 * 60 * 1000000"

definition base64url_char :: "nat \<Rightarrow> char" where
  "base64url_char n =
     ''ABCDEFGHIJKLMNOPQRSTUVWXYZabcdefghijklmnopqrstuvwxyz0123456789-_'' ! n"

text \<open>URL-safe base64 with its padding stripped.\<close>

fun base64url :: "nat list \<Rightarrow> string" where
  "base64url [] = []"
| "base64url [a] = map base64url_char [a div 4, a mod 4 * 16]"
| "base64url [a, b] = map base64url_char [a div 4, a mod 4 * 16 + b div 16, b mod 16 * 4]"
| "base64url (a # b # c # rest) = map base64url_char
     [a div 4, a mod 4 * 16 + b div 16, b mod 16 * 4 + c div 64, c mod 64] @ base64url rest"

definition derive_code_challenge :: "string \<Rightarrow> string" where
  "derive_code_challenge code_verifier = base64url (sha256_digest code_verifier)"

record started_login =
  sl_transaction_id :: uuid
  sl_state :: string
  sl_nonce :: string
  sl_code_challenge :: string
  sl_expires_at :: datetime

record consumed_login =
  cl_transaction_id :: uuid
  cl_nonce :: string
  cl_code_verifier :: string

definition begin_login_transaction ::
  "db \<Rightarrow> datetime \<Rightarrow> int \<Rightarrow> string \<Rightarrow> string \<Rightarrow> string \<Rightarrow> error + (db \<times> started_login)" where
  "begin_login_transaction d now lifetime state nonce code_verifier =
     (if list_ex (\<lambda>x. lt_state x = state) (login_transactions d) then Inl IntegrityError
      else (let (i, d1) = take_uuid d in
        Inr (d1\<lparr>login_transactions := login_transactions d1 @ [\<lparr>lt_id = i, lt_state = state,
            lt_nonce = nonce, lt_code_verifier = code_verifier, lt_expires_at = now + lifetime\<rparr>]\<rparr>,
          \<lparr>sl_transaction_id = i, sl_state = state, sl_nonce = nonce,
            sl_code_challenge = derive_code_challenge code_verifier,
            sl_expires_at = now + lifetime\<rparr>)))"

text \<open>The delete commits also when the transaction turns out to be invalid.\<close>

definition consume_login_transaction ::
  "db \<Rightarrow> datetime \<Rightarrow> uuid \<Rightarrow> string \<Rightarrow> db \<times> (error + consumed_login)" where
  "consume_login_transaction d now transaction_id state =
     (if state = [] then (d, Inl LoginTransactionInvalidError)
      else (case find (\<lambda>x. lt_id x = transaction_id) (login_transactions d) of
        None \<Rightarrow> (d, Inl LoginTransactionInvalidError)
      | Some x \<Rightarrow>
          (d\<lparr>login_transactions := delete_where (\<lambda>x. lt_id x = transaction_id) (login_transactions d)\<rparr>,
           if lt_expires_at x \<le> now \<or> lt_state x \<noteq> state then Inl LoginTransactionInvalidError
           else Inr \<lparr>cl_transaction_id = transaction_id, cl_nonce = lt_nonce x,
             cl_code_verifier = lt_code_verifier x\<rparr>)))"

definition purge_expired_login_transactions :: "db \<Rightarrow> datetime \<Rightarrow> db \<times> nat" where
  "purge_expired_login_transactions d now =
     (d\<lparr>login_transactions := delete_where (\<lambda>x. lt_expires_at x < now) (login_transactions d)\<rparr>,
      length (filter (\<lambda>x. lt_expires_at x < now) (login_transactions d)))"

subsection \<open>API keys: issuing\<close>

record api_key_config =
  max_per_user :: nat

definition MAX_PER_USER_CEILING :: nat where
  "MAX_PER_USER_CEILING = 100000"

definition api_key_config_ok :: "api_key_config \<Rightarrow> bool" where
  "api_key_config_ok config = (1 \<le> max_per_user config \<and> max_per_user config \<le> MAX_PER_USER_CEILING)"

definition API_KEY_PREFIX :: string where
  "API_KEY_PREFIX = ''sok_''"

definition new_raw_key :: "string \<Rightarrow> string" where
  "new_raw_key random_part = API_KEY_PREFIX @ random_part"

definition MAX_NAME_LENGTH :: nat where
  "MAX_NAME_LENGTH = 200"

definition audit_actor :: "api_key \<Rightarrow> principal_type \<times> uuid option \<times> uuid option" where
  "audit_actor key = (if ak_user_id key \<noteq> None then (USER, ak_user_id key, None)
     else (SERVICE_ACCOUNT, None, ak_service_account_id key))"

definition hash_key :: "string \<Rightarrow> string" where
  "hash_key raw_key = sha256_hexdigest raw_key"

definition validate_name :: "string \<Rightarrow> error + unit" where
  "validate_name name =
     (if name = [] \<or> strip name = [] then Inl InvalidApiKeyNameError
      else if length name > MAX_NAME_LENGTH then Inl InvalidApiKeyNameError
      else Inr ())"

text \<open>The insert, under the owner check, the two composite foreign keys and the unique digest.\<close>

definition insert_api_key :: "db \<Rightarrow> (uuid \<Rightarrow> api_key) \<Rightarrow> error + (db \<times> uuid)" where
  "insert_api_key d row = (let (key_id, d1) = take_uuid d; r = row key_id in
     if length (ak_name r) > 200 then Inl DataError
     else if \<not> (ak_user_id r \<noteq> None \<and> ak_service_account_id r = None \<or>
           ak_user_id r = None \<and> ak_service_account_id r \<noteq> None) \<or>
         (case ak_user_id r of None \<Rightarrow> False
          | Some u \<Rightarrow> get_membership d (ak_tenant_id r) u = None) \<or>
         (case ak_service_account_id r of None \<Rightarrow> False
          | Some s \<Rightarrow> get_service_account d (ak_tenant_id r) s = None) \<or>
         list_ex (\<lambda>k. ak_key_hash k = ak_key_hash r) (api_keys d)
     then Inl IntegrityError
     else Inr (d1\<lparr>api_keys := api_keys d1 @ [r]\<rparr>, key_id))"

definition live_user_keys :: "db \<Rightarrow> uuid \<Rightarrow> api_key list" where
  "live_user_keys d user_id =
     filter (\<lambda>k. ak_user_id k = Some user_id \<and> ak_revoked_at k = None) (api_keys d)"

definition create_api_key ::
  "api_key_config \<Rightarrow> db \<Rightarrow> datetime \<Rightarrow> uuid \<Rightarrow> string \<Rightarrow> caller \<Rightarrow> datetime option \<Rightarrow> string
    \<Rightarrow> error + (db \<times> uuid \<times> string)" where
  "create_api_key config d now tenant_id name c expires_at random_part =
     ebind (require_caller ''create_api_key'' c [UserCallerType]) (\<lambda>_.
     ebind (require_open_tenant d tenant_id) (\<lambda>_.
     let user_id = fst (principal c); raw_key = new_raw_key random_part in
     ebind (validate_name name) (\<lambda>_.
     ebind (require_open_tenant d tenant_id) (\<lambda>_.
     catch
       (ebind (require_active_user d c ''create_api_key'' tenant_id) (\<lambda>_.
       ebind (lock_accessible_tenant d tenant_id) (\<lambda>_.
       let limit = max_per_user config; held = take limit (live_user_keys d user_id) in
       ebind (require (length held < limit) (ApiKeyLimitExceededError user_id limit)) (\<lambda>_.
       ebind (insert_api_key d (\<lambda>i. \<lparr>ak_id = i, ak_tenant_id = tenant_id, ak_user_id = Some user_id,
           ak_service_account_id = None, ak_name = name, ak_key_hash = hash_key raw_key,
           ak_created_at = now, ak_expires_at = expires_at, ak_revoked_at = None\<rparr>)) (\<lambda>(d1, key_id).
       ebind (record_in_transaction d1 c tenant_id ''api_key.create'' ''api_key'' (Some key_id) SUCCESS)
         (\<lambda>d2. Inr (d2, key_id, raw_key)))))))
       (\<lambda>e. e = IntegrityError) (Inl (TenantMembershipRequiredError tenant_id user_id))))))"

definition create_service_account_api_key ::
  "db \<Rightarrow> datetime \<Rightarrow> caller \<Rightarrow> uuid \<Rightarrow> uuid \<Rightarrow> string \<Rightarrow> datetime option \<Rightarrow> string
    \<Rightarrow> error + (db \<times> uuid \<times> string)" where
  "create_service_account_api_key d now c tenant_id service_account_id name expires_at random_part =
     ebind (require_caller ''create_service_account_api_key'' c [UserCallerType]) (\<lambda>_.
     let actor_user_id = fst (principal c); raw_key = new_raw_key random_part in
     ebind (validate_name name) (\<lambda>_.
     ebind (require_open_tenant d tenant_id) (\<lambda>_.
     if get_service_account d tenant_id service_account_id = None
     then Inl (ServiceAccountRequiredError tenant_id service_account_id)
     else catch
       (ebind (register_permission d ''api_key'' ''create'') (\<lambda>(d1, _).
       ebind (require (user_can d1 now actor_user_id tenant_id ''create'' ''api_key'')
         (ApiKeyNotAuthorizedError actor_user_id tenant_id)) (\<lambda>_.
       ebind (insert_api_key d1 (\<lambda>i. \<lparr>ak_id = i, ak_tenant_id = tenant_id, ak_user_id = None,
           ak_service_account_id = Some service_account_id, ak_name = name,
           ak_key_hash = hash_key raw_key, ak_created_at = now, ak_expires_at = expires_at,
           ak_revoked_at = None\<rparr>)) (\<lambda>(d2, key_id).
       ebind (record_in_transaction d2 c tenant_id ''api_key.create'' ''api_key'' (Some key_id) SUCCESS)
         (\<lambda>d3. Inr (d3, key_id, raw_key))))))
       (\<lambda>e. e = IntegrityError) (Inl (ServiceAccountRequiredError tenant_id service_account_id)))))"

subsection \<open>API keys: authentication\<close>

text \<open>\<open>audit_log.record\<close>: one entry in a transaction of its own.\<close>

definition record_audit_event ::
  "db \<Rightarrow> uuid \<Rightarrow> principal_type \<times> uuid option \<times> uuid option \<Rightarrow> string \<Rightarrow> string \<Rightarrow> uuid option
    \<Rightarrow> audit_outcome \<Rightarrow> error + db" where
  "record_audit_event d tenant_id actor action resource_type resource_id outcome =
     (case actor of (actor_type, actor_user_id, actor_service_account_id) \<Rightarrow>
     ebind (validated_entry tenant_id actor_type actor_user_id actor_service_account_id action
       resource_type resource_id outcome) (\<lambda>entry.
     if audit_references_ok d entry then Inr (d\<lparr>audit_log := audit_log d @ [entry]\<rparr>)
     else Inl IntegrityError))"

definition deny_key :: "db \<Rightarrow> api_key \<Rightarrow> error \<Rightarrow> db \<times> (error + api_key)" where
  "deny_key d key e = (case record_audit_event d (ak_tenant_id key) (audit_actor key)
       ''api_key.validate'' ''api_key'' (Some (ak_id key)) DENIED of
     Inl e' \<Rightarrow> (d, Inl e') | Inr d' \<Rightarrow> (d', Inl e))"

definition validate_api_key :: "db \<Rightarrow> datetime \<Rightarrow> string \<Rightarrow> db \<times> (error + api_key)" where
  "validate_api_key d now raw_key =
     (case one_or_none (filter (\<lambda>k. ak_key_hash k = hash_key raw_key) (api_keys d)) of
        Inl e \<Rightarrow> (d, Inl e)
      | Inr None \<Rightarrow> (d, Inl InvalidApiKeyError)
      | Inr (Some key) \<Rightarrow>
          if ak_revoked_at key \<noteq> None then deny_key d key (RevokedApiKeyError (ak_id key))
          else if (case ak_expires_at key of None \<Rightarrow> False | Some e \<Rightarrow> e \<le> now)
          then deny_key d key (ExpiredApiKeyError (ak_id key))
          else (case get_tenant d (ak_tenant_id key) of
            Inl e \<Rightarrow> (d, Inl e)
          | Inr tenant \<Rightarrow>
              if \<not> is_accessible_to_principals (tn_status tenant) then deny_key d key InvalidApiKeyError
              else if (case ak_user_id key of None \<Rightarrow> False | Some u \<Rightarrow>
                  (case get_user d u of None \<Rightarrow> True | Some owner \<Rightarrow> \<not> us_is_active owner))
              then deny_key d key InvalidApiKeyError
              else (case ak_service_account_id key of
                  None \<Rightarrow> (d, Inr key)
                | Some s \<Rightarrow>
                    if (case get_service_account d (ak_tenant_id key) s of
                        None \<Rightarrow> True | Some account \<Rightarrow> sa_status account \<noteq> SA_ACTIVE)
                    then deny_key d key (InactiveServiceAccountError (ak_id key) s)
                    else (d, Inr key))))"

subsection \<open>API keys: management\<close>

definition get_api_key :: "db \<Rightarrow> uuid \<Rightarrow> uuid \<Rightarrow> error + api_key" where
  "get_api_key d tenant_id key_id =
     (case find (\<lambda>k. ak_id k = key_id \<and> ak_tenant_id k = tenant_id) (api_keys d) of
        None \<Rightarrow> Inl (ApiKeyNotFoundError tenant_id key_id)
      | Some key \<Rightarrow> Inr key)"

definition list_api_keys ::
  "db \<Rightarrow> uuid \<Rightarrow> uuid option \<Rightarrow> int option \<Rightarrow> int \<Rightarrow> error + api_key list" where
  "list_api_keys d tenant_id user_id limit offset =
     ebind (check_page limit offset) (\<lambda>_.
     Inr (page_of limit offset (rev (sort_key (\<lambda>k. (ak_created_at k, ak_id k))
       (filter (\<lambda>k. ak_tenant_id k = tenant_id \<and> (user_id = None \<or> ak_user_id k = user_id))
         (api_keys d))))))"

definition key_owner :: "db \<Rightarrow> uuid \<Rightarrow> uuid \<Rightarrow> error + api_key" where
  "key_owner d tenant_id key_id = get_api_key d tenant_id key_id"

definition authorize_key_management ::
  "db \<Rightarrow> datetime \<Rightarrow> caller \<Rightarrow> api_key \<Rightarrow> string \<Rightarrow> string \<Rightarrow> uuid \<Rightarrow> error + db" where
  "authorize_key_management d now c key operation action tenant_id =
     (case c of
        UserCaller u \<Rightarrow>
          if ak_user_id key = Some u
          then (if action \<noteq> ''revoke''
                then ebind (require_active_user d c operation tenant_id) (\<lambda>_. Inr d) else Inr d)
          else authorize_caller d now c operation tenant_id ''api_key'' action []
      | ServiceAccountCaller s home \<Rightarrow>
          if action = ''revoke'' \<and> ak_service_account_id key = Some s \<and> ak_tenant_id key = home
          then Inr d
          else authorize_caller d now c operation tenant_id ''api_key'' action []
      | _ \<Rightarrow> authorize_caller d now c operation tenant_id ''api_key'' action [])"

definition lock_key :: "db \<Rightarrow> uuid \<Rightarrow> uuid \<Rightarrow> error + api_key" where
  "lock_key d tenant_id key_id = get_api_key d tenant_id key_id"

definition revoke_keys_where :: "(api_key \<Rightarrow> bool) \<Rightarrow> datetime \<Rightarrow> db \<Rightarrow> db" where
  "revoke_keys_where p now d = d\<lparr>api_keys := update_where (\<lambda>k. p k \<and> ak_revoked_at k = None)
     (\<lambda>k. k\<lparr>ak_revoked_at := Some now\<rparr>) (api_keys d)\<rparr>"

definition revoke_locked_key :: "db \<Rightarrow> datetime \<Rightarrow> api_key \<Rightarrow> uuid \<Rightarrow> caller \<Rightarrow> error + db" where
  "revoke_locked_key d now key tenant_id c =
     (if ak_revoked_at key \<noteq> None then Inr d
      else record_in_transaction (revoke_keys_where (\<lambda>k. ak_id k = ak_id key) now d) c tenant_id
        ''api_key.revoke'' ''api_key'' (Some (ak_id key)) SUCCESS)"

definition revoke_api_key :: "db \<Rightarrow> datetime \<Rightarrow> uuid \<Rightarrow> uuid \<Rightarrow> caller \<Rightarrow> error + db" where
  "revoke_api_key d now tenant_id key_id c =
     ebind (require_caller ''revoke_api_key'' c ALL_CALLER_TYPES) (\<lambda>_.
     ebind (lock_key d tenant_id key_id) (\<lambda>key.
     ebind (authorize_key_management d now c key ''revoke_api_key'' ''revoke'' tenant_id) (\<lambda>d1.
     revoke_locked_key d1 now key tenant_id c)))"

definition revoke_service_account_api_key ::
  "db \<Rightarrow> datetime \<Rightarrow> caller \<Rightarrow> uuid \<Rightarrow> uuid \<Rightarrow> error + db" where
  "revoke_service_account_api_key d now c tenant_id key_id =
     ebind (require_caller ''revoke_service_account_api_key'' c [UserCallerType]) (\<lambda>_.
     let actor_user_id = fst (principal c) in
     ebind (register_permission d ''api_key'' ''revoke'') (\<lambda>(d1, _).
     ebind (require (user_can d1 now actor_user_id tenant_id ''revoke'' ''api_key'')
       (ApiKeyNotAuthorizedError actor_user_id tenant_id)) (\<lambda>_.
     ebind (lock_key d1 tenant_id key_id) (\<lambda>key. revoke_locked_key d1 now key tenant_id c))))"

definition earlier :: "datetime option \<Rightarrow> datetime option \<Rightarrow> datetime option" where
  "earlier first second = (case first of
     None \<Rightarrow> second
   | Some x \<Rightarrow> (case second of None \<Rightarrow> first | Some y \<Rightarrow> Some (min x y)))"

definition rotate_api_key ::
  "db \<Rightarrow> datetime \<Rightarrow> uuid \<Rightarrow> uuid \<Rightarrow> caller \<Rightarrow> datetime option \<Rightarrow> string
    \<Rightarrow> error + (db \<times> uuid \<times> string)" where
  "rotate_api_key d now tenant_id key_id c expires_no_later_than random_part =
     ebind (require_caller ''rotate_api_key'' c ALL_CALLER_TYPES) (\<lambda>_.
     ebind (require_open_tenant d tenant_id) (\<lambda>_.
     ebind (key_owner d tenant_id key_id) (\<lambda>owned.
     let raw_key = new_raw_key random_part in
     ebind (lock_accessible_tenant d tenant_id) (\<lambda>_.
     ebind (require (case ak_user_id owned of None \<Rightarrow> True
         | Some owner \<Rightarrow> lock_user_is_active d owner = Some True)
       (AuthorityNotAuthorizedError ''rotate_api_key'' tenant_id)) (\<lambda>_.
     ebind (lock_key d tenant_id key_id) (\<lambda>old.
     ebind (authorize_key_management d now c old ''rotate_api_key'' ''rotate'' tenant_id) (\<lambda>d1.
     if ak_revoked_at old \<noteq> None then Inl (RevokedApiKeyError (ak_id old))
     else ebind (insert_api_key (revoke_keys_where (\<lambda>k. ak_id k = ak_id old) now d1)
         (\<lambda>i. \<lparr>ak_id = i, ak_tenant_id = ak_tenant_id old, ak_user_id = ak_user_id old,
           ak_service_account_id = ak_service_account_id old, ak_name = ak_name old,
           ak_key_hash = hash_key raw_key, ak_created_at = now,
           ak_expires_at = earlier (ak_expires_at old) expires_no_later_than,
           ak_revoked_at = None\<rparr>)) (\<lambda>(d2, new_id).
       ebind (record_in_transaction d2 c tenant_id ''api_key.rotate'' ''api_key'' (Some new_id) SUCCESS)
         (\<lambda>d3. Inr (d3, new_id, raw_key))))))))))"

subsection \<open>API keys: a user's keys across tenants, and purge\<close>

definition revoke_user_api_keys_in_transaction ::
  "db \<Rightarrow> datetime \<Rightarrow> uuid \<Rightarrow> db \<times> (uuid \<times> uuid) list" where
  "revoke_user_api_keys_in_transaction d now user_id =
     (revoke_keys_where (\<lambda>k. ak_user_id k = Some user_id) now d,
      sort_key (\<lambda>(key_id, tenant_id). (tenant_id, key_id))
        (map (\<lambda>k. (ak_id k, ak_tenant_id k)) (live_user_keys d user_id)))"

fun record_platform_key_revocations ::
  "db \<Rightarrow> caller \<Rightarrow> (uuid \<times> uuid) list \<Rightarrow> error + db" where
  "record_platform_key_revocations d c [] = Inr d"
| "record_platform_key_revocations d c ((key_id, tenant_id) # keys) =
     ebind (record_in_transaction d c tenant_id ''api_key.revoke'' ''api_key'' (Some key_id) SUCCESS)
       (\<lambda>d1. record_platform_key_revocations d1 c keys)"

definition purge_tenant_api_keys :: "db \<Rightarrow> uuid \<Rightarrow> error + (db \<times> nat)" where
  "purge_tenant_api_keys d tenant_id =
     ebind (require_purging_tenant d tenant_id) (\<lambda>_.
     Inr (d\<lparr>api_keys := delete_where (\<lambda>k. ak_tenant_id k = tenant_id) (api_keys d)\<rparr>,
       length (filter (\<lambda>k. ak_tenant_id k = tenant_id) (api_keys d))))"

definition purge_user_api_keys_in_tenant :: "db \<Rightarrow> uuid \<Rightarrow> uuid \<Rightarrow> db \<times> nat" where
  "purge_user_api_keys_in_tenant d tenant_id user_id =
     (let match = (\<lambda>k. ak_tenant_id k = tenant_id \<and> ak_user_id k = Some user_id) in
      (d\<lparr>api_keys := delete_where match (api_keys d)\<rparr>, length (filter match (api_keys d))))"

end
