(* ===== verification/Credential_Invariants.thy ===== *)
theory Credential_Invariants
  imports Credentials
begin

section \<open>What a credential promises\<close>

text \<open>
  \<open>key_is_live\<close> says when an API key should authenticate, and validation agrees with it.
  Key requests are sequences of small steps \<open>key_step\<close>: an insert under the per-user limit or
  for a service account, a revocation, a rotation, or anything that leaves the keys alone.
  By induction over them the digests and identifiers stay unique, no person holds more keys
  than the limit, and a revoked key stays revoked.
\<close>

subsection \<open>Authentication\<close>

definition key_is_live :: "db \<Rightarrow> datetime \<Rightarrow> api_key \<Rightarrow> bool" where
  "key_is_live d now key = (ak_revoked_at key = None \<and>
     (case ak_expires_at key of None \<Rightarrow> True | Some e \<Rightarrow> now < e) \<and>
     admits_principals d (ak_tenant_id key) \<and>
     (case ak_user_id key of None \<Rightarrow> True | Some u \<Rightarrow> lock_user_is_active d u = Some True) \<and>
     (case ak_service_account_id key of None \<Rightarrow> True
      | Some s \<Rightarrow> lock_service_account_status d (ak_tenant_id key) s = Some SA_ACTIVE))"

definition key_hashes_unique :: "db \<Rightarrow> bool" where
  "key_hashes_unique d = distinct (map ak_key_hash (api_keys d))"

lemma deny_key_refuses: "snd (deny_key d key e) \<noteq> Inr k"
  by (auto simp: deny_key_def split: sum.splits)

lemma key_by_hash:
  assumes "key_hashes_unique d"
  shows "one_or_none (filter (\<lambda>k. ak_key_hash k = h) (api_keys d)) =
    Inr (find (\<lambda>k. ak_key_hash k = h) (api_keys d))"
proof -
  have "distinct (map ak_key_hash (filter (\<lambda>k. ak_key_hash k = h) (api_keys d)))"
    using assms by (simp add: key_hashes_unique_def distinct_map_filter)
  then have "one_or_none (filter (\<lambda>k. ak_key_hash k = h) (api_keys d)) =
    Inr (find (\<lambda>_. True) (filter (\<lambda>k. ak_key_hash k = h) (api_keys d)))"
    by (rule one_or_none_distinct) auto
  then show ?thesis by (simp add: find_filter_True)
qed

lemma key_found:
  assumes "key_hashes_unique d" "key \<in> set (api_keys d)"
  shows "find (\<lambda>k. ak_key_hash k = ak_key_hash key) (api_keys d) = Some key"
  using assms by (auto simp: key_hashes_unique_def intro: find_unique)

lemma user_row_active:
  "(case get_user d u of None \<Rightarrow> True | Some x \<Rightarrow> \<not> us_is_active x) \<longleftrightarrow> lock_user_is_active d u \<noteq> Some True"
  by (auto simp: get_user_def lock_user_is_active_def split: option.splits)

lemma account_row_active:
  "(case get_service_account d t s of None \<Rightarrow> True | Some x \<Rightarrow> sa_status x \<noteq> SA_ACTIVE) \<longleftrightarrow>
    lock_service_account_status d t s \<noteq> Some SA_ACTIVE"
  by (auto simp: get_service_account_def lock_service_account_status_def conj_commute split: option.splits)

lemma tenant_row_admits:
  "admits_principals d t \<longleftrightarrow> (\<exists>x. get_tenant d t = Inr x \<and> is_accessible_to_principals (tn_status x))"
  by (auto simp: admits_principals_def is_ok_iff lock_accessible_tenant_ok get_tenant_ok)

text \<open>The shape of the checks on a key that was found.\<close>

lemma checks_pass_iff:
  assumes "\<And>e. deny e \<noteq> (d', Inr key)"
  shows "(if revoked then deny e1 else if expired then deny e2
     else (case tenant of Inl e \<Rightarrow> (d, Inl e)
       | Inr x \<Rightarrow> if \<not> admits x then deny e3 else if inactive then deny e4
           else (case account of None \<Rightarrow> (d, Inr k) | Some s \<Rightarrow> if disabled s then deny (e5 s) else (d, Inr k))))
     = (d', Inr key) \<longleftrightarrow>
    d' = d \<and> key = k \<and> \<not> revoked \<and> \<not> expired \<and> (\<exists>x. tenant = Inr x \<and> admits x) \<and> \<not> inactive \<and>
      (case account of None \<Rightarrow> True | Some s \<Rightarrow> \<not> disabled s)"
  using assms by (cases tenant; cases account) auto

lemma validate_api_key_iff:
  assumes "key_hashes_unique d"
  shows "validate_api_key d now raw = (d', Inr key) \<longleftrightarrow> d' = d \<and> key \<in> set (api_keys d) \<and>
    ak_key_hash key = hash_key raw \<and> key_is_live d now key"
proof (cases "find (\<lambda>k. ak_key_hash k = hash_key raw) (api_keys d)")
  case None
  then have "\<not> (key \<in> set (api_keys d) \<and> ak_key_hash key = hash_key raw)"
    by (auto simp: find_None_iff_all)
  then show ?thesis unfolding validate_api_key_def key_by_hash [OF assms] None by auto
next
  case (Some k)
  then have "k \<in> set (api_keys d) \<and> ak_key_hash k = hash_key raw" by (auto dest: find_SomeD)
  moreover have "key = k" if "key \<in> set (api_keys d)" "ak_key_hash key = hash_key raw"
    using key_found [OF assms that(1)] that(2) Some by simp
  ultimately have "key \<in> set (api_keys d) \<and> ak_key_hash key = hash_key raw \<longleftrightarrow> key = k" by blast
  moreover have "deny_key d k e \<noteq> (d', Inr key)" for e using deny_key_refuses [of d k e key] by auto
  ultimately show ?thesis
    unfolding validate_api_key_def key_by_hash [OF assms] Some key_is_live_def tenant_row_admits
      sum.case option.case checks_pass_iff [of "deny_key d k", OF \<open>\<And>e. deny_key d k e \<noteq> _\<close>]
      user_row_active account_row_active
    by (auto split: option.splits)
qed

subsection \<open>The step relation on keys\<close>

inductive key_step :: "api_key_config \<Rightarrow> datetime \<Rightarrow> db \<Rightarrow> db \<Rightarrow> bool"
  for config :: api_key_config and now :: datetime where
  other: "api_keys d' = api_keys d \<Longrightarrow> next_uuid d \<le> next_uuid d' \<Longrightarrow> key_step config now d d'"
| issued: "insert_api_key d row = Inr (d', i) \<Longrightarrow> row i = key \<Longrightarrow> ak_id key = i \<Longrightarrow> ak_revoked_at key = None \<Longrightarrow>
    (\<And>u. ak_user_id key = Some u \<Longrightarrow> length (live_user_keys d u) < max_per_user config) \<Longrightarrow>
    key_step config now d d'"
| revoked: "d' = revoke_keys_where p now d \<Longrightarrow> key_step config now d d'"
| rotated: "old \<in> set (api_keys d) \<Longrightarrow> ak_revoked_at old = None \<Longrightarrow>
    insert_api_key (revoke_keys_where (\<lambda>k. ak_id k = ak_id old) now d) row = Inr (d', i) \<Longrightarrow>
    row i = key \<Longrightarrow> ak_id key = i \<Longrightarrow> ak_revoked_at key = None \<Longrightarrow> ak_user_id key = ak_user_id old \<Longrightarrow>
    key_step config now d d'"

abbreviation key_steps :: "api_key_config \<Rightarrow> datetime \<Rightarrow> db \<Rightarrow> db \<Rightarrow> bool" where
  "key_steps config now \<equiv> (key_step config now)\<^sup>*\<^sup>*"

datatype key_request =
    Create_Key uuid string "datetime option" string
  | Create_Account_Key uuid uuid string "datetime option" string
  | Revoke_Key uuid uuid
  | Revoke_Account_Key uuid uuid
  | Rotate_Key uuid uuid "datetime option" string

fun handle_key :: "api_key_config \<Rightarrow> db \<Rightarrow> datetime \<Rightarrow> caller \<Rightarrow> key_request \<Rightarrow> db" where
  "handle_key config d now c (Create_Key t name expires random_part) =
     committed d fst (create_api_key config d now t name c expires random_part)"
| "handle_key config d now c (Create_Account_Key t s name expires random_part) =
     committed d fst (create_service_account_api_key d now c t s name expires random_part)"
| "handle_key config d now c (Revoke_Key t k) = committed d id (revoke_api_key d now t k c)"
| "handle_key config d now c (Revoke_Account_Key t k) =
     committed d id (revoke_service_account_api_key d now c t k)"
| "handle_key config d now c (Rotate_Key t k cap random_part) =
     committed d fst (rotate_api_key d now t k c cap random_part)"

fun handle_keys ::
  "api_key_config \<Rightarrow> db \<Rightarrow> (datetime \<times> caller \<times> key_request) list \<Rightarrow> db" where
  "handle_keys config d [] = d"
| "handle_keys config d ((now, c, r) # rest) = handle_keys config (handle_key config d now c r) rest"

lemma record_keys:
  assumes "record_in_transaction d c t action resource_type resource_id outcome = Inr d'"
  shows "api_keys d' = api_keys d" "next_uuid d' = next_uuid d"
  using record_ok [OF assms] by simp_all

lemma register_keys:
  assumes "register_permission d resource action = Inr (d', p)"
  shows "api_keys d' = api_keys d" "next_uuid d \<le> next_uuid d'"
  using assms by (cases rule: register_permission_cases; simp)+

lemma authorize_keys:
  assumes "authorize_caller d now c operation t resource action auths = Inr d'"
  shows "api_keys d' = api_keys d" "next_uuid d \<le> next_uuid d'"
  using assms by (cases rule: authorize_caller_ok; simp add: register_keys)+

lemma authorize_management_keys:
  assumes "authorize_key_management d now c key operation action t = Inr d'"
  shows "api_keys d' = api_keys d" "next_uuid d \<le> next_uuid d'"
  using assms by (auto simp: authorize_key_management_def dest: authorize_keys
      split: caller.splits if_splits)

lemma insert_api_key_ok:
  assumes "insert_api_key d row = Inr (d', i)"
  shows "i = next_uuid d" "d' = d\<lparr>next_uuid := Suc (next_uuid d), api_keys := api_keys d @ [row i]\<rparr>"
    "\<forall>k \<in> set (api_keys d). ak_key_hash k \<noteq> ak_key_hash (row i)"
  using assms by (auto simp: insert_api_key_def take_uuid_def Let_def list_ex_iff split: if_splits)

lemma create_api_key_ok:
  assumes "create_api_key config d now t name c expires random_part = Inr (d', i, raw)"
  obtains u d1 where "c = UserCaller u" "lock_user_is_active d u = Some True" "admits_principals d t"
    "raw = new_raw_key random_part" "length (live_user_keys d u) < max_per_user config"
    "insert_api_key d (\<lambda>i. \<lparr>ak_id = i, ak_tenant_id = t, ak_user_id = Some u,
       ak_service_account_id = None, ak_name = name, ak_key_hash = hash_key raw,
       ak_created_at = now, ak_expires_at = expires, ak_revoked_at = None\<rparr>) = Inr (d1, i)"
    "record_in_transaction d1 c t ''api_key.create'' ''api_key'' (Some i) SUCCESS = Inr d'"
proof -
  from assms obtain d1 x where c: "require_caller ''create_api_key'' c [UserCallerType] = Inr ()"
    and user: "require_active_user d c ''create_api_key'' t = Inr ()"
    and rest: "lock_accessible_tenant d t = Inr x" "raw = new_raw_key random_part"
      "length (take (max_per_user config) (live_user_keys d (fst (principal c)))) < max_per_user config"
      "insert_api_key d (\<lambda>i. \<lparr>ak_id = i, ak_tenant_id = t, ak_user_id = Some (fst (principal c)),
         ak_service_account_id = None, ak_name = name, ak_key_hash = hash_key raw,
         ak_created_at = now, ak_expires_at = expires, ak_revoked_at = None\<rparr>) = Inr (d1, i)"
      "record_in_transaction d1 c t ''api_key.create'' ''api_key'' (Some i) SUCCESS = Inr d'"
    by (auto simp: create_api_key_def Let_def catch_Inr_iff)
  from c obtain u where "c = UserCaller u" by (cases c) (auto simp: require_caller_def)
  with user rest show ?thesis
    by (intro that [of u d1]) (auto simp: require_active_user_def admits_principals_def is_ok_iff
        split: option.splits if_splits)
qed

lemma record_key_step:
  "record_in_transaction d c t action resource_type resource_id outcome = Inr d' \<Longrightarrow> key_step config now d d'"
  by (rule key_step.other) (simp_all add: record_keys)

lemma register_key_step: "register_permission d resource action = Inr (d', p) \<Longrightarrow> key_step config now d d'"
  by (rule key_step.other) (simp_all add: register_keys)

lemma management_key_step:
  "authorize_key_management d now c key operation action t = Inr d' \<Longrightarrow> key_step config at d d'"
  by (rule key_step.other) (simp_all add: authorize_management_keys)

lemma key_steps_two: "key_step config now a b \<Longrightarrow> key_step config now b c \<Longrightarrow> key_steps config now a c"
  by (rule rtranclp.rtrancl_into_rtrancl [OF r_into_rtranclp])

lemma key_steps_three:
  "key_step config now a b \<Longrightarrow> key_step config now b c \<Longrightarrow> key_step config now c d \<Longrightarrow> key_steps config now a d"
  by (rule rtranclp.rtrancl_into_rtrancl [OF key_steps_two])

lemma revoke_locked_steps:
  assumes "revoke_locked_key d now key t c = Inr d'"
  shows "key_steps config now d d'"
proof (cases "ak_revoked_at key")
  case None
  with assms have "record_in_transaction (revoke_keys_where (\<lambda>k. ak_id k = ak_id key) now d) c t
      ''api_key.revoke'' ''api_key'' (Some (ak_id key)) SUCCESS = Inr d'"
    by (simp add: revoke_locked_key_def)
  from key_steps_two [OF key_step.revoked [OF refl] record_key_step [OF this]] show ?thesis .
qed (use assms in \<open>simp add: revoke_locked_key_def\<close>)

lemma get_api_key_row:
  "get_api_key d t i = Inr key \<Longrightarrow> key \<in> set (api_keys d) \<and> ak_id key = i \<and> ak_tenant_id key = t"
  by (auto simp: get_api_key_def dest: find_SomeD split: option.splits)

lemma get_api_key_unique:
  assumes "distinct (map ak_id (api_keys d))" "key \<in> set (api_keys d)" "ak_id key = i" "ak_tenant_id key = t"
  shows "get_api_key d t i = Inr key"
proof -
  have "distinct (map (\<lambda>k. (ak_id k, ak_tenant_id k)) (api_keys d))"
    using assms(1) by (auto simp: distinct_map inj_on_def)
  from find_unique [OF this assms(2)] assms(3,4) show ?thesis by (simp add: get_api_key_def)
qed

lemma rotate_api_key_ok:
  assumes "rotate_api_key d now t k c cap random_part = Inr (d', i, raw)"
  obtains old d1 d2 where "get_api_key d t k = Inr old" "ak_revoked_at old = None" "admits_principals d t"
    "case ak_user_id old of None \<Rightarrow> True | Some u \<Rightarrow> lock_user_is_active d u = Some True"
    "authorize_key_management d now c old ''rotate_api_key'' ''rotate'' t = Inr d1"
    "raw = new_raw_key random_part"
    "insert_api_key (revoke_keys_where (\<lambda>k. ak_id k = ak_id old) now d1)
       (\<lambda>i. \<lparr>ak_id = i, ak_tenant_id = ak_tenant_id old, ak_user_id = ak_user_id old,
         ak_service_account_id = ak_service_account_id old, ak_name = ak_name old,
         ak_key_hash = hash_key raw, ak_created_at = now,
         ak_expires_at = earlier (ak_expires_at old) cap, ak_revoked_at = None\<rparr>) = Inr (d2, i)"
    "record_in_transaction d2 c t ''api_key.rotate'' ''api_key'' (Some i) SUCCESS = Inr d'"
  using assms unfolding rotate_api_key_def Let_def key_owner_def lock_key_def
  by (auto simp: admits_principals_def is_ok_iff split: if_splits)

lemma create_key_steps:
  assumes "create_api_key config d now t name c expires random_part = Inr (d', i, raw)"
  shows "key_steps config now d d'"
  using assms
proof (rule create_api_key_ok)
  fix u d1
  assume held: "length (live_user_keys d u) < max_per_user config"
    and ins: "insert_api_key d (\<lambda>i. \<lparr>ak_id = i, ak_tenant_id = t, ak_user_id = Some u,
       ak_service_account_id = None, ak_name = name, ak_key_hash = hash_key raw,
       ak_created_at = now, ak_expires_at = expires, ak_revoked_at = None\<rparr>) = Inr (d1, i)"
    and rec: "record_in_transaction d1 c t ''api_key.create'' ''api_key'' (Some i) SUCCESS = Inr d'"
  have "key_step config now d d1" using ins by (rule key_step.issued) (use held in auto)
  from key_steps_two [OF this record_key_step [OF rec]] show ?thesis .
qed

lemma create_account_key_steps:
  assumes "create_service_account_api_key d now c t s name expires random_part = Inr (d', i, raw)"
  shows "key_steps config now d d'"
proof -
  from assms obtain d1 p d2 where reg: "register_permission d ''api_key'' ''create'' = Inr (d1, p)"
    and ins: "insert_api_key d1 (\<lambda>i. \<lparr>ak_id = i, ak_tenant_id = t, ak_user_id = None,
       ak_service_account_id = Some s, ak_name = name, ak_key_hash = hash_key (new_raw_key random_part),
       ak_created_at = now, ak_expires_at = expires, ak_revoked_at = None\<rparr>) = Inr (d2, i)"
    and rec: "record_in_transaction d2 c t ''api_key.create'' ''api_key'' (Some i) SUCCESS = Inr d'"
    by (auto simp: create_service_account_api_key_def Let_def catch_Inr_iff split: if_splits)
  have "key_step config now d1 d2" using ins by (rule key_step.issued) auto
  from key_steps_three [OF register_key_step [OF reg] this record_key_step [OF rec]] show ?thesis .
qed

lemma revoke_key_steps:
  "revoke_api_key d now t k c = Inr d' \<Longrightarrow> key_steps config now d d'"
  "revoke_service_account_api_key d now c t k = Inr d' \<Longrightarrow> key_steps config now d d'"
  by (auto simp: revoke_api_key_def revoke_service_account_api_key_def Let_def
      intro: converse_rtranclp_into_rtranclp [OF management_key_step revoke_locked_steps]
        converse_rtranclp_into_rtranclp [OF register_key_step revoke_locked_steps])

lemma rotate_key_steps:
  assumes "rotate_api_key d now t k c cap random_part = Inr (d', i, raw)"
  shows "key_steps config now d d'"
  using assms
proof (rule rotate_api_key_ok)
  fix old d1 d2
  assume old: "get_api_key d t k = Inr old" "ak_revoked_at old = None"
    and auth: "authorize_key_management d now c old ''rotate_api_key'' ''rotate'' t = Inr d1"
    and ins: "insert_api_key (revoke_keys_where (\<lambda>k. ak_id k = ak_id old) now d1)
     (\<lambda>i. \<lparr>ak_id = i, ak_tenant_id = ak_tenant_id old, ak_user_id = ak_user_id old,
       ak_service_account_id = ak_service_account_id old, ak_name = ak_name old,
       ak_key_hash = hash_key raw, ak_created_at = now,
       ak_expires_at = earlier (ak_expires_at old) cap, ak_revoked_at = None\<rparr>) = Inr (d2, i)"
    and rec: "record_in_transaction d2 c t ''api_key.rotate'' ''api_key'' (Some i) SUCCESS = Inr d'"
  have "key_step config now d1 d2"
    using get_api_key_row [OF old(1)] authorize_management_keys(1) [OF auth] old(2)
    by (intro key_step.rotated [OF _ _ ins refl]) auto
  from key_steps_three [OF management_key_step [OF auth] this record_key_step [OF rec]] show ?thesis .
qed

lemma handle_key_steps: "key_steps config now d (handle_key config d now c r)"
  by (cases r; simp only: handle_key.simps; rule committed_cases)
    (auto intro: create_key_steps create_account_key_steps revoke_key_steps rotate_key_steps)

subsection \<open>The invariant on keys\<close>

definition keys_ok :: "api_key_config \<Rightarrow> db \<Rightarrow> bool" where
  "keys_ok config d = (key_hashes_unique d \<and> distinct (map ak_id (api_keys d)) \<and>
     list_all (\<lambda>k. ak_id k < next_uuid d) (api_keys d) \<and>
     (\<forall>u. length (live_user_keys d u) \<le> max_per_user config))"

lemma length_filter_map_le:
  assumes "\<And>x. P (f x) \<Longrightarrow> P x"
  shows "length (filter P (map f xs)) \<le> length (filter P xs)"
  using assms by (induction xs) auto

lemma length_filter_map_less:
  assumes "\<And>x. P (f x) \<Longrightarrow> P x" "x \<in> set xs" "P x" "\<not> P (f x)"
  shows "length (filter P (map f xs)) < length (filter P xs)"
  using assms(2)
proof (induction xs)
  case (Cons a xs)
  have le: "length (filter P (map f xs)) \<le> length (filter P xs)"
    by (rule length_filter_map_le) (rule assms(1))
  show ?case
  proof (cases "a = x")
    case True
    with assms(3,4) le show ?thesis by (simp add: less_Suc_eq_le)
  next
    case False
    with Cons have "length (filter P (map f xs)) < length (filter P xs)" by simp
    then show ?thesis using assms(1) [of a] by auto
  qed
qed simp

definition retired :: "(api_key \<Rightarrow> bool) \<Rightarrow> datetime \<Rightarrow> api_key \<Rightarrow> api_key" where
  "retired p now k = (if p k \<and> ak_revoked_at k = None then k\<lparr>ak_revoked_at := Some now\<rparr> else k)"

lemma retired_simps [simp]:
  "ak_id (retired p now k) = ak_id k" "ak_key_hash (retired p now k) = ak_key_hash k"
  "ak_user_id (retired p now k) = ak_user_id k"
  "ak_revoked_at (retired p now k) = None \<longleftrightarrow> ak_revoked_at k = None \<and> \<not> p k"
  by (auto simp: retired_def)

lemma revoke_keys_frame:
  "revoke_keys_where p now d = d\<lparr>api_keys := map (retired p now) (api_keys d)\<rparr>"
  by (simp add: revoke_keys_where_def update_where_def retired_def [abs_def])

lemma revoked_rows: "api_keys (revoke_keys_where p now d) = map (retired p now) (api_keys d)"
  by (simp add: revoke_keys_frame)

lemma revoke_keys_ok:
  assumes "keys_ok config d" shows "keys_ok config (revoke_keys_where p now d)"
proof -
  have "length (live_user_keys (revoke_keys_where p now d) u) \<le> length (live_user_keys d u)" for u
    unfolding live_user_keys_def revoked_rows by (rule length_filter_map_le) simp
  then have "length (live_user_keys (revoke_keys_where p now d) u) \<le> max_per_user config" for u
    using assms unfolding keys_ok_def by (meson le_trans)
  with assms show ?thesis
    by (auto simp: keys_ok_def key_hashes_unique_def revoke_keys_frame comp_def list_all_iff)
qed

lemma insert_key_ok:
  assumes "insert_api_key d row = Inr (d', i)" "ak_id (row i) = i" "keys_ok config d"
    and "\<And>u. ak_user_id (row i) = Some u \<Longrightarrow> length (live_user_keys d u) < max_per_user config"
  shows "keys_ok config d'"
proof -
  note ins = insert_api_key_ok [OF assms(1)]
  have "length (live_user_keys d' u) \<le> max_per_user config" for u
    using assms(3) assms(4) [of u] by (auto simp: ins(2) live_user_keys_def keys_ok_def split: if_splits)
  moreover have "i \<notin> ak_id ` set (api_keys d)" using assms(3) ins(1) by (auto simp: keys_ok_def list_all_iff)
  ultimately show ?thesis
    using assms(2,3) ins(1,3) by (auto simp: ins(2) keys_ok_def key_hashes_unique_def list_all_iff less_Suc_eq)
qed

lemma key_step_ok:
  assumes "key_step config now d d'" "keys_ok config d"
  shows "keys_ok config d'"
  using assms(1)
proof cases
  case other
  with assms(2) show ?thesis
    by (auto simp: keys_ok_def key_hashes_unique_def live_user_keys_def list_all_iff intro: less_le_trans)
next
  case (issued row i key)
  with assms(2) show ?thesis by (intro insert_key_ok [OF issued(1)]) auto
next
  case (revoked p)
  with assms(2) show ?thesis by (simp add: revoke_keys_ok)
next
  case (rotated old row i key)
  let ?d = "revoke_keys_where (\<lambda>k. ak_id k = ak_id old) now d"
  have "length (live_user_keys ?d u) < max_per_user config" if "ak_user_id (row i) = Some u" for u
  proof -
    have "length (live_user_keys ?d u) < length (live_user_keys d u)"
      unfolding live_user_keys_def revoked_rows
      by (rule length_filter_map_less [where x = old]) (use rotated(1,2,4,7) that in auto)
    also have "... \<le> max_per_user config" using assms(2) by (simp add: keys_ok_def)
    finally show ?thesis .
  qed
  with rotated revoke_keys_ok [OF assms(2)] show ?thesis by (intro insert_key_ok [OF rotated(3)]) auto
qed

lemma key_steps_ok: "key_steps config now d d' \<Longrightarrow> keys_ok config d \<Longrightarrow> keys_ok config d'"
  by (induction rule: rtranclp_induct) (auto intro: key_step_ok)

subsection \<open>A revoked key stays revoked\<close>

definition digest_revoked :: "db \<Rightarrow> string \<Rightarrow> bool" where
  "digest_revoked d h = (\<exists>k \<in> set (api_keys d). ak_key_hash k = h \<and> ak_revoked_at k \<noteq> None)"

lemma digest_revoked_retired: "digest_revoked d h \<Longrightarrow> digest_revoked (revoke_keys_where p now d) h"
proof -
  assume "digest_revoked d h"
  then obtain k where "k \<in> set (api_keys d)" "ak_key_hash k = h" "ak_revoked_at k \<noteq> None"
    by (auto simp: digest_revoked_def)
  then have "retired p now k \<in> set (map (retired p now) (api_keys d))" "ak_key_hash (retired p now k) = h"
    "ak_revoked_at (retired p now k) \<noteq> None" by auto
  then show ?thesis unfolding digest_revoked_def revoked_rows by blast
qed

lemma digest_revoked_step:
  assumes "key_step config now d d'" "digest_revoked d h"
  shows "digest_revoked d' h"
  using assms(1)
proof cases
  case other
  with assms(2) show ?thesis by (simp add: digest_revoked_def)
next
  case (issued row i key)
  with assms(2) show ?thesis by (auto simp: digest_revoked_def insert_api_key_ok(2) [OF issued(1)])
next
  case (revoked p)
  with assms(2) show ?thesis by (simp add: digest_revoked_retired)
next
  case (rotated old row i key)
  have "digest_revoked (revoke_keys_where (\<lambda>k. ak_id k = ak_id old) now d) h"
    using assms(2) by (rule digest_revoked_retired)
  then show ?thesis by (auto simp: digest_revoked_def insert_api_key_ok(2) [OF rotated(3)])
qed

lemma digest_revoked_steps: "key_steps config now d d' \<Longrightarrow> digest_revoked d h \<Longrightarrow> digest_revoked d' h"
  by (induction rule: rtranclp_induct) (auto intro: digest_revoked_step)

lemma history_keys_ok:
  "keys_ok config d \<Longrightarrow> keys_ok config (handle_keys config d history)"
proof (induction history arbitrary: d)
  case (Cons request history)
  obtain at c r where "request = (at, c, r)" by (cases request)
  with Cons show ?case using key_steps_ok [OF handle_key_steps] by simp
qed simp

lemma history_digest_revoked:
  "digest_revoked d h \<Longrightarrow> digest_revoked (handle_keys config d history) h"
proof (induction history arbitrary: d)
  case (Cons request history)
  obtain at c r where "request = (at, c, r)" by (cases request)
  with Cons show ?case using digest_revoked_steps [OF handle_key_steps] by simp
qed simp

lemma revoked_digest_refused:
  assumes "key_hashes_unique d" "digest_revoked d (hash_key raw)"
  shows "\<not> is_ok (snd (validate_api_key d now raw))"
proof
  assume "is_ok (snd (validate_api_key d now raw))"
  then obtain d' key where "validate_api_key d now raw = (d', Inr key)"
    by (metis is_ok_iff prod.collapse)
  then have key: "key \<in> set (api_keys d)" "ak_key_hash key = hash_key raw" "ak_revoked_at key = None"
    by (auto simp: validate_api_key_iff [OF assms(1)] key_is_live_def)
  from assms(2) obtain k where "k \<in> set (api_keys d)" "ak_key_hash k = hash_key raw" "ak_revoked_at k \<noteq> None"
    by (auto simp: digest_revoked_def)
  with key key_found [OF assms(1)] show False by (metis option.inject)
qed

subsection \<open>A new key authenticates\<close>

lemma key_is_live_cong:
  assumes "tenants d' = tenants d" "users d' = users d" "service_accounts d' = service_accounts d"
  shows "key_is_live d' = key_is_live d"
  unfolding fun_eq_iff key_is_live_def admits_principals_cong [OF assms(1)] lock_user_is_active_def
    lock_service_account_status_def assms by simp

lemma recorded_key_validates:
  assumes ins: "insert_api_key d row = Inr (d1, i)" and "ak_id (row i) = i" "ak_key_hash (row i) = hash_key raw"
    and rec: "record_in_transaction d1 c t action resource_type resource_id outcome = Inr d2"
    and "keys_ok config d2" "key_is_live d at (row i)"
  shows "validate_api_key d2 at raw = (d2, Inr (row i))"
proof -
  note d1 = insert_api_key_ok(2) [OF ins] and d2 = record_ok [OF rec]
  have "row i \<in> set (api_keys d2)" using d1 d2 by simp
  moreover have "key_is_live d2 = key_is_live d" using d1 d2 by (intro key_is_live_cong) auto
  ultimately show ?thesis using assms(3,5,6) by (simp add: validate_api_key_iff keys_ok_def)
qed

lemma created_key_validates:
  assumes "create_api_key config d now t name c expires random_part = Inr (d1, i, raw)" "keys_ok config d"
    and "case expires of None \<Rightarrow> True | Some e \<Rightarrow> at < e"
  obtains u key where "c = UserCaller u" "validate_api_key d1 at raw = (d1, Inr key)" "ak_id key = i"
    "ak_tenant_id key = t" "ak_user_id key = Some u" "ak_expires_at key = expires"
    "ak_service_account_id key = None"
  using assms(1)
proof (rule create_api_key_ok)
  fix u d0
  let ?row = "\<lambda>i. \<lparr>ak_id = i, ak_tenant_id = t, ak_user_id = Some u, ak_service_account_id = None,
    ak_name = name, ak_key_hash = hash_key raw, ak_created_at = now, ak_expires_at = expires,
    ak_revoked_at = None\<rparr>"
  assume c: "c = UserCaller u" and live: "lock_user_is_active d u = Some True" "admits_principals d t"
    and ins: "insert_api_key d ?row = Inr (d0, i)"
    and rec: "record_in_transaction d0 c t ''api_key.create'' ''api_key'' (Some i) SUCCESS = Inr d1"
  have "keys_ok config d1" using key_steps_ok [OF create_key_steps [OF assms(1)] assms(2)] .
  then have "validate_api_key d1 at raw = (d1, Inr (?row i))"
    by (intro recorded_key_validates [OF ins _ _ rec]) (use live assms(3) in \<open>simp_all add: key_is_live_def\<close>)
  with c show thesis by (intro that [of u "?row i"]) auto
qed

lemma management_reads:
  assumes "authorize_key_management d now c key operation action t = Inr d'"
  shows "tenants d' = tenants d" "users d' = users d" "service_accounts d' = service_accounts d"
proof -
  have "d' = d \<or> (\<exists>auths. authorize_caller d now c operation t ''api_key'' action auths = Inr d')"
    using assms by (auto simp: authorize_key_management_def split: caller.splits if_splits)
  then show "tenants d' = tenants d" "users d' = users d" "service_accounts d' = service_accounts d"
    by (auto elim!: authorize_caller_ok simp: register_tables)
qed

lemma rotated_key_validates:
  assumes "rotate_api_key d now t k c cap random_part = Inr (d', j, raw)" "keys_ok config d"
    and "get_api_key d t k = Inr old" "ak_service_account_id old = None"
    and "case earlier (ak_expires_at old) cap of None \<Rightarrow> True | Some e \<Rightarrow> at < e"
  shows "\<exists>key. validate_api_key d' at raw = (d', Inr key) \<and> ak_id key = j \<and> ak_user_id key = ak_user_id old"
  using assms(1)
proof (rule rotate_api_key_ok)
  fix old' :: api_key and d1 d2
  let ?d = "revoke_keys_where (\<lambda>k. ak_id k = ak_id old') now d1"
  let ?row = "\<lambda>i. \<lparr>ak_id = i, ak_tenant_id = ak_tenant_id old', ak_user_id = ak_user_id old',
    ak_service_account_id = ak_service_account_id old', ak_name = ak_name old', ak_key_hash = hash_key raw,
    ak_created_at = now, ak_expires_at = earlier (ak_expires_at old') cap, ak_revoked_at = None\<rparr>"
  assume "get_api_key d t k = Inr old'" and live: "admits_principals d t"
      "case ak_user_id old' of None \<Rightarrow> True | Some u \<Rightarrow> lock_user_is_active d u = Some True"
    and auth: "authorize_key_management d now c old' ''rotate_api_key'' ''rotate'' t = Inr d1"
    and ins: "insert_api_key ?d ?row = Inr (d2, j)"
    and rec: "record_in_transaction d2 c t ''api_key.rotate'' ''api_key'' (Some j) SUCCESS = Inr d'"
  then have old: "old' = old" "ak_tenant_id old = t" using assms(3) get_api_key_row by auto
  have "keys_ok config d'" using key_steps_ok [OF rotate_key_steps [OF assms(1)] assms(2)] .
  moreover have "key_is_live ?d = key_is_live d"
    by (rule key_is_live_cong) (simp_all add: revoke_keys_frame management_reads [OF auth])
  ultimately have "validate_api_key d' at raw = (d', Inr (?row j))"
    using live assms(4,5) old
    by (intro recorded_key_validates [OF ins _ _ rec]) (simp_all add: key_is_live_def)
  with old show ?thesis by auto
qed

lemma rotated_key_revoked:
  assumes "rotate_api_key d now t k c cap random_part = Inr (d', j, raw)" "get_api_key d t k = Inr old"
  shows "digest_revoked d' (ak_key_hash old)"
  using assms(1)
proof (rule rotate_api_key_ok)
  fix old' :: api_key and d1 d2
  assume "get_api_key d t k = Inr old'"
    and auth: "authorize_key_management d now c old' ''rotate_api_key'' ''rotate'' t = Inr d1"
    and ins: "insert_api_key (revoke_keys_where (\<lambda>k. ak_id k = ak_id old') now d1)
       (\<lambda>i. \<lparr>ak_id = i, ak_tenant_id = ak_tenant_id old', ak_user_id = ak_user_id old',
         ak_service_account_id = ak_service_account_id old', ak_name = ak_name old',
         ak_key_hash = hash_key raw, ak_created_at = now,
         ak_expires_at = earlier (ak_expires_at old') cap, ak_revoked_at = None\<rparr>) = Inr (d2, j)"
    and rec: "record_in_transaction d2 c t ''api_key.rotate'' ''api_key'' (Some j) SUCCESS = Inr d'"
  then have old: "old' = old" "old \<in> set (api_keys d1)"
    using assms(2) get_api_key_row authorize_management_keys(1) [OF auth] by auto
  let ?k = "retired (\<lambda>k. ak_id k = ak_id old) now old"
  have "?k \<in> set (api_keys d')" "ak_key_hash ?k = ak_key_hash old" "ak_revoked_at ?k \<noteq> None"
    using old record_keys(1) [OF rec] by (simp_all add: insert_api_key_ok(2) [OF ins] revoked_rows)
  then show ?thesis unfolding digest_revoked_def by blast
qed

subsection \<open>Sessions and login transactions\<close>

definition session_hashes_unique :: "db \<Rightarrow> bool" where
  "session_hashes_unique d = distinct (map ss_token_hash (user_sessions d))"

definition session_is_live :: "db \<Rightarrow> datetime \<Rightarrow> user_session \<Rightarrow> bool" where
  "session_is_live d now s = (ss_revoked_at s = None \<and> now < ss_expires_at s \<and>
     lock_user_is_active d (ss_user_id s) = Some True)"

lemma validate_session_iff:
  assumes "session_hashes_unique d"
  shows "validate_session d now raw = Inr s \<longleftrightarrow>
    s \<in> set (user_sessions d) \<and> ss_token_hash s = hash_token raw \<and> session_is_live d now s"
proof -
  have "distinct (map ss_token_hash (filter (\<lambda>s. ss_token_hash s = hash_token raw) (user_sessions d)))"
    using assms by (simp add: session_hashes_unique_def distinct_map_filter)
  then have "one_or_none (filter (\<lambda>s. ss_token_hash s = hash_token raw) (user_sessions d)) =
    Inr (find (\<lambda>_. True) (filter (\<lambda>s. ss_token_hash s = hash_token raw) (user_sessions d)))"
    by (rule one_or_none_distinct) auto
  then have row: "one_or_none (filter (\<lambda>s. ss_token_hash s = hash_token raw) (user_sessions d)) =
    Inr (find (\<lambda>s. ss_token_hash s = hash_token raw) (user_sessions d))"
    by (simp add: find_filter_True)
  have found: "find (\<lambda>s. ss_token_hash s = hash_token raw) (user_sessions d) = Some s \<longleftrightarrow>
      s \<in> set (user_sessions d) \<and> ss_token_hash s = hash_token raw"
    using find_unique [of ss_token_hash "user_sessions d" s] assms
    by (auto simp: session_hashes_unique_def dest: find_SomeD)
  have "validate_session d now raw = Inr s \<longleftrightarrow>
      find (\<lambda>s. ss_token_hash s = hash_token raw) (user_sessions d) = Some s \<and> session_is_live d now s"
    unfolding validate_session_def row ebind.simps session_is_live_def
    by (auto simp: get_user_def lock_user_is_active_def split: option.splits if_splits)
  then show ?thesis unfolding found by simp
qed

lemma issue_session_ok:
  assumes "issue_session d now u lifetime email mfa auth raw = Inr (d', i, raw')"
  obtains d1 where "raw' = raw" "lock_user_is_active d u = Some True" "evidence_only d1 d'"
    "\<forall>s \<in> set (user_sessions d). ss_token_hash s \<noteq> hash_token raw"
    "d1 = d\<lparr>next_uuid := Suc (next_uuid d), user_sessions := user_sessions d @
      [\<lparr>ss_id = i, ss_user_id = u, ss_token_hash = hash_token raw, ss_expires_at = now + lifetime,
        ss_revoked_at = None, ss_verified_email = normalize_verified_email email,
        ss_multi_factor = mfa, ss_provider_authenticated_at = auth\<rparr>]\<rparr>"
  using assms by (auto simp: issue_session_def insert_session_def take_uuid_def Let_def list_ex_iff
      record_operator_session_issued_in_transaction_def evidence_only_def
      split: if_splits dest!: record_platform_event_frame)

lemma evidence_reads:
  assumes "evidence_only d d'"
  shows "user_sessions d' = user_sessions d" "users d' = users d" "api_keys d' = api_keys d"
    "tenants d' = tenants d" "service_accounts d' = service_accounts d"
  using assms unfolding evidence_only_def by (cases d, cases d', auto)+

subsection \<open>Properties\<close>

definition default_key_config :: api_key_config where
  "default_key_config = \<lparr>max_per_user = 50\<rparr>"

lemma create_key_sample:
  "\<exists>d i. create_api_key default_key_config sample_db 100 1 ''ci'' (UserCaller 10) (Some 900) ''x'' =
    Inr (d, i, ''sok_x'')"
proof -
  have checks: "require_open_tenant sample_db 1 = Inr (mk_tenant 1 ACTIVE None)"
    "require_active_user sample_db (UserCaller 10) ''create_api_key'' 1 = Inr ()"
    "lock_accessible_tenant sample_db 1 = Inr (mk_tenant 1 ACTIVE None)"
    "validate_name ''ci'' = Inr ()" "live_user_keys sample_db 10 = []"
    "get_membership sample_db 1 10 = Some (mk_membership 20 1 10 MEMBER_ACTIVE)" "api_keys sample_db = []"
    "find_tenant sample_db 1 \<noteq> None" "lock_user_is_active sample_db 10 \<noteq> None"
    "validate_action_and_resource ''api_key.create'' ''api_key'' = Inr ()"
    by code_simp+
  let ?row = "\<lambda>i. \<lparr>ak_id = i, ak_tenant_id = 1, ak_user_id = Some 10, ak_service_account_id = None,
    ak_name = ''ci'', ak_key_hash = hash_key ''sok_x'', ak_created_at = 100, ak_expires_at = Some 900,
    ak_revoked_at = None\<rparr>"
  obtain d1 i where ins: "insert_api_key sample_db ?row = Inr (d1, i)"
    unfolding insert_api_key_def take_uuid_def Let_def by (simp add: checks del: One_nat_def)
  have "find_tenant d1 1 \<noteq> None" "lock_user_is_active d1 10 \<noteq> None"
    using checks(8,9) by (simp_all add: insert_api_key_ok(2) [OF ins] find_tenant_def lock_user_is_active_def)
  note recording = record_user [OF this checks(10), of "Some i"]
  show ?thesis
    unfolding create_api_key_def default_key_config_def
    by (simp add: require_caller_def checks ins recording new_raw_key_def API_KEY_PREFIX_def require_def
        catch_def Let_def del: One_nat_def)
qed

lemma sample_keys_ok: "keys_ok default_key_config sample_db"
proof -
  have "api_keys sample_db = []" by code_simp
  then show ?thesis
    by (simp add: keys_ok_def key_hashes_unique_def live_user_keys_def)
qed

text \<open>C21: authentication by API key decides liveness exactly. A raw key authenticates if and only
  if a stored key has its digest, is neither revoked nor expired, belongs to a tenant that
  admits principals, and its owning person or service account is active; and a successful
  authentication changes nothing in the store.\<close>

theorem api_key_authenticates_iff_live:
  assumes "key_hashes_unique d"
  shows "validate_api_key d now raw = (d', Inr key) \<longleftrightarrow> d' = d \<and> key \<in> set (api_keys d) \<and>
    ak_key_hash key = hash_key raw \<and> key_is_live d now key"
  using assms by (rule validate_api_key_iff)

theorem api_key_authenticates_iff_live_witness:
  "\<exists>d key. validate_api_key d 200 ''sok_x'' = (d, Inr key) \<and> key_is_live d 200 key"
proof -
  obtain d i where created: "create_api_key default_key_config sample_db 100 1 ''ci'' (UserCaller 10)
      (Some 900) ''x'' = Inr (d, i, ''sok_x'')" using create_key_sample by blast
  then obtain key where validated: "validate_api_key d 200 ''sok_x'' = (d, Inr key)"
    by (rule created_key_validates [OF _ sample_keys_ok, of _ _ _ _ _ _ _ _ _ 200]) auto
  have "key_hashes_unique d"
    using key_steps_ok [OF create_key_steps [OF created] sample_keys_ok] by (simp add: keys_ok_def)
  with api_key_authenticates_iff_live [of d 200 "''sok_x''" d key] validated show ?thesis by blast
qed

text \<open>C22: the per-user limit on keys holds through any history. Whatever sequence of key
  creations, rotations and revocations is requested, by whomever, no person ever holds more
  unrevoked keys, over all tenants together, than the configured limit; rotation
  replaces a key and so does not count against it.\<close>

theorem key_limit_holds:
  assumes "keys_ok config d"
  shows "length (live_user_keys (handle_keys config d history) u) \<le> max_per_user config"
  using history_keys_ok [OF assms] by (simp add: keys_ok_def)

theorem key_limit_holds_witness:
  "length (live_user_keys (handle_keys default_key_config sample_db
     [(100, UserCaller 10, Create_Key 1 ''ci'' (Some 900) ''x'')]) 10) \<le> 50"
proof -
  have "max_per_user default_key_config = 50" by (simp add: default_key_config_def)
  with key_limit_holds [OF sample_keys_ok,
      of "[(100, UserCaller 10, Create_Key 1 ''ci'' (Some 900) ''x'')]" 10] show ?thesis by metis
qed

text \<open>Revocation of a key is permanent. A key that is revoked is refused by every later
  authentication attempt, whatever key requests are made in between: no creation, rotation
  or repeated revocation makes its secret valid again.\<close>

theorem revoked_key_never_authenticates:
  assumes "keys_ok config d" "digest_revoked d (hash_key raw)"
  shows "\<not> is_ok (snd (validate_api_key (handle_keys config d history) now raw))"
  using revoked_digest_refused history_keys_ok [OF assms(1)] history_digest_revoked [OF assms(2)]
  by (simp add: keys_ok_def)

text \<open>An issued key works until it is replaced. The secret returned by a creation
  authenticates, as that person in that tenant, at any instant before its expiry; if the key
  is rotated, the old secret never authenticates again, and the new one does,
  for the same person, until the earlier of the old expiry and the cap.\<close>

theorem api_key_round_trip:
  assumes created: "create_api_key config d now t name c expires random_part = Inr (d1, i, raw)"
    and ok: "keys_ok config d" and unexpired: "case expires of None \<Rightarrow> True | Some e \<Rightarrow> at < e"
  shows "\<exists>u key. c = UserCaller u \<and> validate_api_key d1 at raw = (d1, Inr key) \<and> ak_id key = i \<and>
    ak_tenant_id key = t \<and> ak_user_id key = Some u \<and>
    (\<forall>moment c' cap part d2 j raw2 later. rotate_api_key d1 moment t i c' cap part = Inr (d2, j, raw2) \<longrightarrow>
      \<not> is_ok (snd (validate_api_key d2 later raw)) \<and>
      ((case earlier expires cap of None \<Rightarrow> True | Some e \<Rightarrow> later < e) \<longrightarrow>
        (\<exists>key2. validate_api_key d2 later raw2 = (d2, Inr key2) \<and> ak_id key2 = j \<and> ak_user_id key2 = Some u)))"
proof -
  obtain u key where c: "c = UserCaller u" and valid: "validate_api_key d1 at raw = (d1, Inr key)"
    and key: "ak_id key = i" "ak_tenant_id key = t" "ak_user_id key = Some u" "ak_expires_at key = expires"
      "ak_service_account_id key = None"
    using created_key_validates [OF created ok unexpired] .
  have ok1: "keys_ok config d1" using key_steps_ok [OF create_key_steps [OF created] ok] .
  then have row: "key \<in> set (api_keys d1)" "ak_key_hash key = hash_key raw"
    using valid validate_api_key_iff by (auto simp: keys_ok_def)
  have got: "get_api_key d1 t i = Inr key" using row(1) key ok1 by (auto simp: keys_ok_def intro: get_api_key_unique)
  have "\<not> is_ok (snd (validate_api_key d2 later raw))"
    if "rotate_api_key d1 moment t i c' cap part = Inr (d2, j, raw2)" for moment c' cap part d2 j raw2 later
    using revoked_digest_refused [of d2 raw later] rotated_key_revoked [OF that got] row(2)
      key_steps_ok [OF rotate_key_steps [OF that] ok1] by (simp add: keys_ok_def)
  moreover have "\<exists>key2. validate_api_key d2 later raw2 = (d2, Inr key2) \<and> ak_id key2 = j \<and> ak_user_id key2 = Some u"
    if "rotate_api_key d1 moment t i c' cap part = Inr (d2, j, raw2)"
      "case earlier expires cap of None \<Rightarrow> True | Some e \<Rightarrow> later < e"
    for moment c' cap part d2 j raw2 later
    using rotated_key_validates [OF that(1) ok1 got] that(2) key by simp
  ultimately show ?thesis using c valid key by blast
qed

text \<open>A key of the sample organisation that was revoked.\<close>

definition revoked_key_db :: db where
  "revoked_key_db = sample_db\<lparr>next_uuid := 1001, api_keys := [\<lparr>ak_id = 1000, ak_tenant_id = 1,
     ak_user_id = Some 10, ak_service_account_id = None, ak_name = ''ci'', ak_key_hash = hash_key ''sok_y'',
     ak_created_at = 0, ak_expires_at = None, ak_revoked_at = Some 50\<rparr>]\<rparr>"

end
