(* ===== verification/User_Authority.thy ===== *)
theory User_Authority
  imports Credential_Invariants
begin

section \<open>Authority over a person's account\<close>

text \<open>
  \<open>saas_os/core/identity/user_authority.py\<close>: revoking a person's sessions and API keys,
  deactivating and reactivating a person, and the first step of identity erasure. Each is a
  platform operation that records how it ended. Deactivation scans the whole tenant registry,
  page by page, for the tenants where the person is an active member, twice, and guards the
  administrators of every one of them.

  The statement timeout of a platform change has no counterpart in the model, and no
  other transaction runs between the two scans of one deactivation.
\<close>

subsection \<open>How an operation ends\<close>

definition require_person_or_refuse :: "string \<Rightarrow> caller \<Rightarrow> error + unit" where
  "require_person_or_refuse operation c =
     ebind (require_caller operation c ALL_CALLER_TYPES) (\<lambda>_.
     case c of ServiceAccountCaller _ _ \<Rightarrow> Inl (PlatformNotAuthorizedError operation) | _ \<Rightarrow> Inr ())"

fun outcome_of :: "error \<Rightarrow> (audit_outcome \<times> string) option" where
  "outcome_of (PlatformSubjectNotFoundError _) = Some (DENIED, ''user_not_found'')"
| "outcome_of (LastTenantAdministratorError _) = Some (DENIED, ''last_tenant_administrator'')"
| "outcome_of (DeactivationRetryError _) = Some (FAILURE, ''membership_changed_during_scan'')"
| "outcome_of InvalidPlatformRequestError = None"
| "outcome_of (InvalidUserStateError _ _) = None"
| "outcome_of e = (case refusal_code e of Some code \<Rightarrow> Some (DENIED, code) | None \<Rightarrow> Some (FAILURE, ''error''))"

definition record_outcome ::
  "db \<Rightarrow> datetime \<Rightarrow> caller \<Rightarrow> string \<Rightarrow> uuid \<Rightarrow> audit_outcome \<times> string \<Rightarrow> db" where
  "record_outcome d now c operation user_id outcome = (case platform_operation operation of
     Inl _ \<Rightarrow> d
   | Inr spec \<Rightarrow> record_platform_outcome (fst outcome) d now c (po_audit_action spec) ''user'' None
       (Some user_id) (snd outcome))"

definition run_user_operation ::
  "db \<Rightarrow> datetime \<Rightarrow> string \<Rightarrow> caller \<Rightarrow> uuid \<Rightarrow> error + (db \<times> 'a) \<Rightarrow> db \<times> (error + 'a)" where
  "run_user_operation d now operation c user_id result = (case result of
     Inr (d', a) \<Rightarrow> (d', Inr a)
   | Inl e \<Rightarrow> (case outcome_of e of
       None \<Rightarrow> (d, Inl e)
     | Some outcome \<Rightarrow> (record_outcome d now c operation user_id outcome, Inl e)))"

definition user_operation ::
  "db \<Rightarrow> datetime \<Rightarrow> string \<Rightarrow> caller \<Rightarrow> uuid \<Rightarrow> string \<Rightarrow> (string \<Rightarrow> error + (db \<times> 'a))
    \<Rightarrow> db \<times> (error + 'a)" where
  "user_operation d now operation c user_id reason body =
     (case ebind (require_person_or_refuse operation c) (\<lambda>_. validate_reason reason) of
        Inl e \<Rightarrow> (d, Inl e)
      | Inr r \<Rightarrow> run_user_operation d now operation c user_id (body r))"

definition record_success ::
  "db \<Rightarrow> datetime \<Rightarrow> caller \<Rightarrow> string \<Rightarrow> uuid \<Rightarrow> string \<Rightarrow> error + db" where
  "record_success d now c operation user_id reason =
     ebind (platform_operation operation) (\<lambda>spec.
     record_platform_event_in_transaction d now c (po_audit_action spec) ''user'' None (Some user_id)
       None SUCCESS (Some reason))"

subsection \<open>Revoking sessions and keys\<close>

definition revoke_sessions :: "db \<Rightarrow> datetime \<Rightarrow> uuid \<Rightarrow> db \<times> nat" where
  "revoke_sessions d now user_id =
     (let live = (\<lambda>s. ss_user_id s = user_id \<and> ss_revoked_at s = None) in
      (d\<lparr>user_sessions := update_where live (\<lambda>s. s\<lparr>ss_revoked_at := Some now\<rparr>) (user_sessions d)\<rparr>,
       length (filter live (user_sessions d))))"

definition SESSION_REVOKE :: string where
  "SESSION_REVOKE = ''session.revoke''"

definition API_KEY_REVOKE :: string where
  "API_KEY_REVOKE = ''api_key.revoke''"

definition revoke_user_sessions ::
  "db \<Rightarrow> datetime \<Rightarrow> uuid \<Rightarrow> caller \<Rightarrow> string \<Rightarrow> db \<times> (error + nat)" where
  "revoke_user_sessions d now user_id c reason =
     user_operation d now SESSION_REVOKE c user_id reason (\<lambda>r.
       ebind (authorize_platform_caller d c SESSION_REVOKE) (\<lambda>_.
       ebind (require (lock_user_is_active d user_id \<noteq> None) (PlatformSubjectNotFoundError user_id)) (\<lambda>_.
       let (d1, revoked) = revoke_sessions d now user_id in
       ebind (record_success d1 now c SESSION_REVOKE user_id r) (\<lambda>d2. Inr (d2, revoked)))))"

definition revoke_user_api_keys ::
  "db \<Rightarrow> datetime \<Rightarrow> uuid \<Rightarrow> caller \<Rightarrow> string \<Rightarrow> db \<times> (error + nat)" where
  "revoke_user_api_keys d now user_id c reason =
     user_operation d now API_KEY_REVOKE c user_id reason (\<lambda>r.
       ebind (authorize_platform_caller d c API_KEY_REVOKE) (\<lambda>_.
       ebind (require_caller API_KEY_REVOKE c [UserCallerType]) (\<lambda>_.
       ebind (require (lock_user_is_active d user_id \<noteq> None) (PlatformSubjectNotFoundError user_id)) (\<lambda>_.
       let (d1, keys) = revoke_user_api_keys_in_transaction d now user_id in
       ebind (record_success d1 now c API_KEY_REVOKE user_id r) (\<lambda>d2.
       ebind (record_platform_key_revocations d2 c keys) (\<lambda>d3. Inr (d3, length keys)))))))"

subsection \<open>The registry scan\<close>

definition SCAN_PAGE_SIZE :: nat where
  "SCAN_PAGE_SIZE = 500"

fun scan_page ::
  "db \<Rightarrow> uuid \<Rightarrow> nat \<Rightarrow> string \<Rightarrow> uuid list \<Rightarrow> uuid list \<Rightarrow> nat \<Rightarrow> error + (uuid list \<times> nat)" where
  "scan_page d user_id ceiling operation [] found visited = Inr (found, visited)"
| "scan_page d user_id ceiling operation (tenant_id # page) found visited =
     (if visited + 1 > ceiling then Inl (DeactivationScanLimitError operation ceiling)
      else scan_page d user_id ceiling operation page
        (if is_active_member d tenant_id [user_id] then List.insert tenant_id found else found)
        (visited + 1))"

lemma ebind_fundef_cong [fundef_cong]:
  "m = m' \<Longrightarrow> (\<And>a. m' = Inr a \<Longrightarrow> f a = f' a) \<Longrightarrow> ebind m f = ebind m' f'"
  by (cases m') auto

definition unpurged_after :: "db \<Rightarrow> uuid option \<Rightarrow> uuid list" where
  "unpurged_after d after = sort (map tn_id (filter (\<lambda>t. tn_status t \<noteq> PURGED \<and>
     (case after of None \<Rightarrow> True | Some a \<Rightarrow> tn_id t > a)) (tenants d)))"

lemma page_eq: "unpurged_tenant_ids_page d after n = take n (unpurged_after d after)"
  by (simp add: unpurged_tenant_ids_page_def unpurged_after_def)

lemma unpurged_after_later:
  assumes "x \<in> set (unpurged_after d after)"
  shows "unpurged_after d (Some x) = filter (\<lambda>y. y > x) (unpurged_after d after)"
  using assms unfolding unpurged_after_def
  by (auto simp: filter_sort filter_map comp_def intro!: arg_cong [where f = sort] arg_cong [where f = "map tn_id"]
      filter_cong split: option.splits)

function scan_pages ::
  "db \<Rightarrow> uuid \<Rightarrow> nat \<Rightarrow> string \<Rightarrow> uuid option \<Rightarrow> uuid list \<Rightarrow> nat \<Rightarrow> error + (uuid list \<times> nat)" where
  "scan_pages d user_id ceiling operation after found visited =
     (let page = unpurged_tenant_ids_page d after SCAN_PAGE_SIZE in
      if page = [] then Inr (found, visited)
      else ebind (scan_page d user_id ceiling operation page found visited) (\<lambda>(found', visited').
        scan_pages d user_id ceiling operation (Some (last page)) found' visited'))"
  by pat_completeness auto

termination
proof (relation "measure (\<lambda>(d, user_id, ceiling, operation, after, found, visited).
    length (unpurged_after d after))")
  fix d user_id ceiling operation after found visited page and r :: "uuid list \<times> nat" and found' visited'
  assume page: "page = unpurged_tenant_ids_page d after SCAN_PAGE_SIZE" "page \<noteq> []"
  then have "last page \<in> set page" by simp
  then have "last page \<in> set (unpurged_after d after)"
    unfolding page(1) page_eq by (rule in_set_takeD)
  then have "length (unpurged_after d (Some (last page))) < length (unpurged_after d after)"
    by (simp add: unpurged_after_later length_filter_less [where x = "last page"])
  then show "((d, user_id, ceiling, operation, Some (last page), found', visited'),
      (d, user_id, ceiling, operation, after, found, visited)) \<in>
    measure (\<lambda>(d, user_id, ceiling, operation, after, found, visited). length (unpurged_after d after))"
    by simp
qed simp

declare scan_pages.simps [simp del]

definition scan_active_memberships ::
  "db \<Rightarrow> uuid \<Rightarrow> nat \<Rightarrow> string \<Rightarrow> error + (uuid list \<times> nat)" where
  "scan_active_memberships d user_id ceiling operation =
     scan_pages d user_id ceiling operation None [] 0"

subsection \<open>Deactivation\<close>

record deactivation_scan_config =
  max_tenants :: nat

definition MAX_ATTEMPTS :: nat where
  "MAX_ATTEMPTS = 3"

definition write_user_active :: "uuid \<Rightarrow> bool \<Rightarrow> db \<Rightarrow> db" where
  "write_user_active user_id is_active d = d\<lparr>users :=
     update_where (\<lambda>u. us_id u = user_id) (\<lambda>u. u\<lparr>us_is_active := is_active\<rparr>) (users d)\<rparr>"

text \<open>The preliminary authorization, which only keeps a caller without authority from a scan.\<close>

definition preliminary_authorization :: "db \<Rightarrow> caller \<Rightarrow> error + unit" where
  "preliminary_authorization d c =
     ebind (platform_operation USER_DEACTIVATE) (\<lambda>spec.
     case (c, po_permission spec) of
       (UserCaller u, Some permission) \<Rightarrow> ebind (platform_can d u permission) (\<lambda>allowed.
         require allowed (PlatformNotAuthorizedError USER_DEACTIVATE))
     | _ \<Rightarrow> Inl (PlatformNotAuthorizedError USER_DEACTIVATE))"

definition depth_of :: "(uuid \<times> nat) list \<Rightarrow> uuid \<Rightarrow> nat" where
  "depth_of depths t = (case map_of depths t of None \<Rightarrow> 0 | Some n \<Rightarrow> n)"

definition nearest_root_first :: "db \<Rightarrow> uuid list \<Rightarrow> uuid list" where
  "nearest_root_first d tenant_ids = (let depths = root_depths d (sort tenant_ids) in
     sort_key (\<lambda>t. (depth_of depths t, t)) tenant_ids)"

text \<open>The person's row and credentials, changed together.\<close>

definition deactivated :: "db \<Rightarrow> datetime \<Rightarrow> uuid \<Rightarrow> db" where
  "deactivated d now user_id =
     fst (revoke_user_api_keys_in_transaction
       (fst (revoke_sessions (write_user_active user_id False d) now user_id)) now user_id)"

text \<open>\<open>None\<close> is the internal signal that a membership appeared between the scans.\<close>

definition deactivate_in_transaction ::
  "db \<Rightarrow> datetime \<Rightarrow> uuid \<Rightarrow> caller \<Rightarrow> string \<Rightarrow> nat \<Rightarrow> error + (db \<times> nat \<times> nat) option" where
  "deactivate_in_transaction d now user_id c reason ceiling =
     ebind (preliminary_authorization d c) (\<lambda>_.
     ebind (require (\<not> count_unpurged_tenants d (ceiling + 1) > ceiling)
       (DeactivationScanLimitError USER_DEACTIVATE ceiling)) (\<lambda>_.
     ebind (scan_active_memberships d user_id ceiling USER_DEACTIVATE) (\<lambda>(first, _).
     let guard = guard_tenants d now (nearest_root_first d first) in
     ebind (authorize_platform_caller d c USER_DEACTIVATE) (\<lambda>_.
     ebind (require (acting_user_id c \<noteq> Some user_id) (PlatformSelfTargetError USER_DEACTIVATE)) (\<lambda>_.
     case lock_user_is_active d user_id of
       None \<Rightarrow> Inl (PlatformSubjectNotFoundError user_id)
     | Some is_active \<Rightarrow>
         ebind (require is_active (InvalidUserStateError user_id ''inactive'')) (\<lambda>_.
         ebind (scan_active_memberships d user_id ceiling USER_DEACTIVATE) (\<lambda>(second, _).
         if \<not> set second \<subseteq> set first then Inr None
         else (let had_owner = platform_owner_exists d;
                   sessions_revoked = snd (revoke_sessions d now user_id);
                   keys = snd (revoke_user_api_keys_in_transaction d now user_id);
                   d1 = deactivated d now user_id in
           ebind (verify d1 now guard) (\<lambda>_.
           ebind (require (\<not> (had_owner \<and> \<not> platform_owner_exists d1))
             (LastPlatformOwnerError USER_DEACTIVATE)) (\<lambda>_.
           ebind (record_success d1 now c USER_DEACTIVATE user_id reason) (\<lambda>d2.
           ebind (record_platform_key_revocations d2 c keys) (\<lambda>d3.
           Inr (Some (d3, sessions_revoked, length keys))))))))))))))"

fun deactivate_attempts ::
  "nat \<Rightarrow> db \<Rightarrow> datetime \<Rightarrow> uuid \<Rightarrow> caller \<Rightarrow> string \<Rightarrow> nat \<Rightarrow> error + (db \<times> nat \<times> nat)" where
  "deactivate_attempts 0 d now user_id c reason ceiling = Inl (DeactivationRetryError user_id)"
| "deactivate_attempts (Suc n) d now user_id c reason ceiling =
     ebind (deactivate_in_transaction d now user_id c reason ceiling) (\<lambda>r. case r of
       None \<Rightarrow> deactivate_attempts n d now user_id c reason ceiling
     | Some result \<Rightarrow> Inr result)"

definition deactivate_user ::
  "deactivation_scan_config \<Rightarrow> db \<Rightarrow> datetime \<Rightarrow> uuid \<Rightarrow> caller \<Rightarrow> string \<Rightarrow> db \<times> (error + nat \<times> nat)" where
  "deactivate_user config d now user_id c reason =
     user_operation d now USER_DEACTIVATE c user_id reason (\<lambda>r.
       deactivate_attempts MAX_ATTEMPTS d now user_id c r (max_tenants config))"

definition reactivate_user ::
  "db \<Rightarrow> datetime \<Rightarrow> uuid \<Rightarrow> caller \<Rightarrow> string \<Rightarrow> db \<times> (error + nat \<times> nat)" where
  "reactivate_user d now user_id c reason =
     user_operation d now USER_REACTIVATE c user_id reason (\<lambda>r.
       ebind (authorize_platform_caller d c USER_REACTIVATE) (\<lambda>_.
       ebind (require_caller USER_REACTIVATE c [UserCallerType]) (\<lambda>_.
       case lock_user_is_active d user_id of
         None \<Rightarrow> Inl (PlatformSubjectNotFoundError user_id)
       | Some is_active \<Rightarrow>
           ebind (require (\<not> is_active) (InvalidUserStateError user_id ''active'')) (\<lambda>_.
           let (d1, sessions_revoked) = revoke_sessions d now user_id;
               (d2, keys) = revoke_user_api_keys_in_transaction d1 now user_id;
               d3 = write_user_active user_id True d2 in
           ebind (record_success d3 now c USER_REACTIVATE user_id r) (\<lambda>d4.
           ebind (record_platform_key_revocations d4 c keys) (\<lambda>d5.
           Inr (d5, sessions_revoked, length keys)))))))"

subsection \<open>The first step of identity erasure\<close>

definition remove_identity_links_unless_enrolled_operator ::
  "db \<Rightarrow> datetime \<Rightarrow> uuid \<Rightarrow> uuid \<Rightarrow> db \<times> (error + nat \<times> nat \<times> nat)" where
  "remove_identity_links_unless_enrolled_operator d now user_id actor_user_id =
     (if unrevoked_operator_exists d user_id
      then (record_platform_refusal d now (UserCaller actor_user_id) ''platform.user.erase'' ''user''
          None (Some user_id) ''enrolled_operator'',
        Inl (EnrolledOperatorErasureError ''user.erase''))
      else (let deleted = length (filter (\<lambda>x. ei_user_id x = user_id) (external_identities d));
                d1 = d\<lparr>external_identities := delete_where (\<lambda>x. ei_user_id x = user_id)
                  (external_identities d)\<rparr>;
                (d2, unlinked, kept) = erase_platform_audit_subject d1 now user_id
            in (d2, Inr (deleted, unlinked, kept))))"

end
