(* ===== verification/Hierarchy.thy ===== *)
theory Hierarchy
  imports Directory
begin

section \<open>The tenant tree and its closure table\<close>

text \<open>
  \<open>core.tenant_ancestry\<close> is the precomputed closure of \<open>Tenant.parent_id\<close>
  (\<open>saas_os/core/tenancy/models.py\<close>): one row per tenant and ancestor, the tenant itself
  included, with the number of parent hops. This theory states that invariant against the
  parent pointers, and shows that the two recomputations of
  \<open>saas_os/core/tenancy/service.py\<close> -- the rows of a new child, and the bridge rows a move
  deletes and inserts -- keep it. \<open>climb\<close> follows the parent pointer a given number of
  times; \<open>parent_chain\<close> is the naive walk to the root that the table replaces.
\<close>

type_synonym parent_map = "uuid \<Rightarrow> uuid option"

fun climb :: "parent_map \<Rightarrow> nat \<Rightarrow> uuid \<Rightarrow> uuid option" where
  "climb P 0 t = Some t"
| "climb P (Suc n) t = (case P t of None \<Rightarrow> None | Some p \<Rightarrow> climb P n p)"

fun parent_chain :: "parent_map \<Rightarrow> nat \<Rightarrow> uuid \<Rightarrow> uuid list" where
  "parent_chain P 0 t = []"
| "parent_chain P (Suc n) t = (case P t of None \<Rightarrow> [] | Some p \<Rightarrow> p # parent_chain P n p)"

definition ancestry_row :: "uuid \<Rightarrow> uuid \<Rightarrow> nat \<Rightarrow> tenant_ancestry" where
  "ancestry_row t a n = \<lparr>an_tenant_id = t, an_ancestor_id = a, an_depth = n\<rparr>"

subsection \<open>The recomputations\<close>

text \<open>The self row of a new tenant and its copies of the parent's rows.\<close>

definition child_rows :: "uuid \<Rightarrow> tenant_ancestry list \<Rightarrow> tenant_ancestry list" where
  "child_rows t parent_ancestry = ancestry_row t t 0 #
     map (\<lambda>r. ancestry_row t (an_ancestor_id r) (an_depth r + 1)) parent_ancestry"

definition rows_of :: "uuid \<Rightarrow> tenant_ancestry list \<Rightarrow> tenant_ancestry list" where
  "rows_of t rows = filter (\<lambda>r. an_tenant_id r = t) rows"

definition subtree_rows :: "uuid \<Rightarrow> tenant_ancestry list \<Rightarrow> tenant_ancestry list" where
  "subtree_rows t rows = filter (\<lambda>r. an_ancestor_id r = t) rows"

definition subtree_ids :: "uuid \<Rightarrow> tenant_ancestry list \<Rightarrow> uuid list" where
  "subtree_ids t rows = map an_tenant_id (subtree_rows t rows)"

definition is_bridge :: "uuid list \<Rightarrow> tenant_ancestry \<Rightarrow> bool" where
  "is_bridge ids r = (an_tenant_id r \<in> set ids \<and> an_ancestor_id r \<notin> set ids)"

definition new_bridges ::
  "tenant_ancestry list \<Rightarrow> tenant_ancestry list \<Rightarrow> tenant_ancestry list" where
  "new_bridges new_parent_ancestry subtree =
     map (\<lambda>(parent_row, node_row). ancestry_row (an_tenant_id node_row) (an_ancestor_id parent_row)
         (an_depth parent_row + 1 + an_depth node_row))
       (List.product new_parent_ancestry subtree)"

definition moved_rows ::
  "uuid \<Rightarrow> tenant_ancestry list \<Rightarrow> tenant_ancestry list \<Rightarrow> tenant_ancestry list" where
  "moved_rows t new_parent_ancestry rows =
     delete_where (is_bridge (subtree_ids t rows)) rows @
       new_bridges new_parent_ancestry (subtree_rows t rows)"

text \<open>\<open>max(row.depth for row in rows)\<close>; the code never takes it of an empty sequence.\<close>

definition max_depth_of :: "tenant_ancestry list \<Rightarrow> nat" where
  "max_depth_of rows = fold max (map an_depth rows) 0"

subsection \<open>The closure invariant\<close>

definition row_key :: "tenant_ancestry \<Rightarrow> uuid \<times> uuid" where
  "row_key r = (an_tenant_id r, an_ancestor_id r)"

definition closure_of :: "parent_map \<Rightarrow> uuid set \<Rightarrow> tenant_ancestry list \<Rightarrow> bool" where
  "closure_of P E rows = (distinct (map row_key rows) \<and>
     (\<forall>t p. t \<in> E \<longrightarrow> P t = Some p \<longrightarrow> p \<in> E) \<and>
     (\<forall>t a n. ancestry_row t a n \<in> set rows \<longleftrightarrow> t \<in> E \<and> climb P n t = Some a))"

lemma ancestry_row_simps [simp]:
  "an_tenant_id (ancestry_row t a n) = t" "an_ancestor_id (ancestry_row t a n) = a"
  "an_depth (ancestry_row t a n) = n" "row_key (ancestry_row t a n) = (t, a)"
  by (simp_all add: ancestry_row_def row_key_def)

lemma ancestry_row_inject [simp]:
  "ancestry_row t a n = ancestry_row t' a' n' \<longleftrightarrow> t = t' \<and> a = a' \<and> n = n'"
  by (simp add: ancestry_row_def)

lemma ancestry_row_surj [simp]: "ancestry_row (an_tenant_id r) (an_ancestor_id r) (an_depth r) = r"
  by (simp add: ancestry_row_def)

lemma ex_row:
  "(\<exists>r \<in> set rows. Q (an_tenant_id r) (an_ancestor_id r) (an_depth r)) \<longleftrightarrow>
    (\<exists>t a n. ancestry_row t a n \<in> set rows \<and> Q t a n)" (is "?l \<longleftrightarrow> ?r")
proof
  assume ?l
  then show ?r by (metis ancestry_row_surj)
next
  assume ?r
  then show ?l by (metis ancestry_row_simps(1-3))
qed

lemma climb_add: "climb P (m + n) t = (case climb P m t of None \<Rightarrow> None | Some a \<Rightarrow> climb P n a)"
  by (induction m arbitrary: t) (auto split: option.splits)

lemma climb_Suc_end: "climb P (Suc n) t = (case climb P n t of None \<Rightarrow> None | Some a \<Rightarrow> P a)"
proof -
  have "climb P 1 a = P a" for a by (auto split: option.splits)
  then show ?thesis using climb_add [of P n 1 t] by (auto split: option.splits)
qed

lemma climb_defined_below: "climb P n t \<noteq> None \<Longrightarrow> m \<le> n \<Longrightarrow> climb P m t \<noteq> None"
  using climb_add [of P m "n - m" t] by (cases "climb P m t") auto

lemma climb_in:
  assumes "closure_of P E rows" "t \<in> E" "climb P n t = Some a"
  shows "a \<in> E"
  using assms(2,3)
proof (induction n arbitrary: t)
  case (Suc n)
  obtain p where p: "P t = Some p" "climb P n p = Some a"
    using Suc.prems(2) by (auto split: option.splits)
  have "p \<in> E" using assms(1) Suc.prems(1) p(1) by (auto simp: closure_of_def)
  then show ?case by (rule Suc.IH) (rule p(2))
qed simp

lemma closure_row:
  "closure_of P E rows \<Longrightarrow> ancestry_row t a n \<in> set rows \<longleftrightarrow> t \<in> E \<and> climb P n t = Some a"
  by (simp add: closure_of_def)

lemma closure_row': "closure_of P E rows \<Longrightarrow> r \<in> set rows \<Longrightarrow>
    an_tenant_id r \<in> E \<and> climb P (an_depth r) (an_tenant_id r) = Some (an_ancestor_id r)"
  using closure_row [of P E rows "an_tenant_id r" "an_ancestor_id r" "an_depth r"] by simp

text \<open>The primary key of the table makes the tree acyclic, and the distance unique.\<close>

lemma climb_unique:
  assumes "closure_of P E rows" "t \<in> E" "climb P n t = Some a" "climb P m t = Some a"
  shows "n = m"
proof -
  have "ancestry_row t a n \<in> set rows" "ancestry_row t a m \<in> set rows"
    using assms by (simp_all add: closure_row)
  moreover have "inj_on row_key (set rows)"
    using assms(1) by (simp add: closure_of_def distinct_map)
  ultimately have "ancestry_row t a n = ancestry_row t a m"
    by (metis ancestry_row_simps(4) inj_onD)
  then show ?thesis by simp
qed

lemma acyclic_climb:
  "closure_of P E rows \<Longrightarrow> t \<in> E \<Longrightarrow> climb P n t = Some t \<Longrightarrow> n = 0"
  using climb_unique [of P E rows t n t 0] by simp

lemma set_subtree_ids:
  assumes "closure_of P E rows"
  shows "s \<in> set (subtree_ids t rows) \<longleftrightarrow> s \<in> E \<and> (\<exists>k. climb P k s = Some t)"
proof -
  have "s \<in> set (subtree_ids t rows) \<longleftrightarrow> (\<exists>k. ancestry_row s t k \<in> set rows)"
    unfolding subtree_ids_def subtree_rows_def set_map set_filter image_iff
    using ex_row [of rows "\<lambda>s' a n. a = t \<and> s = s'"] by auto
  with closure_row [OF assms] show ?thesis by auto
qed

subsection \<open>A new tenant\<close>

lemma climb_outside:
  assumes "\<And>k. k < n \<Longrightarrow> climb P k s \<noteq> Some t"
  shows "climb (P(t := x)) n s = climb P n s"
  using assms
proof (induction n arbitrary: s)
  case (Suc n)
  have "s \<noteq> t" using Suc.prems [of 0] by simp
  moreover have "climb (P(t := x)) n p = climb P n p" if "P s = Some p" for p
    by (rule Suc.IH) (use Suc.prems [of "Suc k" for k] that in auto)
  ultimately show ?case by (cases "P s") (simp_all del: fun_upd_apply add: fun_upd_other)
qed simp

lemma climb_old:
  assumes "closure_of P E rows" "new \<notin> E" "s \<in> E"
  shows "climb (P(new := x)) n s = climb P n s"
  by (rule climb_outside) (use assms climb_in in blast)

lemma closure_distinct_rows_of:
  assumes "closure_of P E rows"
  shows "distinct (map an_ancestor_id (rows_of p rows))"
proof -
  have "distinct (map row_key (rows_of p rows))"
    using assms by (simp add: rows_of_def closure_of_def distinct_map_filter)
  moreover have "map row_key (rows_of p rows) = map (Pair p) (map an_ancestor_id (rows_of p rows))"
    by (simp add: rows_of_def row_key_def)
  ultimately show ?thesis using distinct_map by metis
qed

theorem closure_create_child:
  assumes "closure_of P E rows" "new \<notin> E" "p \<in> E"
  shows "closure_of (P(new := Some p)) (insert new E) (rows @ child_rows new (rows_of p rows))"
    (is "closure_of ?P ?E ?rows")
  unfolding closure_of_def
proof (intro conjI allI)
  have old: "an_tenant_id r \<noteq> new \<and> an_ancestor_id r \<noteq> new" if "r \<in> set rows" for r
    using closure_row' [OF assms(1) that] climb_in [OF assms(1)] assms(2) by auto
  have keys: "map row_key (child_rows new (rows_of p rows)) =
      map (Pair new) (new # map an_ancestor_id (rows_of p rows))"
    by (simp add: child_rows_def)
  have "distinct (new # map an_ancestor_id (rows_of p rows))"
    using closure_distinct_rows_of [OF assms(1)] old by (auto simp: rows_of_def)
  then have "distinct (map row_key (child_rows new (rows_of p rows)))"
    unfolding keys by (simp only: distinct_map [of "Pair new"]) (simp add: inj_on_def)
  moreover have "distinct (map row_key rows)" using assms(1) by (simp add: closure_of_def)
  ultimately show "distinct (map row_key ?rows)"
    using old by (auto simp: child_rows_def row_key_def)
  fix t q
  show "t \<in> ?E \<longrightarrow> ?P t = Some q \<longrightarrow> q \<in> ?E"
    using assms by (auto simp: closure_of_def)
next
  fix t a n
  have old: "climb ?P k s = climb P k s" if "s \<in> E" for s k by (rule climb_old [OF assms(1,2) that])
  show "ancestry_row t a n \<in> set ?rows \<longleftrightarrow> t \<in> ?E \<and> climb ?P n t = Some a"
  proof (cases "t = new")
    case False
    with old show ?thesis by (auto simp: child_rows_def closure_row [OF assms(1)])
  next
    case True
    have "ancestry_row new a n \<in> set (child_rows new (rows_of p rows)) \<longleftrightarrow>
        a = new \<and> n = 0 \<or> (\<exists>m. n = Suc m \<and> ancestry_row p a m \<in> set rows)"
      using ex_row [of rows "\<lambda>t' a' m. t' = p \<and> a' = a \<and> n = Suc m"]
      by (auto simp: child_rows_def rows_of_def image_iff)
    moreover have "ancestry_row new a n \<notin> set rows"
      using assms(2) by (simp add: closure_row [OF assms(1)])
    ultimately show ?thesis
      using True assms(3) old [OF assms(3)] by (cases n) (auto simp: closure_row [OF assms(1)])
  qed
qed

lemma closure_create_root:
  assumes "closure_of P E rows" "new \<notin> E"
  shows "closure_of (P(new := None)) (insert new E) (rows @ child_rows new [])"
  unfolding closure_of_def
proof (intro conjI allI)
  have old: "an_tenant_id r \<noteq> new" if "r \<in> set rows" for r
    using closure_row' [OF assms(1) that] assms(2) by auto
  show "distinct (map row_key (rows @ child_rows new []))"
    using assms(1) old by (auto simp: child_rows_def closure_of_def row_key_def)
  fix t q
  show "t \<in> insert new E \<longrightarrow> (P(new := None)) t = Some q \<longrightarrow> q \<in> insert new E"
    using assms by (auto simp: closure_of_def)
next
  fix t a n
  have "climb (P(new := None)) n t = climb P n t" if "t \<in> E" by (rule climb_old [OF assms that])
  then show "ancestry_row t a n \<in> set (rows @ child_rows new []) \<longleftrightarrow>
      t \<in> insert new E \<and> climb (P(new := None)) n t = Some a"
    using assms(2) by (cases n) (auto simp: child_rows_def closure_row [OF assms(1)])
qed

subsection \<open>A moved subtree\<close>

text \<open>
  Moving \<open>t\<close> beneath \<open>np\<close>, or to the root: a tenant outside the subtree keeps its chain; one
  inside keeps it up to \<open>t\<close> and continues with the chain of \<open>np\<close>.
\<close>

lemma climb_other:
  assumes "s \<notin> set (subtree_ids t rows)" "closure_of P E rows" "s \<in> E"
  shows "climb (P(t := np)) n s = climb P n s"
  by (rule climb_outside) (use assms set_subtree_ids [OF assms(2)] in blast)

lemma climb_within:
  assumes "closure_of P E rows" "s \<in> E" "climb P k s = Some t" "n \<le> k"
  shows "climb (P(t := np)) n s = climb P n s"
proof (rule climb_outside)
  fix j
  assume "j < n"
  then show "climb P j s \<noteq> Some t"
    using climb_unique [OF assms(1,2,3), of j] assms(4) by auto
qed

lemma climb_beyond:
  assumes "closure_of P E rows" "s \<in> E" "climb P k s = Some t"
  shows "climb (P(t := np)) (Suc (k + m)) s =
    (case np of None \<Rightarrow> None | Some q \<Rightarrow> climb (P(t := np)) m q)"
proof -
  have "climb (P(t := np)) k s = Some t"
    using climb_within [OF assms order_refl] assms(3) by simp
  then show ?thesis
    using climb_add [of "P(t := np)" k "Suc m" s] by (simp del: fun_upd_apply add: fun_upd_same)
qed

lemma within_subtree:
  assumes "closure_of P E rows" "t \<in> E" "s \<in> E" "climb P k s = Some t" "climb P n s = Some a"
  shows "a \<in> set (subtree_ids t rows) \<longleftrightarrow> n \<le> k"
proof
  assume "n \<le> k"
  then have "climb P (k - n) a = Some t"
    using climb_add [of P n "k - n" s] assms(4,5) by simp
  with climb_in [OF assms(1,3,5)] show "a \<in> set (subtree_ids t rows)"
    by (auto simp: set_subtree_ids [OF assms(1)])
next
  assume "a \<in> set (subtree_ids t rows)"
  then obtain j where "climb P j a = Some t" by (auto simp: set_subtree_ids [OF assms(1)])
  then have "climb P (n + j) s = Some t" using climb_add [of P n j s] assms(5) by simp
  with climb_unique [OF assms(1,3,4)] show "n \<le> k" by simp
qed

lemma mem_moved_rows:
  "ancestry_row s a n \<in> set (moved_rows t np_rows rows) \<longleftrightarrow>
    ancestry_row s a n \<in> set rows \<and> (s \<in> set (subtree_ids t rows) \<longrightarrow> a \<in> set (subtree_ids t rows)) \<or>
    (\<exists>m k. n = Suc (m + k) \<and> ancestry_row s t k \<in> set rows \<and>
      (\<exists>r \<in> set np_rows. an_ancestor_id r = a \<and> an_depth r = m))"
proof -
  have "ancestry_row s a n \<in> set (new_bridges np_rows (subtree_rows t rows)) \<longleftrightarrow>
      (\<exists>r \<in> set np_rows. \<exists>r' \<in> set rows. an_ancestor_id r' = t \<and> an_tenant_id r' = s \<and>
        an_ancestor_id r = a \<and> n = Suc (an_depth r + an_depth r'))"
    by (auto simp: new_bridges_def subtree_rows_def image_iff)
  also have "\<dots> \<longleftrightarrow> (\<exists>r' \<in> set rows. an_ancestor_id r' = t \<and> an_tenant_id r' = s \<and>
        (\<exists>r \<in> set np_rows. an_ancestor_id r = a \<and> n = Suc (an_depth r + an_depth r')))"
    by blast
  also have "\<dots> \<longleftrightarrow> (\<exists>m k. n = Suc (m + k) \<and> ancestry_row s t k \<in> set rows \<and>
      (\<exists>r \<in> set np_rows. an_ancestor_id r = a \<and> an_depth r = m))"
    using ex_row [of rows "\<lambda>s' t' k. t' = t \<and> s' = s \<and>
      (\<exists>r \<in> set np_rows. an_ancestor_id r = a \<and> n = Suc (an_depth r + k))"] by auto
  finally show ?thesis by (auto simp: moved_rows_def set_delete_where is_bridge_def)
qed

lemma moved_rows_distinct:
  assumes "closure_of P E rows" "distinct (map an_ancestor_id np_rows)"
    and "\<And>r. r \<in> set np_rows \<Longrightarrow> an_ancestor_id r \<notin> set (subtree_ids t rows)"
  shows "distinct (map row_key (moved_rows t np_rows rows))"
proof -
  have keys: "map row_key (new_bridges np_rows (subtree_rows t rows)) =
      map (\<lambda>(a, s). (s, a)) (List.product (map an_ancestor_id np_rows) (subtree_ids t rows))"
    by (simp add: new_bridges_def subtree_ids_def product_concat_map map_concat comp_def)
  have "distinct (map row_key (subtree_rows t rows))"
    using assms(1) by (simp add: subtree_rows_def closure_of_def distinct_map_filter)
  moreover have "map row_key (subtree_rows t rows) = map (\<lambda>s. (s, t)) (subtree_ids t rows)"
    by (simp add: subtree_rows_def subtree_ids_def row_key_def)
  ultimately have "distinct (subtree_ids t rows)" using distinct_map by metis
  then have "distinct (map row_key (new_bridges np_rows (subtree_rows t rows)))"
    unfolding keys using distinct_product [OF assms(2)]
    by (simp only: distinct_map [of "\<lambda>(a, s). (s, a)"]) (auto simp: inj_on_def)
  moreover have "distinct (map row_key (delete_where (is_bridge (subtree_ids t rows)) rows))"
    using assms(1) by (simp add: delete_where_def closure_of_def distinct_map_filter)
  moreover
  have "row_key r \<notin> row_key ` set (new_bridges np_rows (subtree_rows t rows))"
    if "r \<in> set (delete_where (is_bridge (subtree_ids t rows)) rows)" for r
    using that assms(3)
    by (auto simp: set_delete_where is_bridge_def row_key_def new_bridges_def subtree_ids_def)
      (metis imageI)
  then have "row_key ` set (delete_where (is_bridge (subtree_ids t rows)) rows) \<inter>
      row_key ` set (new_bridges np_rows (subtree_rows t rows)) = {}"
    by blast
  ultimately show ?thesis
    unfolding moved_rows_def map_append distinct_append set_map by blast
qed

theorem closure_move:
  assumes "closure_of P E rows" "t \<in> E"
    and "\<And>q. np = Some q \<Longrightarrow> q \<in> E \<and> q \<notin> set (subtree_ids t rows)"
  shows "closure_of (P(t := np)) E
    (moved_rows t (case np of None \<Rightarrow> [] | Some q \<Rightarrow> rows_of q rows) rows)"
    (is "closure_of ?P E (moved_rows t ?np rows)")
  unfolding closure_of_def
proof (intro conjI allI)
  have "distinct (map an_ancestor_id ?np)"
    using closure_distinct_rows_of [OF assms(1)] by (simp split: option.splits)
  moreover have "an_ancestor_id r \<notin> set (subtree_ids t rows)" if r: "r \<in> set ?np" for r
  proof
    obtain q where q: "np = Some q" "r \<in> set rows" "an_tenant_id r = q"
      using r by (auto simp: rows_of_def split: option.splits)
    assume "an_ancestor_id r \<in> set (subtree_ids t rows)"
    then obtain k where "climb P k (an_ancestor_id r) = Some t"
      by (auto simp: set_subtree_ids [OF assms(1)])
    then have "climb P (an_depth r + k) q = Some t"
      using closure_row' [OF assms(1) q(2)] q(3) by (simp add: climb_add)
    with assms(3) [OF q(1)] show False by (auto simp: set_subtree_ids [OF assms(1)])
  qed
  ultimately show "distinct (map row_key (moved_rows t ?np rows))"
    by (rule moved_rows_distinct [OF assms(1)])
next
  fix s p
  show "s \<in> E \<longrightarrow> ?P s = Some p \<longrightarrow> p \<in> E"
    using assms by (auto simp: closure_of_def)
next
  fix s a n
  have np_rows: "(\<exists>r \<in> set ?np. an_ancestor_id r = a \<and> an_depth r = m) \<longleftrightarrow>
      (\<exists>q. np = Some q \<and> climb P m q = Some a)" for m
    using assms(3) ex_row [of rows "\<lambda>t' a' m'. np = Some t' \<and> a' = a \<and> m' = m"]
    by (auto simp: rows_of_def closure_row [OF assms(1)] split: option.splits)
  have np_climb: "climb ?P m q = climb P m q" if "np = Some q" for m q
    using climb_other [OF _ assms(1)] assms(3) [OF that] by simp
  show "ancestry_row s a n \<in> set (moved_rows t ?np rows) \<longleftrightarrow> s \<in> E \<and> climb ?P n s = Some a"
  proof (cases "s \<in> set (subtree_ids t rows)")
    case False
    then have "ancestry_row s t k \<notin> set rows" for k
      by (auto simp: closure_row [OF assms(1)] set_subtree_ids [OF assms(1)])
    with False climb_other [OF False assms(1)] show ?thesis
      by (auto simp: mem_moved_rows closure_row [OF assms(1)])
  next
    case True
    then obtain k where k: "s \<in> E" "climb P k s = Some t" by (auto simp: set_subtree_ids [OF assms(1)])
    have kept: "climb P n s = Some a \<and> a \<in> set (subtree_ids t rows) \<longleftrightarrow>
        n \<le> k \<and> climb P n s = Some a"
      using within_subtree [OF assms(1,2) k] by blast
    have dist: "climb P j s = Some t \<longleftrightarrow> j = k" for j
      using climb_unique [OF assms(1) k, of j] k(2) by blast
    have "ancestry_row s a n \<in> set (moved_rows t ?np rows) \<longleftrightarrow>
        n \<le> k \<and> climb P n s = Some a \<or>
        (\<exists>m. n = Suc (m + k) \<and> (\<exists>q. np = Some q \<and> climb P m q = Some a))"
      unfolding mem_moved_rows np_rows closure_row [OF assms(1)] using True k(1) kept dist by auto
    also have "\<dots> \<longleftrightarrow> climb ?P n s = Some a" (is "?l \<longleftrightarrow> _")
    proof (cases "n \<le> k")
      case True
      then show ?thesis using climb_within [OF assms(1) k True] by auto
    next
      case False
      then obtain m where m: "n = Suc (k + m)" using less_imp_Suc_add not_le by blast
      then have "n = Suc (m' + k) \<longleftrightarrow> m' = m" for m' by auto
      with False have "?l \<longleftrightarrow> (\<exists>q. np = Some q \<and> climb P m q = Some a)" by simp
      also have "\<dots> \<longleftrightarrow> climb ?P n s = Some a"
      proof (cases np)
        case None
        then show ?thesis using climb_beyond [OF assms(1) k, of np m] m by (simp del: climb.simps)
      next
        case (Some q)
        then show ?thesis using climb_beyond [OF assms(1) k, of np m] m np_climb [OF Some, of m]
          by (simp del: climb.simps fun_upd_apply)
      qed
      finally show ?thesis .
    qed
    finally show ?thesis using k(1) by simp
  qed
qed

subsection \<open>The chain to the root\<close>

definition parent_of :: "db \<Rightarrow> parent_map" where
  "parent_of d t = (case find_tenant d t of None \<Rightarrow> None | Some r \<Rightarrow> tn_parent_id r)"

definition tenant_ids :: "db \<Rightarrow> uuid set" where
  "tenant_ids d = tn_id ` set (tenants d)"

definition hierarchy_ok :: "db \<Rightarrow> bool" where
  "hierarchy_ok d = (distinct (map tn_id (tenants d)) \<and>
     closure_of (parent_of d) (tenant_ids d) (tenant_ancestries d))"

definition depth_bounded :: "nat \<Rightarrow> db \<Rightarrow> bool" where
  "depth_bounded m d = (\<forall>r \<in> set (tenant_ancestries d). an_depth r \<le> m)"

lemma climb_top:
  assumes "closure_of P E rows" "t \<in> E"
  obtains n where "climb P n t \<noteq> None" "climb P (Suc n) t = None"
proof -
  let ?D = "{n. climb P n t \<noteq> None}"
  have "?D \<subseteq> an_depth ` set rows"
  proof
    fix n
    assume "n \<in> ?D"
    then obtain a where "climb P n t = Some a" by auto
    then have "ancestry_row t a n \<in> set rows" using closure_row [OF assms(1)] assms(2) by simp
    then show "n \<in> an_depth ` set rows" by (metis ancestry_row_simps(3) imageI)
  qed
  then have fin: "finite ?D" by (rule finite_subset) simp
  moreover have "0 \<in> ?D" by simp
  ultimately have "Max ?D \<in> ?D" using Max_in by blast
  moreover have "Suc (Max ?D) \<notin> ?D" using Max_ge [OF fin, of "Suc (Max ?D)"] by (meson Suc_n_not_le_n)
  ultimately show ?thesis using that unfolding mem_Collect_eq by blast
qed

lemma climb_defined_iff:
  assumes "climb P n t \<noteq> None" "climb P (Suc n) t = None"
  shows "climb P m t \<noteq> None \<longleftrightarrow> m \<le> n"
  using climb_defined_below [OF assms(1), of m] climb_defined_below [of P m t "Suc n"] assms(2)
  by (metis not_less_eq_eq)

lemma parent_chain_climb:
  "climb P n t \<noteq> None \<Longrightarrow> climb P (Suc n) t = None \<Longrightarrow> n \<le> m \<Longrightarrow>
    parent_chain P m t = map (\<lambda>k. the (climb P k t)) [1..<Suc n]"
proof (induction m arbitrary: n t)
  case (Suc m)
  show ?case
  proof (cases "P t")
    case None
    with Suc.prems(1) have "n = 0" by (cases n) auto
    with None show ?thesis by simp
  next
    case (Some p)
    then obtain n' where n': "n = Suc n'" using Suc.prems(2) by (cases n) auto
    have "parent_chain P m p = map (\<lambda>k. the (climb P k p)) [1..<Suc n']"
      by (rule Suc.IH) (use Suc.prems Some n' in auto)
    moreover have "[1..<Suc n] = 1 # map Suc [1..<Suc n']"
      unfolding n' map_Suc_upt by (simp add: upt_conv_Cons)
    ultimately show ?thesis using Some by (simp add: comp_def)
  qed
qed simp

lemma closure_depth_small:
  assumes "closure_of P E rows" "finite E" "t \<in> E" "climb P n t \<noteq> None"
  shows "n < card E"
proof -
  let ?f = "\<lambda>k. the (climb P k t)"
  have f: "climb P k t = Some (?f k)" if "k \<le> n" for k
    using climb_defined_below [OF assms(4) that] by auto
  have "inj_on ?f {..n}"
    by (rule inj_onI) (metis assms(1,3) atMost_iff climb_unique f)
  moreover have "?f ` {..n} \<subseteq> E" using f climb_in [OF assms(1,3)] by auto
  ultimately have "card {..n} \<le> card E" by (metis assms(2) card_image card_mono)
  then show ?thesis by simp
qed

lemma ancestor_rows_sorted:
  assumes "closure_of P E rows" "t \<in> E" "climb P n t \<noteq> None" "climb P (Suc n) t = None"
  shows "map an_ancestor_id (sort_key an_depth (filter (\<lambda>r. an_tenant_id r = t \<and> an_depth r > 0) rows))
    = map (\<lambda>k. the (climb P k t)) [1..<Suc n]" (is "map _ ?s = _")
proof -
  let ?f = "filter (\<lambda>r. an_tenant_id r = t \<and> an_depth r > 0) rows"
  have mem: "r \<in> set ?f \<longleftrightarrow> (\<exists>k \<in> {1..n}. climb P k t = Some (an_ancestor_id r) \<and>
      an_depth r = k \<and> an_tenant_id r = t)" for r
    using closure_row [OF assms(1), of "an_tenant_id r" "an_ancestor_id r" "an_depth r"] assms(2)
      climb_defined_iff [OF assms(3,4), of "an_depth r"] by auto
  have "inj_on an_depth (set ?f)"
  proof (rule inj_onI)
    fix r r'
    assume "r \<in> set ?f" "r' \<in> set ?f" "an_depth r = an_depth r'"
    then show "r = r'" unfolding mem by (metis ancestry_row_surj option.inject)
  qed
  moreover have "distinct rows" using assms(1) by (auto simp: closure_of_def distinct_map)
  ultimately have "distinct (map an_depth ?s)" by (simp add: distinct_map)
  moreover have "set (map an_depth ?s) = {1..n}"
  proof
    show "set (map an_depth ?s) \<subseteq> {1..n}" by (auto simp: mem simp del: set_filter)
    show "{1..n} \<subseteq> set (map an_depth ?s)"
    proof
      fix k
      assume k: "k \<in> {1..n}"
      then obtain a where "climb P k t = Some a"
        using climb_defined_iff [OF assms(3,4), of k] by auto
      with k have "ancestry_row t a k \<in> set ?f" unfolding mem by auto
      then have "an_depth (ancestry_row t a k) \<in> an_depth ` set ?f" by (rule imageI)
      then show "k \<in> set (map an_depth ?s)" by simp
    qed
  qed
  moreover have "sorted (map an_depth ?s)" by (rule sorted_sort_key)
  ultimately have depths: "map an_depth ?s = [1..<Suc n]"
    by (intro sorted_distinct_set_unique) (simp_all add: atLeastLessThanSuc_atLeastAtMost del: upt_Suc)
  have "an_ancestor_id r = the (climb P (an_depth r) t)" if "r \<in> set ?s" for r
    using that mem [of r] by (auto simp del: set_filter)
  then have "map an_ancestor_id ?s = map (\<lambda>k. the (climb P k t)) (map an_depth ?s)" by simp
  then show ?thesis unfolding depths .
qed

theorem ancestor_chain_walks:
  assumes "hierarchy_ok d"
  shows "get_ancestor_chain d t = parent_chain (parent_of d) (length (tenants d)) t"
proof (cases "t \<in> tenant_ids d")
  case True
  have c: "closure_of (parent_of d) (tenant_ids d) (tenant_ancestries d)"
    using assms by (simp add: hierarchy_ok_def)
  obtain n where n: "climb (parent_of d) n t \<noteq> None" "climb (parent_of d) (Suc n) t = None"
    by (rule climb_top [OF c True])
  have "card (tenant_ids d) \<le> length (tenants d)"
    unfolding tenant_ids_def using card_image_le card_length by (metis List.finite_set le_trans)
  moreover have "n < card (tenant_ids d)"
    by (rule closure_depth_small [OF c _ True n(1)]) (simp add: tenant_ids_def)
  ultimately have "parent_chain (parent_of d) (length (tenants d)) t =
      map (\<lambda>k. the (climb (parent_of d) k t)) [1..<Suc n]"
    by (intro parent_chain_climb [OF n]) simp
  then show ?thesis
    unfolding get_ancestor_chain_def ancestor_rows_sorted [OF c True n] by simp
next
  case False
  then have "find_tenant d t = None"
    by (auto simp: find_tenant_def find_None_iff tenant_ids_def)
  then have "parent_of d t = None" by (simp add: parent_of_def)
  then have "parent_chain (parent_of d) m t = []" for m by (cases m) simp_all
  moreover have "an_tenant_id r \<noteq> t" if "r \<in> set (tenant_ancestries d)" for r
    using closure_row' [OF _ that] assms False by (auto simp: hierarchy_ok_def)
  ultimately show ?thesis by (simp add: get_ancestor_chain_def)
qed

subsection \<open>The depth guardrail\<close>

lemma max_depth_ge: "r \<in> set rows \<Longrightarrow> an_depth r \<le> max_depth_of rows"
proof -
  assume "r \<in> set rows"
  then have "an_depth r \<le> Max (set (0 # map an_depth rows))" by (intro Max_ge) auto
  also have "\<dots> = max_depth_of rows" by (simp only: Max.set_eq_fold max_depth_of_def)
  finally show ?thesis .
qed

lemma child_rows_depth:
  "r \<in> set (child_rows t parent_ancestry) \<Longrightarrow> an_depth r \<le> max_depth_of parent_ancestry + 1"
  by (auto simp: child_rows_def dest: max_depth_ge)

lemma moved_rows_depth:
  assumes "r \<in> set (moved_rows t np_rows rows)" "r \<notin> set rows"
  shows "an_depth r \<le> max_depth_of np_rows + 1 + max_depth_of (subtree_rows t rows)"
proof -
  obtain p n where "p \<in> set np_rows" "n \<in> set (subtree_rows t rows)"
      "an_depth r = an_depth p + 1 + an_depth n"
    using assms by (auto simp: moved_rows_def new_bridges_def set_delete_where)
  then show ?thesis using max_depth_ge [of p np_rows] max_depth_ge [of n] by fastforce
qed

text \<open>No two tenants are above each other, and none is above itself.\<close>

theorem hierarchy_acyclic:
  assumes "hierarchy_ok d" "a \<in> set (lock_ancestor_ids d b)" "b \<in> set (lock_ancestor_ids d a)"
  shows "a = b"
proof -
  have c: "closure_of (parent_of d) (tenant_ids d) (tenant_ancestries d)"
    using assms(1) by (simp add: hierarchy_ok_def)
  obtain n m where "climb (parent_of d) n b = Some a" "climb (parent_of d) m a = Some b" "b \<in> tenant_ids d"
    using assms(2,3) closure_row' [OF c] by (fastforce simp: set_lock_ancestor_ids)
  moreover from this have "climb (parent_of d) (n + m) b = Some b" by (simp add: climb_add)
  ultimately have "n = 0" using acyclic_climb [OF c, of b "n + m"] by simp
  with \<open>climb (parent_of d) n b = Some a\<close> show ?thesis by simp
qed

end
