(* ===== verification/Tenancy.thy ===== *)
theory Tenancy
  imports Hierarchy Platform_Authority Rbac_Roles
begin

section \<open>Tenants: creation, moves and lifecycle transitions\<close>

text \<open>
  The operations of \<open>saas_os/core/tenancy/service.py\<close> that change the registry and its
  hierarchy, with the authorization and evidence they share
  (\<open>saas_os/core/tenancy/authority.py\<close>). An operation returns the store and its result: a
  refusal leaves the store as it was but for the \<open>denied\<close> platform audit row that is written
  after the rollback. The configuration (\<open>saas_os/core/tenancy/config.py\<close>) is an argument.

  Shown: each operation keeps the closure table equal to the parent pointers, the tree
  acyclic and its depth within the guardrail; a transition follows the lifecycle table, so a
  closed tenant never opens again; neither a move nor a transition leaves a tenant without
  its last administrator.
\<close>

record tenancy_config =
  max_hierarchy_depth :: nat
  platform_tenant_id :: "uuid option"

subsection \<open>Authorization and evidence\<close>

definition require_lifecycle_caller :: "string \<Rightarrow> caller \<Rightarrow> error + unit" where
  "require_lifecycle_caller operation c =
     ebind (require_caller operation c ALL_CALLER_TYPES) (\<lambda>_. case c of
       ServiceAccountCaller _ _ \<Rightarrow> Inl (PlatformNotAuthorizedError operation)
     | _ \<Rightarrow> Inr ())"

definition validated_reason :: "string option \<Rightarrow> error + string option" where
  "validated_reason reason = (case reason of
     None \<Rightarrow> Inr None
   | Some r \<Rightarrow> ebind (validate_reason r) (\<lambda>value. Inr (Some value)))"

definition refusal_recorded ::
  "db \<Rightarrow> datetime \<Rightarrow> caller \<Rightarrow> string \<Rightarrow> uuid option \<Rightarrow> error + (db \<times> 'a) \<Rightarrow> db \<times> (error + 'a)" where
  "refusal_recorded d now c operation tenant_id result =
     recording_platform_refusal d now c operation ''tenant'' tenant_id None result"

text \<open>A refusal raised as an error of another family: the row is written, then \<open>e\<close> raised.\<close>

definition record_refusal ::
  "db \<Rightarrow> datetime \<Rightarrow> caller \<Rightarrow> string \<Rightarrow> uuid option \<Rightarrow> string \<Rightarrow> error \<Rightarrow> db \<times> (error + 'a)" where
  "record_refusal d now c operation tenant_id code e = (case platform_operation operation of
     Inl e' \<Rightarrow> (d, Inl e')
   | Inr spec \<Rightarrow>
       (record_platform_refusal d now c (po_audit_action spec) ''tenant'' tenant_id None code, Inl e))"

definition record_platform ::
  "db \<Rightarrow> datetime \<Rightarrow> caller \<Rightarrow> string \<Rightarrow> uuid \<Rightarrow> string option \<Rightarrow> error + db" where
  "record_platform d now c operation tenant_id reason =
     ebind (platform_operation operation) (\<lambda>spec.
     record_platform_event_in_transaction d now c (po_audit_action spec) ''tenant''
       (Some tenant_id) None (Some tenant_id) SUCCESS reason)"

definition record_tenant ::
  "db \<Rightarrow> caller \<Rightarrow> uuid \<Rightarrow> string \<Rightarrow> uuid option \<Rightarrow> error + db" where
  "record_tenant d c tenant_id action subject_tenant_id =
     record_in_transaction d c tenant_id action ''tenant''
       (Some (case subject_tenant_id of Some s \<Rightarrow> s | None \<Rightarrow> tenant_id)) SUCCESS"

definition caller_is_member_of_any :: "db \<Rightarrow> caller \<Rightarrow> uuid list \<Rightarrow> bool" where
  "caller_is_member_of_any d c ids = (case c of
     UserCaller user_id \<Rightarrow> list_ex (\<lambda>t. list_ex (\<lambda>m. tm_tenant_id m = t \<and> tm_user_id m = user_id \<and>
       tm_status m \<noteq> MEMBER_REVOKED) (tenant_memberships d)) ids
   | _ \<Rightarrow> False)"

definition holds_self_suspend :: "db \<Rightarrow> caller \<Rightarrow> uuid \<Rightarrow> error + (db \<times> bool)" where
  "holds_self_suspend d c tenant_id = (case c of
     UserCaller user_id \<Rightarrow> ebind (register_permission d ''tenant'' ''suspend'') (\<lambda>(d1, _).
       Inr (d1, holds_through_own_membership d1 user_id tenant_id ''suspend'' ''tenant''))
   | _ \<Rightarrow> Inr (d, False))"

definition passes_transition_gate ::
  "db \<Rightarrow> caller \<Rightarrow> string list \<Rightarrow> uuid \<Rightarrow> bool \<Rightarrow> error + bool" where
  "passes_transition_gate d c operations tenant_id self_service_only =
     ebind (if self_service_only then Inr False else platform_caller_could_hold_any d c operations)
       (\<lambda>could. if could then Inr True
         else if ''tenant.suspend'' \<notin> set operations \<or> caller_type_of c \<noteq> Some UserCallerType
         then Inr False
         else Inr (caller_is_member_of_any d c [tenant_id]))"

subsection \<open>Creation\<close>

definition apply_parent_rule :: "string \<Rightarrow> caller \<Rightarrow> uuid \<Rightarrow> tenant_status \<Rightarrow> error + unit" where
  "apply_parent_rule operation c parent_id parent_status =
     (if is_closed parent_status then Inl (TenantClosedError parent_id parent_status)
      else if parent_status = PENDING then Inr ()
      else if parent_status = SUSPENDED
        then Inl (TenantParentRuleError operation parent_id parent_status PARENT_SUSPENDED)
      else if parent_status = ACTIVE
        then (if caller_type_of c = Some SystemCallerType
              then Inl (TenantParentRuleError operation parent_id parent_status
                     PARENT_ACTIVE_REQUIRES_OPERATOR)
              else Inr ())
      else Inl (TenantParentRuleError operation parent_id parent_status PARENT_CLOSED))"

definition create_operation :: "uuid option \<Rightarrow> string" where
  "create_operation parent_id =
     (case parent_id of None \<Rightarrow> ''tenant.create_root'' | Some _ \<Rightarrow> ''tenant.create_child'')"

definition locked_parent_status :: "db \<Rightarrow> uuid option \<Rightarrow> error + tenant_status option" where
  "locked_parent_status d parent_id = (case parent_id of
     None \<Rightarrow> Inr None
   | Some p \<Rightarrow> (case find_tenant d p of
       None \<Rightarrow> Inl (TenantNotFoundError p)
     | Some parent \<Rightarrow> Inr (Some (tn_status parent))))"

text \<open>\<open>session.add(tenant)\<close> and its flush: the name column holds 255 characters.\<close>

definition insert_tenant :: "db \<Rightarrow> string \<Rightarrow> uuid option \<Rightarrow> error + (db \<times> uuid)" where
  "insert_tenant d name parent_id =
     (if length name > 255 then Inl DataError
      else (let (tenant_id, d1) = take_uuid d in
        Inr (d1\<lparr>tenants := tenants d1 @ [\<lparr>tn_id = tenant_id, tn_name = name, tn_status = PENDING,
          tn_parent_id = parent_id, tn_inherits_billing = False\<rparr>]\<rparr>, tenant_id)))"

definition check_depth :: "tenancy_config \<Rightarrow> uuid \<Rightarrow> nat \<Rightarrow> error + unit" where
  "check_depth config tenant_id resulting_depth =
     require (resulting_depth \<le> max_hierarchy_depth config)
       (TenantHierarchyDepthExceededError tenant_id resulting_depth (max_hierarchy_depth config))"

text \<open>The ancestry rows of the new tenant, after the depth check when there is a parent.\<close>

definition insert_ancestry ::
  "tenancy_config \<Rightarrow> db \<Rightarrow> uuid \<Rightarrow> uuid option \<Rightarrow> tenant_ancestry list \<Rightarrow> error + db" where
  "insert_ancestry config d tenant_id parent_id parent_ancestry =
     ebind (case parent_id of
         None \<Rightarrow> Inr ()
       | Some _ \<Rightarrow> if parent_ancestry = [] then Inl ValueError
           else check_depth config tenant_id (max_depth_of parent_ancestry + 1)) (\<lambda>_.
     Inr (d\<lparr>tenant_ancestries := tenant_ancestries d @ child_rows tenant_id parent_ancestry\<rparr>))"

definition record_creation ::
  "db \<Rightarrow> datetime \<Rightarrow> caller \<Rightarrow> uuid \<Rightarrow> uuid option \<Rightarrow> error + db" where
  "record_creation d now c tenant_id parent_id =
     ebind (record_platform d now c (create_operation parent_id) tenant_id None) (\<lambda>d1.
     ebind (record_tenant d1 c tenant_id ''tenant.create'' None) (\<lambda>d2.
     case parent_id of
       None \<Rightarrow> Inr d2
     | Some p \<Rightarrow> record_tenant d2 c p ''tenant.child_attach'' (Some tenant_id)))"

definition create_in_transaction ::
  "tenancy_config \<Rightarrow> db \<Rightarrow> datetime \<Rightarrow> string \<Rightarrow> uuid option \<Rightarrow> caller \<Rightarrow> error + (db \<times> uuid)" where
  "create_in_transaction config d now name parent_id c =
     ebind (locked_parent_status d parent_id) (\<lambda>parent_status.
     ebind (authorize_platform_caller d c (create_operation parent_id)) (\<lambda>_.
     ebind (require_caller (create_operation parent_id) c [UserCallerType, SystemCallerType]) (\<lambda>_.
     ebind (case (parent_id, parent_status) of
         (Some p, Some status) \<Rightarrow>
           ebind (apply_parent_rule (create_operation parent_id) c p status) (\<lambda>_.
           Inr (rows_of p (tenant_ancestries d)))
       | _ \<Rightarrow> Inr []) (\<lambda>parent_ancestry.
     ebind (insert_tenant d name parent_id) (\<lambda>(d1, tenant_id).
     ebind (insert_ancestry config d1 tenant_id parent_id parent_ancestry) (\<lambda>d2.
     ebind (record_creation d2 now c tenant_id parent_id) (\<lambda>d3.
     Inr (d3, tenant_id))))))))"

definition create_tenant ::
  "tenancy_config \<Rightarrow> db \<Rightarrow> datetime \<Rightarrow> string \<Rightarrow> uuid option \<Rightarrow> caller \<Rightarrow> db \<times> (error + uuid)" where
  "create_tenant config d now name parent_id c =
     (case ebind (require_lifecycle_caller (create_operation parent_id) c) (\<lambda>_.
        require (\<not> has_control_characters name) InvalidPlatformRequestError) of
        Inl e \<Rightarrow> (d, Inl e)
      | Inr _ \<Rightarrow> (case refusal_recorded d now c (create_operation parent_id) parent_id
            (create_in_transaction config d now name parent_id c) of
          (d', Inl (TenantClosedError p status)) \<Rightarrow>
            record_refusal d' now c (create_operation parent_id) parent_id ''parent_closed''
              (TenantClosedError p status)
        | ended \<Rightarrow> ended))"

subsection \<open>Moves\<close>

definition check_new_parent ::
  "db \<Rightarrow> caller \<Rightarrow> uuid \<Rightarrow> uuid option \<Rightarrow> error + tenant_status option" where
  "check_new_parent d c tenant_id new_parent_id = (case new_parent_id of
     None \<Rightarrow> Inr None
   | Some np \<Rightarrow>
       ebind (lock_open_tenant d np) (\<lambda>parent.
       ebind (require (\<not> list_ex (\<lambda>r. an_ancestor_id r = tenant_id \<and> an_tenant_id r = np)
           (tenant_ancestries d)) (TenantCycleError tenant_id np)) (\<lambda>_.
       ebind (require (\<not> caller_is_member_of_any d c (sort (lock_ancestor_ids d np)))
           (MoveIntoCallerHierarchyError ''tenant.move'' np)) (\<lambda>_.
       Inr (Some (tn_status parent))))))"

text \<open>The subtree's tenants, nearest the root first and then by id.\<close>

definition subtree_in_order :: "uuid \<Rightarrow> tenant_ancestry list \<Rightarrow> uuid list" where
  "subtree_in_order tenant_id rows = map an_tenant_id
     (sort_key (\<lambda>r. (an_depth r, an_tenant_id r)) (subtree_rows tenant_id rows))"

definition resulting_max_depth ::
  "uuid option \<Rightarrow> tenant_ancestry list \<Rightarrow> tenant_ancestry list \<Rightarrow> error + nat" where
  "resulting_max_depth new_parent_id new_parent_ancestry subtree =
     (if subtree = [] \<or> new_parent_id \<noteq> None \<and> new_parent_ancestry = [] then Inl ValueError
      else Inr (case new_parent_id of
          None \<Rightarrow> max_depth_of subtree
        | Some _ \<Rightarrow> max_depth_of new_parent_ancestry + 1 + max_depth_of subtree))"

definition new_parent_rows :: "uuid option \<Rightarrow> tenant_ancestry list \<Rightarrow> tenant_ancestry list" where
  "new_parent_rows new_parent_id rows =
     (case new_parent_id of None \<Rightarrow> [] | Some np \<Rightarrow> rows_of np rows)"

definition reparented :: "db \<Rightarrow> uuid \<Rightarrow> uuid option \<Rightarrow> db" where
  "reparented d tenant_id new_parent_id = d\<lparr>
     tenant_ancestries := moved_rows tenant_id (new_parent_rows new_parent_id (tenant_ancestries d))
       (tenant_ancestries d),
     tenants := update_where (\<lambda>t. tn_id t = tenant_id) (\<lambda>t. t\<lparr>tn_parent_id := new_parent_id\<rparr>)
       (tenants d)\<rparr>"

text \<open>\<open>dict.fromkeys\<close>: first occurrences, in order.\<close>

definition first_occurrences :: "'a list \<Rightarrow> 'a list" where
  "first_occurrences xs = rev (remdups (rev xs))"

fun record_tenants :: "db \<Rightarrow> caller \<Rightarrow> string \<Rightarrow> uuid \<Rightarrow> uuid list \<Rightarrow> error + db" where
  "record_tenants d c action subject [] = Inr d"
| "record_tenants d c action subject (t # ts) =
     ebind (record_tenant d c t action (Some subject)) (\<lambda>d1. record_tenants d1 c action subject ts)"

definition record_move ::
  "db \<Rightarrow> datetime \<Rightarrow> caller \<Rightarrow> uuid \<Rightarrow> uuid option \<Rightarrow> uuid option \<Rightarrow> string option \<Rightarrow> error + db" where
  "record_move d now c tenant_id old_parent_id new_parent_id reason =
     ebind (record_platform d now c ''tenant.move'' tenant_id reason) (\<lambda>d1.
     record_tenants d1 c ''tenant.move'' tenant_id (first_occurrences
       (tenant_id # List.map_filter (\<lambda>p. p) [old_parent_id, new_parent_id])))"

definition move_in_transaction ::
  "tenancy_config \<Rightarrow> db \<Rightarrow> datetime \<Rightarrow> uuid \<Rightarrow> uuid option \<Rightarrow> caller \<Rightarrow> string option
    \<Rightarrow> error + (db \<times> unit)" where
  "move_in_transaction config d now tenant_id new_parent_id c reason =
     ebind (authorize_platform_caller d c ''tenant.move'') (\<lambda>_.
     ebind (require_caller ''tenant.move'' c [UserCallerType]) (\<lambda>_.
     ebind (lock_open_tenant d tenant_id) (\<lambda>tenant.
     ebind (check_new_parent d c tenant_id new_parent_id) (\<lambda>new_parent_status.
     if tn_parent_id tenant = new_parent_id then Inr (d, ())
     else
       ebind (case (new_parent_id, new_parent_status) of
           (Some np, Some SUSPENDED) \<Rightarrow>
             Inl (TenantParentRuleError ''tenant.move'' np SUSPENDED PARENT_SUSPENDED)
         | _ \<Rightarrow> Inr ()) (\<lambda>_.
       let rows = tenant_ancestries d;
         administrators = guard_tenants d now (subtree_in_order tenant_id rows) in
       ebind (resulting_max_depth new_parent_id (new_parent_rows new_parent_id rows)
         (subtree_rows tenant_id rows)) (\<lambda>depth.
       ebind (check_depth config tenant_id depth) (\<lambda>_.
       ebind (verify (reparented d tenant_id new_parent_id) now administrators) (\<lambda>_.
       ebind (record_move (reparented d tenant_id new_parent_id) now c tenant_id
         (tn_parent_id tenant) new_parent_id reason) (\<lambda>d2.
       Inr (d2, ()))))))))))"

definition move_tenant ::
  "tenancy_config \<Rightarrow> db \<Rightarrow> datetime \<Rightarrow> uuid \<Rightarrow> uuid option \<Rightarrow> caller \<Rightarrow> string option
    \<Rightarrow> db \<times> (error + unit)" where
  "move_tenant config d now tenant_id new_parent_id c reason =
     (case ebind (require_lifecycle_caller ''tenant.move'' c) (\<lambda>_. validated_reason reason) of
        Inl e \<Rightarrow> (d, Inl e)
      | Inr value \<Rightarrow> refusal_recorded d now c ''tenant.move'' (Some tenant_id)
          (move_in_transaction config d now tenant_id new_parent_id c value))"

subsection \<open>Lifecycle transitions\<close>

definition lifecycle_edges :: "((tenant_status \<times> tenant_status) \<times> (string \<times> string option)) list" where
  "lifecycle_edges = [
     ((PENDING, ACTIVE), (''tenant.activate'', Some ''tenant.activate'')),
     ((SUSPENDED, ACTIVE), (''tenant.reactivate'', Some ''tenant.reactivate'')),
     ((ACTIVE, SUSPENDED), (''tenant.suspend'', Some ''tenant.suspend'')),
     ((PENDING, DELETED), (''tenant.delete'', Some ''tenant.delete_requested'')),
     ((ACTIVE, DELETED), (''tenant.delete'', Some ''tenant.delete_requested'')),
     ((SUSPENDED, DELETED), (''tenant.delete'', Some ''tenant.delete_requested'')),
     ((DELETED, PURGING), (''tenant.purge_transition'', None)),
     ((PURGING, PURGED), (''tenant.purge_transition'', None))]"

definition transition_operation ::
  "tenant_status \<Rightarrow> tenant_status \<Rightarrow> error + (string \<times> string option)" where
  "transition_operation current target = (case map_of lifecycle_edges (current, target) of
     None \<Rightarrow> Inl (InvalidTenantTransitionError current target)
   | Some selected \<Rightarrow> Inr selected)"

definition candidate_operations :: "tenant_status \<Rightarrow> string list" where
  "candidate_operations target = first_occurrences
     (map (\<lambda>(_, operation, _). operation) (filter (\<lambda>((_, to), _). to = target) lifecycle_edges))"

fun is_not_authorized :: "error \<Rightarrow> bool" where
  "is_not_authorized (PlatformNotAuthorizedError _) = True"
| "is_not_authorized _ = False"

fun some_candidate :: "db \<Rightarrow> caller \<Rightarrow> string list \<Rightarrow> error + bool" where
  "some_candidate d c [] = Inr False"
| "some_candidate d c (operation # candidates) = (case authorize_platform_caller d c operation of
     Inr _ \<Rightarrow> Inr True
   | Inl e \<Rightarrow> if is_not_authorized e then some_candidate d c candidates else Inl e)"

definition require_some_candidate :: "db \<Rightarrow> caller \<Rightarrow> string list \<Rightarrow> error + unit" where
  "require_some_candidate d c candidates =
     ebind (some_candidate d c candidates) (\<lambda>found.
     require found (PlatformNotAuthorizedError (hd candidates)))"

definition authorize_transition ::
  "tenancy_config \<Rightarrow> db \<Rightarrow> caller \<Rightarrow> string \<Rightarrow> uuid \<Rightarrow> string option \<Rightarrow> bool
    \<Rightarrow> error + (db \<times> bool)" where
  "authorize_transition config d c operation tenant_id reason self_service_only =
     (case (if self_service_only then Inl (PlatformNotAuthorizedError operation)
            else authorize_platform_caller d c operation) of
        Inr _ \<Rightarrow> Inr (d, False)
      | Inl e \<Rightarrow>
          if \<not> is_not_authorized e then Inl e
          else if operation \<noteq> ''tenant.suspend'' then Inl (PlatformNotAuthorizedError operation)
          else
            ebind (holds_self_suspend d c tenant_id) (\<lambda>(d1, holds).
            ebind (require holds (PlatformNotAuthorizedError operation)) (\<lambda>_.
            ebind (require (platform_tenant_id config \<noteq> Some tenant_id)
              (PlatformNotAuthorizedError operation)) (\<lambda>_.
            ebind (require (reason \<noteq> None) InvalidPlatformRequestError) (\<lambda>_.
            Inr (d1, True))))))"

text \<open>
  The decision made before the tenant is read, when the target fixes the operation; and the
  edge the tenant's status selects. An error about the tenant reaches only a caller who is
  authorized for some candidate.
\<close>

definition decide_first ::
  "tenancy_config \<Rightarrow> db \<Rightarrow> caller \<Rightarrow> string list \<Rightarrow> uuid \<Rightarrow> string option \<Rightarrow> bool
    \<Rightarrow> error + (db \<times> bool option)" where
  "decide_first config d c candidates tenant_id reason self_service =
     (if length candidates = 1
      then ebind (authorize_transition config d c (hd candidates) tenant_id reason self_service)
        (\<lambda>(d1, by_self). Inr (d1, Some by_self))
      else Inr (d, None))"

definition select_edge ::
  "db \<Rightarrow> caller \<Rightarrow> string list \<Rightarrow> bool option \<Rightarrow> uuid \<Rightarrow> tenant_status \<Rightarrow> string option
    \<Rightarrow> error + (tenant \<times> string \<times> string option)" where
  "select_edge d c candidates by_self tenant_id target expected_operation =
     (let known = (\<lambda>e. ebind (if by_self = None then require_some_candidate d c candidates
            else Inr ()) (\<lambda>_. Inl e)) in
      case find_tenant d tenant_id of
        None \<Rightarrow> known (TenantNotFoundError tenant_id)
      | Some tenant \<Rightarrow>
          if \<not> transition_allowed (tn_status tenant) target
          then known (InvalidTenantTransitionError (tn_status tenant) target)
          else ebind (transition_operation (tn_status tenant) target) (\<lambda>(operation, action).
            if expected_operation \<noteq> None \<and> expected_operation \<noteq> Some operation
            then Inl (InvalidTenantTransitionError (tn_status tenant) target)
            else Inr (tenant, operation, action)))"

definition with_status :: "db \<Rightarrow> uuid \<Rightarrow> tenant_status \<Rightarrow> db" where
  "with_status d tenant_id target = d\<lparr>tenants := update_where (\<lambda>t. tn_id t = tenant_id)
     (\<lambda>t. t\<lparr>tn_status := target\<rparr>) (tenants d)\<rparr>"

definition record_transition ::
  "db \<Rightarrow> datetime \<Rightarrow> caller \<Rightarrow> uuid \<Rightarrow> string \<Rightarrow> string option \<Rightarrow> string option \<Rightarrow> bool
    \<Rightarrow> error + db" where
  "record_transition d now c tenant_id operation tenant_action reason by_self =
     ebind (if by_self then Inr d else record_platform d now c operation tenant_id reason) (\<lambda>d1.
     case tenant_action of
       None \<Rightarrow> Inr d1
     | Some action \<Rightarrow> record_tenant d1 c tenant_id action None)"

definition apply_transition ::
  "tenancy_config \<Rightarrow> db \<Rightarrow> datetime \<Rightarrow> caller \<Rightarrow> uuid \<Rightarrow> tenant_status \<Rightarrow> string option
    \<Rightarrow> administrator_guard option \<Rightarrow> bool option \<Rightarrow> string \<Rightarrow> string option \<Rightarrow> error + db" where
  "apply_transition config d now c tenant_id target reason administrators by_self operation
      tenant_action =
     ebind (case by_self of
         Some b \<Rightarrow> Inr (d, b)
       | None \<Rightarrow> authorize_transition config d c operation tenant_id reason False) (\<lambda>(d1, by_self1).
     ebind (require_caller operation c [UserCallerType, SystemCallerType]) (\<lambda>_.
     ebind (case administrators of
         None \<Rightarrow> Inr ()
       | Some guard \<Rightarrow> verify (with_status d1 tenant_id target) now guard) (\<lambda>_.
     record_transition (with_status d1 tenant_id target) now c tenant_id operation tenant_action
       reason by_self1)))"

text \<open>
  The transaction, with the operation under which a refusal inside it is recorded: the one
  selected so far, or the first candidate.
\<close>

definition transition_in_transaction ::
  "tenancy_config \<Rightarrow> db \<Rightarrow> datetime \<Rightarrow> caller \<Rightarrow> uuid \<Rightarrow> tenant_status \<Rightarrow> string list
    \<Rightarrow> string option \<Rightarrow> string option \<Rightarrow> bool \<Rightarrow> string \<times> (error + db)" where
  "transition_in_transaction config d now c tenant_id target candidates expected_operation reason
      self_service =
     (let administrators = (if is_accessible_to_principals target then None
            else Some (guard_tenants d now (descendant_ids_by_depth d tenant_id))) in
      case decide_first config d c candidates tenant_id reason self_service of
        Inl e \<Rightarrow> (hd candidates, Inl e)
      | Inr (d1, by_self) \<Rightarrow>
          (case select_edge d1 c candidates by_self tenant_id target expected_operation of
             Inl e \<Rightarrow> (hd candidates, Inl e)
           | Inr (_, operation, tenant_action) \<Rightarrow>
               (operation, apply_transition config d1 now c tenant_id target reason administrators
                  by_self operation tenant_action)))"

definition narrowed_candidates ::
  "tenant_status \<Rightarrow> string option \<Rightarrow> bool \<Rightarrow> error + string list" where
  "narrowed_candidates target expected_operation self_service =
     (let candidates = candidate_operations target in
      if candidates = [] then Inl InvalidPlatformRequestError
      else ebind (case expected_operation of
          None \<Rightarrow> Inr candidates
        | Some expected \<Rightarrow> if expected \<in> set candidates then Inr [expected]
            else Inl InvalidPlatformRequestError) (\<lambda>narrowed.
        if self_service \<and> narrowed \<noteq> [''tenant.suspend''] then Inl InvalidPlatformRequestError
        else Inr narrowed))"

definition transition_tenant_status ::
  "tenancy_config \<Rightarrow> db \<Rightarrow> datetime \<Rightarrow> uuid \<Rightarrow> tenant_status \<Rightarrow> caller \<Rightarrow> string option
    \<Rightarrow> string option \<Rightarrow> bool \<Rightarrow> db \<times> (error + unit)" where
  "transition_tenant_status config d now tenant_id target c reason expected_operation self_service =
     (case ebind (require_lifecycle_caller ''tenant.transition'' c) (\<lambda>_.
        ebind (validated_reason reason) (\<lambda>value.
        ebind (narrowed_candidates target expected_operation self_service) (\<lambda>candidates.
        ebind (passes_transition_gate d c candidates tenant_id self_service) (\<lambda>passes.
        Inr (value, candidates, passes))))) of
        Inl e \<Rightarrow> (d, Inl e)
      | Inr (value, candidates, passes) \<Rightarrow>
          if \<not> passes
          then record_refusal d now c (hd candidates) (Some tenant_id) ''not_authorized''
            (PlatformNotAuthorizedError (hd candidates))
          else (case transition_in_transaction config d now c tenant_id target candidates
                  expected_operation value self_service of
              (_, Inr d') \<Rightarrow> (d', Inr ())
            | (selected, Inl e) \<Rightarrow>
                if is_not_authorized e
                then record_refusal d now c selected (Some tenant_id) ''not_authorized'' e
                else (d, Inl e)))"

subsection \<open>Registry reads\<close>

definition tenant_row_exists :: "db \<Rightarrow> uuid \<Rightarrow> bool" where
  "tenant_row_exists d tenant_id = (find_tenant d tenant_id \<noteq> None)"

definition get_platform_tenant_id :: "tenancy_config \<Rightarrow> error + uuid" where
  "get_platform_tenant_id config = (case platform_tenant_id config of
     None \<Rightarrow> Inl PlatformTenantNotConfiguredError
   | Some t \<Rightarrow> Inr t)"

definition require_platform_tenant :: "tenancy_config \<Rightarrow> db \<Rightarrow> error + tenant" where
  "require_platform_tenant config d =
     ebind (get_platform_tenant_id config) (\<lambda>t. require_open_tenant d t)"

definition tenant_job_session :: "db \<Rightarrow> uuid \<Rightarrow> (db \<Rightarrow> error + 'a) \<Rightarrow> error + 'a" where
  "tenant_job_session d tenant_id body =
     ebind (require_open_tenant d tenant_id) (\<lambda>_.
     ebind (lock_open_tenant d tenant_id) (\<lambda>_. body d))"

end
