(* ===== verification/Tenancy_Invariants.thy ===== *)
theory Tenancy_Invariants
  imports Tenancy
begin

section \<open>What the tenant operations keep\<close>

text \<open>
  The three operations as one step relation \<open>tenancy_step\<close> on the store, with a rule for each
  way a request can end; every handled request is such a step. By rule induction over it:
  the closure table stays the closure of the parent pointers, the depth guardrail holds,
  statuses move along the lifecycle table only, and no tenant other than the one being
  closed loses its last administrator.
\<close>

subsection \<open>Records of a change\<close>

definition recorded :: "db \<Rightarrow> db \<Rightarrow> bool" where
  "recorded d d' = (next_uuid d \<le> next_uuid d' \<and>
     d' = d\<lparr>next_uuid := next_uuid d', audit_log := audit_log d',
       platform_audit_subject_links := platform_audit_subject_links d',
       platform_audit_log := platform_audit_log d'\<rparr>)"

lemma recorded_refl [simp]: "recorded d d"
  by (simp add: recorded_def)

lemma recorded_trans: "recorded d1 d2 \<Longrightarrow> recorded d2 d3 \<Longrightarrow> recorded d1 d3"
  unfolding recorded_def by (cases d1, cases d2, cases d3) auto

lemma recorded_evidence: "evidence_only d d' \<Longrightarrow> recorded d d'"
  unfolding recorded_def evidence_only_def by (cases d, cases d') auto

lemma recordedD:
  assumes "recorded d d'"
  shows "tenants d' = tenants d" "tenant_ancestries d' = tenant_ancestries d" "users d' = users d"
    "tenant_memberships d' = tenant_memberships d" "next_uuid d \<le> next_uuid d'"
    "permissions d' = permissions d"
  using assms unfolding recorded_def by (cases d, cases d', auto)+

lemma recorded_can: "recorded d d' \<Longrightarrow> can d' = can d"
  unfolding recorded_def by (elim conjE ssubst) (rule can_cong; simp)

lemma recorded_administers: "recorded d d' \<Longrightarrow> administers d' = administers d"
  by (simp add: fun_eq_iff administers_def is_administrator_def recorded_can is_active_member_def
      recordedD)

lemma record_recorded:
  "record_in_transaction d c t action resource_type resource_id outcome = Inr d' \<Longrightarrow> recorded d d'"
  by (drule record_ok) (simp add: recorded_def)

lemma record_platform_recorded: "record_platform d now c operation t reason = Inr d' \<Longrightarrow> recorded d d'"
  by (auto simp: record_platform_def dest: record_platform_event_frame intro: recorded_evidence)

lemma record_tenant_recorded: "record_tenant d c t action subject = Inr d' \<Longrightarrow> recorded d d'"
  unfolding record_tenant_def by (rule record_recorded)

lemma record_tenants_recorded: "record_tenants d c action subject ts = Inr d' \<Longrightarrow> recorded d d'"
  by (induction ts arbitrary: d) (auto intro: recorded_trans dest: record_tenant_recorded)

lemma record_creation_recorded: "record_creation d now c t p = Inr d' \<Longrightarrow> recorded d d'"
  by (cases p) (auto simp: record_creation_def intro: recorded_trans
      dest!: record_platform_recorded record_tenant_recorded)

lemma record_move_recorded: "record_move d now c t old new reason = Inr d' \<Longrightarrow> recorded d d'"
  by (auto simp: record_move_def intro: recorded_trans
      dest!: record_platform_recorded record_tenants_recorded)

lemma record_transition_recorded:
  "record_transition d now c t operation action reason by_self = Inr d' \<Longrightarrow> recorded d d'"
  by (cases action) (auto simp: record_transition_def intro: recorded_trans
      dest!: record_platform_recorded record_tenant_recorded split: if_splits)

lemma record_refusal_frame:
  assumes "record_refusal d now c operation t code e = (d', r)"
  shows "recorded d d'" "\<not> is_ok r"
  using assms recorded_evidence [OF record_platform_refusal_frame]
  by (auto simp: record_refusal_def split: sum.splits)

lemma refusal_recorded_cases:
  assumes "refusal_recorded d now c operation t result = (d', r)"
  obtains (committed) a where "result = Inr (d', a)" "r = Inr a"
    | (failed) e where "r = Inl e" "recorded d d'"
  using assms recorded_evidence [OF record_platform_refusal_frame]
  by (auto simp: refusal_recorded_def recording_platform_refusal_def
      split: sum.splits option.splits)

subsection \<open>The step relation\<close>

definition created :: "db \<Rightarrow> string \<Rightarrow> uuid option \<Rightarrow> tenant_ancestry list \<Rightarrow> db" where
  "created d name parent_id parent_ancestry = d\<lparr>next_uuid := Suc (next_uuid d),
     tenants := tenants d @ [\<lparr>tn_id = next_uuid d, tn_name = name, tn_status = PENDING,
       tn_parent_id = parent_id, tn_inherits_billing = False\<rparr>],
     tenant_ancestries := tenant_ancestries d @ child_rows (next_uuid d) parent_ancestry\<rparr>"

inductive tenancy_step :: "tenancy_config \<Rightarrow> datetime \<Rightarrow> db \<Rightarrow> db \<Rightarrow> bool"
  for config :: tenancy_config and now :: datetime where
  nothing: "recorded d d' \<Longrightarrow> tenancy_step config now d d'"
| root: "recorded (created d name None []) d' \<Longrightarrow> tenancy_step config now d d'"
| child: "find_tenant d p = Some parent \<Longrightarrow> tn_status parent \<in> {PENDING, ACTIVE} \<Longrightarrow>
    max_depth_of (rows_of p (tenant_ancestries d)) + 1 \<le> max_hierarchy_depth config \<Longrightarrow>
    recorded (created d name (Some p) (rows_of p (tenant_ancestries d))) d' \<Longrightarrow>
    tenancy_step config now d d'"
| moved: "find_tenant d t = Some tenant \<Longrightarrow> \<not> is_closed (tn_status tenant) \<Longrightarrow>
    (\<And>p. np = Some p \<Longrightarrow> is_open d p \<and> t \<notin> set (lock_ancestor_ids d p)) \<Longrightarrow>
    resulting_max_depth np (new_parent_rows np (tenant_ancestries d))
      (subtree_rows t (tenant_ancestries d)) = Inr depth \<Longrightarrow> depth \<le> max_hierarchy_depth config \<Longrightarrow>
    verify (reparented d t np) now (guard_tenants d now (subtree_in_order t (tenant_ancestries d)))
      = Inr () \<Longrightarrow>
    recorded (reparented d t np) d' \<Longrightarrow> tenancy_step config now d d'"
| transitioned: "find_tenant d t = Some tenant \<Longrightarrow> transition_allowed (tn_status tenant) s \<Longrightarrow>
    d1 = d \<or> (\<exists>p. register_permission d ''tenant'' ''suspend'' = Inr (d1, p)) \<Longrightarrow>
    (\<not> is_accessible_to_principals s \<Longrightarrow>
      verify (with_status d1 t s) now (guard_tenants d now (descendant_ids_by_depth d t)) = Inr ()) \<Longrightarrow>
    recorded (with_status d1 t s) d' \<Longrightarrow> tenancy_step config now d d'"

inductive_cases tenancy_stepE: "tenancy_step config now d d'"

subsection \<open>Requests\<close>

datatype tenancy_request =
    Create_Tenant string "uuid option"
  | Move_Tenant uuid "uuid option" "string option"
  | Transition_Tenant uuid tenant_status "string option" "string option" bool

fun handle :: "tenancy_config \<Rightarrow> db \<Rightarrow> datetime \<Rightarrow> caller \<Rightarrow> tenancy_request \<Rightarrow> db" where
  "handle config d now c (Create_Tenant name parent_id) =
     fst (create_tenant config d now name parent_id c)"
| "handle config d now c (Move_Tenant t new_parent_id reason) =
     fst (move_tenant config d now t new_parent_id c reason)"
| "handle config d now c (Transition_Tenant t target reason expected self_service) =
     fst (transition_tenant_status config d now t target c reason expected self_service)"

fun handle_all ::
  "tenancy_config \<Rightarrow> db \<Rightarrow> (datetime \<times> caller \<times> tenancy_request) list \<Rightarrow> db" where
  "handle_all config d [] = d"
| "handle_all config d ((now, c, r) # rest) = handle_all config (handle config d now c r) rest"

lemma create_in_transaction_step:
  assumes "create_in_transaction config d now name parent_id c = Inr (d', t)"
  shows "tenancy_step config now d d'"
proof (cases parent_id)
  case None
  with assms show ?thesis
    by (auto simp: create_in_transaction_def locked_parent_status_def insert_tenant_def take_uuid_def
        insert_ancestry_def created_def split: if_splits
        intro!: tenancy_step.root [where name = name] dest!: record_creation_recorded)
next
  case (Some p)
  with assms obtain parent where parent: "find_tenant d p = Some parent"
    and rule: "apply_parent_rule (create_operation (Some p)) c p (tn_status parent) = Inr ()"
    and depth: "max_depth_of (rows_of p (tenant_ancestries d)) + 1 \<le> max_hierarchy_depth config"
    and rec: "recorded (created d name (Some p) (rows_of p (tenant_ancestries d))) d'"
    by (auto simp: create_in_transaction_def locked_parent_status_def insert_tenant_def take_uuid_def
        insert_ancestry_def created_def check_depth_def split: if_splits option.splits
        dest!: record_creation_recorded)
  from rule have "tn_status parent \<in> {PENDING, ACTIVE}"
    by (auto simp: apply_parent_rule_def split: if_splits)
  with parent depth rec show ?thesis by (intro tenancy_step.child)
qed

lemma create_tenant_step: "tenancy_step config now d (fst (create_tenant config d now name parent_id c))"
proof -
  obtain d' r where e: "refusal_recorded d now c (create_operation parent_id) parent_id
      (create_in_transaction config d now name parent_id c) = (d', r)"
    by (cases "refusal_recorded d now c (create_operation parent_id) parent_id
      (create_in_transaction config d now name parent_id c)") auto
  then have ended: "tenancy_step config now d d' \<and> (is_ok r \<or> recorded d d')"
    by (cases rule: refusal_recorded_cases)
      (auto intro: create_in_transaction_step tenancy_step.nothing)
  show ?thesis
  proof (cases "\<exists>p s. r = Inl (TenantClosedError p s)")
    case True
    then obtain p s where r: "r = Inl (TenantClosedError p s)" by blast
    obtain d2 r2 where ref: "record_refusal d' now c (create_operation parent_id) parent_id
        ''parent_closed'' (TenantClosedError p s) = (d2, r2 :: error + uuid)" by fastforce
    have "recorded d d2" using recorded_trans record_refusal_frame(1) [OF ref] ended r by auto
    then show ?thesis
      using r e ref by (auto simp: create_tenant_def intro: tenancy_step.nothing split: sum.splits)
  next
    case False
    then have "fst (create_tenant config d now name parent_id c) = d' \<or>
        fst (create_tenant config d now name parent_id c) = d"
      using e by (auto simp: create_tenant_def split: sum.splits error.splits tenancy_error.splits)
    with ended show ?thesis by (auto intro: tenancy_step.nothing)
  qed
qed

lemma check_new_parent_ok:
  "check_new_parent d c t (Some p) = Inr s \<Longrightarrow> is_open d p \<and> t \<notin> set (lock_ancestor_ids d p)"
  by (auto simp: check_new_parent_def is_open_def is_ok_iff lock_open_tenant_ok set_lock_ancestor_ids
      list_ex_iff)

lemma move_in_transaction_step:
  assumes "move_in_transaction config d now t np c reason = Inr (d', u)"
  shows "tenancy_step config now d d'"
proof -
  obtain tenant s where tenant: "find_tenant d t = Some tenant" "\<not> is_closed (tn_status tenant)"
    and s: "check_new_parent d c t np = Inr s"
    using assms by (auto simp: move_in_transaction_def lock_open_tenant_ok split: if_splits)
  show ?thesis
  proof (cases "tn_parent_id tenant = np")
    case True
    with assms tenant s show ?thesis
      by (auto simp: move_in_transaction_def lock_open_tenant_ok intro: tenancy_step.nothing)
  next
    case False
    let ?rows = "tenant_ancestries d"
    from assms False tenant s obtain depth where
      "resulting_max_depth np (new_parent_rows np ?rows) (subtree_rows t ?rows) = Inr depth"
      "check_depth config t depth = Inr ()"
      "verify (reparented d t np) now (guard_tenants d now (subtree_in_order t ?rows)) = Inr ()"
      "record_move (reparented d t np) now c t (tn_parent_id tenant) np reason = Inr d'"
      by (auto simp: move_in_transaction_def lock_open_tenant_ok Let_def)
    with tenant s show ?thesis
      by (intro tenancy_step.moved [of d t tenant np depth])
        (auto simp: check_depth_def dest: check_new_parent_ok record_move_recorded)
  qed
qed

lemma move_tenant_step: "tenancy_step config now d (fst (move_tenant config d now t np c reason))"
proof (cases "ebind (require_lifecycle_caller ''tenant.move'' c) (\<lambda>_. validated_reason reason)")
  case (Inl e)
  then show ?thesis by (simp add: move_tenant_def tenancy_step.nothing)
next
  case (Inr val)
  obtain d' r where e: "refusal_recorded d now c ''tenant.move'' (Some t)
      (move_in_transaction config d now t np c val) = (d', r)" by fastforce
  then have "tenancy_step config now d d'"
    by (cases rule: refusal_recorded_cases) (auto intro: move_in_transaction_step tenancy_step.nothing)
  with Inr e show ?thesis by (simp add: move_tenant_def)
qed

text \<open>A decision registers at most the permission it asks for.\<close>

definition maybe_registered :: "db \<Rightarrow> db \<Rightarrow> bool" where
  "maybe_registered d d1 = (d1 = d \<or> (\<exists>p. register_permission d ''tenant'' ''suspend'' = Inr (d1, p)))"

lemma authorize_transition_frame:
  "authorize_transition config d c operation t reason only = Inr (d1, b) \<Longrightarrow> maybe_registered d d1"
  by (auto simp: authorize_transition_def holds_self_suspend_def maybe_registered_def
      split: sum.splits if_splits caller.splits)

lemma transition_in_transaction_ok:
  assumes "transition_in_transaction config d now c t target candidates expected reason self_service
    = (operation, Inr d')"
  obtains d1 tenant where "maybe_registered d d1" "find_tenant d t = Some tenant"
    "transition_allowed (tn_status tenant) target" "recorded (with_status d1 t target) d'"
    "\<not> is_accessible_to_principals target \<Longrightarrow> verify (with_status d1 t target) now
       (guard_tenants d now (descendant_ids_by_depth d t)) = Inr ()"
proof -
  define guard where "guard = (if is_accessible_to_principals target then None
      else Some (guard_tenants d now (descendant_ids_by_depth d t)))"
  obtain d0 by_self tenant action where first: "decide_first config d c candidates t reason self_service = Inr (d0, by_self)"
    and edge: "select_edge d0 c candidates by_self t target expected = Inr (tenant, operation, action)"
    and app: "apply_transition config d0 now c t target reason guard by_self operation action = Inr d'"
    using assms unfolding guard_def
    by (auto simp: transition_in_transaction_def Let_def split: sum.splits prod.splits)
  from app obtain d1 b where d1: "(case by_self of Some b \<Rightarrow> Inr (d0, b)
      | None \<Rightarrow> authorize_transition config d0 c operation t reason False) = Inr (d1, b)"
    and verified: "(case guard of None \<Rightarrow> Inr () | Some g \<Rightarrow> verify (with_status d1 t target) now g) = Inr ()"
    and rec: "record_transition (with_status d1 t target) now c t operation action reason b = Inr d'"
    by (auto simp: apply_transition_def)
  have "maybe_registered d d1"
  proof (cases by_self)
    case None
    then have "d0 = d" using first by (auto simp: decide_first_def split: if_splits)
    with None d1 show ?thesis by (auto dest: authorize_transition_frame)
  next
    case (Some b0)
    then have "maybe_registered d d0" using first
      by (auto simp: decide_first_def dest: authorize_transition_frame split: if_splits)
    with Some d1 show ?thesis by simp
  qed
  moreover have "tenants d0 = tenants d"
    using first by (auto simp: decide_first_def maybe_registered_def register_tables(1)
        dest!: authorize_transition_frame split: if_splits)
  then have "find_tenant d0 t = find_tenant d t" by (simp add: find_tenant_def)
  then have "find_tenant d t = Some tenant \<and> transition_allowed (tn_status tenant) target"
    using edge by (auto simp: select_edge_def Let_def split: option.splits if_splits)
  moreover have "verify (with_status d1 t target) now
      (guard_tenants d now (descendant_ids_by_depth d t)) = Inr ()"
    if "\<not> is_accessible_to_principals target"
    using verified that by (simp add: guard_def)
  ultimately show ?thesis using record_transition_recorded [OF rec] that by blast
qed

lemma transition_tenant_status_cases:
  assumes "transition_tenant_status config d now t target c reason expected self_service = (d', r)"
  obtains (committed) d1 tenant where "r = Inr ()" "maybe_registered d d1"
      "find_tenant d t = Some tenant" "transition_allowed (tn_status tenant) target"
      "recorded (with_status d1 t target) d'"
      "\<not> is_accessible_to_principals target \<Longrightarrow> verify (with_status d1 t target) now
         (guard_tenants d now (descendant_ids_by_depth d t)) = Inr ()"
    | (failed) "\<not> is_ok r" "recorded d d'"
proof -
  let ?pre = "ebind (require_lifecycle_caller ''tenant.transition'' c) (\<lambda>_.
      ebind (validated_reason reason) (\<lambda>value.
      ebind (narrowed_candidates target expected self_service) (\<lambda>candidates.
      ebind (passes_transition_gate d c candidates t self_service) (\<lambda>passes.
      Inr (value, candidates, passes)))))"
  show ?thesis
  proof (cases ?pre)
    case (Inl e)
    with assms show ?thesis by (intro failed) (auto simp: transition_tenant_status_def)
  next
    case (Inr x)
    obtain val candidates passes where x: "x = (val, candidates, passes)" by (cases x)
    obtain operation res where run: "transition_in_transaction config d now c t target candidates
        expected val self_service = (operation, res)" by fastforce
    show ?thesis
    proof (cases "passes \<and> is_ok res")
      case True
      then obtain d2 where "res = Inr d2" by (auto simp: is_ok_iff)
      moreover from this have "(d', r) = (d2, Inr ())"
        using assms Inr x run True by (simp add: transition_tenant_status_def)
      ultimately show ?thesis using run by (auto elim!: transition_in_transaction_ok intro: committed)
    next
      case False
      then show ?thesis
        using assms Inr x run
        by (cases res) (auto simp: transition_tenant_status_def split: if_splits
            dest: record_refusal_frame intro: failed)
    qed
  qed
qed

lemma transition_tenant_status_step:
  "tenancy_step config now d
     (fst (transition_tenant_status config d now t target c reason expected self_service))"
proof -
  obtain d' r where "transition_tenant_status config d now t target c reason expected self_service = (d', r)"
    by fastforce
  moreover from this have "tenancy_step config now d d'"
    by (cases rule: transition_tenant_status_cases)
      (auto simp: maybe_registered_def intro: tenancy_step.nothing tenancy_step.transitioned)
  ultimately show ?thesis by simp
qed

theorem handle_step: "tenancy_step config now d (handle config d now c r)"
  by (cases r) (simp_all add: create_tenant_step move_tenant_step transition_tenant_status_step)

subsection \<open>The registry invariant\<close>

definition registry_ok :: "tenancy_config \<Rightarrow> db \<Rightarrow> bool" where
  "registry_ok config d = (hierarchy_ok d \<and> depth_bounded (max_hierarchy_depth config) d \<and>
     (\<forall>t \<in> tenant_ids d. t < next_uuid d))"

lemma parent_of_cong: "tenants d' = tenants d \<Longrightarrow> parent_of d' = parent_of d"
  by (simp add: fun_eq_iff parent_of_def find_tenant_def)

lemma registry_ok_recorded: "recorded d d' \<Longrightarrow> registry_ok config d \<Longrightarrow> registry_ok config d'"
  using recordedD [of d d'] parent_of_cong [of d' d]
  by (fastforce simp: registry_ok_def hierarchy_ok_def depth_bounded_def tenant_ids_def)

lemma find_tenant_fresh: "registry_ok config d \<Longrightarrow> find_tenant d (next_uuid d) = None"
  by (force simp: registry_ok_def find_tenant_def find_None_iff tenant_ids_def)

lemma find_tenant_created:
  assumes "registry_ok config d"
  shows "find_tenant (created d name p rows) t = (if t = next_uuid d
    then Some \<lparr>tn_id = next_uuid d, tn_name = name, tn_status = PENDING, tn_parent_id = p,
      tn_inherits_billing = False\<rparr> else find_tenant d t)"
  using find_tenant_fresh [OF assms]
  by (auto simp: find_tenant_def created_def find_append split: option.splits)

lemma parent_of_created:
  "registry_ok config d \<Longrightarrow> parent_of (created d name p rows) = (parent_of d)(next_uuid d := p)"
  by (simp add: fun_eq_iff parent_of_def find_tenant_created)

lemma tenant_ids_created: "tenant_ids (created d name p rows) = insert (next_uuid d) (tenant_ids d)"
  by (auto simp: tenant_ids_def created_def)

lemma registry_ok_created:
  assumes "registry_ok config d"
    and "p = None \<and> rows = [] \<or> (\<exists>q. p = Some q \<and> q \<in> tenant_ids d \<and> rows = rows_of q (tenant_ancestries d) \<and>
      max_depth_of rows + 1 \<le> max_hierarchy_depth config)"
  shows "registry_ok config (created d name p rows)"
proof -
  have fresh: "next_uuid d \<notin> tenant_ids d" using assms(1) by (auto simp: registry_ok_def)
  have c: "closure_of (parent_of d) (tenant_ids d) (tenant_ancestries d)"
    using assms(1) by (simp add: registry_ok_def hierarchy_ok_def)
  have "closure_of ((parent_of d)(next_uuid d := p)) (insert (next_uuid d) (tenant_ids d))
      (tenant_ancestries d @ child_rows (next_uuid d) rows)"
    using assms(2) closure_create_root [OF c fresh] closure_create_child [OF c fresh] by auto
  moreover have "distinct (map tn_id (tenants (created d name p rows)))"
    using assms(1) fresh by (auto simp: registry_ok_def hierarchy_ok_def created_def tenant_ids_def)
  moreover have "an_depth r \<le> max_hierarchy_depth config" if "r \<in> set (child_rows (next_uuid d) rows)" for r
    using assms(2) child_rows_depth [OF that] that by (auto simp: child_rows_def)
  ultimately show ?thesis
    using assms(1) parent_of_created [OF assms(1)] tenant_ids_created [of d name p rows]
    by (auto simp: registry_ok_def hierarchy_ok_def depth_bounded_def created_def less_Suc_eq)
qed

lemma find_tenant_reparented:
  "find_tenant (reparented d t np) x =
    map_option (\<lambda>r. if tn_id r = t then r\<lparr>tn_parent_id := np\<rparr> else r) (find_tenant d x)"
  by (simp add: find_tenant_def reparented_def find_update_where)

lemma find_tenant_with_status:
  "find_tenant (with_status d t s) x =
    map_option (\<lambda>r. if tn_id r = t then r\<lparr>tn_status := s\<rparr> else r) (find_tenant d x)"
  by (simp add: find_tenant_def with_status_def find_update_where)

lemma updated_tables [simp]:
  "map tn_id (tenants (reparented d t np)) = map tn_id (tenants d)"
  "map tn_id (tenants (with_status d t s)) = map tn_id (tenants d)"
  "next_uuid (reparented d t np) = next_uuid d" "next_uuid (with_status d t s) = next_uuid d"
  "tenant_ancestries (with_status d t s) = tenant_ancestries d"
  "tenant_ancestries (reparented d t np) =
     moved_rows t (new_parent_rows np (tenant_ancestries d)) (tenant_ancestries d)"
  by (simp_all add: reparented_def with_status_def map_update_where)

lemma tenant_ids_updated [simp]:
  "tenant_ids (reparented d t np) = tenant_ids d" "tenant_ids (with_status d t s) = tenant_ids d"
  unfolding tenant_ids_def set_map [symmetric] updated_tables by simp_all

lemma find_tenant_ids: "find_tenant d t = Some r \<Longrightarrow> t \<in> tenant_ids d"
  by (auto simp: tenant_ids_def dest: find_tenant_in)

lemma parent_of_reparented:
  assumes "t \<in> tenant_ids d"
  shows "parent_of (reparented d t np) = (parent_of d)(t := np)"
proof -
  have "find_tenant d t \<noteq> None" using assms by (auto simp: tenant_ids_def find_tenant_def find_None_iff)
  then show ?thesis
    by (auto simp: fun_eq_iff parent_of_def find_tenant_reparented split: option.splits
        dest: find_tenant_in)
qed

lemma registry_ok_reparented:
  assumes "registry_ok config d" "t \<in> tenant_ids d"
    and np: "\<And>p. np = Some p \<Longrightarrow> p \<in> tenant_ids d \<and> t \<notin> set (lock_ancestor_ids d p)"
    and depth: "resulting_max_depth np (new_parent_rows np (tenant_ancestries d))
      (subtree_rows t (tenant_ancestries d)) = Inr n" "n \<le> max_hierarchy_depth config"
  shows "registry_ok config (reparented d t np)"
proof -
  let ?rows = "tenant_ancestries d"
  have c: "closure_of (parent_of d) (tenant_ids d) ?rows"
    using assms(1) by (simp add: registry_ok_def hierarchy_ok_def)
  have outside: "p \<in> tenant_ids d \<and> p \<notin> set (subtree_ids t ?rows)" if "np = Some p" for p
    using np [OF that] by (auto simp: subtree_ids_def subtree_rows_def set_lock_ancestor_ids)
  have "closure_of ((parent_of d)(t := np)) (tenant_ids d) (moved_rows t (new_parent_rows np ?rows) ?rows)"
    unfolding new_parent_rows_def by (rule closure_move [OF c assms(2)]) (rule outside)
  moreover have "an_depth r \<le> max_hierarchy_depth config"
    if r: "r \<in> set (moved_rows t (new_parent_rows np ?rows) ?rows)" for r
  proof (cases "r \<in> set ?rows")
    case True
    with assms(1) show ?thesis by (auto simp: registry_ok_def depth_bounded_def)
  next
    case False
    with r have "np \<noteq> None"
      by (cases np) (auto simp: moved_rows_def new_bridges_def new_parent_rows_def set_delete_where)
    with depth moved_rows_depth [OF r False] show ?thesis
      by (auto simp: resulting_max_depth_def split: if_splits)
  qed
  ultimately show ?thesis
    using assms(1) parent_of_reparented [OF assms(2), of np]
    by (auto simp: registry_ok_def hierarchy_ok_def depth_bounded_def)
qed

lemma registry_ok_with_status:
  assumes "registry_ok config d"
  shows "registry_ok config (with_status d t s)"
proof -
  have "parent_of (with_status d t s) = parent_of d"
    by (auto simp: fun_eq_iff parent_of_def find_tenant_with_status split: option.splits)
  with assms show ?thesis
    by (auto simp: registry_ok_def hierarchy_ok_def depth_bounded_def)
qed

lemma registry_ok_registered:
  assumes "d1 = d \<or> (\<exists>p. register_permission d resource action = Inr (d1, p))" "registry_ok config d"
  shows "registry_ok config d1"
proof -
  have "tenants d1 = tenants d \<and> tenant_ancestries d1 = tenant_ancestries d \<and> next_uuid d \<le> next_uuid d1"
    using assms(1) by (auto elim!: register_permission_cases)
  with assms(2) parent_of_cong [of d1 d] show ?thesis
    by (fastforce simp: registry_ok_def hierarchy_ok_def depth_bounded_def tenant_ids_def)
qed

lemma is_open_ids: "is_open d p \<Longrightarrow> p \<in> tenant_ids d"
  by (auto simp: is_open_def is_ok_iff lock_open_tenant_ok dest: find_tenant_ids)

theorem tenancy_step_registry:
  "tenancy_step config now d d' \<Longrightarrow> registry_ok config d \<Longrightarrow> registry_ok config d'"
proof (induction rule: tenancy_step.induct)
  case (child d p parent name d')
  then show ?case
    by (intro registry_ok_recorded [OF child.hyps(4)] registry_ok_created) (auto dest: find_tenant_ids)
next
  case (moved d t tenant np depth d')
  then show ?case
    by (intro registry_ok_recorded [OF moved.hyps(7)] registry_ok_reparented [of _ _ _ _ depth])
      (auto dest: find_tenant_ids is_open_ids)
next
  case (transitioned d t tenant s d1 d')
  then show ?case
    by (intro registry_ok_recorded [OF transitioned.hyps(5)] registry_ok_with_status
        registry_ok_registered [OF transitioned.hyps(3)])
qed (auto intro: registry_ok_recorded registry_ok_created)

theorem handle_all_registry: "registry_ok config d \<Longrightarrow> registry_ok config (handle_all config d history)"
  by (induction config d history rule: handle_all.induct)
    (auto intro: tenancy_step_registry [OF handle_step])

subsection \<open>Statuses\<close>

lemma tenant_status_of_cong: "tenants d' = tenants d \<Longrightarrow> tenant_status_of d' = tenant_status_of d"
  by (simp add: fun_eq_iff tenant_status_of_def find_tenant_def)

lemma tenant_status_of_created:
  "registry_ok config d \<Longrightarrow> tenant_status_of (created d name p rows) =
    (tenant_status_of d)(next_uuid d := Some PENDING)"
  by (simp add: fun_eq_iff tenant_status_of_def find_tenant_created)

lemma tenant_status_of_reparented [simp]: "tenant_status_of (reparented d t np) = tenant_status_of d"
  by (auto simp: fun_eq_iff tenant_status_of_def find_tenant_reparented option.map_comp comp_def
      intro!: option.map_cong)

lemma tenant_status_of_with_status:
  "tenant_status_of (with_status d t s) =
    (tenant_status_of d)(t := map_option (\<lambda>_. s) (tenant_status_of d t))"
  by (auto simp: fun_eq_iff tenant_status_of_def find_tenant_with_status option.map_comp comp_def
      dest: find_tenant_in intro!: option.map_cong)

lemma maybe_registered_tables:
  assumes "d1 = d \<or> (\<exists>p. register_permission d resource action = Inr (d1, p))"
  shows "tenants d1 = tenants d" "tenant_ancestries d1 = tenant_ancestries d"
  using assms by (auto simp: register_tables)

lemma tenancy_step_status:
  assumes "tenancy_step config now d d'" "registry_ok config d" "tenant_status_of d x = Some s"
  shows "\<exists>s'. tenant_status_of d' x = Some s' \<and> (s' = s \<or> transition_allowed s s')"
  using assms
proof (induction rule: tenancy_step.induct)
  case (nothing d d')
  then show ?case using tenant_status_of_cong [OF recordedD(1)] by auto
next
  case (root d name d')
  then show ?case
    using tenant_status_of_cong [OF recordedD(1) [OF root.hyps]] find_tenant_fresh [of config d]
    by (auto simp: tenant_status_of_created tenant_status_of_def)
next
  case (child d p parent name d')
  then show ?case
    using tenant_status_of_cong [OF recordedD(1) [OF child.hyps(4)]] find_tenant_fresh [of config d]
    by (auto simp: tenant_status_of_created tenant_status_of_def)
next
  case (moved d t tenant np depth d')
  then show ?case using tenant_status_of_cong [OF recordedD(1) [OF moved.hyps(7)]] by simp
next
  case (transitioned d t tenant new d1 d')
  have "tenant_status_of d1 = tenant_status_of d"
    by (rule tenant_status_of_cong) (rule maybe_registered_tables(1) [OF transitioned.hyps(3)])
  moreover have "tenant_status_of d t = Some (tn_status tenant)"
    using transitioned.hyps(1) by (simp add: tenant_status_of_def)
  ultimately show ?case
    using tenant_status_of_cong [OF recordedD(1) [OF transitioned.hyps(5)]] transitioned
    by (auto simp: tenant_status_of_with_status)
qed

lemma handle_all_status:
  assumes "registry_ok config d" "tenant_status_of d x = Some s"
  shows "\<exists>s'. tenant_status_of (handle_all config d history) x = Some s' \<and> transition_allowed\<^sup>*\<^sup>* s s'"
  using assms
proof (induction config d history arbitrary: s rule: handle_all.induct)
  case (2 config d now c r rest)
  have ok: "registry_ok config (handle config d now c r)"
    by (rule tenancy_step_registry [OF handle_step "2.prems"(1)])
  obtain s1 where s1: "tenant_status_of (handle config d now c r) x = Some s1"
      "s1 = s \<or> transition_allowed s s1"
    using tenancy_step_status [OF handle_step "2.prems"] by blast
  obtain s' where "tenant_status_of (handle_all config (handle config d now c r) rest) x = Some s'"
      "transition_allowed\<^sup>*\<^sup>* s1 s'"
    using "2.IH" [OF ok s1(1)] by blast
  with s1(2) show ?case by (auto intro: converse_rtranclp_into_rtranclp)
qed auto

subsection \<open>Administrators\<close>

text \<open>
  An administrator of \<open>t\<close> keeps that authority when its ancestors are unchanged and every
  tenant the authority can come from still admits its principals.
\<close>

lemma allows_at_admits:
  assumes "allows_at d now a ty action resource ign c S"
  shows "admits_principals d c"
  using assms by (auto simp: allows_at_def actor_grants_permission_def tenant_grants_permission_def
      tenant_grants_permission_for_service_account_def tenant_grants_permission_via_delegation_def
      admits_principals_def split: if_splits option.splits sum.splits)

definition same_grants :: "db \<Rightarrow> db \<Rightarrow> bool" where
  "same_grants d d' = (tenant_memberships d' = tenant_memberships d \<and> permissions d' = permissions d \<and>
     role_permissions d' = role_permissions d \<and> membership_roles d' = membership_roles d \<and>
     service_account_roles d' = service_account_roles d \<and>
     delegation_grants d' = delegation_grants d \<and> deny_grants d' = deny_grants d \<and>
     users d' = users d \<and> service_accounts d' = service_accounts d)"

lemma allows_at_transfer:
  assumes "same_grants d d'" "allows_at d now a ty action resource ign c S" "admits_principals d' c"
  shows "allows_at d' now a ty action resource ign c S"
proof -
  have t: "tenant_memberships d' = tenant_memberships d" "permissions d' = permissions d"
      "role_permissions d' = role_permissions d" "membership_roles d' = membership_roles d"
      "service_account_roles d' = service_account_roles d" "delegation_grants d' = delegation_grants d"
    using assms(1) by (simp_all add: same_grants_def)
  have ok: "is_ok (lock_accessible_tenant d c)" "is_ok (lock_accessible_tenant d' c)"
    using allows_at_admits [OF assms(2)] assms(3) by (simp_all add: admits_principals_def)
  show ?thesis
    using assms(2) ok
    unfolding allows_at_def actor_grants_permission_def tenant_grants_permission_def
      tenant_grants_permission_for_service_account_def tenant_grants_permission_via_delegation_def
      delegate_user_membership_permits_authorization_def lock_membership_cong [OF t(1)]
      role_grants_cong [OF t(3,2)] names_permission_cong [OF t(2)] t sum_case_is_ok
    by (auto split: option.splits if_splits)
qed

lemma administers_tenants:
  assumes "administers d now t u" "same_grants d d'"
    and "set (lock_ancestor_ids d' t) = set (lock_ancestor_ids d t)"
    and "\<And>c. c = t \<or> c \<in> set (lock_ancestor_ids d t) \<Longrightarrow> admits_principals d c \<Longrightarrow> admits_principals d' c"
  shows "administers d' now t u"
proof -
  have reach: "scope_reaches d' c s t = scope_reaches d c s t" for c s
    by (simp add: scope_reaches_def assms(3))
  have deny: "deny_authority d' = deny_authority d"
    using assms(2) names_permission_cong [of d' d]
    by (simp add: fun_eq_iff deny_authority.simps same_grants_def)
  have live: "actor_is_live d' = actor_is_live d"
    using assms(2) actor_is_live_cong [of d' d] by (simp add: same_grants_def)
  obtain c s where cs: "scope_reaches d c s t"
      "allows_at d now u USER ADMINISTRATOR_ACTION ADMINISTRATOR_RESOURCE True c [s]"
      "admits_principals d t"
    using assms(1) unfolding administers_def is_administrator_iff by blast
  have "admits_principals d' c"
    by (rule assms(4)) (use cs in \<open>auto simp: scope_reaches_def allows_at_admits\<close>)
  then have "allows_at d' now u USER ADMINISTRATOR_ACTION ADMINISTRATOR_RESOURCE True c [s]"
    by (rule allows_at_transfer [OF assms(2) cs(2)])
  moreover have "admits_principals d' t" using assms(4) cs(3) by blast
  moreover have "is_active_member d' t [u] = is_active_member d t [u]"
    using assms(2) by (simp add: is_active_member_def same_grants_def)
  ultimately show ?thesis
    using assms(1) cs(1)
    unfolding administers_def is_administrator_iff denied_def deny live reach by blast
qed

lemma admits_principals_status:
  "tenant_status_of d' c = tenant_status_of d c \<Longrightarrow> admits_principals d' c = admits_principals d c"
  by (simp add: admits_principals_iff)

lemma is_open_status: "tenant_status_of d' = tenant_status_of d \<Longrightarrow> is_open d' = is_open d"
  by (simp add: fun_eq_iff is_open_iff)

lemma same_grants_changes [simp]:
  "same_grants d (created d name p rows)" "same_grants d (reparented d t np)"
  "same_grants d (with_status d t s)"
  by (simp_all add: same_grants_def created_def reparented_def with_status_def)

lemma created_administers:
  assumes "registry_ok config d" "administers d now t u"
  shows "administers (created d name p rows) now t u"
proof -
  have "admits_principals d t" using assms(2) by (simp add: administers_def is_administrator_iff)
  then have t: "t \<noteq> next_uuid d"
    using find_tenant_fresh [OF assms(1)] by (auto simp: admits_principals_iff tenant_status_of_def)
  have "c \<noteq> next_uuid d" if "admits_principals d c" for c
    using that find_tenant_fresh [OF assms(1)] by (auto simp: admits_principals_iff tenant_status_of_def)
  then have adm: "admits_principals d c \<Longrightarrow> admits_principals (created d name p rows) c" for c
    by (simp add: admits_principals_iff tenant_status_of_created [OF assms(1)])
  have "set (lock_ancestor_ids (created d name p rows) t) = set (lock_ancestor_ids d t)"
    using t by (auto simp: set_lock_ancestor_ids created_def child_rows_def)
  then show ?thesis using adm by (intro administers_tenants [OF assms(2)]) simp_all
qed

lemma reparented_administers:
  assumes "administers d now x u" "t \<notin> set (lock_ancestor_ids d x)"
  shows "administers (reparented d t np) now x u"
proof (rule administers_tenants [OF assms(1)])
  have "x \<notin> set (subtree_ids t (tenant_ancestries d))"
    using assms(2) by (auto simp: subtree_ids_def subtree_rows_def set_lock_ancestor_ids)
  then have "r \<in> set (tenant_ancestries (reparented d t np)) \<longleftrightarrow> r \<in> set (tenant_ancestries d)"
    if "an_tenant_id r = x" for r
    using that by (auto simp: moved_rows_def set_delete_where is_bridge_def new_bridges_def
        subtree_rows_def subtree_ids_def)
  then show "set (lock_ancestor_ids (reparented d t np) x) = set (lock_ancestor_ids d x)"
    unfolding set_eq_iff set_lock_ancestor_ids by blast
qed (simp_all add: admits_principals_iff)

lemma subtree_in_order_set:
  "x \<in> set (subtree_in_order t (tenant_ancestries d)) \<longleftrightarrow> t \<in> set (lock_ancestor_ids d x)"
  by (auto simp: subtree_in_order_def subtree_rows_def set_lock_ancestor_ids)

lemma with_status_administers:
  assumes "administers d now x u" "x \<noteq> t"
    and "t \<notin> set (lock_ancestor_ids d x) \<or> is_accessible_to_principals s"
  shows "administers (with_status d t s) now x u"
proof (rule administers_tenants [OF assms(1)])
  fix c
  assume "c = x \<or> c \<in> set (lock_ancestor_ids d x)" "admits_principals d c"
  with assms(2,3) show "admits_principals (with_status d t s) c"
    by (auto simp: admits_principals_iff tenant_status_of_with_status)
qed (simp_all add: set_lock_ancestor_ids set_eq_iff)

theorem tenancy_step_administrators:
  assumes "tenancy_step config now d d'" "registry_ok config d" "permission_refs_ok d"
    and "has_administrator d now x" "tenant_status_of d' x = tenant_status_of d x"
  shows "has_administrator d' now x"
  using assms
proof (induction rule: tenancy_step.induct)
  case (moved d t tenant np depth d')
  note rec = recorded_administers [OF moved.hyps(7)]
  have "has_administrator (reparented d t np) now x"
  proof (cases "t \<in> set (lock_ancestor_ids d x)")
    case True
    with moved.hyps(6) moved.prems(3) show ?thesis by (auto simp: guard_ok subtree_in_order_set)
  next
    case False
    with moved.prems(3) show ?thesis by (auto simp: has_administrator_def intro: reparented_administers)
  qed
  then show ?case by (simp add: has_administrator_def rec)
next
  case (transitioned d t tenant s d1 d')
  note rec = recorded_administers [OF transitioned.hyps(5)]
  have adm: "administers d1 = administers d"
    using transitioned.hyps(3) register_administers [OF _ transitioned.prems(2)] by auto
  have anc: "lock_ancestor_ids d1 = lock_ancestor_ids d"
    by (rule lock_ancestor_ids_cong) (rule maybe_registered_tables(2) [OF transitioned.hyps(3)])
  have "has_administrator (with_status d1 t s) now x"
  proof (cases "x = t")
    case True
    have "tenant_status_of d' t = Some s"
      using tenant_status_of_cong [OF recordedD(1) [OF transitioned.hyps(5)]] transitioned.hyps(1)
        tenant_status_of_cong [OF maybe_registered_tables(1) [OF transitioned.hyps(3)]]
      by (simp add: tenant_status_of_with_status tenant_status_of_def)
    with True transitioned.prems(4) transitioned.hyps(1,2) show ?thesis
      by (cases s) (auto simp: tenant_status_of_def transition_allowed_def)
  next
    case False
    show ?thesis
    proof (cases "t \<in> set (lock_ancestor_ids d x) \<and> \<not> is_accessible_to_principals s")
      case True
      with False have "x \<in> set (descendant_ids_by_depth d t)"
        by (simp add: set_descendant_ids_by_depth)
      with True transitioned.hyps(4) transitioned.prems(3) show ?thesis by (simp add: guard_ok)
    next
      case no: False
      with False transitioned.prems(3) show ?thesis
        using with_status_administers [of d1 now x _ t s]
        by (auto simp: has_administrator_def adm anc)
    qed
  qed
  then show ?case by (simp add: has_administrator_def rec)
qed (auto simp: has_administrator_def recorded_administers intro: created_administers)

subsection \<open>Authority\<close>

lemma transition_operation_iff: "is_ok (transition_operation s s') \<longleftrightarrow> transition_allowed s s'"
  by (cases s; cases s')
    (simp_all add: transition_operation_def lifecycle_edges_def transition_allowed_def)

lemma register_holds_own:
  assumes "register_permission d resource action = Inr (d1, p)" "permission_refs_ok d"
  shows "holds_through_own_membership d1 = holds_through_own_membership d"
  unfolding fun_eq_iff holds_own_iff [of _ _ _ _ _ None] register_member_grants [OF assms]
    register_denied [OF assms] admits_principals_cong [OF register_tables(1) [OF assms(1)]]
    actor_is_live_cong [OF register_tables(3,5) [OF assms(1)]] by simp

text \<open>Who may perform an operation of the table.\<close>

definition may_operate :: "db \<Rightarrow> caller \<Rightarrow> string \<Rightarrow> bool" where
  "may_operate d c operation = (\<exists>spec. platform_operation operation = Inr spec \<and>
     (case c of
        UserCaller u \<Rightarrow> (\<exists>p. po_permission spec = Some p \<and> platform_can d u p = Inr True)
      | SystemCaller a \<Rightarrow> a \<in> set (po_system_authorities spec)
      | _ \<Rightarrow> False))"

definition may_self_suspend :: "tenancy_config \<Rightarrow> db \<Rightarrow> caller \<Rightarrow> uuid \<Rightarrow> bool" where
  "may_self_suspend config d c t = (platform_tenant_id config \<noteq> Some t \<and>
     (\<exists>u. c = UserCaller u \<and> holds_through_own_membership d u t ''suspend'' ''tenant''))"

lemma authorize_may_operate:
  "authorize_platform_caller d c operation = Inr spec \<Longrightarrow> may_operate d c operation"
  by (cases c) (auto simp: authorize_platform_caller_def may_operate_def split: option.splits)

lemma authorize_transition_ok:
  assumes "authorize_transition config d c operation t reason only = Inr (d1, b)" "permission_refs_ok d"
  shows "\<not> b \<and> \<not> only \<and> may_operate d c operation \<or>
    b \<and> operation = ''tenant.suspend'' \<and> reason \<noteq> None \<and> may_self_suspend config d c t"
proof (cases "if only then Inl (PlatformNotAuthorizedError operation)
    else authorize_platform_caller d c operation")
  case (Inr spec)
  with assms(1) show ?thesis
    by (auto simp: authorize_transition_def split: if_splits dest: authorize_may_operate)
next
  case (Inl e)
  with assms(1) obtain u p where "c = UserCaller u" "operation = ''tenant.suspend''" "reason \<noteq> None" "b"
      "platform_tenant_id config \<noteq> Some t" "register_permission d ''tenant'' ''suspend'' = Inr (d1, p)"
      "holds_through_own_membership d1 u t ''suspend'' ''tenant''"
    unfolding authorize_transition_def holds_self_suspend_def
    by (auto split: if_splits caller.splits)
  then show ?thesis
    using register_holds_own [OF _ assms(2)] by (auto simp: may_self_suspend_def)
qed

lemma decided_operation:
  assumes "decide_first config d c candidates t reason self_service = Inr (d0, by_self)"
    and "select_edge d0 c candidates by_self t target expected = Inr (tenant, operation, action)"
    and "narrowed_candidates target expected self_service = Inr candidates"
  shows "(by_self = None \<and> d0 = d \<and> \<not> self_service) \<or>
    (\<exists>b. by_self = Some b \<and> authorize_transition config d c operation t reason self_service = Inr (d0, b))"
proof (cases "length candidates = 1")
  case False
  with assms(1,3) show ?thesis
    by (auto simp: decide_first_def narrowed_candidates_def Let_def split: if_splits option.splits)
next
  case True
  have edge: "transition_operation (tn_status tenant) target = Inr (operation, action)"
    and exp: "expected = None \<or> expected = Some operation"
    using assms(2) by (auto simp: select_edge_def Let_def split: option.splits if_splits)
  have "hd candidates = operation"
  proof (cases expected)
    case None
    then have "candidates = candidate_operations target"
      using assms(3) by (auto simp: narrowed_candidates_def Let_def split: if_splits)
    with True edge show ?thesis
      by (cases target; cases "tn_status tenant") (auto simp: candidate_operations_def
          lifecycle_edges_def first_occurrences_def transition_operation_def)
  next
    case (Some e)
    with exp assms(3) show ?thesis
      by (auto simp: narrowed_candidates_def Let_def split: if_splits)
  qed
  with True assms(1) show ?thesis by (auto simp: decide_first_def)
qed

lemma transition_authority:
  assumes "transition_tenant_status config d now t target c reason expected self_service = (d', Inr ())"
    and "permission_refs_ok d"
  shows "\<exists>tenant operation action. find_tenant d t = Some tenant \<and>
    transition_operation (tn_status tenant) target = Inr (operation, action) \<and>
    (\<not> self_service \<and> may_operate d c operation \<or>
     operation = ''tenant.suspend'' \<and> reason \<noteq> None \<and> may_self_suspend config d c t)"
proof -
  obtain val candidates operation where val: "validated_reason reason = Inr val"
    and cands: "narrowed_candidates target expected self_service = Inr candidates"
    and run: "transition_in_transaction config d now c t target candidates expected val self_service
      = (operation, Inr d')"
    using assms(1) by (auto simp: transition_tenant_status_def record_refusal_def
        split: sum.splits if_splits prod.splits)
  have val_iff: "val = None \<longleftrightarrow> reason = None"
    using val by (auto simp: validated_reason_def split: option.splits)
  obtain d0 by_self tenant action guard where
    first: "decide_first config d c candidates t val self_service = Inr (d0, by_self)"
    and edge: "select_edge d0 c candidates by_self t target expected = Inr (tenant, operation, action)"
    and app: "apply_transition config d0 now c t target val guard by_self operation action = Inr d'"
    using run by (auto simp: transition_in_transaction_def Let_def split: sum.splits prod.splits)
  have "\<exists>d1 b only. authorize_transition config d c operation t val only = Inr (d1, b) \<and>
      (self_service \<longrightarrow> only)"
    using decided_operation [OF first edge cands]
  proof (elim disjE exE conjE)
    assume "by_self = None" "d0 = d" "\<not> self_service"
    with app show ?thesis by (auto simp: apply_transition_def)
  qed blast
  then have "\<not> self_service \<and> may_operate d c operation \<or>
      operation = ''tenant.suspend'' \<and> reason \<noteq> None \<and> may_self_suspend config d c t"
    using authorize_transition_ok [OF _ assms(2)] val_iff by blast
  moreover have "tenants d0 = tenants d"
    using first by (auto simp: decide_first_def maybe_registered_def register_tables(1)
        dest!: authorize_transition_frame split: if_splits)
  then have "find_tenant d0 t = find_tenant d t" by (simp add: find_tenant_def)
  then have "find_tenant d t = Some tenant \<and>
      transition_operation (tn_status tenant) target = Inr (operation, action)"
    using edge by (auto simp: select_edge_def Let_def split: option.splits if_splits)
  ultimately show ?thesis by blast
qed

text \<open>The preliminary gate reads no tenant.\<close>

lemma gate_ignores_tenants:
  "passes_transition_gate (d\<lparr>tenants := ts, tenant_ancestries := rows\<rparr>) c operations t only =
    passes_transition_gate d c operations t only"
proof -
  have pc: "platform_can (d\<lparr>tenants := ts, tenant_ancestries := rows\<rparr>) = platform_can d"
    by (simp add: fun_eq_iff platform_can_def platform_decide_def live_operators_def
        lock_user_is_active_def cong: if_cong option.case_cong)
  have member: "caller_is_member_of_any (d\<lparr>tenants := ts, tenant_ancestries := rows\<rparr>) c [t] =
      caller_is_member_of_any d c [t]"
    by (cases c) (simp_all add: caller_is_member_of_any_def)
  show ?thesis
    unfolding passes_transition_gate_def platform_caller_could_hold_any_def pc member ..
qed

subsection \<open>Properties of the tenant operations\<close>

text \<open>
  The organisation of the fixture with an outside operator: user 14 belongs to no tenant and
  holds the tenant permissions. The guardrail is the default of six.
\<close>

definition tenancy_db :: db where
  "tenancy_db = platform_db\<lparr>
     users := users platform_db @ [\<lparr>us_id = 14, us_is_active = True\<rparr>],
     platform_operators := platform_operators platform_db @ [mk_operator 202 14 OPERATOR_ACTIVE],
     platform_grants := platform_grants platform_db @ [mk_grant 213 202 P_TENANT_CREATE,
       mk_grant 214 202 P_TENANT_MOVE, mk_grant 215 202 P_TENANT_SUSPEND,
       mk_grant 216 202 P_TENANT_REACTIVATE, mk_grant 217 202 P_TENANT_DELETE]\<rparr>"

definition default_config :: tenancy_config where
  "default_config = \<lparr>max_hierarchy_depth = 6, platform_tenant_id = Some 1\<rparr>"

lemma tenancy_db_parents:
  "parent_of tenancy_db = ((((\<lambda>_. None)(1 := None))(2 := Some 1))(3 := Some 1))(4 := None)"
  by (auto simp: fun_eq_iff parent_of_def find_tenant_def tenancy_db_def platform_db_def fixture_defs)

lemma tenancy_db_rows:
  "tenant_ancestries tenancy_db = ((([] @ child_rows 1 []) @
     child_rows 2 (rows_of 1 ([] @ child_rows 1 []))) @
     child_rows 3 (rows_of 1 (([] @ child_rows 1 []) @ child_rows 2 (rows_of 1 ([] @ child_rows 1 [])))))
     @ child_rows 4 []"
  by (simp add: tenancy_db_def platform_db_def fixture_defs child_rows_def rows_of_def ancestry_row_def)

lemma tenancy_db_ok: "registry_ok default_config tenancy_db"
proof -
  let ?R1 = "[] @ child_rows 1 []"
  let ?R2 = "?R1 @ child_rows 2 (rows_of 1 ?R1)"
  let ?R3 = "?R2 @ child_rows 3 (rows_of 1 ?R2)"
  have "closure_of (\<lambda>_. None) {} []" by (simp add: closure_of_def)
  then have "closure_of ((\<lambda>_. None)(1 := None)) (insert 1 {}) ?R1"
    by (rule closure_create_root) simp
  then have "closure_of (((\<lambda>_. None)(1 := None))(2 := Some 1)) (insert 2 (insert 1 {})) ?R2"
    by (rule closure_create_child) simp_all
  then have "closure_of ((((\<lambda>_. None)(1 := None))(2 := Some 1))(3 := Some 1)) (insert 3 (insert 2 (insert 1 {}))) ?R3"
    by (rule closure_create_child) simp_all
  then have "closure_of (parent_of tenancy_db) {4, 3, 2, 1} (tenant_ancestries tenancy_db)"
    unfolding tenancy_db_parents tenancy_db_rows by (rule closure_create_root) simp
  moreover have "tenant_ids tenancy_db = {4, 3, 2, 1}"
    by (auto simp: tenant_ids_def tenancy_db_def platform_db_def fixture_defs)
  ultimately show ?thesis
    by (simp add: registry_ok_def hierarchy_ok_def depth_bounded_def)
      (simp add: tenancy_db_def platform_db_def fixture_defs default_config_def)
qed

definition sample_history :: "(datetime \<times> caller \<times> tenancy_request) list" where
  "sample_history = [
     (5, UserCaller 14, Create_Tenant ''branch'' (Some 2)),
     (6, SystemCaller PROVISIONING, Create_Tenant ''new root'' None),
     (7, UserCaller 14, Move_Tenant 2 (Some 1001) None),
     (8, UserCaller 14, Move_Tenant 1001 (Some 1000) None),
     (9, UserCaller 10, Transition_Tenant 3 ACTIVE None None False)]"

text \<open>C13: The tenant tree survives every history of creations, moves and transitions, whoever
  calls them and however they end: the closure table is exactly the closure of the parent
  pointers, no tenant is above itself or two above each other, and no tenant lies deeper
  than the configured guardrail.\<close>

theorem tenant_tree_survives_history:
  assumes "registry_ok config d"
  shows "let d' = handle_all config d history in registry_ok config d' \<and>
    (\<forall>a b. a \<in> set (lock_ancestor_ids d' b) \<and> b \<in> set (lock_ancestor_ids d' a) \<longrightarrow> a = b) \<and>
    (\<forall>r \<in> set (tenant_ancestries d'). an_depth r \<le> max_hierarchy_depth config)"
proof -
  have ok: "registry_ok config (handle_all config d history)" by (rule handle_all_registry [OF assms(1)])
  then show ?thesis
    using hierarchy_acyclic [of "handle_all config d history"]
    by (simp add: registry_ok_def depth_bounded_def Let_def)
qed

theorem tenant_tree_survives_history_witness:
  "registry_ok default_config (handle_all default_config tenancy_db sample_history) \<and>
   get_ancestor_ids (handle_all default_config tenancy_db sample_history) 1000 = [1000, 2, 1001]"
proof
  show "registry_ok default_config (handle_all default_config tenancy_db sample_history)"
    using tenant_tree_survives_history [OF tenancy_db_ok, of sample_history] by (simp only: Let_def)
qed code_simp

text \<open>C14: The precomputed chain is the walk it replaces: after every history,
  \<open>get_ancestor_chain\<close>, one ordered read of the closure table, returns the tenants that
  following \<open>parent_id\<close> from the tenant to its root visits, nearest first.\<close>

theorem ancestor_chain_is_parent_walk:
  assumes "registry_ok config d"
  shows "let d' = handle_all config d history in
    get_ancestor_chain d' t = parent_chain (parent_of d') (length (tenants d')) t"
  using handle_all_registry [OF assms] ancestor_chain_walks
  by (simp add: Let_def registry_ok_def)

theorem ancestor_chain_is_parent_walk_witness:
  "parent_chain (parent_of (handle_all default_config tenancy_db sample_history))
     (length (tenants (handle_all default_config tenancy_db sample_history))) 1000 = [2, 1001]"
proof -
  have "get_ancestor_chain (handle_all default_config tenancy_db sample_history) 1000 = [2, 1001]"
    by code_simp
  then show ?thesis
    using ancestor_chain_is_parent_walk [OF tenancy_db_ok, of sample_history 1000]
    by (simp only: Let_def)
qed

text \<open>C15: A closed tenant never opens again: once a tenant is DELETED, PURGING or PURGED, every
  history of tenant operations leaves it closed and never takes it back to an earlier
  stage of its closure.\<close>

theorem closed_tenant_never_reopens:
  assumes "registry_ok config d" "tenant_status_of d t = Some s" "is_closed s"
  shows "\<exists>s'. tenant_status_of (handle_all config d history) t = Some s' \<and> is_closed s' \<and>
    tenant_rank s \<le> tenant_rank s'"
  using handle_all_status [OF assms(1,2)] tenant_lifecycle.shut_forever [OF _ assms(3)]
    tenant_lifecycle.shut_rank_mono [OF _ assms(3)] by blast

theorem closed_tenant_never_reopens_witness:
  "\<exists>s'. tenant_status_of (handle_all default_config tenancy_db
       [(5, UserCaller 14, Transition_Tenant 4 ACTIVE None None False),
        (6, SystemCaller TENANT_PURGE, Transition_Tenant 4 PURGING None None False)]) 4 = Some s' \<and>
     is_closed s' \<and> tenant_rank DELETED \<le> tenant_rank s'"
  by (rule closed_tenant_never_reopens [OF tenancy_db_ok]) code_simp+

text \<open>C16: No creation, move or transition takes a tenant's last administrator: a tenant that has
  an administrator, and whose own status the request does not change, still has one
  afterwards. Moving a subtree away from the ancestor that administers it, or suspending
  that ancestor, is refused instead.\<close>

theorem tenant_changes_keep_administrators:
  assumes "registry_ok config d" "permission_refs_ok d" "has_administrator d now t"
    and "tenant_status_of (handle config d now c request) t = tenant_status_of d t"
  shows "has_administrator (handle config d now c request) now t"
  by (rule tenancy_step_administrators [OF handle_step assms])

lemma tenancy_db_refs: "permission_refs_ok tenancy_db"
  by code_simp

lemma tenancy_db_administrator: "has_administrator tenancy_db 5 2"
proof -
  have "administers tenancy_db 5 2 11" by code_simp
  then show ?thesis by (auto simp: has_administrator_def)
qed

theorem tenant_changes_keep_administrators_witness:
  "has_administrator (handle default_config tenancy_db 5 (UserCaller 14) (Move_Tenant 2 None None)) 5 2"
proof (rule tenant_changes_keep_administrators [OF tenancy_db_ok tenancy_db_refs tenancy_db_administrator])
  show "tenant_status_of (handle default_config tenancy_db 5 (UserCaller 14) (Move_Tenant 2 None None)) 2
      = tenant_status_of tenancy_db 2"
    by code_simp
qed

text \<open>A transition that is made was authorized for the edge actually taken: the caller
  holds the platform permission (or is the system purpose) of the operation that the tenant's
  real status selects; or the edge is a suspension, a reason is given, the tenant is not the
  platform tenant, and the caller holds \<open>tenant:suspend\<close> through an own membership of exactly
  that tenant. With \<open>self_service\<close> only the second counts.\<close>

theorem transition_needs_authority:
  assumes "transition_tenant_status config d now t target c reason expected self_service = (d', Inr ())"
    and "permission_refs_ok d"
  shows "\<exists>tenant operation action. find_tenant d t = Some tenant \<and>
    transition_operation (tn_status tenant) target = Inr (operation, action) \<and>
    (\<not> self_service \<and> may_operate d c operation \<or>
     operation = ''tenant.suspend'' \<and> reason \<noteq> None \<and> may_self_suspend config d c t)"
  using assms by (rule transition_authority)

text \<open>C17: A caller with no authority learns nothing about a tenant: when the preliminary gate
  does not pass, the answer is one and the same refusal whatever the registry holds, whether
  the tenant exists or not and whatever its status.\<close>

theorem refused_caller_learns_nothing:
  assumes "narrowed_candidates target expected self_service = Inr candidates"
    and "passes_transition_gate d c candidates t self_service = Inr False"
  shows "snd (transition_tenant_status config (d\<lparr>tenants := ts, tenant_ancestries := rows\<rparr>) now t
      target c reason expected self_service) =
    snd (transition_tenant_status config d now t target c reason expected self_service)"
  unfolding transition_tenant_status_def assms(1) gate_ignores_tenants
  by (simp add: assms(2) record_refusal_def split: sum.splits)

theorem refused_caller_learns_nothing_witness:
  "snd (transition_tenant_status default_config (tenancy_db\<lparr>tenants := [], tenant_ancestries := []\<rparr>)
     5 4 DELETED (UserCaller 11) None None False) = Inl (PlatformNotAuthorizedError ''tenant.delete'')"
proof -
  have "narrowed_candidates DELETED None False = Inr [''tenant.delete'']" by code_simp
  moreover have "passes_transition_gate tenancy_db (UserCaller 11) [''tenant.delete''] 4 False = Inr False"
    by code_simp
  moreover have "snd (transition_tenant_status default_config tenancy_db 5 4 DELETED (UserCaller 11)
      None None False) = Inl (PlatformNotAuthorizedError ''tenant.delete'')"
    by code_simp
  ultimately show ?thesis using refused_caller_learns_nothing by metis
qed

end
