(* ===== verification/User_Invariants.thy ===== *)
theory User_Invariants
  imports User_Authority Tenancy_Invariants
begin

section \<open>What deactivating a person guarantees\<close>

text \<open>
  The registry scan visits every tenant that is not purged exactly once and finds exactly
  the tenants where the person is an active member; the loop ends because the registry after the
  last visited identifier shrinks. On that rests the proof that a deactivation leaves every
  tenant its administrators and the platform its owner, and leaves the person no credential.
\<close>

subsection \<open>The scan\<close>

lemma strict_sorted_filter_drop:
  assumes "sorted_wrt (<) (xs :: nat list)" "0 < n" "xs \<noteq> []"
  shows "filter (\<lambda>y. y > last (take n xs)) xs = drop n xs"
proof -
  let ?a = "take n xs" and ?b = "drop n xs"
  have nonempty: "?a \<noteq> []" using assms(2,3) by simp
  have split: "sorted_wrt (<) (?a @ ?b)" using assms(1) by simp
  then have "\<forall>y \<in> set ?b. last ?a < y" using nonempty unfolding sorted_wrt_append by simp
  moreover have "\<forall>y \<in> set ?a. y \<le> last ?a"
  proof
    fix y assume "y \<in> set ?a"
    have "sorted_wrt (<) (butlast ?a @ [last ?a])" using split nonempty by (simp add: sorted_wrt_append)
    then have "\<forall>y \<in> set (butlast ?a). y < last ?a" by (simp add: sorted_wrt_append)
    moreover have "set ?a = insert (last ?a) (set (butlast ?a))"
      using nonempty by (metis append_butlast_last_id list.simps(15) rotate1.simps(2) set_rotate1)
    ultimately show "y \<le> last ?a" using \<open>y \<in> set ?a\<close> by auto
  qed
  ultimately have "filter (\<lambda>y. y > last ?a) ?a = []" "filter (\<lambda>y. y > last ?a) ?b = ?b"
    by (auto simp: filter_empty_conv filter_id_conv)
  then have "filter (\<lambda>y. y > last ?a) (?a @ ?b) = ?b" by (simp only: filter_append append_Nil)
  then show ?thesis by (simp only: append_take_drop_id)
qed

definition tenants_unique :: "db \<Rightarrow> bool" where
  "tenants_unique d = distinct (map tn_id (tenants d))"

lemma unpurged_after_strict:
  assumes "tenants_unique d" shows "sorted_wrt (<) (unpurged_after d after)"
  using assms by (simp add: unpurged_after_def strict_sorted_iff tenants_unique_def distinct_map_filter)

lemma next_page:
  assumes "tenants_unique d" "unpurged_after d after \<noteq> []"
  shows "unpurged_after d (Some (last (unpurged_tenant_ids_page d after SCAN_PAGE_SIZE))) =
    drop SCAN_PAGE_SIZE (unpurged_after d after)"
proof -
  let ?xs = "unpurged_after d after"
  have "take SCAN_PAGE_SIZE ?xs \<noteq> []" using assms(2) by (simp add: SCAN_PAGE_SIZE_def)
  then have "last (take SCAN_PAGE_SIZE ?xs) \<in> set ?xs" by (meson in_set_takeD last_in_set)
  then show ?thesis
    using strict_sorted_filter_drop [OF unpurged_after_strict [OF assms(1)], of SCAN_PAGE_SIZE after] assms(2)
    by (simp add: page_eq unpurged_after_later SCAN_PAGE_SIZE_def)
qed

lemma scan_page_spec:
  "if page \<noteq> [] \<and> visited + length page > ceiling
   then scan_page d u ceiling op page found visited = Inl (DeactivationScanLimitError op ceiling)
   else \<exists>found'. scan_page d u ceiling op page found visited = Inr (found', visited + length page) \<and>
     set found' = set found \<union> {t \<in> set page. is_active_member d t [u]}"
proof (induction page arbitrary: found visited)
  case (Cons t page)
  let ?found = "if is_active_member d t [u] then List.insert t found else found"
  show ?case
  proof (cases "visited + 1 > ceiling")
    case False
    have "set ?found = set found \<union> (if is_active_member d t [u] then {t} else {})" by auto
    then show ?thesis
      using Cons.IH [where visited = "visited + 1" and found = ?found] False
      by (cases "page = []") (auto split: if_splits)
  qed simp
qed simp

lemma scan_pages_spec:
  assumes "tenants_unique d"
  shows "if unpurged_after d after \<noteq> [] \<and> visited + length (unpurged_after d after) > ceiling
   then scan_pages d u ceiling op after found visited = Inl (DeactivationScanLimitError op ceiling)
   else \<exists>found'. scan_pages d u ceiling op after found visited =
       Inr (found', visited + length (unpurged_after d after)) \<and>
     set found' = set found \<union> {t \<in> set (unpurged_after d after). is_active_member d t [u]}"
proof (induction "length (unpurged_after d after)" arbitrary: after found visited rule: less_induct)
  case less
  let ?rest = "unpurged_after d after" and ?page = "unpurged_tenant_ids_page d after SCAN_PAGE_SIZE"
  show ?case
  proof (cases "?rest = []")
    case True
    then show ?thesis by (subst (1 2) scan_pages.simps) (simp add: page_eq)
  next
    case False
    let ?next = "unpurged_after d (Some (last ?page))"
    have page: "?page \<noteq> []" "?rest = ?page @ ?next"
      using False next_page [OF assms False] by (simp_all add: page_eq SCAN_PAGE_SIZE_def)
    then have len: "length ?rest = length ?page + length ?next" by (metis length_append)
    with page(1) have shorter: "length ?next < length ?rest" by simp
    have step: "scan_pages d u ceiling op after found visited =
        ebind (scan_page d u ceiling op ?page found visited) (\<lambda>(found', visited').
          scan_pages d u ceiling op (Some (last ?page)) found' visited')"
      using page(1) by (subst scan_pages.simps) (simp add: Let_def)
    show ?thesis
    proof (cases "visited + length ?page > ceiling")
      case True
      then show ?thesis
        using scan_page_spec [where page = ?page and visited = visited and ceiling = ceiling and
            d = d and u = u and op = op and found = found] page(1) len False
        by (simp add: step)
    next
      case within: False
      then obtain found1 where scanned: "scan_page d u ceiling op ?page found visited =
          Inr (found1, visited + length ?page)"
        and set1: "set found1 = set found \<union> {t \<in> set ?page. is_active_member d t [u]}"
        using scan_page_spec [where page = ?page and visited = visited and ceiling = ceiling and
            d = d and u = u and op = op and found = found] by auto
      have "set ?rest = set ?page \<union> set ?next" using page(2) by (metis set_append)
      then show ?thesis
        using less [OF shorter, where visited = "visited + length ?page" and found = found1] len within False set1
        by (cases "?next = []") (auto simp: step scanned split: if_splits)
    qed
  qed
qed

lemma scan_spec:
  assumes "tenants_unique d"
  shows "if length (unpurged_after d None) > ceiling
   then scan_active_memberships d u ceiling op = Inl (DeactivationScanLimitError op ceiling)
   else \<exists>found. scan_active_memberships d u ceiling op = Inr (found, length (unpurged_after d None)) \<and>
     set found = {t \<in> set (unpurged_after d None). is_active_member d t [u]}"
  using scan_pages_spec [OF assms, where after = None and visited = 0 and ceiling = ceiling and u = u and
      op = op and found = "[]"]
  unfolding scan_active_memberships_def
  by (cases "ceiling < length (unpurged_after d None)"; cases "unpurged_after d None = []") simp_all

lemma scan_found:
  assumes "tenants_unique d" "scan_active_memberships d u ceiling op = Inr (found, n)"
  shows "set found = {t \<in> set (unpurged_after d None). is_active_member d t [u]}"
  using scan_spec [OF assms(1), where ceiling = ceiling and u = u and op = op] assms(2)
  by (auto split: if_splits)

lemma set_unpurged_after:
  "t \<in> set (unpurged_after d None) \<longleftrightarrow> (\<exists>x \<in> set (tenants d). tn_id x = t \<and> tn_status x \<noteq> PURGED)"
  by (auto simp: unpurged_after_def)

lemma admitted_unpurged:
  assumes "admits_principals d t" shows "t \<in> set (unpurged_after d None)"
proof -
  from assms obtain x where x: "find_tenant d t = Some x" "is_accessible_to_principals (tn_status x)"
    by (auto simp: admits_principals_def is_ok_iff lock_accessible_tenant_ok)
  then have "tn_status x \<noteq> PURGED"
    by (auto simp: is_accessible_to_principals_def PRINCIPAL_INACCESSIBLE_STATUSES_def CLOSED_STATUSES_def)
  with find_tenant_in [OF x(1)] show ?thesis by (auto simp: set_unpurged_after)
qed

subsection \<open>The change\<close>

lemma deactivated_frame:
  "deactivated d now u = d\<lparr>users := update_where (\<lambda>x. us_id x = u) (\<lambda>x. x\<lparr>us_is_active := False\<rparr>) (users d),
     user_sessions := update_where (\<lambda>s. ss_user_id s = u \<and> ss_revoked_at s = None)
       (\<lambda>s. s\<lparr>ss_revoked_at := Some now\<rparr>) (user_sessions d),
     api_keys := map (retired (\<lambda>k. ak_user_id k = Some u) now) (api_keys d)\<rparr>"
  by (simp add: deactivated_def write_user_active_def revoke_sessions_def Let_def
      revoke_user_api_keys_in_transaction_def revoke_keys_frame)

lemma lock_user_written:
  "lock_user_is_active (d\<lparr>users := update_where (\<lambda>x. us_id x = u) (\<lambda>x. x\<lparr>us_is_active := b\<rparr>) (users d)\<rparr>) v =
    (if v = u then map_option (\<lambda>_. b) (lock_user_is_active d v) else lock_user_is_active d v)"
proof -
  have "find (\<lambda>x. us_id x = v) (update_where (\<lambda>x. us_id x = u) (\<lambda>x. x\<lparr>us_is_active := b\<rparr>) (users d)) =
    map_option (\<lambda>x. if us_id x = u then x\<lparr>us_is_active := b\<rparr> else x) (find (\<lambda>x. us_id x = v) (users d))"
    by (rule find_update_where) simp
  then show ?thesis
    by (auto simp: lock_user_is_active_def option.map_comp comp_def dest: find_SomeD intro!: option.map_cong0
        split: if_splits)
qed

lemma lock_user_deactivated:
  "lock_user_is_active (deactivated d now u) v =
    (if v = u then map_option (\<lambda>_. False) (lock_user_is_active d v) else lock_user_is_active d v)"
  using lock_user_written [where d = d and u = u and b = False and v = v] by (simp add: deactivated_frame lock_user_is_active_def)

lemma deactivated_administers:
  assumes "administers d now x v" "v \<noteq> u"
  shows "administers (deactivated d at u) now x v"
proof -
  let ?d = "deactivated d at u"
  have tables: "tenants ?d = tenants d" "tenant_ancestries ?d = tenant_ancestries d"
    "tenant_memberships ?d = tenant_memberships d" "permissions ?d = permissions d"
    "role_permissions ?d = role_permissions d" "membership_roles ?d = membership_roles d"
    "service_account_roles ?d = service_account_roles d" "delegation_grants ?d = delegation_grants d"
    "deny_grants ?d = deny_grants d"
    by (simp_all add: deactivated_frame)
  have live: "actor_is_live ?d v USER None = actor_is_live d v USER None"
    using assms(2) by (simp add: actor_is_live_def lock_user_deactivated)
  show ?thesis
    using assms(1)
    unfolding administers_def is_administrator_iff is_active_member_def tables live
      admits_principals_cong [OF tables(1)] denied_cong [OF tables(9,4,2)]
      allows_at_cong [OF tables(1,3,4,5,6,7,8)] scope_reaches_cong [OF tables(2)] .
qed

lemma deactivate_in_transaction_ok:
  assumes "deactivate_in_transaction d now u c reason ceiling = Inr (Some (d', ns, nk))"
  obtains first n d2 spec where "scan_active_memberships d u ceiling USER_DEACTIVATE = Inr (first, n)"
    "lock_user_is_active d u = Some True" "acting_user_id c \<noteq> Some u"
    "authorize_platform_caller d c USER_DEACTIVATE = Inr spec"
    "verify (deactivated d now u) now (guard_tenants d now (nearest_root_first d first)) = Inr ()"
    "platform_owner_exists d \<Longrightarrow> platform_owner_exists (deactivated d now u)"
    "record_success (deactivated d now u) now c USER_DEACTIVATE u reason = Inr d2"
    "record_platform_key_revocations d2 c (snd (revoke_user_api_keys_in_transaction d now u)) = Inr d'"
proof -
  from assms obtain first n spec where "scan_active_memberships d u ceiling USER_DEACTIVATE = Inr (first, n)"
    "lock_user_is_active d u = Some True" "acting_user_id c \<noteq> Some u"
    "authorize_platform_caller d c USER_DEACTIVATE = Inr spec"
    and rest: "ebind (verify (deactivated d now u) now (guard_tenants d now (nearest_root_first d first))) (\<lambda>_.
      ebind (require (\<not> (platform_owner_exists d \<and> \<not> platform_owner_exists (deactivated d now u)))
        (LastPlatformOwnerError USER_DEACTIVATE)) (\<lambda>_.
      ebind (record_success (deactivated d now u) now c USER_DEACTIVATE u reason) (\<lambda>d2.
      ebind (record_platform_key_revocations d2 c (snd (revoke_user_api_keys_in_transaction d now u))) (\<lambda>d3.
      Inr (Some (d3, snd (revoke_sessions d now u),
        length (snd (revoke_user_api_keys_in_transaction d now u)))))))) = Inr (Some (d', ns, nk))"
    unfolding deactivate_in_transaction_def Let_def
    by (auto simp del: ebind.simps split: option.splits if_splits prod.splits)
  with that show ?thesis by (auto split: if_splits)
qed

lemma deactivate_attempts_ok:
  assumes "deactivate_attempts n d now u c reason ceiling = Inr r"
  shows "deactivate_in_transaction d now u c reason ceiling = Inr (Some r)"
  using assms by (induction n) (auto split: option.splits)

lemma user_operation_ok:
  assumes "user_operation d now operation c u reason body = (d', Inr a)"
  obtains r where "body r = Inr (d', a)"
  using assms by (auto simp: user_operation_def run_user_operation_def split: sum.splits option.splits prod.splits)

lemma user_operation_failed:
  assumes "user_operation d now operation c u reason body = (d', Inl e)"
  shows "evidence_only d d'"
  using assms record_platform_outcome_frame
  by (auto simp: user_operation_def run_user_operation_def record_outcome_def evidence_only_def
      split: sum.splits option.splits prod.splits)

lemma record_success_frame: "record_success d now c operation u reason = Inr d' \<Longrightarrow> evidence_only d d'"
  by (auto simp: record_success_def dest: record_platform_event_frame)

lemma key_revocations_recorded: "record_platform_key_revocations d c keys = Inr d' \<Longrightarrow> recorded d d'"
proof (induction d c keys rule: record_platform_key_revocations.induct)
  case (2 d c k t keys)
  then show ?case by (auto intro: recorded_trans dest: record_recorded)
qed simp

lemma recorded_rows:
  assumes "recorded d d'"
  shows "user_sessions d' = user_sessions d" "api_keys d' = api_keys d"
    "platform_operators d' = platform_operators d" "platform_grants d' = platform_grants d"
  using assms unfolding recorded_def by (cases d, cases d', auto)+

lemma change_recorded:
  assumes "record_success d now c operation u reason = Inr d1" "record_platform_key_revocations d1 c keys = Inr d'"
  shows "recorded d d'"
  using recorded_trans [OF recorded_evidence [OF record_success_frame [OF assms(1)]]
      key_revocations_recorded [OF assms(2)]] .

lemma recorded_user_active: "recorded d d' \<Longrightarrow> lock_user_is_active d' u = lock_user_is_active d u"
  by (simp add: lock_user_is_active_def recordedD)

lemma recorded_owner: "recorded d d' \<Longrightarrow> platform_owner_exists d' = platform_owner_exists d"
  by (simp add: platform_owner_exists_def recorded_rows recorded_user_active)

lemma deactivate_user_ok:
  assumes "deactivate_user config d now u c reason = (d', Inr (ns, nk))"
  obtains first n where "scan_active_memberships d u (max_tenants config) USER_DEACTIVATE = Inr (first, n)"
    "lock_user_is_active d u = Some True"
    "verify (deactivated d now u) now (guard_tenants d now (nearest_root_first d first)) = Inr ()"
    "platform_owner_exists d \<Longrightarrow> platform_owner_exists (deactivated d now u)"
    "recorded (deactivated d now u) d'"
proof -
  from assms obtain r where "deactivate_attempts MAX_ATTEMPTS d now u c r (max_tenants config) = Inr (d', ns, nk)"
    unfolding deactivate_user_def by (rule user_operation_ok)
  then have "deactivate_in_transaction d now u c r (max_tenants config) = Inr (Some (d', ns, nk))"
    by (rule deactivate_attempts_ok)
  then show ?thesis
    by (rule deactivate_in_transaction_ok) (metis that change_recorded)
qed

lemma set_nearest_root_first: "set (nearest_root_first d ts) = set ts"
  by (simp add: nearest_root_first_def Let_def)

lemma deactivation_keeps_administrators:
  assumes "deactivate_user config d now u c reason = (d', Inr (ns, nk))" "tenants_unique d"
    and "has_administrator d now t"
  shows "has_administrator d' now t"
  using assms(1)
proof (rule deactivate_user_ok)
  fix first n
  assume scan: "scan_active_memberships d u (max_tenants config) USER_DEACTIVATE = Inr (first, n)"
    and guard: "verify (deactivated d now u) now (guard_tenants d now (nearest_root_first d first)) = Inr ()"
    and rec: "recorded (deactivated d now u) d'"
  from assms(3) obtain v where v: "administers d now t v" by (auto simp: has_administrator_def)
  have "has_administrator (deactivated d now u) now t"
  proof (cases "v = u")
    case True
    with v have "is_active_member d t [u]" "admits_principals d t"
      by (auto simp: administers_def is_administrator_iff)
    then have "t \<in> set first" using scan_found [OF assms(2) scan] admitted_unpurged by auto
    with guard assms(3) show ?thesis by (simp add: guard_ok set_nearest_root_first)
  next
    case False
    with deactivated_administers [OF v] show ?thesis by (auto simp: has_administrator_def)
  qed
  then show ?thesis using has_administrator_cong [OF recorded_administers [OF rec]] by simp
qed

subsection \<open>No credential is left\<close>

definition credentials_revoked :: "db \<Rightarrow> uuid \<Rightarrow> bool" where
  "credentials_revoked d u = (list_all (\<lambda>s. ss_user_id s = u \<longrightarrow> ss_revoked_at s \<noteq> None) (user_sessions d) \<and>
     list_all (\<lambda>k. ak_user_id k = Some u \<longrightarrow> ak_revoked_at k \<noteq> None) (api_keys d))"

lemma validate_session_sound:
  "validate_session d now raw = Inr s \<Longrightarrow> s \<in> set (user_sessions d) \<and> ss_revoked_at s = None"
proof -
  assume "validate_session d now raw = Inr s"
  then obtain row where row: "one_or_none (filter (\<lambda>s. ss_token_hash s = hash_token raw) (user_sessions d)) = Inr row"
    and checked: "(case row of None \<Rightarrow> Inl SessionNotFoundError
      | Some s \<Rightarrow> if ss_revoked_at s \<noteq> None then Inl (SessionRevokedError (ss_id s))
          else if ss_expires_at s \<le> now then Inl (SessionExpiredError (ss_id s))
          else (case get_user d (ss_user_id s) of None \<Rightarrow> Inl (InactiveUserError (ss_user_id s))
            | Some u \<Rightarrow> if \<not> us_is_active u then Inl (InactiveUserError (ss_user_id s)) else Inr s)) = Inr s"
    unfolding validate_session_def ebind_Inr_iff by blast
  from checked have "row = Some s" "ss_revoked_at s = None" by (auto split: option.splits if_splits)
  moreover from this row have "filter (\<lambda>s. ss_token_hash s = hash_token raw) (user_sessions d) = [s]"
    by (simp add: one_or_none_Some)
  ultimately show ?thesis by (metis filter_is_subset list.set_intros(1) subsetD)
qed

lemma validate_api_key_sound:
  assumes "validate_api_key d now raw = (d', Inr key)"
  shows "key \<in> set (api_keys d) \<and> ak_revoked_at key = None"
proof (cases "one_or_none (filter (\<lambda>k. ak_key_hash k = hash_key raw) (api_keys d))")
  case (Inr row)
  then show ?thesis
  proof (cases row)
    case (Some k)
    have "deny_key d k e \<noteq> (d', Inr key)" for e using deny_key_refuses [of d k e key] by auto
    with assms have "key = k \<and> ak_revoked_at k = None"
      unfolding validate_api_key_def Inr Some sum.case option.case
        checks_pass_iff [of "deny_key d k", OF \<open>\<And>e. deny_key d k e \<noteq> _\<close>] by simp
    moreover have "filter (\<lambda>k. ak_key_hash k = hash_key raw) (api_keys d) = [k]"
      using Inr Some by (simp add: one_or_none_Some)
    then have "k \<in> set (api_keys d)" by (metis filter_is_subset list.set_intros(1) subsetD)
    ultimately show ?thesis by blast
  qed (use assms Inr in \<open>simp add: validate_api_key_def\<close>)
qed (use assms in \<open>simp add: validate_api_key_def\<close>)

lemma revoked_credentials_refused:
  assumes "credentials_revoked d u"
  shows "validate_session d now raw = Inr s \<Longrightarrow> ss_user_id s \<noteq> u"
    and "validate_api_key d now raw = (d', Inr key) \<Longrightarrow> ak_user_id key \<noteq> Some u"
proof -
  show "ss_user_id s \<noteq> u" if "validate_session d now raw = Inr s"
    using assms validate_session_sound [OF that] unfolding credentials_revoked_def list_all_iff by blast
  show "ak_user_id key \<noteq> Some u" if "validate_api_key d now raw = (d', Inr key)"
    using assms validate_api_key_sound [OF that] unfolding credentials_revoked_def list_all_iff by blast
qed

lemma swept_sessions:
  "list_all (\<lambda>s. ss_user_id s = u \<longrightarrow> ss_revoked_at s \<noteq> None)
    (update_where (\<lambda>s. ss_user_id s = u \<and> ss_revoked_at s = None) (\<lambda>s. s\<lparr>ss_revoked_at := Some now\<rparr>) rows)"
  by (induction rows) (auto simp: update_where_def)

lemma swept_keys:
  "list_all (\<lambda>k. ak_user_id k = Some u \<longrightarrow> ak_revoked_at k \<noteq> None)
    (map (retired (\<lambda>k. ak_user_id k = Some u) now) rows)"
  unfolding list_all_iff by (simp del: not_None_eq)

lemma deactivated_credentials: "credentials_revoked (deactivated d now u) u"
  unfolding credentials_revoked_def deactivated_frame using swept_sessions swept_keys by simp

lemma recorded_credentials: "recorded d d' \<Longrightarrow> credentials_revoked d' u = credentials_revoked d u"
  by (simp add: credentials_revoked_def recorded_rows)

lemma reactivate_user_ok:
  assumes "reactivate_user d now u c reason = (d', Inr r)"
  shows "recorded (write_user_active u True (fst (revoke_user_api_keys_in_transaction
    (fst (revoke_sessions d now u)) now u))) d'"
proof -
  from assms obtain x where "(case lock_user_is_active d u of
         None \<Rightarrow> Inl (PlatformSubjectNotFoundError u)
       | Some is_active \<Rightarrow>
           ebind (require (\<not> is_active) (InvalidUserStateError u ''active'')) (\<lambda>_.
           let (d1, sessions_revoked) = revoke_sessions d now u;
               (d2, keys) = revoke_user_api_keys_in_transaction d1 now u;
               d3 = write_user_active u True d2 in
           ebind (record_success d3 now c USER_REACTIVATE u x) (\<lambda>d4.
           ebind (record_platform_key_revocations d4 c keys) (\<lambda>d5.
           Inr (d5, sessions_revoked, length keys))))) = Inr (d', r)"
    unfolding reactivate_user_def by (elim user_operation_ok) auto
  then show ?thesis
    by (auto simp: Let_def split: option.splits prod.splits dest: change_recorded)
qed

subsection \<open>Properties\<close>

text \<open>C23: a deactivated person is locked out at once. After a successful deactivation every
  session and every API key of the person is revoked, so no secret they hold authenticates
  as them at any later instant, and every authorization decision about them is negative,
  in every tenant and for every permission.\<close>

theorem deactivated_person_is_locked_out:
  assumes "deactivate_user config d now u c reason = (d', Inr (ns, nk))"
  shows "credentials_revoked d' u \<and>
    (\<forall>later raw s. validate_session d' later raw = Inr s \<longrightarrow> ss_user_id s \<noteq> u) \<and>
    (\<forall>later raw d'' key. validate_api_key d' later raw = (d'', Inr key) \<longrightarrow> ak_user_id key \<noteq> Some u) \<and>
    (\<forall>later t action resource. \<not> user_can d' later u t action resource)"
  using assms
proof (rule deactivate_user_ok)
  assume active: "lock_user_is_active d u = Some True" and rec: "recorded (deactivated d now u) d'"
  have gone: "credentials_revoked d' u" using recorded_credentials [OF rec] deactivated_credentials by simp
  have "lock_user_is_active d' u = Some False"
    using active by (simp add: recorded_user_active [OF rec] lock_user_deactivated)
  then have "\<not> user_can d' later u t action resource" for later t action resource
    by (simp add: decide_formula actor_is_live_def)
  with gone revoked_credentials_refused [OF gone] show ?thesis by blast
qed

text \<open>C24: deactivation leaves no tenant and no platform without authority. A successful
  deactivation keeps an administrator for every tenant that had one, although it scans the
  registry in pages and guards only what it found, and keeps a platform owner if there was
  one.\<close>

theorem deactivation_keeps_authority:
  assumes "deactivate_user config d now u c reason = (d', Inr (ns, nk))" "tenants_unique d"
  shows "(has_administrator d now t \<longrightarrow> has_administrator d' now t) \<and>
    (platform_owner_exists d \<longrightarrow> platform_owner_exists d')"
proof -
  have "platform_owner_exists d \<longrightarrow> platform_owner_exists d'"
    using assms(1) by (rule deactivate_user_ok) (simp add: recorded_owner)
  with deactivation_keeps_administrators [OF assms] show ?thesis by blast
qed

text \<open>C25: the registry scan is complete and always ends. Paging through the registry 500
  identifiers at a time, it returns the exact set of tenants that are not purged and where
  the person is an active member, having visited every such tenant once; it refuses if
  and only if the registry is larger than the ceiling, and never answers from part of it.\<close>

theorem registry_scan_is_complete:
  assumes "tenants_unique d"
  shows "if length (filter (\<lambda>x. tn_status x \<noteq> PURGED) (tenants d)) > ceiling
   then scan_active_memberships d u ceiling op = Inl (DeactivationScanLimitError op ceiling)
   else \<exists>found n. scan_active_memberships d u ceiling op = Inr (found, n) \<and>
     n = length (filter (\<lambda>x. tn_status x \<noteq> PURGED) (tenants d)) \<and>
     set found = {t. (\<exists>x \<in> set (tenants d). tn_id x = t \<and> tn_status x \<noteq> PURGED) \<and> is_active_member d t [u]}"
proof -
  have "length (unpurged_after d None) = length (filter (\<lambda>x. tn_status x \<noteq> PURGED) (tenants d))"
    by (simp add: unpurged_after_def)
  with scan_spec [OF assms, where ceiling = ceiling and u = u and op = op] show ?thesis
    by (auto simp: set_unpurged_after split: if_splits)
qed

text \<open>Reactivation restores no credential. Whatever sessions and keys the person had,
  after a successful reactivation every one of them is revoked: no earlier secret
  authenticates as the person again.\<close>

theorem reactivation_restores_no_credential:
  assumes "reactivate_user d now u c reason = (d', Inr r)"
  shows "credentials_revoked d' u \<and>
    (\<forall>later raw s. validate_session d' later raw = Inr s \<longrightarrow> ss_user_id s \<noteq> u) \<and>
    (\<forall>later raw d'' key. validate_api_key d' later raw = (d'', Inr key) \<longrightarrow> ak_user_id key \<noteq> Some u)"
proof -
  have gone: "credentials_revoked d' u"
    unfolding recorded_credentials [OF reactivate_user_ok [OF assms]]
    using swept_sessions swept_keys
    by (simp add: credentials_revoked_def write_user_active_def revoke_sessions_def Let_def
        revoke_user_api_keys_in_transaction_def revoke_keys_frame)
  with revoked_credentials_refused [OF gone] show ?thesis by blast
qed

subsection \<open>A deployment with an incident\<close>

definition account_db :: db where
  "account_db = platform_db\<lparr>platform_grants := platform_grants platform_db @
       [mk_grant 213 200 P_USER_DEACTIVATE, mk_grant 214 200 P_USER_REACTIVATE],
     user_sessions := [\<lparr>ss_id = 300, ss_user_id = 12, ss_token_hash = ''h'', ss_expires_at = 900,
       ss_revoked_at = None, ss_verified_email = Some ''a@b.io'', ss_multi_factor = False,
       ss_provider_authenticated_at = None\<rparr>],
     api_keys := [\<lparr>ak_id = 301, ak_tenant_id = 1, ak_user_id = Some 12, ak_service_account_id = None,
       ak_name = ''ci'', ak_key_hash = ''k'', ak_created_at = 0, ak_expires_at = None,
       ak_revoked_at = None\<rparr>]\<rparr>"

definition scan_limit :: deactivation_scan_config where
  "scan_limit = \<lparr>max_tenants = 10\<rparr>"

lemma scan_sample: "scan_active_memberships account_db 12 10 USER_DEACTIVATE = Inr ([], 4)"
proof -
  have pages: "unpurged_tenant_ids_page account_db None SCAN_PAGE_SIZE = [1, 2, 3, 4]"
    "unpurged_tenant_ids_page account_db (Some 4) SCAN_PAGE_SIZE = []"
    by code_simp+
  have scanned: "scan_page account_db 12 10 USER_DEACTIVATE [1, 2, 3, 4] [] 0 = Inr ([], 4)" by code_simp
  have "last [1, 2, 3, 4 :: uuid] = 4" by simp
  then show ?thesis
    unfolding scan_active_memberships_def
    by (subst scan_pages.simps, unfold Let_def pages scanned)
      (simp only: list.distinct if_False ebind.simps prod.case, subst scan_pages.simps, simp add: pages)
qed

lemma deactivate_sample:
  "\<exists>d. deactivate_user scan_limit account_db 100 12 (UserCaller 10) ''incident'' = (d, Inr (1, 1))"
proof -
  let ?d1 = "deactivated account_db 100 12" and ?c = "UserCaller 10"
  have checks: "preliminary_authorization account_db ?c = Inr ()"
    "count_unpurged_tenants account_db (10 + 1) > 10 \<longleftrightarrow> False"
    "lock_user_is_active account_db 12 = Some True"
    "verify ?d1 100 (guard_tenants account_db 100 (nearest_root_first account_db [])) = Inr ()"
    "platform_owner_exists ?d1" "snd (revoke_sessions account_db 100 12) = 1"
    "snd (revoke_user_api_keys_in_transaction account_db 100 12) = [(301, 1)]"
    by code_simp+
  obtain spec where spec: "authorize_platform_caller account_db ?c USER_DEACTIVATE = Inr spec"
  proof -
    have "is_ok (authorize_platform_caller account_db ?c USER_DEACTIVATE)" by code_simp
    then show thesis using that by (auto simp: is_ok_iff)
  qed
  obtain d2 d3 where evidence: "record_success ?d1 100 ?c USER_DEACTIVATE 12 ''incident'' = Inr d2"
    "record_platform_key_revocations d2 ?c [(301, 1)] = Inr d3"
  proof -
    have "is_ok (ebind (record_success ?d1 100 ?c USER_DEACTIVATE 12 ''incident'')
      (\<lambda>d2. record_platform_key_revocations d2 ?c [(301, 1)]))" by code_simp
    then show thesis using that by (auto simp: is_ok_iff)
  qed
  have "deactivate_in_transaction account_db 100 12 ?c ''incident'' 10 = Inr (Some (d3, 1, 1))"
    unfolding deactivate_in_transaction_def scan_sample checks spec
    by (simp add: checks evidence acting_user_id_def require_def
        del: One_nat_def record_platform_key_revocations.simps)
  then have "deactivate_attempts MAX_ATTEMPTS account_db 100 12 ?c ''incident'' 10 = Inr (d3, 1, 1)"
    unfolding MAX_ATTEMPTS_def numeral_3_eq_3 deactivate_attempts.simps by simp
  moreover have "max_tenants scan_limit = 10" by (simp add: scan_limit_def)
  moreover have "require_person_or_refuse USER_DEACTIVATE ?c = Inr ()" "validate_reason ''incident'' = Inr ''incident''"
    by code_simp+
  ultimately show ?thesis
    by (simp add: deactivate_user_def user_operation_def run_user_operation_def)
qed

lemma tenants_unique_account: "tenants_unique account_db"
  by code_simp

lemma reactivate_sample:
  "\<exists>d. reactivate_user (write_user_active 12 False account_db) 100 12 (UserCaller 10) ''cleared'' = (d, Inr (1, 1))"
proof -
  have "snd (reactivate_user (write_user_active 12 False account_db) 100 12 (UserCaller 10) ''cleared'') = Inr (1, 1)"
    by code_simp
  then show ?thesis by (metis prod.collapse)
qed

theorem deactivated_person_is_locked_out_witness:
  "\<exists>d. deactivate_user scan_limit account_db 100 12 (UserCaller 10) ''incident'' = (d, Inr (1, 1)) \<and>
     credentials_revoked d 12 \<and> \<not> user_can d 200 12 1 ''read'' ''tenant''"
  using deactivate_sample deactivated_person_is_locked_out by meson

theorem deactivation_keeps_authority_witness:
  "\<exists>d. deactivate_user scan_limit account_db 100 12 (UserCaller 10) ''incident'' = (d, Inr (1, 1)) \<and>
     has_administrator d 100 1 \<and> platform_owner_exists d"
proof -
  have "administers account_db 100 1 10" "platform_owner_exists account_db" by code_simp+
  then have "has_administrator account_db 100 1" "platform_owner_exists account_db"
    by (auto simp: has_administrator_def)
  then show ?thesis
    using deactivate_sample deactivation_keeps_authority [OF _ tenants_unique_account] by meson
qed

theorem registry_scan_is_complete_witness:
  "\<exists>found n. scan_active_memberships account_db 11 10 USER_DEACTIVATE = Inr (found, n) \<and> n = 4 \<and>
     set found = {t. (\<exists>x \<in> set (tenants account_db). tn_id x = t \<and> tn_status x \<noteq> PURGED) \<and>
       is_active_member account_db t [11]}"
proof -
  have "length (filter (\<lambda>x. tn_status x \<noteq> PURGED) (tenants account_db)) = 4" by code_simp
  with registry_scan_is_complete [OF tenants_unique_account, where ceiling = 10 and u = 11
      and op = USER_DEACTIVATE] show ?thesis by simp
qed

subsection \<open>What a revoked session keeps\<close>

text \<open>A revocation by the platform leaves the address a provider verified on the session row,
  where the holder's own logout erases it.\<close>

theorem platform_revocation_keeps_verified_email:
  "map ss_verified_email (user_sessions (fst (revoke_sessions account_db 100 12))) = [Some ''a@b.io''] \<and>
   map ss_revoked_at (user_sessions (fst (revoke_sessions account_db 100 12))) = [Some 100]"
  by code_simp

end
