(* ===== verification/Calendar.thy ===== *)
theory Calendar
  imports Prelude
begin

section \<open>Instants as text\<close>

text \<open>
  What the sources use of Python's text and calendar: a \<open>str\<close> as its list of code
  points, decimal fields of fixed width, and \<open>datetime.isoformat(timespec="seconds")\<close> of
  a UTC instant with the \<open>datetime.fromisoformat\<close> that reads it back. An instant counts
  microseconds from \<open>datetime.min\<close>, the first instant of the year 1, and a text form
  exists for the years 1 to 9999.
\<close>

type_synonym pystr = "nat list"

definition codes :: "string \<Rightarrow> pystr" where
  "codes s = map of_char s"

subsection \<open>Decimal fields\<close>

fun digits :: "nat \<Rightarrow> nat \<Rightarrow> pystr" where
  "digits 0 n = []"
| "digits (Suc w) n = digits w (n div 10) @ [48 + n mod 10]"

definition is_digit :: "nat \<Rightarrow> bool" where
  "is_digit c = (48 \<le> c \<and> c \<le> 57)"

definition number_of :: "pystr \<Rightarrow> nat" where
  "number_of ds = foldl (\<lambda>n c. 10 * n + (c - 48)) 0 ds"

lemma length_digits [simp]: "length (digits w n) = w"
  by (induction w arbitrary: n) auto

lemma digits_are_digits: "list_all is_digit (digits w n)"
  by (induction w arbitrary: n) (auto simp: is_digit_def)

lemma is_digit_nth [simp]: "i < w \<Longrightarrow> is_digit (digits w n ! i)"
  by (metis digits_are_digits length_digits list_all_length)

lemma number_of_digits [simp]: "n < 10 ^ w \<Longrightarrow> number_of (digits w n) = n"
  by (induction w arbitrary: n) (auto simp: number_of_def less_mult_imp_div_less mult.commute)

subsection \<open>The civil calendar\<close>

definition leap_year :: "nat \<Rightarrow> bool" where
  "leap_year y = (y mod 4 = 0 \<and> (y mod 100 \<noteq> 0 \<or> y mod 400 = 0))"

definition month_lengths :: "nat \<Rightarrow> nat list" where
  "month_lengths y = [31, if leap_year y then 29 else 28, 31, 30, 31, 30, 31, 31, 30, 31, 30, 31]"

fun find_month :: "nat list \<Rightarrow> nat \<Rightarrow> nat \<Rightarrow> nat \<times> nat" where
  "find_month [] m n = (m, n + 1)"
| "find_month (k # ks) m n = (if n < k then (m, n + 1) else find_month ks (m + 1) (n - k))"

text \<open>Days before the first of January, and the day number of a date, both from day 0, the
  first of January of the year 1.\<close>

definition days_before_year :: "nat \<Rightarrow> nat" where
  "days_before_year y = (y - 1) * 365 + (y - 1) div 4 - (y - 1) div 100 + (y - 1) div 400"

definition day_of_date :: "nat \<times> nat \<times> nat \<Rightarrow> nat" where
  "day_of_date = (\<lambda>(y, m, d).
     days_before_year y + sum_list (take (m - 1) (month_lengths y)) + d - 1)"

definition year_of_day :: "nat \<Rightarrow> nat" where
  "year_of_day n = (let a = n div 146097; r = n mod 146097; b = min 3 (r div 36524);
     r' = r - 36524 * b; c = r' div 1461; q = r' mod 1461 in
     400 * a + 100 * b + 4 * c + min 3 (q div 365) + 1)"

definition date_of_day :: "nat \<Rightarrow> nat \<times> nat \<times> nat" where
  "date_of_day n = (let y = year_of_day n in
     (y, find_month (month_lengths y) 1 (n - days_before_year y)))"

definition valid_date :: "nat \<times> nat \<times> nat \<Rightarrow> bool" where
  "valid_date = (\<lambda>(y, m, d). 1 \<le> y \<and> 1 \<le> m \<and> m \<le> 12 \<and> 1 \<le> d \<and> d \<le> month_lengths y ! (m - 1))"

lemma find_month_spec:
  assumes "n < sum_list ks" "find_month ks m n = (m', d)"
  shows "m \<le> m' \<and> m' < m + length ks \<and> 1 \<le> d \<and> d \<le> ks ! (m' - m) \<and>
    sum_list (take (m' - m) ks) + d = n + 1"
  using assms
proof (induction ks m n rule: find_month.induct)
  case (2 k ks m n)
  show ?case
  proof (cases "n < k")
    case False
    with 2 have *: "m + 1 \<le> m' \<and> m' < m + 1 + length ks \<and> 1 \<le> d \<and> d \<le> ks ! (m' - (m + 1)) \<and>
      sum_list (take (m' - (m + 1)) ks) + d = n - k + 1" by auto
    then have "m' - m = Suc (m' - (m + 1))" by linarith
    moreover from * have "sum_list (take (m' - (m + 1)) ks) + d = n - k + 1" by blast
    with False have "k + sum_list (take (m' - (m + 1)) ks) + d = n + 1" by linarith
    ultimately show ?thesis using * by simp
  qed (use 2 in auto)
qed simp

lemma div_split: "r < k \<Longrightarrow> (k * q + r) div k = q" for k q r :: nat
  by simp

lemma days_before_year_split:
  assumes "b \<le> 3" "c \<le> 24" "e \<le> 3"
  shows "days_before_year (400 * a + 100 * b + 4 * c + e + 1) =
    146097 * a + 36524 * b + 1461 * c + 365 * e"
proof -
  let ?z = "400 * a + 100 * b + 4 * c + e"
  have z: "?z = 4 * (100 * a + 25 * b + c) + e" "?z = 100 * (4 * a + b) + (4 * c + e)"
    "?z = 400 * a + (100 * b + 4 * c + e)" by simp_all
  have small: "e < 4" "4 * c + e < 100" "100 * b + 4 * c + e < 400" using assms by linarith+
  have "?z div 4 = 100 * a + 25 * b + c" unfolding z(1) using small(1) by (rule div_split)
  moreover have "?z div 100 = 4 * a + b" unfolding z(2) using small(2) by (rule div_split)
  moreover have "?z div 400 = a" unfolding z(3) using small(3) by (rule div_split)
  ultimately show ?thesis by (simp add: days_before_year_def)
qed

lemma leap_year_split:
  assumes "b \<le> 3" "c \<le> 24" "c = 24 \<longrightarrow> b = 3"
  shows "leap_year (400 * a + 100 * b + 4 * c + 3 + 1)"
proof (cases "c = 24")
  case True
  with assms have "400 * a + 100 * b + 4 * c + 3 + 1 = 400 * (a + 1)" by simp
  then show ?thesis by (simp only: leap_year_def) simp
next
  case False
  have y: "400 * a + 100 * b + 4 * c + 3 + 1 = 4 * (c + 1) + 100 * (4 * a + b)"
    "400 * a + 100 * b + 4 * c + 3 + 1 = 4 * (100 * a + 25 * b + c + 1)" by simp_all
  have "4 * (c + 1) < 100" using False assms by simp
  then have "(4 * (c + 1) + 100 * (4 * a + b)) mod 100 = 4 * (c + 1)"
    by (simp only: mod_mult_self2 mod_less)
  then show ?thesis unfolding leap_year_def by (metis y mod_mult_self1_is_0 add_is_0 mult_is_0
      one_neq_zero zero_neq_numeral)
qed

lemma sum_month_lengths: "sum_list (month_lengths y) = (if leap_year y then 366 else 365)"
  by (simp add: month_lengths_def)

lemma year_of_day_bounds:
  "days_before_year (year_of_day n) \<le> n \<and>
   n - days_before_year (year_of_day n) < sum_list (month_lengths (year_of_day n))"
proof -
  define a r where "a = n div 146097" and "r = n mod 146097"
  define b where "b = min 3 (r div 36524)"
  define r' where "r' = r - 36524 * b"
  define c q where "c = r' div 1461" and "q = r' mod 1461"
  define e where "e = min 3 (q div 365)"
  have y: "year_of_day n = 400 * a + 100 * b + 4 * c + e + 1"
    by (simp add: year_of_day_def Let_def a_def r_def b_def r'_def c_def q_def e_def)
  have n: "n = 146097 * a + r" "r < 146097" by (simp_all add: a_def r_def)
  have b: "b \<le> 3" "36524 * b \<le> r" "r' \<le> 36524" "b < 3 \<longrightarrow> r' < 36524"
    using n(2) unfolding b_def r'_def by (auto simp: min_def)
  have c: "r' = 1461 * c + q" "q < 1461" by (simp_all add: c_def q_def)
  with b have c24: "c \<le> 24" "c = 24 \<longrightarrow> b < 3 \<longrightarrow> q < 1460" by auto
  have e: "e \<le> 3" "365 * e \<le> q" "q - 365 * e \<le> 365" "q - 365 * e = 365 \<longrightarrow> e = 3 \<and> q = 1460"
    using c(2) unfolding e_def by (auto simp: min_def)
  have before: "days_before_year (year_of_day n) = 146097 * a + 36524 * b + 1461 * c + 365 * e"
    unfolding y by (rule days_before_year_split) (use b(1) c24(1) e(1) in auto)
  have left: "n - days_before_year (year_of_day n) = q - 365 * e"
    using n b c e before by (simp add: r'_def)
  have "leap_year (year_of_day n)" if "q - 365 * e = 365"
  proof -
    have "e = 3" "c = 24 \<longrightarrow> b = 3" using e(4) that c24(2) b(1) by auto
    then show ?thesis unfolding y using leap_year_split [OF b(1) c24(1)] by simp
  qed
  with e(3) have "q - 365 * e < sum_list (month_lengths (year_of_day n))"
    by (cases "q - 365 * e = 365") (auto simp: sum_month_lengths)
  moreover have "days_before_year (year_of_day n) \<le> n"
    using n b c e before by (simp add: r'_def)
  ultimately show ?thesis by (simp add: left)
qed

theorem date_round_trip: "valid_date (date_of_day n) \<and> day_of_date (date_of_day n) = n"
proof -
  define y where "y = year_of_day n"
  obtain m d where md: "find_month (month_lengths y) 1 (n - days_before_year y) = (m, d)"
    by (metis prod.exhaust)
  have bounds: "days_before_year y \<le> n" "n - days_before_year y < sum_list (month_lengths y)"
    using year_of_day_bounds [of n] by (simp_all add: y_def)
  from find_month_spec [OF bounds(2) md] have
    *: "1 \<le> m" "m < 1 + 12" "1 \<le> d" "d \<le> month_lengths y ! (m - 1)"
      "sum_list (take (m - 1) (month_lengths y)) + d = n - days_before_year y + 1"
    by (auto simp: month_lengths_def)
  moreover have "1 \<le> y" by (simp add: y_def year_of_day_def Let_def)
  moreover have "date_of_day n = (y, m, d)" by (simp add: date_of_day_def Let_def md [symmetric] y_def)
  ultimately show ?thesis using bounds(1) by (simp add: valid_date_def day_of_date_def)
qed

subsection \<open>The ISO form of a UTC instant\<close>

definition MICROSECOND_SECOND :: int where
  "MICROSECOND_SECOND = 1000000"

definition truncate_to_second :: "datetime \<Rightarrow> datetime" where
  "truncate_to_second t = t div MICROSECOND_SECOND * MICROSECOND_SECOND"

definition isoformat_seconds :: "datetime \<Rightarrow> pystr" where
  "isoformat_seconds t = (let s = nat (t div MICROSECOND_SECOND); (y, m, d) = date_of_day (s div 86400) in
     digits 4 y @ [45] @ digits 2 m @ [45] @ digits 2 d @ [84] @
     digits 2 (s div 3600 mod 24) @ [58] @ digits 2 (s div 60 mod 60) @ [58] @ digits 2 (s mod 60) @
     codes ''+00:00'')"

text \<open>The shape \<open>\d{4}-\d{2}-\d{2}T\d{2}:\d{2}:\d{2}\+00:00\<close>, and the instant it names.\<close>

definition has_iso_shape :: "pystr \<Rightarrow> bool" where
  "has_iso_shape x = (length x = 25 \<and>
     list_all (\<lambda>i. is_digit (x ! i)) [0, 1, 2, 3, 5, 6, 8, 9, 11, 12, 14, 15, 17, 18] \<and>
     x ! 4 = 45 \<and> x ! 7 = 45 \<and> x ! 10 = 84 \<and> x ! 13 = 58 \<and> x ! 16 = 58 \<and>
     drop 19 x = codes ''+00:00'')"

definition field :: "nat \<Rightarrow> nat \<Rightarrow> pystr \<Rightarrow> nat" where
  "field i w x = number_of (take w (drop i x))"

definition fromisoformat :: "pystr \<Rightarrow> datetime option" where
  "fromisoformat x = (let date = (field 0 4 x, field 5 2 x, field 8 2 x);
       h = field 11 2 x; m = field 14 2 x; s = field 17 2 x in
     if valid_date date \<and> h < 24 \<and> m < 60 \<and> s < 60
     then Some (int (day_of_date date * 86400 + h * 3600 + m * 60 + s) * MICROSECOND_SECOND)
     else None)"

definition representable :: "datetime \<Rightarrow> bool" where
  "representable t = (0 \<le> t \<and> t < 3652059 * 86400 * MICROSECOND_SECOND)"

lemma sum_bound: "2400 \<le> p - q \<Longrightarrow> 24 \<le> w \<Longrightarrow> 3649635 \<le> v \<Longrightarrow> 3652059 \<le> v + p - q + w" for p q v w :: nat
  by linarith

lemma sum_bound_above: "p - q \<le> 2400 \<Longrightarrow> w \<le> 24 \<Longrightarrow> v + p - q + w \<le> v + 2424" for p q v w :: nat
  by linarith

lemma days_before_year_10000:
  assumes "10000 \<le> y"
  shows "3652059 \<le> days_before_year y"
proof -
  define k r where "k = (y - 1) div 100" and "r = (y - 1) mod 100"
  have z: "y - 1 = 100 * k + r" "r < 100" by (simp_all add: k_def r_def)
  have "(100 * k + r) div 4 = (4 * (25 * k) + r) div 4" by simp
  also have "\<dots> = 25 * k + r div 4" by (rule div_mult_self4) simp
  finally have "(100 * k + r) div 4 = 25 * k + r div 4" .
  with z have "(y - 1) div 4 - (y - 1) div 100 = 24 * k + r div 4" by simp
  moreover have "2400 \<le> 24 * k + r div 4"
  proof (cases "100 \<le> k")
    case False
    have "9999 \<le> 100 * k + r" using assms z(1) by linarith
    with False z(2) have "k = 99" "r = 99" by linarith+
    then show ?thesis by simp
  qed simp
  ultimately have "2400 \<le> (y - 1) div 4 - (y - 1) div 100" by simp
  moreover have "9999 \<le> y - 1" using assms by simp
  then have "9999 div 400 \<le> (y - 1) div 400" "9999 * 365 \<le> (y - 1) * 365"
    by (rule div_le_mono, rule mult_le_mono1)
  then have "24 \<le> (y - 1) div 400" "3649635 \<le> (y - 1) * 365" by simp_all
  ultimately show ?thesis
    unfolding days_before_year_def by (rule sum_bound)
qed

lemma date_of_day_fields:
  assumes "n < 3652059" "date_of_day n = (y, m, d)"
  shows "y < 10000" "m < 100" "d < 100"
proof -
  have *: "valid_date (y, m, d)" "day_of_date (y, m, d) = n"
    using date_round_trip [of n] assms(2) by simp_all
  have "set (month_lengths y) \<subseteq> {28, 29, 30, 31}" "length (month_lengths y) = 12"
    by (simp_all add: month_lengths_def)
  moreover have "m - 1 < 12" using *(1) by (auto simp: valid_date_def)
  ultimately have "month_lengths y ! (m - 1) \<in> {28, 29, 30, 31}" by (metis nth_mem subsetD)
  then have "month_lengths y ! (m - 1) \<le> 31" by auto
  with *(1) show "m < 100" "d < 100" by (auto simp: valid_date_def)
  show "y < 10000"
  proof (rule ccontr)
    assume "\<not> y < 10000"
    then have "3652059 \<le> days_before_year y" by (simp add: days_before_year_10000)
    moreover have "days_before_year y \<le> n" using * by (auto simp: day_of_date_def valid_date_def)
    ultimately show False using assms(1) by simp
  qed
qed

lemma clock_fields: "nat s div 3600 mod 24 < 24" "nat s div 60 mod 60 < 60" "nat s mod 60 < 60"
  by simp_all

lemma nested_division:
  "a * 24 + b = c \<Longrightarrow> c * 60 + e = g \<Longrightarrow> g * 60 + k = s \<Longrightarrow> a * 86400 + b * 3600 + e * 60 + k = s"
  for s :: nat
  by linarith

lemma seconds_of_fields:
  fixes s :: nat
  shows "s div 86400 * 86400 + s div 3600 mod 24 * 3600 + s div 60 mod 60 * 60 + s mod 60 = s"
proof -
  have *: "s div 3600 = s div 60 div 60" "s div 86400 = s div 60 div 60 div 24"
    by (simp_all add: div_mult2_eq [symmetric])
  have "s div 60 div 60 div 24 * 24 + s div 60 div 60 mod 24 = s div 60 div 60"
    "s div 60 div 60 * 60 + s div 60 mod 60 = s div 60" "s div 60 * 60 + s mod 60 = s"
    by (rule div_mult_mod_eq)+
  then show ?thesis unfolding * by (rule nested_division)
qed

lemma iso_fields:
  assumes "y < 10000" "m < 100" "d < 100" "h < 100" "mi < 100" "s < 100"
    and x: "x = digits 4 y @ [45] @ digits 2 m @ [45] @ digits 2 d @ [84] @
      digits 2 h @ [58] @ digits 2 mi @ [58] @ digits 2 s @ codes ''+00:00''"
  shows "field 0 4 x = y" "field 5 2 x = m" "field 8 2 x = d" "field 11 2 x = h" "field 14 2 x = mi"
    "field 17 2 x = s" "has_iso_shape x"
proof -
  show "field 0 4 x = y" "field 5 2 x = m" "field 8 2 x = d" "field 11 2 x = h" "field 14 2 x = mi"
    "field 17 2 x = s"
    using assms(1-6) by (simp_all add: x field_def)
  show "has_iso_shape x"
    by (simp add: x has_iso_shape_def nth_append nth_Cons' codes_def)
qed

theorem isoformat_round_trip:
  assumes "representable t"
  shows "has_iso_shape (isoformat_seconds t)"
    and "fromisoformat (isoformat_seconds t) = Some (truncate_to_second t)"
proof -
  define s where "s = nat (t div MICROSECOND_SECOND)"
  obtain y m d where date: "date_of_day (s div 86400) = (y, m, d)" by (metis prod.exhaust)
  have "t div MICROSECOND_SECOND < 3652059 * 86400" "0 \<le> t div MICROSECOND_SECOND"
    using assms unfolding representable_def MICROSECOND_SECOND_def by linarith+
  then have s: "s div 86400 < 3652059" "int s = t div MICROSECOND_SECOND" by (simp_all add: s_def)
  note small = date_of_day_fields [OF s(1) date]
  have form: "isoformat_seconds t = digits 4 y @ [45] @ digits 2 m @ [45] @ digits 2 d @ [84] @
      digits 2 (s div 3600 mod 24) @ [58] @ digits 2 (s div 60 mod 60) @ [58] @ digits 2 (s mod 60) @
      codes ''+00:00''"
    by (simp add: isoformat_seconds_def Let_def date flip: s_def)
  have clock: "s div 3600 mod 24 < 24" "s div 60 mod 60 < 60" "s mod 60 < 60" by simp_all
  then have "s div 3600 mod 24 < 100" "s div 60 mod 60 < 100" "s mod 60 < 100" by linarith+
  note fields = iso_fields [OF small this form]
  show "has_iso_shape (isoformat_seconds t)" by (rule fields(7))
  have "valid_date (y, m, d)" "day_of_date (y, m, d) = s div 86400"
    using date_round_trip [of "s div 86400"] date by simp_all
  with clock show "fromisoformat (isoformat_seconds t) = Some (truncate_to_second t)"
    unfolding fromisoformat_def Let_def fields
    by (simp only: simp_thms if_True option.inject seconds_of_fields s(2) truncate_to_second_def)
qed

text \<open>What is read back is a whole second that has a text form again.\<close>

lemma number_of_snoc: "number_of (ds @ [c]) = 10 * number_of ds + (c - 48)"
  by (simp add: number_of_def)

lemma number_of_bound: "list_all is_digit ds \<Longrightarrow> number_of ds < 10 ^ length ds"
proof (induction ds rule: rev_induct)
  case (snoc c ds)
  then have "number_of ds < 10 ^ length ds" "c - 48 < 10" by (auto simp: is_digit_def)
  then show ?case by (simp add: number_of_snoc)
qed (simp add: number_of_def)

lemma sum_take_nth: "k < length xs \<Longrightarrow> sum_list (take k xs) + xs ! k \<le> sum_list xs" for xs :: "nat list"
proof -
  assume "k < length xs"
  then have "xs = take k xs @ xs ! k # drop (Suc k) xs" by (rule id_take_nth_drop)
  then have "sum_list xs = sum_list (take k xs) + (xs ! k + sum_list (drop (Suc k) xs))"
    by (metis sum_list.Cons sum_list_append)
  then show ?thesis by simp
qed

lemma days_before_year_9999:
  assumes "y \<le> 9999"
  shows "days_before_year y \<le> (y - 1) * 365 + 2424"
proof -
  define k r where "k = (y - 1) div 100" and "r = (y - 1) mod 100"
  have z: "y - 1 = 100 * k + r" "r < 100" by (simp_all add: k_def r_def)
  have "(100 * k + r) div 4 = (4 * (25 * k) + r) div 4" by simp
  also have "\<dots> = 25 * k + r div 4" by (rule div_mult_self4) simp
  finally have "(y - 1) div 4 - (y - 1) div 100 = 24 * k + r div 4" using z by simp
  moreover have "k \<le> 99" "r div 4 \<le> 24" using z assms by linarith+
  ultimately have "(y - 1) div 4 - (y - 1) div 100 \<le> 2400" by linarith
  moreover have "y - 1 \<le> 9998" using assms by simp
  then have "(y - 1) div 400 \<le> 9998 div 400" by (rule div_le_mono)
  then have "(y - 1) div 400 \<le> 24" by simp
  ultimately show ?thesis unfolding days_before_year_def by (rule sum_bound_above)
qed

lemma day_of_date_bound:
  assumes "valid_date (y, m, d)" "y < 10000"
  shows "day_of_date (y, m, d) < 3652059"
proof -
  have "sum_list (take (m - 1) (month_lengths y)) + month_lengths y ! (m - 1) \<le> sum_list (month_lengths y)"
    by (rule sum_take_nth) (use assms(1) in \<open>auto simp: valid_date_def month_lengths_def\<close>)
  with assms(1) have within: "sum_list (take (m - 1) (month_lengths y)) + d \<le> sum_list (month_lengths y)" "1 \<le> d"
    by (auto simp: valid_date_def)
  have before: "days_before_year y \<le> (y - 1) * 365 + 2424"
    by (rule days_before_year_9999) (use assms(2) in simp)
  show ?thesis
  proof (cases "y = 9999")
    case True
    then have "sum_list (month_lengths y) = 365" by (simp add: sum_month_lengths leap_year_def)
    with True within before show ?thesis by (simp add: day_of_date_def)
  next
    case False
    with assms have "(y - 1) * 365 \<le> 9997 * 365" by (intro mult_le_mono1) simp
    moreover have "sum_list (month_lengths y) \<le> 366" by (simp add: sum_month_lengths)
    ultimately show ?thesis using within before by (simp add: day_of_date_def)
  qed
qed

lemma field_bound:
  assumes "list_all (\<lambda>i. is_digit (x ! i)) [i ..< i + w]" "i + w \<le> length x"
  shows "field i w x < 10 ^ w"
proof -
  have "list_all is_digit (take w (drop i x))"
    using assms by (auto simp: list_all_length)
  from number_of_bound [OF this] assms(2) show ?thesis by (simp add: field_def)
qed

theorem fromisoformat_representable:
  assumes "has_iso_shape x" "fromisoformat x = Some t"
  shows "representable t" "truncate_to_second t = t"
proof -
  define date h m s where "date = (field 0 4 x, field 5 2 x, field 8 2 x)"
    and "h = field 11 2 x" and "m = field 14 2 x" and "s = field 17 2 x"
  have valid: "valid_date date" "h < 24" "m < 60" "s < 60"
    and t: "t = int (day_of_date date * 86400 + h * 3600 + m * 60 + s) * MICROSECOND_SECOND"
    using assms(2) by (auto simp: fromisoformat_def Let_def date_def h_def m_def s_def split: if_splits)
  have "[0..<0 + 4] = [0, 1, 2, 3 :: nat]" by (simp add: upt_rec)
  then have "field 0 4 x < 10 ^ 4"
    using assms(1) by (intro field_bound) (auto simp: has_iso_shape_def)
  with valid(1) have "day_of_date date < 3652059" by (simp add: date_def day_of_date_bound)
  with valid(2-4) have "day_of_date date * 86400 + h * 3600 + m * 60 + s < 3652059 * 86400" by linarith
  then have "int (day_of_date date * 86400 + h * 3600 + m * 60 + s) < 3652059 * 86400" by linarith
  then show "representable t" by (simp add: t representable_def MICROSECOND_SECOND_def)
  show "truncate_to_second t = t" by (simp add: t truncate_to_second_def MICROSECOND_SECOND_def)
qed

end
