(* ===== verification/Outbox_Errors.thy ===== *)
theory Outbox_Errors
  imports Calendar
begin

section \<open>The stored error of an outbox event\<close>

text \<open>
  The text helpers of \<open>saas_os/core/outbox/dispatch.py\<close>. The error of a failed attempt is
  stored in one column of 500 characters that also carries, as a tag at its end, the deadline
  after which a retry could repeat an external effect. An error may quote a remote server, so
  the tag must not be forgeable: the marker that opens it is neutralised in every other text.
\<close>

subsection \<open>Python's string operations\<close>

definition occurs_at :: "pystr \<Rightarrow> pystr \<Rightarrow> nat \<Rightarrow> bool" where
  "occurs_at p s i = (take (length p) (drop i s) = p)"

fun replace_all :: "pystr \<Rightarrow> pystr \<Rightarrow> pystr \<Rightarrow> pystr" where
  "replace_all p q [] = []"
| "replace_all p q (c # cs) =
     (if occurs_at p (c # cs) 0 then q @ replace_all p q (drop (length p - 1) cs)
      else c # replace_all p q cs)"

definition rfind :: "pystr \<Rightarrow> pystr \<Rightarrow> nat option" where
  "rfind p s = (let hits = filter (occurs_at p s) [0 ..< Suc (length s)] in
     if hits = [] then None else Some (last hits))"

subsection \<open>Describing an error\<close>

definition MAX_ERROR_LENGTH :: nat where
  "MAX_ERROR_LENGTH = 500"

definition TAG_MARKER :: pystr where
  "TAG_MARKER = codes ''[idempotent-retry-until ''"

definition NEUTRAL_MARKER :: pystr where
  "NEUTRAL_MARKER = codes ''(idempotent-retry-until ''"

definition describe_error :: "pystr \<Rightarrow> pystr" where
  "describe_error error_text = take MAX_ERROR_LENGTH
     (replace_all TAG_MARKER NEUTRAL_MARKER (map (\<lambda>c. if c = 0 then 65533 else c) error_text))"

subsection \<open>The retry deadline\<close>

definition deadline_tag :: "datetime \<Rightarrow> pystr" where
  "deadline_tag deadline = TAG_MARKER @ isoformat_seconds deadline @ codes '']''"

definition DEADLINE_UNREADABLE :: datetime where
  "DEADLINE_UNREADABLE = 0"

text \<open>A \<open>$\<close> of the tag's pattern matches at the end and before one final newline.\<close>

definition without_final_newline :: "pystr \<Rightarrow> pystr" where
  "without_final_newline s = (if s \<noteq> [] \<and> last s = 10 then butlast s else s)"

definition tag_body :: "pystr \<Rightarrow> pystr option" where
  "tag_body s = (let s' = without_final_newline s; body = take 25 (drop 24 s') in
     if length s' = 50 \<and> occurs_at TAG_MARKER s' 0 \<and> has_iso_shape body \<and> drop 49 s' = codes '']''
     then Some body else None)"

definition retry_deadline :: "pystr option \<Rightarrow> datetime option" where
  "retry_deadline last_error = (case last_error of None \<Rightarrow> None | Some text \<Rightarrow>
     (case rfind TAG_MARKER text of
        None \<Rightarrow> None
      | Some marker_at \<Rightarrow> (case tag_body (drop marker_at text) of
            None \<Rightarrow> Some DEADLINE_UNREADABLE
          | Some body \<Rightarrow> (case fromisoformat body of
                None \<Rightarrow> Some DEADLINE_UNREADABLE
              | Some deadline \<Rightarrow> Some deadline))))"

definition with_tag :: "pystr \<Rightarrow> pystr option \<Rightarrow> pystr" where
  "with_tag text tag = (case tag of
     None \<Rightarrow> describe_error text
   | Some g \<Rightarrow> take (MAX_ERROR_LENGTH - length g - 1) (describe_error text) @ [32] @ g)"

text \<open>The \<open>last_error\<close> after \<open>_record_error(row, error)\<close>, from the one before.\<close>

definition recorded_error :: "pystr option \<Rightarrow> pystr \<Rightarrow> pystr" where
  "recorded_error last_error error_text =
     with_tag (describe_error error_text) (map_option deadline_tag (retry_deadline last_error))"

subsection \<open>Occurrences\<close>

lemma occurs_at_nth:
  assumes "occurs_at p s i" "p \<noteq> []"
  shows "i < length s \<and> s ! i = hd p"
proof -
  from assms have "drop i s \<noteq> []" by (auto simp: occurs_at_def)
  moreover from this have "hd (take (length p) (drop i s)) = hd (drop i s)"
    using assms(2) by (cases "drop i s"; cases p) auto
  ultimately show ?thesis using assms(1) by (simp add: occurs_at_def hd_drop_conv_nth)
qed

lemma occurs_at_append: "length a \<le> i \<Longrightarrow> occurs_at p (a @ s) i = occurs_at p s (i - length a)"
  by (simp add: occurs_at_def)

lemma occurs_at_Suc: "occurs_at p (c # s) (Suc i) = occurs_at p s i"
  by (simp add: occurs_at_def)

lemma occurs_at_take: "occurs_at p (take n s) i \<Longrightarrow> occurs_at p s i"
proof -
  assume "occurs_at p (take n s) i"
  then have *: "take (length p) (take (n - i) (drop i s)) = p" by (simp add: occurs_at_def drop_take)
  then have "length p \<le> n - i" by (metis length_take min.cobounded2 min.coboundedI1 min_def order_trans take_take)
  with * show ?thesis by (simp add: occurs_at_def min_absorb1)
qed

lemma rfind_None_iff: "p \<noteq> [] \<Longrightarrow> rfind p s = None \<longleftrightarrow> (\<forall>i. \<not> occurs_at p s i)"
proof -
  assume "p \<noteq> []"
  then have "occurs_at p s i \<longrightarrow> i \<in> set [0 ..< Suc (length s)]" for i
    using occurs_at_nth by fastforce
  then show ?thesis unfolding rfind_def Let_def filter_empty_conv by (metis option.distinct(1))
qed

lemma rfind_last:
  assumes "p \<noteq> []" "occurs_at p s k" "\<And>i. k < i \<Longrightarrow> \<not> occurs_at p s i"
  shows "rfind p s = Some k"
proof -
  have "k < length s" using occurs_at_nth assms by blast
  then have "[0 ..< Suc (length s)] = [0 ..< k] @ k # [Suc k ..< Suc (length s)]"
    by (metis less_SucI upt_add_eq_append upt_conv_Cons le_add1 le_add_same_cancel1 less_imp_add_positive add.commute add_0 less_imp_le_nat)
  moreover have "filter (occurs_at p s) [Suc k ..< Suc (length s)] = []"
    using assms(3) by (auto simp: filter_empty_conv)
  ultimately have "filter (occurs_at p s) [0 ..< Suc (length s)] = filter (occurs_at p s) [0 ..< k] @ [k]"
    using assms(2) by simp
  then show ?thesis unfolding rfind_def Let_def by simp
qed

subsection \<open>An error cannot forge a deadline\<close>

lemma replace_prefix:
  assumes "take n (replace_all p (x # q) s) = w" "length w = n" "x \<notin> set w"
  shows "take n s = w"
  using assms
proof (induction p "x # q" s arbitrary: n w rule: replace_all.induct)
  case (2 p c cs)
  show ?case
  proof (cases n)
    case (Suc m)
    then show ?thesis
    proof (cases "occurs_at p (c # cs) 0")
      case True
      with 2(3) Suc have "x \<in> set w" by auto
      with 2(5) show ?thesis by simp
    next
      case False
      with 2(3) Suc have w: "w = c # take m (replace_all p (x # q) cs)" by simp
      with 2(4,5) Suc 2(2) [OF False, of m "take m (replace_all p (x # q) cs)"] Suc show ?thesis by simp
    qed
  qed (use 2 in simp)
qed simp

lemma replace_removes:
  assumes "p = a # m" "a \<notin> set m" "a \<notin> set (x # q)" "x \<notin> set m"
  shows "\<not> occurs_at p (replace_all p (x # q) s) i"
  using assms
proof (induction p "x # q" s arbitrary: i rule: replace_all.induct)
  case (1 p)
  then show ?case by (simp add: occurs_at_def)
next
  case (2 p c cs)
  show ?case
  proof (cases "occurs_at p (c # cs) 0")
    case True
    let ?r = "replace_all p (x # q) (drop (length p - 1) cs)"
    have "\<not> occurs_at p ((x # q) @ ?r) i"
    proof (cases "i < length (x # q)")
      case True
      then have "((x # q) @ ?r) ! i \<in> set (x # q)" by (metis nth_append nth_mem)
      then show ?thesis using occurs_at_nth [of p "(x # q) @ ?r" i] 2(3,5) by auto
    next
      case False
      then show ?thesis using 2(1) [OF True 2(3-6)] by (simp only: not_less occurs_at_append) simp
    qed
    with True show ?thesis by simp
  next
    case False
    show ?thesis
    proof (cases i)
      case 0
      have "\<not> occurs_at p (c # replace_all p (x # q) cs) 0"
      proof
        assume "occurs_at p (c # replace_all p (x # q) cs) 0"
        then have "c = a" "take (length m) (replace_all p (x # q) cs) = m"
          by (simp_all add: occurs_at_def 2(3))
        then have "take (length m) cs = m" using 2(6) replace_prefix by blast
        with False \<open>c = a\<close> show False by (simp add: occurs_at_def 2(3))
      qed
      with False 0 show ?thesis by simp
    next
      case (Suc j)
      with False show ?thesis using 2(2) [OF False 2(3-6)] by (simp add: occurs_at_Suc)
    qed
  qed
qed

lemma codes_Cons: "codes (c # s) = of_char c # codes s"
  by (simp add: codes_def)

lemma marker_shape:
  "\<exists>m. TAG_MARKER = 91 # m \<and> NEUTRAL_MARKER = 40 # m \<and> 91 \<notin> set m \<and> 40 \<notin> set m"
  by (simp add: TAG_MARKER_def NEUTRAL_MARKER_def codes_def)

lemma length_marker [simp]: "length TAG_MARKER = 24"
  by (simp add: TAG_MARKER_def codes_def)

lemma hd_marker [simp]: "hd TAG_MARKER = 91"
  by (simp add: TAG_MARKER_def codes_def)

lemma marker_nonempty [simp]: "TAG_MARKER \<noteq> []"
  by (simp add: TAG_MARKER_def codes_def)

lemma describe_error_clean: "\<not> occurs_at TAG_MARKER (describe_error s) i"
proof
  obtain m where m: "TAG_MARKER = 91 # m" "NEUTRAL_MARKER = 40 # m" "91 \<notin> set m" "40 \<notin> set m"
    using marker_shape by blast
  assume "occurs_at TAG_MARKER (describe_error s) i"
  then have "occurs_at TAG_MARKER (replace_all TAG_MARKER NEUTRAL_MARKER
      (map (\<lambda>c. if c = 0 then 65533 else c) s)) i"
    unfolding describe_error_def by (rule occurs_at_take)
  moreover have "91 \<notin> set (40 # m)" using m(3) by simp
  ultimately show False 
    using replace_removes [of TAG_MARKER 91 m 40 m, OF m(1,3) _ m(4)] by (simp flip: m(2))
qed

theorem described_error_has_no_deadline: "retry_deadline (Some (describe_error s)) = None"
proof -
  have "rfind TAG_MARKER (describe_error s) = None"
    by (simp add: rfind_None_iff describe_error_clean)
  then show ?thesis by (simp add: retry_deadline_def)
qed

subsection \<open>What is written is read back\<close>

lemma length_tag: "representable t \<Longrightarrow> length (deadline_tag t) = 50"
  using isoformat_round_trip(1) [of t] by (simp add: deadline_tag_def has_iso_shape_def codes_def)

lemma tag_body_tag:
  assumes "representable t"
  shows "tag_body (deadline_tag t) = Some (isoformat_seconds t)"
proof -
  have shape: "has_iso_shape (isoformat_seconds t)" by (rule isoformat_round_trip(1) [OF assms])
  then have "length (isoformat_seconds t) = 25" by (simp add: has_iso_shape_def)
  moreover have "last (deadline_tag t) = 93" by (simp add: deadline_tag_def codes_def)
  then have "without_final_newline (deadline_tag t) = deadline_tag t"
    by (simp add: without_final_newline_def)
  ultimately show ?thesis
    using shape by (simp add: tag_body_def Let_def length_tag [OF assms] occurs_at_def deadline_tag_def codes_def)
qed

lemma iso_shape_year: "has_iso_shape x \<Longrightarrow> is_digit (x ! 0) \<and> is_digit (x ! 1) \<and> is_digit (x ! 2)"
  by (simp add: has_iso_shape_def)

lemma marker_once_in_tag:
  assumes "representable t" "0 < i"
  shows "\<not> occurs_at TAG_MARKER (deadline_tag t) i"
proof
  assume hit: "occurs_at TAG_MARKER (deadline_tag t) i"
  then have "24 \<le> length (drop i (deadline_tag t))"
    by (metis length_marker length_take min.cobounded1 min.commute min_def occurs_at_def)
  with assms(1) have "i \<le> 26" by (simp add: length_tag)
  have "deadline_tag t ! i = 91" using occurs_at_nth [OF hit] by simp
  moreover have "deadline_tag t ! i \<noteq> 91"
  proof (cases "i < 24")
    case True
    obtain m where m: "TAG_MARKER = 91 # m" "91 \<notin> set m" using marker_shape by blast
    have "length m = 23" using length_marker unfolding m(1) by simp
    with True assms(2) have "i - 1 < length m" by simp
    then have "m ! (i - 1) \<noteq> 91" using m(2) nth_mem by fastforce
    moreover have "deadline_tag t ! i = m ! (i - 1)"
      using assms(2) \<open>i - 1 < length m\<close> by (simp add: deadline_tag_def nth_append nth_Cons' m(1))
    ultimately show ?thesis by simp
  next
    case False
    have shape: "has_iso_shape (isoformat_seconds t)" by (rule isoformat_round_trip(1) [OF assms(1)])
    then have "i - 24 < length (isoformat_seconds t)" using \<open>i \<le> 26\<close> by (simp add: has_iso_shape_def)
    then have "deadline_tag t ! i = isoformat_seconds t ! (i - 24)"
      using False by (simp add: deadline_tag_def nth_append)
    moreover have "i - 24 = 0 \<or> i - 24 = 1 \<or> i - 24 = 2" using \<open>i \<le> 26\<close> by linarith
    then have "is_digit (isoformat_seconds t ! (i - 24))"
      using iso_shape_year [OF shape] by (elim disjE) simp_all
    ultimately show ?thesis by (simp add: is_digit_def)
  qed
  ultimately show False by simp
qed

theorem deadline_read_back:
  assumes "representable t"
  shows "retry_deadline (Some (with_tag s (Some (deadline_tag t)))) = Some (truncate_to_second t)"
proof -
  define a where "a = take (MAX_ERROR_LENGTH - length (deadline_tag t) - 1) (describe_error s) @ [32]"
  have tagged: "with_tag s (Some (deadline_tag t)) = a @ deadline_tag t" by (simp add: with_tag_def a_def)
  have "occurs_at TAG_MARKER (a @ deadline_tag t) (length a)" by (simp add: occurs_at_def deadline_tag_def)
  moreover have "\<not> occurs_at TAG_MARKER (a @ deadline_tag t) i" if "length a < i" for i
    using that marker_once_in_tag [OF assms, of "i - length a"] by (simp add: occurs_at_append)
  ultimately have "rfind TAG_MARKER (a @ deadline_tag t) = Some (length a)" by (intro rfind_last) auto
  then show ?thesis
    by (simp add: retry_deadline_def tagged tag_body_tag [OF assms] isoformat_round_trip(2) [OF assms])
qed

lemma read_deadline_representable:
  assumes "retry_deadline e = Some t"
  shows "representable t \<and> truncate_to_second t = t"
proof -
  have "representable DEADLINE_UNREADABLE" "truncate_to_second DEADLINE_UNREADABLE = DEADLINE_UNREADABLE"
    by (simp_all add: DEADLINE_UNREADABLE_def representable_def truncate_to_second_def MICROSECOND_SECOND_def)
  moreover have "representable u \<and> truncate_to_second u = u"
    if "tag_body x = Some b" "fromisoformat b = Some u" for x b u
    using that fromisoformat_representable [of b u] by (auto simp: tag_body_def Let_def split: if_splits)
  ultimately show ?thesis
    using assms by (auto simp: retry_deadline_def split: option.splits)
qed

lemma recorded_error_deadline: "retry_deadline (Some (recorded_error e s)) = retry_deadline e"
proof (cases "retry_deadline e")
  case None
  then show ?thesis by (simp add: recorded_error_def with_tag_def described_error_has_no_deadline)
next
  case (Some t)
  with read_deadline_representable [OF Some] show ?thesis
    by (simp add: recorded_error_def deadline_read_back)
qed

lemma length_describe_error: "length (describe_error s) \<le> MAX_ERROR_LENGTH"
  by (simp add: describe_error_def)

lemma length_with_tag:
  assumes "representable t"
  shows "length (with_tag s (Some (deadline_tag t))) \<le> MAX_ERROR_LENGTH"
  by (simp add: with_tag_def length_tag [OF assms] MAX_ERROR_LENGTH_def)

lemma length_recorded_error: "length (recorded_error e s) \<le> MAX_ERROR_LENGTH"
proof (cases "retry_deadline e")
  case None
  then show ?thesis by (simp add: recorded_error_def with_tag_def length_describe_error)
next
  case (Some t)
  with read_deadline_representable [OF Some] show ?thesis
    by (simp add: recorded_error_def length_with_tag)
qed

end
