(* ===== verification/Outbox.thy ===== *)
theory Outbox
  imports Complex_Main Directory Outbox_Errors
begin

section \<open>The transactional outbox\<close>

text \<open>
  \<open>saas_os/core/outbox/\<close>: \<open>models.py\<close> (the rows), \<open>config.py\<close>, \<open>service.py\<close> (recording and
  deleting events), \<open>dispatch.py\<close> (the durable state machine of an event's delivery) and
  \<open>consumption.py\<close> (consumer idempotency).

  One transition is one transaction, at one instant of the database clock. A session bound to a
  tenant sees that tenant's rows only, so every lookup names the tenant. A row another
  transaction holds is skipped by a claim: the rows held are an argument. A payload is a JSON
  object, so the check that it round-trips through JSON always passes; the initiating actor
  stored beside it is kept in its stored form. Seconds are rational numbers: the rounding of
  double-precision arithmetic is not modelled, the rounding of \<open>timedelta\<close> to microseconds is.
\<close>

subsection \<open>Rows and configuration\<close>

datatype outbox_status = OUTBOX_PENDING | OUTBOX_PUBLISHED | OUTBOX_DEAD_LETTERED

datatype json = JNull | JBool bool | JNumber rat | JString string | JArray "json list"
  | JObject "(string \<times> json) list"

type_synonym payload = "(string \<times> json) list"

record outbox_event =
  oe_id :: uuid
  oe_tenant_id :: uuid
  oe_event_type :: string
  oe_aggregate_type :: string
  oe_aggregate_id :: string
  oe_payload :: payload
  oe_correlation_id :: "string option"
  oe_status :: outbox_status
  oe_attempts :: nat
  oe_next_attempt_at :: datetime
  oe_last_error :: "pystr option"
  oe_published_at :: "datetime option"
  oe_claim_token :: "uuid option"
  oe_external_started_at :: "datetime option"
  oe_external_started_claim :: "uuid option"
  oe_created_at :: datetime
  oe_updated_at :: datetime

record outbox =
  outbox_events :: "outbox_event list"
  outbox_consumptions :: "(uuid \<times> string \<times> uuid) list"
  outbox_next_uuid :: uuid

record outbox_dispatch_config =
  oc_max_attempts :: nat
  oc_retry_base_seconds :: rat
  oc_retry_max_seconds :: rat
  oc_retry_jitter_ratio :: rat
  oc_lease_seconds :: rat
  oc_enqueue_retry_seconds :: rat
  oc_batch_size :: nat
  oc_per_tenant_limit :: nat
  oc_poll_seconds :: nat
  oc_retry_hint_max_seconds :: rat
  oc_external_effect_markers :: bool

definition outbox_config_ok :: "outbox_dispatch_config \<Rightarrow> bool" where
  "outbox_config_ok cfg = (1 \<le> oc_max_attempts cfg \<and>
     0 < oc_retry_base_seconds cfg \<and> oc_retry_base_seconds cfg \<le> oc_retry_max_seconds cfg \<and>
     0 \<le> oc_retry_jitter_ratio cfg \<and> oc_retry_jitter_ratio cfg \<le> 1 \<and>
     0 < oc_lease_seconds cfg \<and> 0 < oc_enqueue_retry_seconds cfg \<and>
     1 \<le> oc_batch_size cfg \<and> 1 \<le> oc_per_tenant_limit cfg \<and>
     1 \<le> oc_poll_seconds cfg \<and> oc_poll_seconds cfg \<le> 60 \<and> 60 mod oc_poll_seconds cfg = 0 \<and>
     0 < oc_retry_hint_max_seconds cfg \<and> oc_retry_hint_max_seconds cfg \<le> 31 * 86400)"

text \<open>\<open>timedelta(seconds=x)\<close>: the nearest microsecond, a tie to the even one.\<close>

definition timedelta_seconds :: "rat \<Rightarrow> int" where
  "timedelta_seconds x = (let m = x * 1000000; f = \<lfloor>m\<rfloor>; r = m - of_int f in
     if r < 1 / 2 \<or> (r = 1 / 2 \<and> even f) then f else f + 1)"

definition oc_lease :: "outbox_dispatch_config \<Rightarrow> int" where
  "oc_lease cfg = timedelta_seconds (oc_lease_seconds cfg)"

definition oc_enqueue_retry_delay :: "outbox_dispatch_config \<Rightarrow> int" where
  "oc_enqueue_retry_delay cfg = timedelta_seconds (oc_enqueue_retry_seconds cfg)"

subsection \<open>Recording an event\<close>

datatype outbox_error =
    InvalidOutboxEventError string
  | ExternalEffectNotStartedError uuid
  | OutboxIntegrityError
  | DateOverflowError

definition INITIATED_BY_PAYLOAD_KEY :: string where
  "INITIATED_BY_PAYLOAD_KEY = ''saas_os.initiated_by''"

definition lower :: "char \<Rightarrow> bool" where
  "lower c = (let n = of_char c :: nat in 97 \<le> n \<and> n \<le> 122)"

definition name_character :: "char \<Rightarrow> bool" where
  "name_character c = (lower c \<or> c = CHR ''_'' \<or> (let n = of_char c :: nat in 48 \<le> n \<and> n \<le> 57))"

text \<open>\<open>^[a-z][a-z0-9_]*$\<close> and \<open>^[a-z][a-z0-9_]*(\.[a-z][a-z0-9_]*)+$\<close>; the \<open>$\<close> admits one
  final newline.\<close>

fun split_dots :: "string \<Rightarrow> string list" where
  "split_dots [] = [[]]"
| "split_dots (c # s) = (if c = CHR ''.'' then [] # split_dots s
     else (case split_dots s of [] \<Rightarrow> [[c]] | part # parts \<Rightarrow> (c # part) # parts))"

definition name_part :: "string \<Rightarrow> bool" where
  "name_part s = (case s of [] \<Rightarrow> False | c # cs \<Rightarrow> lower c \<and> list_all name_character cs)"

definition chomp :: "string \<Rightarrow> string" where
  "chomp s = (if s \<noteq> [] \<and> of_char (last s) = (10 :: nat) then butlast s else s)"

definition simple_name :: "string \<Rightarrow> bool" where
  "simple_name s = name_part (chomp s)"

definition dotted_name :: "string \<Rightarrow> bool" where
  "dotted_name s = (let parts = split_dots (chomp s) in
     2 \<le> length parts \<and> list_all name_part parts)"

definition validate_event :: "string \<Rightarrow> string \<Rightarrow> string \<Rightarrow> payload \<Rightarrow> outbox_error + unit" where
  "validate_event event_type aggregate_type aggregate_id pl =
     ebind (require (length event_type \<le> 100 \<and> dotted_name event_type)
       (InvalidOutboxEventError ''event_type'')) (\<lambda>_.
     ebind (require (length aggregate_type \<le> 100 \<and> simple_name aggregate_type)
       (InvalidOutboxEventError ''aggregate_type'')) (\<lambda>_.
     ebind (require (aggregate_id \<noteq> [] \<and> length aggregate_id \<le> 255)
       (InvalidOutboxEventError ''aggregate_id'')) (\<lambda>_.
     require (map_of pl INITIATED_BY_PAYLOAD_KEY = None) (InvalidOutboxEventError ''payload''))))"

definition append_event ::
  "db \<Rightarrow> outbox \<Rightarrow> datetime \<Rightarrow> uuid \<Rightarrow> string \<Rightarrow> string \<Rightarrow> string \<Rightarrow> payload \<Rightarrow> json option
    \<Rightarrow> string option \<Rightarrow> outbox_error + (outbox \<times> uuid)" where
  "append_event d ox now tenant_id event_type aggregate_type aggregate_id pl initiated_by request_id =
     ebind (validate_event event_type aggregate_type aggregate_id pl) (\<lambda>_.
     let correlation_id = (case request_id of None \<Rightarrow> None
           | Some c \<Rightarrow> if length c > 100 then None else Some c);
         event_id = outbox_next_uuid ox in
     ebind (require (find_tenant d tenant_id \<noteq> None) OutboxIntegrityError) (\<lambda>_.
     Inr (ox\<lparr>outbox_next_uuid := Suc event_id,
       outbox_events := outbox_events ox @ [\<lparr>oe_id = event_id, oe_tenant_id = tenant_id,
         oe_event_type = event_type, oe_aggregate_type = aggregate_type, oe_aggregate_id = aggregate_id,
         oe_payload = (case initiated_by of None \<Rightarrow> pl
           | Some i \<Rightarrow> pl @ [(INITIATED_BY_PAYLOAD_KEY, i)]),
         oe_correlation_id = correlation_id, oe_status = OUTBOX_PENDING, oe_attempts = 0,
         oe_next_attempt_at = now, oe_last_error = None, oe_published_at = None,
         oe_claim_token = None, oe_external_started_at = None, oe_external_started_claim = None,
         oe_created_at = now, oe_updated_at = now\<rparr>]\<rparr>, event_id)))"

definition delete_aggregate_events ::
  "outbox \<Rightarrow> uuid \<Rightarrow> string \<Rightarrow> string \<Rightarrow> string \<Rightarrow> outbox \<times> nat" where
  "delete_aggregate_events ox tenant_id event_type aggregate_type aggregate_id =
     (let hit = (\<lambda>e. oe_tenant_id e = tenant_id \<and> oe_event_type e = event_type \<and>
            oe_aggregate_type e = aggregate_type \<and> oe_aggregate_id e = aggregate_id) in
      (ox\<lparr>outbox_events := delete_where hit (outbox_events ox)\<rparr>,
       length (filter hit (outbox_events ox))))"

subsection \<open>Helpers of the dispatcher\<close>

fun decimal :: "nat \<Rightarrow> pystr" where
  "decimal n = (if n < 10 then [48 + n] else decimal (n div 10) @ [48 + n mod 10])"

declare decimal.simps [simp del]

definition CRASH_AFTER_START_ERROR :: pystr where
  "CRASH_AFTER_START_ERROR = codes ''CrashAfterStart: outcome unknown; not retried automatically''"

definition OUTCOME_UNKNOWN_PREFIX :: pystr where
  "OUTCOME_UNKNOWN_PREFIX = codes ''OutcomeUnknown: ''"

definition REPLAY_HINT :: pystr where
  "REPLAY_HINT = codes ''Check the destination, then replay (saas-os-operator replay-outbox-events).''"

text \<open>A retry hint is any Python value: a number, an infinity, a NaN or something else.\<close>

datatype retry_hint = HintSeconds rat | HintInfinity | HintNaN | HintOther

definition retry_delay :: "nat \<Rightarrow> outbox_dispatch_config \<Rightarrow> rat \<Rightarrow> int" where
  "retry_delay attempts cfg rng =
     (let delay = min (oc_retry_base_seconds cfg * 2 ^ (attempts - 1)) (oc_retry_max_seconds cfg);
          jitter = delay * oc_retry_jitter_ratio cfg * rng in
      timedelta_seconds (delay + jitter))"

definition retry_hint_delay :: "retry_hint \<Rightarrow> outbox_dispatch_config \<Rightarrow> int" where
  "retry_hint_delay hint cfg = (case hint of
     HintOther \<Rightarrow> 0
   | HintNaN \<Rightarrow> 0
   | HintInfinity \<Rightarrow> timedelta_seconds (oc_retry_hint_max_seconds cfg)
   | HintSeconds s \<Rightarrow> if s \<le> 0 then 0 else timedelta_seconds (min s (oc_retry_hint_max_seconds cfg)))"

definition record_error :: "pystr \<Rightarrow> outbox_event \<Rightarrow> outbox_event" where
  "record_error error_text e = e\<lparr>oe_last_error := Some (recorded_error (oe_last_error e) error_text)\<rparr>"

definition dead_letter :: "pystr option \<Rightarrow> outbox_event \<Rightarrow> outbox_event" where
  "dead_letter reason e = (let e' = e\<lparr>oe_status := OUTBOX_DEAD_LETTERED, oe_claim_token := None\<rparr> in
     case reason of None \<Rightarrow> e' | Some r \<Rightarrow> record_error r e')"

definition clear_marker :: "outbox_event \<Rightarrow> outbox_event" where
  "clear_marker e = e\<lparr>oe_external_started_at := None, oe_external_started_claim := None\<rparr>"

definition marked_by :: "outbox_event \<Rightarrow> uuid option \<Rightarrow> bool" where
  "marked_by e token = (token \<noteq> None \<and> oe_external_started_claim e = token)"

subsection \<open>Claiming\<close>

record claimed_event =
  ce_id :: uuid
  ce_tenant_id :: uuid
  ce_event_type :: string
  ce_claim_token :: uuid
  ce_attempts :: nat
  ce_correlation_id :: "string option"

text \<open>The body of the loop over the due rows of one tenant; the flag says the row was claimed.\<close>

definition claim_row ::
  "outbox_dispatch_config \<Rightarrow> datetime \<Rightarrow> uuid \<Rightarrow> outbox_event \<Rightarrow> outbox_event \<times> bool" where
  "claim_row cfg now token e =
     (let lease_lost = (oe_claim_token e \<noteq> None) in
      if lease_lost \<and> marked_by e (oe_claim_token e)
      then (dead_letter (Some CRASH_AFTER_START_ERROR) e, False)
      else if oe_attempts e \<ge> oc_max_attempts cfg
      then (dead_letter (if lease_lost
              then Some (codes ''LeaseExpired: no outcome recorded for final attempt '' @ decimal (oe_attempts e))
              else None) e, False)
      else (let e' = (if lease_lost
              then record_error (codes ''LeaseExpired: no outcome recorded for attempt '' @ decimal (oe_attempts e)) e
              else e) in
        (e'\<lparr>oe_attempts := oe_attempts e + 1, oe_claim_token := Some token,
            oe_next_attempt_at := now + oc_lease cfg\<rparr>, True)))"

text \<open>A row written by the ORM gets the transaction's instant as its \<open>updated_at\<close>.\<close>

definition write_event :: "datetime \<Rightarrow> uuid \<Rightarrow> (outbox_event \<Rightarrow> outbox_event) \<Rightarrow> outbox \<Rightarrow> outbox" where
  "write_event now event_id f ox = ox\<lparr>outbox_events :=
     update_where (\<lambda>e. oe_id e = event_id) (\<lambda>e. (f e)\<lparr>oe_updated_at := now\<rparr>) (outbox_events ox)\<rparr>"

definition claimed_of :: "outbox_event \<Rightarrow> uuid \<Rightarrow> claimed_event" where
  "claimed_of e token = \<lparr>ce_id = oe_id e, ce_tenant_id = oe_tenant_id e, ce_event_type = oe_event_type e,
     ce_claim_token = token, ce_attempts = oe_attempts e, ce_correlation_id = oe_correlation_id e\<rparr>"

fun claim_rows ::
  "outbox_dispatch_config \<Rightarrow> datetime \<Rightarrow> outbox_event list \<Rightarrow> outbox \<Rightarrow> outbox \<times> claimed_event list" where
  "claim_rows cfg now [] ox = (ox, [])"
| "claim_rows cfg now (e # rows) ox =
     (let token = outbox_next_uuid ox;
          (e', claimed) = claim_row cfg now token e;
          ox' = (write_event now (oe_id e) (\<lambda>_. e') ox)\<lparr>outbox_next_uuid :=
            (if claimed then Suc token else token)\<rparr>;
          (ox'', rest) = claim_rows cfg now rows ox' in
      (ox'', (if claimed then [claimed_of e' token] else []) @ rest))"

definition due_rows :: "datetime \<Rightarrow> uuid list \<Rightarrow> uuid \<Rightarrow> outbox \<Rightarrow> outbox_event list" where
  "due_rows now locked tenant_id ox = sort_key (\<lambda>e. (oe_next_attempt_at e, oe_id e))
     (filter (\<lambda>e. oe_tenant_id e = tenant_id \<and> oe_status e = OUTBOX_PENDING \<and>
        oe_next_attempt_at e \<le> now \<and> oe_id e \<notin> set locked) (outbox_events ox))"

fun claim_tenants ::
  "outbox_dispatch_config \<Rightarrow> datetime \<Rightarrow> uuid list \<Rightarrow> uuid list \<Rightarrow> claimed_event list \<Rightarrow> outbox
    \<Rightarrow> outbox \<times> claimed_event list" where
  "claim_tenants cfg now locked [] claimed ox = (ox, claimed)"
| "claim_tenants cfg now locked (t # ts) claimed ox =
     (if oc_batch_size cfg \<le> length claimed then (ox, claimed)
      else (let remaining = oc_batch_size cfg - length claimed;
                rows = take (min (oc_per_tenant_limit cfg) remaining) (due_rows now locked t ox);
                (ox', new) = claim_rows cfg now rows ox in
        claim_tenants cfg now locked ts (claimed @ new) ox'))"

definition claim_due_events ::
  "outbox_dispatch_config \<Rightarrow> datetime \<Rightarrow> nat \<Rightarrow> uuid list \<Rightarrow> db \<Rightarrow> outbox \<Rightarrow> outbox \<times> claimed_event list" where
  "claim_due_events cfg now random_start locked d ox =
     (let tenant_ids = list_open_tenant_ids d in
      if tenant_ids = [] then (ox, [])
      else (let start = random_start mod length tenant_ids in
        claim_tenants cfg now locked (drop start tenant_ids @ take start tenant_ids) [] ox))"

subsection \<open>Transitions of a claimed event\<close>

definition locked_claimed_row :: "outbox \<Rightarrow> uuid \<Rightarrow> uuid \<Rightarrow> uuid \<Rightarrow> outbox_event option" where
  "locked_claimed_row ox tenant_id event_id token =
     (case find (\<lambda>e. oe_id e = event_id) (filter (\<lambda>e. oe_tenant_id e = tenant_id) (outbox_events ox)) of
        None \<Rightarrow> None
      | Some e \<Rightarrow> if oe_status e \<noteq> OUTBOX_PENDING \<or> oe_claim_token e \<noteq> Some token then None else Some e)"

record event_execution =
  ee_id :: uuid
  ee_tenant_id :: uuid
  ee_event_type :: string
  ee_payload :: payload
  ee_correlation_id :: "string option"
  ee_attempts :: nat
  ee_initiated_by :: "json option"

definition split_initiator :: "payload \<Rightarrow> payload \<times> json option" where
  "split_initiator stored = (filter (\<lambda>(k, v). k \<noteq> INITIATED_BY_PAYLOAD_KEY) stored,
     map_of stored INITIATED_BY_PAYLOAD_KEY)"

definition WINDOW_CLOSED_ERROR :: pystr where
  "WINDOW_CLOSED_ERROR = codes ''OutcomeUnknown: the idempotency window closed before the retry ran; not retried automatically. '' @ REPLAY_HINT"

definition begin_event_execution ::
  "outbox_dispatch_config \<Rightarrow> datetime \<Rightarrow> db \<Rightarrow> outbox \<Rightarrow> uuid \<Rightarrow> uuid \<Rightarrow> uuid
    \<Rightarrow> outbox \<times> event_execution option" where
  "begin_event_execution cfg now d ox tenant_id event_id token =
     (case lock_open_tenant d tenant_id of
        Inl _ \<Rightarrow> (case locked_claimed_row ox tenant_id event_id token of
            None \<Rightarrow> (ox, None)
          | Some e \<Rightarrow> (write_event now event_id (\<lambda>e. e\<lparr>oe_claim_token := None\<rparr>) ox, None))
      | Inr _ \<Rightarrow> (case locked_claimed_row ox tenant_id event_id token of
            None \<Rightarrow> (ox, None)
          | Some e \<Rightarrow>
              if oe_attempts e > 1 \<and>
                (case retry_deadline (oe_last_error e) of None \<Rightarrow> False | Some deadline \<Rightarrow> now \<ge> deadline)
              then (write_event now event_id (dead_letter (Some WINDOW_CLOSED_ERROR)) ox, None)
              else (write_event now event_id (\<lambda>e. e\<lparr>oe_next_attempt_at := now + oc_lease cfg\<rparr>) ox,
                Some \<lparr>ee_id = oe_id e, ee_tenant_id = oe_tenant_id e, ee_event_type = oe_event_type e,
                  ee_payload = fst (split_initiator (oe_payload e)),
                  ee_correlation_id = oe_correlation_id e, ee_attempts = oe_attempts e,
                  ee_initiated_by = snd (split_initiator (oe_payload e))\<rparr>)))"

definition complete_event ::
  "datetime \<Rightarrow> outbox \<Rightarrow> uuid \<Rightarrow> uuid \<Rightarrow> uuid \<Rightarrow> outbox \<times> bool" where
  "complete_event now ox tenant_id event_id token =
     (case locked_claimed_row ox tenant_id event_id token of
        None \<Rightarrow> (ox, False)
      | Some e \<Rightarrow> (write_event now event_id (\<lambda>e. clear_marker (e\<lparr>oe_status := OUTBOX_PUBLISHED,
          oe_published_at := Some now, oe_claim_token := None\<rparr>)) ox, True))"

text \<open>Releasing a claim for a retry after a delay.\<close>

definition retried :: "datetime \<Rightarrow> outbox_event \<Rightarrow> outbox_event" where
  "retried next_attempt e = clear_marker (e\<lparr>oe_claim_token := None, oe_next_attempt_at := next_attempt\<rparr>)"

definition ordinary_failure ::
  "outbox_dispatch_config \<Rightarrow> datetime \<Rightarrow> rat \<Rightarrow> pystr \<Rightarrow> bool \<Rightarrow> retry_hint option
    \<Rightarrow> outbox_event \<Rightarrow> outbox_event" where
  "ordinary_failure cfg now rng error_text terminal retry_after e =
     (let e' = record_error error_text e in
      if terminal \<or> oe_attempts e' \<ge> oc_max_attempts cfg then dead_letter None e'
      else (let delay = retry_delay (oe_attempts e') cfg rng;
                delay' = (case retry_after of None \<Rightarrow> delay
                  | Some hint \<Rightarrow> max delay (retry_hint_delay hint cfg)) in
        retried (now + delay') e'))"

definition failed_row ::
  "outbox_dispatch_config \<Rightarrow> datetime \<Rightarrow> rat \<Rightarrow> uuid \<Rightarrow> pystr \<Rightarrow> bool \<Rightarrow> retry_hint option
    \<Rightarrow> outbox_event \<Rightarrow> outbox_event" where
  "failed_row cfg now rng token error_text terminal retry_after e =
     (if marked_by e (Some token)
      then (let described = describe_error error_text in
        dead_letter (Some (if terminal then described else OUTCOME_UNKNOWN_PREFIX @ described)) e)
      else ordinary_failure cfg now rng error_text terminal retry_after e)"

text \<open>A transition of the row a claim still owns: the new row, and its status.\<close>

definition on_claimed ::
  "datetime \<Rightarrow> outbox \<Rightarrow> uuid \<Rightarrow> uuid \<Rightarrow> uuid \<Rightarrow> (outbox_event \<Rightarrow> outbox_event)
    \<Rightarrow> outbox \<times> outbox_status option" where
  "on_claimed now ox tenant_id event_id token f =
     (case locked_claimed_row ox tenant_id event_id token of
        None \<Rightarrow> (ox, None)
      | Some e \<Rightarrow> (write_event now event_id f ox, Some (oe_status (f e))))"

definition fail_event ::
  "outbox_dispatch_config \<Rightarrow> datetime \<Rightarrow> rat \<Rightarrow> outbox \<Rightarrow> uuid \<Rightarrow> uuid \<Rightarrow> uuid \<Rightarrow> pystr \<Rightarrow> bool
    \<Rightarrow> retry_hint option \<Rightarrow> outbox \<times> outbox_status option" where
  "fail_event cfg now rng ox tenant_id event_id token error_text terminal retry_after =
     on_claimed now ox tenant_id event_id token
       (failed_row cfg now rng token error_text terminal retry_after)"

definition released :: "outbox_dispatch_config \<Rightarrow> datetime \<Rightarrow> pystr \<Rightarrow> outbox_event \<Rightarrow> outbox_event" where
  "released cfg now error_text e = clear_marker (record_error error_text
     (e\<lparr>oe_attempts := oe_attempts e - 1, oe_claim_token := None,
        oe_next_attempt_at := now + oc_enqueue_retry_delay cfg\<rparr>))"

definition release_claim ::
  "outbox_dispatch_config \<Rightarrow> datetime \<Rightarrow> outbox \<Rightarrow> uuid \<Rightarrow> uuid \<Rightarrow> uuid \<Rightarrow> pystr \<Rightarrow> outbox \<times> bool" where
  "release_claim cfg now ox tenant_id event_id token error_text =
     (case on_claimed now ox tenant_id event_id token (released cfg now error_text) of
        (ox', status) \<Rightarrow> (ox', status \<noteq> None))"

definition mark_external_effect_started ::
  "outbox_dispatch_config \<Rightarrow> datetime \<Rightarrow> outbox \<Rightarrow> uuid \<Rightarrow> uuid \<Rightarrow> uuid \<Rightarrow> outbox_error + (outbox \<times> bool)" where
  "mark_external_effect_started cfg now ox tenant_id event_id token =
     (if \<not> oc_external_effect_markers cfg then Inr (ox, False)
      else (let hit = (\<lambda>e. oe_tenant_id e = tenant_id \<and> oe_id e = event_id \<and> oe_claim_token e = Some token \<and>
                  oe_status e = OUTBOX_PENDING \<and> oe_next_attempt_at e > now \<and>
                  oe_external_started_claim e \<noteq> Some token) in
        if length (filter hit (outbox_events ox)) \<noteq> 1 then Inl (ExternalEffectNotStartedError event_id)
        else Inr (ox\<lparr>outbox_events := update_where hit (\<lambda>e. e\<lparr>oe_external_started_at := Some now,
            oe_external_started_claim := Some token, oe_next_attempt_at := now + oc_lease cfg,
            oe_updated_at := now\<rparr>)
            (outbox_events ox)\<rparr>, True)))"

subsection \<open>Consumer errors\<close>

text \<open>
  A consumer's exception is an object with an identity, of a class that may mix several of the
  outbox's own error classes, and possibly a group of further exceptions.
\<close>

record ambiguous_outcome =
  am_reason :: pystr
  am_phase :: pystr
  am_retry_within :: "int option"
  am_at_least_once :: bool

record exception_object =
  ex_id :: nat
  ex_type :: pystr
  ex_message :: pystr
  ex_ambiguous :: "ambiguous_outcome option"
  ex_permanent :: bool
  ex_confirmed_not_sent :: bool
  ex_timeout :: bool
  ex_retry_after :: "retry_hint option"

datatype py_exception = Single exception_object | Group exception_object "py_exception list"

fun exc_object :: "py_exception \<Rightarrow> exception_object" where
  "exc_object (Single x) = x"
| "exc_object (Group x _) = x"

definition error_text :: "py_exception \<Rightarrow> pystr" where
  "error_text e = ex_type (exc_object e) @ codes '': '' @ ex_message (exc_object e)"

fun leaves :: "py_exception \<Rightarrow> exception_object list" where
  "leaves (Single x) = [x]"
| "leaves (Group _ inner) = concat (map leaves inner)"

definition is_attested_not_sent :: "py_exception \<Rightarrow> py_exception option \<Rightarrow> bool" where
  "is_attested_not_sent e block_exception = (case block_exception of
     None \<Rightarrow> False
   | Some b \<Rightarrow> list_all ex_confirmed_not_sent (leaves e) \<and> list_all ex_confirmed_not_sent (leaves b) \<and>
       list_all (\<lambda>x. ex_id x \<in> set (map ex_id (leaves b))) (leaves e))"

definition outcome_unknown :: "ambiguous_outcome \<Rightarrow> pystr \<Rightarrow> pystr" where
  "outcome_unknown a note = OUTCOME_UNKNOWN_PREFIX @ take 120 (am_reason a) @ codes '' ('' @
     take 40 (am_phase a) @ codes ''); '' @ note"

definition not_sent_row ::
  "outbox_dispatch_config \<Rightarrow> datetime \<Rightarrow> rat \<Rightarrow> uuid \<Rightarrow> py_exception \<Rightarrow> py_exception option
    \<Rightarrow> retry_hint option \<Rightarrow> outbox_event \<Rightarrow> outbox_event" where
  "not_sent_row cfg now rng token exc block_exception retry_after e =
     (if marked_by e (Some token) \<and> ex_permanent (exc_object exc)
      then dead_letter (Some (describe_error (error_text exc))) e
      else if marked_by e (Some token) \<and> \<not> is_attested_not_sent exc block_exception
      then dead_letter (Some (OUTCOME_UNKNOWN_PREFIX @ describe_error (error_text exc))) e
      else ordinary_failure cfg now rng (error_text exc) False retry_after e)"

definition record_confirmed_not_sent ::
  "outbox_dispatch_config \<Rightarrow> datetime \<Rightarrow> rat \<Rightarrow> outbox \<Rightarrow> uuid \<Rightarrow> uuid \<Rightarrow> uuid \<Rightarrow> py_exception
    \<Rightarrow> py_exception option \<Rightarrow> retry_hint option \<Rightarrow> outbox \<times> outbox_status option" where
  "record_confirmed_not_sent cfg now rng ox tenant_id event_id token exc block_exception retry_after =
     on_claimed now ox tenant_id event_id token
       (not_sent_row cfg now rng token exc block_exception retry_after)"

definition NOT_RETRIED :: pystr where
  "NOT_RETRIED = codes ''not retried automatically. '' @ REPLAY_HINT"

definition ambiguous_row ::
  "outbox_dispatch_config \<Rightarrow> datetime \<Rightarrow> rat \<Rightarrow> uuid \<Rightarrow> ambiguous_outcome \<Rightarrow> outbox_event \<Rightarrow> outbox_event" where
  "ambiguous_row cfg now rng token a e =
     (if marked_by e (Some token) \<and> \<not> am_at_least_once a
      then dead_letter None (record_error (outcome_unknown a NOT_RETRIED) e)
      else (let delay = retry_delay (oe_attempts e) cfg rng;
                attempts_left = oe_attempts e < oc_max_attempts cfg in
        if am_at_least_once a
        then (let e' = record_error (outcome_unknown a
                (codes ''retried: at-least-once delivery on a stable event id'')) e in
          if attempts_left then retried (now + delay) e' else dead_letter None e')
        else (case am_retry_within a of
            None \<Rightarrow> dead_letter None (record_error (outcome_unknown a NOT_RETRIED) e)
          | Some window \<Rightarrow>
              (let deadline = oe_created_at e + window; tag = deadline_tag deadline in
               if attempts_left \<and> now + delay < deadline
               then retried (now + delay) (e\<lparr>oe_last_error := Some (with_tag (outcome_unknown a
                 (codes ''retried with the same idempotency key'')) (Some tag))\<rparr>)
               else dead_letter None (e\<lparr>oe_last_error := Some (with_tag (outcome_unknown a
                 ((if attempts_left then codes ''idempotency window closed'' else codes ''attempts exhausted'')
                   @ codes ''; '' @ NOT_RETRIED)) (Some tag))\<rparr>)))))"

text \<open>The deadline of a declared window may lie past the last representable instant: then the
  addition raises, and nothing is written.\<close>

definition window_overflows :: "uuid \<Rightarrow> ambiguous_outcome \<Rightarrow> outbox_event \<Rightarrow> bool" where
  "window_overflows token a e = (\<not> marked_by e (Some token) \<and> \<not> am_at_least_once a \<and>
     (case am_retry_within a of None \<Rightarrow> False | Some window \<Rightarrow> \<not> representable (oe_created_at e + window)))"

definition record_ambiguous_outcome ::
  "outbox_dispatch_config \<Rightarrow> datetime \<Rightarrow> rat \<Rightarrow> outbox \<Rightarrow> uuid \<Rightarrow> uuid \<Rightarrow> uuid \<Rightarrow> ambiguous_outcome
    \<Rightarrow> outbox_error + (outbox \<times> outbox_status option)" where
  "record_ambiguous_outcome cfg now rng ox tenant_id event_id token a =
     (case locked_claimed_row ox tenant_id event_id token of
        None \<Rightarrow> Inr (ox, None)
      | Some e \<Rightarrow> if window_overflows token a e then Inl DateOverflowError
          else Inr (on_claimed now ox tenant_id event_id token (ambiguous_row cfg now rng token a)))"

subsection \<open>Rewriting stored errors\<close>

definition starts_with :: "pystr \<Rightarrow> pystr option \<Rightarrow> bool" where
  "starts_with p text = (case text of None \<Rightarrow> False | Some s \<Rightarrow> take (length p) s = p)"

fun rewrite_tenant_errors ::
  "datetime \<Rightarrow> (pystr \<times> pystr) list \<Rightarrow> bool \<Rightarrow> uuid \<Rightarrow> outbox \<Rightarrow> outbox \<times> nat" where
  "rewrite_tenant_errors now [] apply_changes tenant_id ox = (ox, 0)"
| "rewrite_tenant_errors now ((p, replacement) # replacements) apply_changes tenant_id ox =
     (let hit = (\<lambda>e. oe_tenant_id e = tenant_id \<and> starts_with p (oe_last_error e));
          matched = length (filter hit (outbox_events ox));
          ox' = (if apply_changes then ox\<lparr>outbox_events := update_where hit
            (\<lambda>e. e\<lparr>oe_last_error := Some (describe_error replacement), oe_updated_at := now\<rparr>) (outbox_events ox)\<rparr> else ox);
          (ox'', more) = rewrite_tenant_errors now replacements apply_changes tenant_id ox' in
      (ox'', matched + more))"

fun rewrite_tenants ::
  "datetime \<Rightarrow> (pystr \<times> pystr) list \<Rightarrow> bool \<Rightarrow> uuid list \<Rightarrow> outbox \<Rightarrow> outbox \<times> nat" where
  "rewrite_tenants now replacements apply_changes [] ox = (ox, 0)"
| "rewrite_tenants now replacements apply_changes (t # ts) ox =
     (let (ox', n) = rewrite_tenant_errors now replacements apply_changes t ox;
          (ox'', m) = rewrite_tenants now replacements apply_changes ts ox' in (ox'', n + m))"

definition rewrite_stored_errors :: "datetime \<Rightarrow> db \<Rightarrow> (pystr \<times> pystr) list \<Rightarrow> bool \<Rightarrow> outbox \<Rightarrow> outbox \<times> nat" where
  "rewrite_stored_errors now d replacements apply_changes ox =
     rewrite_tenants now replacements apply_changes (list_tenant_ids d) ox"

subsection \<open>Consumption records\<close>

definition validate_consumer :: "string \<Rightarrow> outbox_error + unit" where
  "validate_consumer consumer = require (length consumer \<le> 100 \<and> dotted_name consumer)
     (InvalidOutboxEventError ''consumer'')"

definition event_consumption_recorded :: "outbox \<Rightarrow> uuid \<Rightarrow> string \<Rightarrow> uuid \<Rightarrow> outbox_error + bool" where
  "event_consumption_recorded ox tenant_id consumer event_id =
     ebind (validate_consumer consumer) (\<lambda>_.
     Inr ((tenant_id, consumer, event_id) \<in> set (outbox_consumptions ox)))"

definition claim_event_consumption ::
  "db \<Rightarrow> outbox \<Rightarrow> uuid \<Rightarrow> string \<Rightarrow> uuid \<Rightarrow> outbox_error + (outbox \<times> bool)" where
  "claim_event_consumption d ox tenant_id consumer event_id =
     ebind (validate_consumer consumer) (\<lambda>_.
     if find_tenant d tenant_id \<noteq> None \<and> (tenant_id, consumer, event_id) \<notin> set (outbox_consumptions ox)
     then Inr (ox\<lparr>outbox_consumptions := outbox_consumptions ox @ [(tenant_id, consumer, event_id)]\<rparr>, True)
     else ebind (event_consumption_recorded ox tenant_id consumer event_id) (\<lambda>recorded.
       if recorded then Inr (ox, False) else Inl OutboxIntegrityError))"

definition record_event_consumption ::
  "db \<Rightarrow> outbox \<Rightarrow> uuid \<Rightarrow> string \<Rightarrow> uuid \<Rightarrow> outbox_error + (outbox \<times> bool)" where
  "record_event_consumption d ox tenant_id consumer event_id =
     claim_event_consumption d ox tenant_id consumer event_id"

definition purge_tenant_outbox_consumptions :: "outbox \<Rightarrow> uuid \<Rightarrow> outbox \<times> nat" where
  "purge_tenant_outbox_consumptions ox tenant_id =
     (let hit = (\<lambda>(t, c, e). t = tenant_id) in
      (ox\<lparr>outbox_consumptions := delete_where hit (outbox_consumptions ox)\<rparr>,
       length (filter hit (outbox_consumptions ox))))"

subsection \<open>Replay and purge of rows\<close>

text \<open>The rows a replay selects and what it makes of one, and the rows a tenant purge
  deletes. The operations around them are in \<open>Outbox_Replay\<close>.\<close>

datatype replay_selection = EventIds "uuid list" | DeadLetteredSince datetime

definition selects :: "replay_selection \<Rightarrow> outbox_event \<Rightarrow> bool" where
  "selects selection e = (case selection of
     EventIds ids \<Rightarrow> oe_id e \<in> set ids
   | DeadLetteredSince since \<Rightarrow> oe_updated_at e \<ge> since)"

definition replayable :: "uuid \<Rightarrow> replay_selection \<Rightarrow> outbox_event \<Rightarrow> bool" where
  "replayable tenant_id selection e =
     (oe_tenant_id e = tenant_id \<and> oe_status e = OUTBOX_DEAD_LETTERED \<and> selects selection e)"

definition replayed :: "datetime \<Rightarrow> outbox_event \<Rightarrow> outbox_event" where
  "replayed now e = e\<lparr>oe_status := OUTBOX_PENDING, oe_attempts := 0, oe_next_attempt_at := now,
     oe_claim_token := None, oe_external_started_at := None, oe_external_started_claim := None,
     oe_updated_at := now\<rparr>"

definition replay_rows :: "datetime \<Rightarrow> uuid \<Rightarrow> replay_selection \<Rightarrow> outbox \<Rightarrow> outbox" where
  "replay_rows now tenant_id selection ox =
     ox\<lparr>outbox_events := update_where (replayable tenant_id selection) (replayed now) (outbox_events ox)\<rparr>"

definition delete_tenant_events :: "outbox \<Rightarrow> uuid \<Rightarrow> outbox \<times> nat" where
  "delete_tenant_events ox tenant_id =
     (let (ox', n) = purge_tenant_outbox_consumptions (ox\<lparr>outbox_events :=
            delete_where (\<lambda>e. oe_tenant_id e = tenant_id) (outbox_events ox)\<rparr>) tenant_id in
      (ox', length (filter (\<lambda>e. oe_tenant_id e = tenant_id) (outbox_events ox)) + n))"

end
