(* ===== verification/Outbox_Invariants.thy ===== *)
theory Outbox_Invariants
  imports Outbox
begin

section \<open>What the outbox guarantees\<close>

text \<open>
  Any interleaving of the outbox's transactions, as a sequence of actions. One relation, \<open>moves\<close>,
  says what a single action may do to a single row; the guarantees are proved over it: a
  well-formed row stays so, a lost claim stays lost, a request that may have been sent is not
  repeated, and a retry does not start after its idempotency window.
\<close>

subsection \<open>Actions\<close>

datatype outbox_action =
    Append datetime uuid string string string payload "json option" "string option"
  | DeleteAggregate uuid string string string
  | Claim datetime nat "uuid list"
  | Begin datetime uuid uuid uuid
  | Complete datetime uuid uuid uuid
  | Fail datetime rat uuid uuid uuid pystr bool "retry_hint option"
  | NotSent datetime rat uuid uuid uuid py_exception "py_exception option" "retry_hint option"
  | Ambiguous datetime rat uuid uuid uuid ambiguous_outcome
  | Release datetime uuid uuid uuid pystr
  | Mark datetime uuid uuid uuid
  | Rewrite datetime "(pystr \<times> pystr) list" bool
  | Consume uuid string uuid
  | Replay datetime uuid replay_selection
  | Purge uuid
  | Registry db

definition closed_tenant :: "db \<Rightarrow> uuid \<Rightarrow> bool" where
  "closed_tenant d t = (\<not> is_ok (lock_open_tenant d t))"

text \<open>The tenant registry changes between actions, but a closed tenant stays closed.\<close>

definition registry_follows :: "db \<Rightarrow> outbox \<Rightarrow> db \<Rightarrow> bool" where
  "registry_follows d ox d' = (distinct (map tn_id (tenants d')) \<and>
     list_all (\<lambda>e. closed_tenant d (oe_tenant_id e) \<longrightarrow> closed_tenant d' (oe_tenant_id e)) (outbox_events ox))"

definition result_or :: "outbox \<Rightarrow> outbox_error + (outbox \<times> 'a) \<Rightarrow> outbox" where
  "result_or ox r = (case r of Inl _ \<Rightarrow> ox | Inr (ox', _) \<Rightarrow> ox')"

fun outbox_after :: "outbox_dispatch_config \<Rightarrow> outbox_action \<Rightarrow> db \<Rightarrow> outbox \<Rightarrow> outbox" where
  "outbox_after cfg (Append now t et at1 ai pl i r) d ox = result_or ox (append_event d ox now t et at1 ai pl i r)"
| "outbox_after cfg (DeleteAggregate t et at1 ai) d ox = fst (delete_aggregate_events ox t et at1 ai)"
| "outbox_after cfg (Claim now start locked) d ox = fst (claim_due_events cfg now start locked d ox)"
| "outbox_after cfg (Begin now t i c) d ox = fst (begin_event_execution cfg now d ox t i c)"
| "outbox_after cfg (Complete now t i c) d ox = fst (complete_event now ox t i c)"
| "outbox_after cfg (Fail now rng t i c s terminal hint) d ox = fst (fail_event cfg now rng ox t i c s terminal hint)"
| "outbox_after cfg (NotSent now rng t i c x b hint) d ox = fst (record_confirmed_not_sent cfg now rng ox t i c x b hint)"
| "outbox_after cfg (Ambiguous now rng t i c a) d ox = result_or ox (record_ambiguous_outcome cfg now rng ox t i c a)"
| "outbox_after cfg (Release now t i c s) d ox = fst (release_claim cfg now ox t i c s)"
| "outbox_after cfg (Mark now t i c) d ox = result_or ox (mark_external_effect_started cfg now ox t i c)"
| "outbox_after cfg (Rewrite now rs b) d ox = fst (rewrite_stored_errors now d rs b ox)"
| "outbox_after cfg (Consume t c i) d ox = result_or ox (claim_event_consumption d ox t c i)"
| "outbox_after cfg (Replay now t sel) d ox = replay_rows now t sel ox"
| "outbox_after cfg (Purge t) d ox = fst (delete_tenant_events ox t)"
| "outbox_after cfg (Registry d') d ox = ox"

fun registry_after :: "outbox_action \<Rightarrow> db \<Rightarrow> outbox \<Rightarrow> db" where
  "registry_after (Registry d') d ox = (if registry_follows d ox d' then d' else d)"
| "registry_after _ d ox = d"

definition act :: "outbox_dispatch_config \<Rightarrow> outbox_action \<Rightarrow> db \<times> outbox \<Rightarrow> db \<times> outbox" where
  "act cfg a s = (registry_after a (fst s) (snd s), outbox_after cfg a (fst s) (snd s))"

fun act_all :: "outbox_dispatch_config \<Rightarrow> outbox_action list \<Rightarrow> db \<times> outbox \<Rightarrow> db \<times> outbox" where
  "act_all cfg [] s = s"
| "act_all cfg (a # as) s = act_all cfg as (act cfg a s)"

subsection \<open>What one action does to one row\<close>

definition touched :: "datetime \<Rightarrow> outbox_event \<Rightarrow> outbox_event" where
  "touched now e = e\<lparr>oe_updated_at := now\<rparr>"

definition owned :: "uuid \<Rightarrow> uuid \<Rightarrow> uuid \<Rightarrow> outbox_event \<Rightarrow> bool" where
  "owned t i c e = (oe_tenant_id e = t \<and> oe_id e = i \<and> oe_status e = OUTBOX_PENDING \<and> oe_claim_token e = Some c)"

inductive moves :: "outbox_dispatch_config \<Rightarrow> db \<Rightarrow> uuid \<Rightarrow> outbox_action \<Rightarrow> outbox_event \<Rightarrow> outbox_event \<Rightarrow> bool"
  for cfg d nx where
  stays: "moves cfg d nx a e e"
| claims: "\<lbrakk>oe_status e = OUTBOX_PENDING; oe_next_attempt_at e \<le> now;
     oe_tenant_id e \<in> set (list_open_tenant_ids d); nx \<le> token\<rbrakk>
   \<Longrightarrow> moves cfg d nx (Claim now start locked) e (touched now (fst (claim_row cfg now token e)))"
| fenced: "\<lbrakk>owned t i c e; closed_tenant d t\<rbrakk>
   \<Longrightarrow> moves cfg d nx (Begin now t i c) e (touched now (e\<lparr>oe_claim_token := None\<rparr>))"
| expires: "owned t i c e
   \<Longrightarrow> moves cfg d nx (Begin now t i c) e (touched now (dead_letter (Some WINDOW_CLOSED_ERROR) e))"
| begins: "owned t i c e
   \<Longrightarrow> moves cfg d nx (Begin now t i c) e (touched now (e\<lparr>oe_next_attempt_at := now + oc_lease cfg\<rparr>))"
| completes: "owned t i c e \<Longrightarrow> moves cfg d nx (Complete now t i c) e
     (touched now (clear_marker (e\<lparr>oe_status := OUTBOX_PUBLISHED, oe_published_at := Some now, oe_claim_token := None\<rparr>)))"
| fails: "owned t i c e \<Longrightarrow> moves cfg d nx (Fail now rng t i c s terminal hint) e
     (touched now (failed_row cfg now rng c s terminal hint e))"
| attests: "owned t i c e \<Longrightarrow> moves cfg d nx (NotSent now rng t i c x b hint) e
     (touched now (not_sent_row cfg now rng c x b hint e))"
| doubts: "\<lbrakk>owned t i c e; \<not> window_overflows c am e\<rbrakk> \<Longrightarrow> moves cfg d nx (Ambiguous now rng t i c am) e
     (touched now (ambiguous_row cfg now rng c am e))"
| releases: "owned t i c e \<Longrightarrow> moves cfg d nx (Release now t i c s) e (touched now (released cfg now s e))"
| marks: "\<lbrakk>owned t i c e; oe_next_attempt_at e > now; oe_external_started_claim e \<noteq> Some c\<rbrakk>
   \<Longrightarrow> moves cfg d nx (Mark now t i c) e (touched now (e\<lparr>oe_external_started_at := Some now,
     oe_external_started_claim := Some c, oe_next_attempt_at := now + oc_lease cfg\<rparr>))"
| overwrites: "moves cfg d nx (Rewrite now rs True) e (touched now (e\<lparr>oe_last_error := Some (describe_error s)\<rparr>))"
| replays: "replayable t sel e \<Longrightarrow> moves cfg d nx (Replay now t sel) e (replayed now e)"

lemmas row_defs = touched_def record_error_def dead_letter_def clear_marker_def retried_def released_def
  ordinary_failure_def failed_row_def not_sent_row_def ambiguous_row_def claim_row_def replayed_def

lemma moves_identity:
  assumes "moves cfg d nx a e e'"
  shows "oe_id e' = oe_id e \<and> oe_tenant_id e' = oe_tenant_id e \<and> oe_created_at e' = oe_created_at e"
  using assms by cases (auto simp: row_defs Let_def split: if_splits option.splits)

subsection \<open>Well-formed rows\<close>

definition event_ok :: "outbox_dispatch_config \<Rightarrow> uuid \<Rightarrow> outbox_event \<Rightarrow> bool" where
  "event_ok cfg nx e =
     ((oe_claim_token e \<noteq> None \<longrightarrow> oe_status e = OUTBOX_PENDING \<and> 1 \<le> oe_attempts e) \<and>
      ((oe_external_started_at e = None) = (oe_external_started_claim e = None)) \<and>
      (oe_status e = OUTBOX_PUBLISHED \<longrightarrow> oe_published_at e \<noteq> None \<and> oe_external_started_claim e = None) \<and>
      oe_attempts e \<le> oc_max_attempts cfg \<and>
      (case oe_last_error e of None \<Rightarrow> True | Some s \<Rightarrow> length s \<le> MAX_ERROR_LENGTH) \<and>
      (case oe_claim_token e of None \<Rightarrow> True | Some c \<Rightarrow> c < nx) \<and> oe_id e < nx)"

lemma moves_claim_fields:
  assumes "moves cfg d nx a e e'" "event_ok cfg nx e"
  shows "(oe_claim_token e' \<noteq> None \<longrightarrow> oe_status e' = OUTBOX_PENDING \<and> 1 \<le> oe_attempts e') \<and>
    ((oe_external_started_at e' = None) = (oe_external_started_claim e' = None)) \<and>
    (oe_status e' = OUTBOX_PUBLISHED \<longrightarrow> oe_published_at e' \<noteq> None \<and> oe_external_started_claim e' = None) \<and>
    oe_attempts e' \<le> oc_max_attempts cfg"
  using assms
  by cases (auto simp: event_ok_def owned_def row_defs replayable_def Let_def split: if_splits option.splits)

lemma length_clipped: "length (take 120 r @ s) \<le> 120 + length s"
  by simp

definition short_error :: "outbox_event \<Rightarrow> bool" where
  "short_error e = (case oe_last_error e of None \<Rightarrow> True | Some s \<Rightarrow> length s \<le> MAX_ERROR_LENGTH)"

lemma short_record_error: "short_error (record_error s e)"
  by (simp add: short_error_def record_error_def length_recorded_error)

lemma short_same: "oe_last_error e' = oe_last_error e \<Longrightarrow> short_error e \<Longrightarrow> short_error e'"
  by (simp add: short_error_def)

lemma short_dead_letter: "short_error e \<Longrightarrow> short_error (dead_letter r e)"
  by (cases r) (simp_all add: dead_letter_def Let_def short_record_error short_same [of _ e])

lemma short_retried [simp]: "short_error (retried n e) = short_error e"
  by (simp add: short_error_def retried_def clear_marker_def)

lemma short_describe: "short_error (e\<lparr>oe_last_error := Some (describe_error s)\<rparr>)"
  by (simp add: short_error_def length_describe_error)

lemma short_ordinary: "short_error (ordinary_failure cfg now rng s terminal hint e)"
  by (simp add: ordinary_failure_def Let_def short_record_error short_dead_letter)

lemma short_ambiguous:
  assumes "\<not> window_overflows c am e"
  shows "short_error (ambiguous_row cfg now rng c am e)"
proof -
  have "short_error (x\<lparr>oe_last_error := Some (with_tag s (Some (deadline_tag (oe_created_at e + w))))\<rparr>)"
    if "am_retry_within am = Some w" "\<not> marked_by e (Some c)" "\<not> am_at_least_once am" for x s w
    using assms that by (simp add: short_error_def length_with_tag window_overflows_def)
  then show ?thesis
    by (auto simp: ambiguous_row_def Let_def short_record_error short_dead_letter split: option.splits)
qed

lemma moves_short:
  assumes "moves cfg d nx a e e'" "short_error e"
  shows "short_error e'"
proof -
  have touched: "short_error (touched now x) = short_error x" for now x
    by (simp add: touched_def short_error_def)
  from assms show ?thesis
  proof cases
    case (doubts t i c am now rng)
    then show ?thesis using short_ambiguous by (simp add: touched)
  next
    case (claims now token start locked)
    then show ?thesis using assms(2)
      by (auto simp: touched claim_row_def Let_def short_dead_letter intro: short_same short_same [OF _ short_record_error])
  qed (use assms(2) in \<open>auto simp: touched short_dead_letter short_ordinary short_describe failed_row_def Let_def
      not_sent_row_def released_def clear_marker_def replayed_def
      intro: short_same short_same [OF _ short_record_error]\<close>)
qed

lemma claim_row_token:
  "oe_claim_token (fst (claim_row cfg now c e)) = (if snd (claim_row cfg now c e) then Some c else None)"
  by (simp add: row_defs Let_def split: option.splits)

lemma moves_token:
  assumes "moves cfg d nx a e e'"
  shows "oe_claim_token e' = None \<or> oe_claim_token e' = oe_claim_token e \<or>
    (\<exists>now start locked c. a = Claim now start locked \<and> nx \<le> c \<and> oe_claim_token e' = Some c \<and>
      e' = touched now (fst (claim_row cfg now c e)) \<and> snd (claim_row cfg now c e))"
  using assms
proof cases
  case (claims now token start locked)
  then show ?thesis
    using claim_row_token [of cfg now token e] by (cases "snd (claim_row cfg now token e)") (auto simp: touched_def)
qed (auto simp: row_defs Let_def split: if_splits option.splits)

subsection \<open>Every action is made of row moves\<close>

definition ids_ok :: "outbox \<Rightarrow> bool" where
  "ids_ok ox = (distinct (map oe_id (outbox_events ox)) \<and>
     list_all (\<lambda>e. oe_id e < outbox_next_uuid ox) (outbox_events ox))"

text \<open>Where a row of the new state comes from: a row that moved, or a fresh event.\<close>

definition fresh_event :: "uuid \<Rightarrow> outbox_event \<Rightarrow> bool" where
  "fresh_event nx e = (oe_id e = nx \<and> oe_status e = OUTBOX_PENDING \<and> oe_attempts e = 0 \<and> oe_claim_token e = None \<and>
     oe_external_started_at e = None \<and> oe_external_started_claim e = None \<and> oe_last_error e = None)"

definition row_wise :: "outbox_dispatch_config \<Rightarrow> db \<Rightarrow> outbox_action \<Rightarrow> outbox \<Rightarrow> outbox \<Rightarrow> bool" where
  "row_wise cfg d a ox ox' = (outbox_next_uuid ox \<le> outbox_next_uuid ox' \<and>
     distinct (map oe_id (outbox_events ox')) \<and>
     (\<forall>e' \<in> set (outbox_events ox'). oe_id e' < outbox_next_uuid ox' \<and>
        (case oe_claim_token e' of None \<Rightarrow> True | Some c \<Rightarrow>
           c < outbox_next_uuid ox' \<or> (\<exists>e \<in> set (outbox_events ox). oe_claim_token e = Some c)) \<and>
        ((\<exists>e \<in> set (outbox_events ox). moves cfg d (outbox_next_uuid ox) a e e') \<or>
         fresh_event (outbox_next_uuid ox) e')))"

lemma write_event_events:
  "outbox_events (write_event now i f ox) =
     map (\<lambda>e. if oe_id e = i then touched now (f e) else e) (outbox_events ox)"
  "outbox_next_uuid (write_event now i f ox) = outbox_next_uuid ox"
  by (simp_all add: write_event_def update_where_def touched_def)

lemma find_by_id:
  assumes "distinct (map oe_id rows)"
  shows "find (\<lambda>e. oe_id e = i) (filter p rows) = Some e \<longleftrightarrow> e \<in> set rows \<and> oe_id e = i \<and> p e"
proof
  assume "find (\<lambda>e. oe_id e = i) (filter p rows) = Some e"
  then show "e \<in> set rows \<and> oe_id e = i \<and> p e" by (auto dest: find_SomeD)
next
  assume e: "e \<in> set rows \<and> oe_id e = i \<and> p e"
  have "distinct (map oe_id (filter p rows))" using assms by (simp add: distinct_map_filter)
  with e find_unique [of oe_id "filter p rows" e] show "find (\<lambda>e. oe_id e = i) (filter p rows) = Some e" by simp
qed

lemma locked_claimed_row_iff:
  assumes "distinct (map oe_id (outbox_events ox))"
  shows "locked_claimed_row ox t i c = Some e \<longleftrightarrow> e \<in> set (outbox_events ox) \<and> owned t i c e"
proof -
  have "locked_claimed_row ox t i c = Some e \<longleftrightarrow>
      find (\<lambda>e. oe_id e = i) (filter (\<lambda>e. oe_tenant_id e = t) (outbox_events ox)) = Some e \<and>
      oe_status e = OUTBOX_PENDING \<and> oe_claim_token e = Some c"
    by (auto simp: locked_claimed_row_def split: option.splits if_splits)
  then show ?thesis by (auto simp: find_by_id [OF assms] owned_def)
qed

lemma token_source:
  assumes "e \<in> E" "tok = None \<or> tok = oe_claim_token e \<or> (\<exists>c < n. tok = Some c)"
  shows "case tok of None \<Rightarrow> True | Some c \<Rightarrow> c < n \<or> (\<exists>e \<in> E. oe_claim_token e = Some c)"
proof (cases tok)
  case (Some c)
  with assms(2) have "oe_claim_token e = Some c \<or> c < n" by auto
  with Some assms(1) show ?thesis by auto
qed simp

text \<open>A statement that maps rows, keeping their identity.\<close>

lemma row_wise_map:
  assumes "ids_ok ox" "outbox_events ox' = map f (outbox_events ox)" "outbox_next_uuid ox' = outbox_next_uuid ox"
    and "\<And>e. e \<in> set (outbox_events ox) \<Longrightarrow> moves cfg d (outbox_next_uuid ox) a e (f e)"
    and "\<And>e. e \<in> set (outbox_events ox) \<Longrightarrow> oe_claim_token (f e) = None \<or> oe_claim_token (f e) = oe_claim_token e"
  shows "row_wise cfg d a ox ox'"
proof -
  have id: "oe_id (f e) = oe_id e" if "e \<in> set (outbox_events ox)" for e
    using moves_identity assms(4) that by blast
  then have "map oe_id (outbox_events ox') = map oe_id (outbox_events ox)" by (simp add: assms(2))
  with assms(1) have distinct: "distinct (map oe_id (outbox_events ox'))" by (simp add: ids_ok_def)
  show ?thesis
    unfolding row_wise_def
  proof (intro conjI ballI)
    fix e' assume "e' \<in> set (outbox_events ox')"
    then obtain e where e: "e \<in> set (outbox_events ox)" "e' = f e" by (auto simp: assms(2))
    show "oe_id e' < outbox_next_uuid ox'"
      using e id assms(1,3) by (simp add: ids_ok_def list_all_iff)
    show "case oe_claim_token e' of None \<Rightarrow> True | Some c \<Rightarrow>
        c < outbox_next_uuid ox' \<or> (\<exists>e \<in> set (outbox_events ox). oe_claim_token e = Some c)"
      unfolding e(2) by (rule token_source [OF e(1)]) (use assms(5) [OF e(1)] in blast)
    show "(\<exists>e \<in> set (outbox_events ox). moves cfg d (outbox_next_uuid ox) a e e') \<or>
        fresh_event (outbox_next_uuid ox) e'"
      using e assms(4) by blast
  qed (use distinct assms(3) in simp_all)
qed

lemma row_wise_same: "ids_ok ox \<Longrightarrow> outbox_events ox' = outbox_events ox \<Longrightarrow>
    outbox_next_uuid ox' = outbox_next_uuid ox \<Longrightarrow> row_wise cfg d a ox ox'"
  by (rule row_wise_map [where f = id]) (auto intro: moves.stays)

lemma row_wise_filter:
  assumes "ids_ok ox" "outbox_events ox' = filter p (outbox_events ox)" "outbox_next_uuid ox' = outbox_next_uuid ox"
  shows "row_wise cfg d a ox ox'"
  using assms unfolding row_wise_def ids_ok_def list_all_iff
  by (auto simp: distinct_map_filter intro: moves.stays split: option.splits)

lemma write_owned_row_wise:
  assumes "ids_ok ox" "locked_claimed_row ox t i c = Some e"
    and "moves cfg d (outbox_next_uuid ox) a e (touched now (f e))"
    and "oe_claim_token (f e) = None \<or> oe_claim_token (f e) = oe_claim_token e"
  shows "row_wise cfg d a ox (write_event now i f ox)"
proof (rule row_wise_map [OF assms(1) write_event_events])
  have e: "e \<in> set (outbox_events ox)" "owned t i c e"
    using assms(1,2) by (simp_all add: locked_claimed_row_iff ids_ok_def)
  fix x assume x: "x \<in> set (outbox_events ox)"
  have only: "x = e" if "oe_id x = i"
    using that x e assms(1) by (auto simp: ids_ok_def owned_def dest: inj_onD [of oe_id] distinct_map [THEN iffD1])
  show "moves cfg d (outbox_next_uuid ox) a x (if oe_id x = i then touched now (f x) else x)"
    using only assms(3) moves.stays by auto
  show "oe_claim_token (if oe_id x = i then touched now (f x) else x) = None \<or>
      oe_claim_token (if oe_id x = i then touched now (f x) else x) = oe_claim_token x"
    using only assms(4) by (auto simp: touched_def)
qed

lemma on_claimed_row_wise:
  assumes "ids_ok ox" "\<And>e. locked_claimed_row ox t i c = Some e \<Longrightarrow> owned t i c e \<Longrightarrow>
      moves cfg d (outbox_next_uuid ox) a e (touched now (f e))"
    and "\<And>e. oe_claim_token (f e) = None \<or> oe_claim_token (f e) = oe_claim_token e"
  shows "row_wise cfg d a ox (fst (on_claimed now ox t i c f))"
proof (cases "locked_claimed_row ox t i c")
  case None
  then show ?thesis using assms(1) by (simp add: on_claimed_def row_wise_same)
next
  case (Some e)
  then have "owned t i c e" using assms(1) by (simp add: locked_claimed_row_iff ids_ok_def)
  then have "row_wise cfg d a ox (write_event now i f ox)"
    using assms(2) [OF Some] assms(3) [of e] by (intro write_owned_row_wise [OF assms(1) Some])
  with Some show ?thesis by (simp add: on_claimed_def)
qed

subsection \<open>Claiming moves rows\<close>

definition claims_rows ::
  "outbox_dispatch_config \<Rightarrow> datetime \<Rightarrow> outbox_event set \<Rightarrow> outbox \<Rightarrow> outbox \<Rightarrow> bool" where
  "claims_rows cfg now R ox ox' = (outbox_next_uuid ox \<le> outbox_next_uuid ox' \<and>
     (\<exists>g. outbox_events ox' = map g (outbox_events ox) \<and>
       (\<forall>e \<in> set (outbox_events ox). g e = e \<or> (e \<in> R \<and> (\<exists>c \<ge> outbox_next_uuid ox.
          g e = touched now (fst (claim_row cfg now c e)) \<and>
          (snd (claim_row cfg now c e) \<longrightarrow> c < outbox_next_uuid ox'))))))"

lemma claim_row_identity: "oe_id (fst (claim_row cfg now c e)) = oe_id e"
    "oe_tenant_id (fst (claim_row cfg now c e)) = oe_tenant_id e"
  by (simp_all add: row_defs Let_def split: option.splits)

lemma claims_rows_refl: "claims_rows cfg now R ox ox"
  unfolding claims_rows_def by (intro conjI exI [of _ id]) auto

lemma claims_rows_mono: "claims_rows cfg now R ox ox' \<Longrightarrow> R \<subseteq> R' \<Longrightarrow> claims_rows cfg now R' ox ox'"
  unfolding claims_rows_def by blast

text \<open>Two statements that claim rows of different identities claim the union.\<close>

lemma claims_rows_compose:
  assumes "claims_rows cfg now R ox ox'" "claims_rows cfg now S ox' ox''"
    and "\<And>e x. e \<in> R \<Longrightarrow> x \<in> S \<Longrightarrow> oe_id e \<noteq> oe_id x"
  shows "claims_rows cfg now (R \<union> S) ox ox''"
proof -
  obtain g where g: "outbox_events ox' = map g (outbox_events ox)" "\<And>e. e \<in> set (outbox_events ox) \<Longrightarrow>
      g e = e \<or> (e \<in> R \<and> (\<exists>c \<ge> outbox_next_uuid ox. g e = touched now (fst (claim_row cfg now c e)) \<and>
        (snd (claim_row cfg now c e) \<longrightarrow> c < outbox_next_uuid ox')))"
    and le: "outbox_next_uuid ox \<le> outbox_next_uuid ox'"
    using assms(1) unfolding claims_rows_def by blast
  obtain h where h: "outbox_events ox'' = map h (outbox_events ox')" "\<And>e. e \<in> set (outbox_events ox') \<Longrightarrow>
      h e = e \<or> (e \<in> S \<and> (\<exists>c \<ge> outbox_next_uuid ox'. h e = touched now (fst (claim_row cfg now c e)) \<and>
        (snd (claim_row cfg now c e) \<longrightarrow> c < outbox_next_uuid ox'')))"
    and le': "outbox_next_uuid ox' \<le> outbox_next_uuid ox''"
    using assms(2) unfolding claims_rows_def by blast
  have "(h \<circ> g) e = e \<or> (e \<in> R \<union> S \<and> (\<exists>c \<ge> outbox_next_uuid ox.
      (h \<circ> g) e = touched now (fst (claim_row cfg now c e)) \<and>
      (snd (claim_row cfg now c e) \<longrightarrow> c < outbox_next_uuid ox'')))"
    if e: "e \<in> set (outbox_events ox)" for e
  proof (cases "g e = e")
    case True
    then have "e \<in> set (outbox_events ox')" using e g(1) by (metis image_eqI image_set)
    from h(2) [OF this] True le show ?thesis by (auto intro: order_trans)
  next
    case False
    with g(2) [OF e] obtain c where c: "e \<in> R" "outbox_next_uuid ox \<le> c"
        "g e = touched now (fst (claim_row cfg now c e))"
        "snd (claim_row cfg now c e) \<longrightarrow> c < outbox_next_uuid ox'" by blast
    then have "oe_id (g e) = oe_id e" by (simp add: touched_def claim_row_identity)
    with assms(3) c(1) have "g e \<notin> S" by metis
    then have "h (g e) = g e" using h(2) [of "g e"] g(1) e by auto
    with c le' show ?thesis by auto
  qed
  then show ?thesis
    unfolding claims_rows_def using le le' h(1) g(1) by (intro conjI exI [of _ "h \<circ> g"]) auto
qed

lemma claims_rows_one:
  assumes "distinct (map oe_id (outbox_events ox))" "e \<in> set (outbox_events ox)"
    and "claim_row cfg now (outbox_next_uuid ox) e = (e', claimed)"
  shows "claims_rows cfg now {e} ox ((write_event now (oe_id e) (\<lambda>_. e') ox)\<lparr>outbox_next_uuid :=
    (if claimed then Suc (outbox_next_uuid ox) else outbox_next_uuid ox)\<rparr>)"
  unfolding claims_rows_def
proof (intro conjI exI)
  show "outbox_events ((write_event now (oe_id e) (\<lambda>_. e') ox)\<lparr>outbox_next_uuid :=
      (if claimed then Suc (outbox_next_uuid ox) else outbox_next_uuid ox)\<rparr>) =
    map (\<lambda>x. if oe_id x = oe_id e then touched now e' else x) (outbox_events ox)"
    by (simp add: write_event_events)
  have "x = e" if "x \<in> set (outbox_events ox)" "oe_id x = oe_id e" for x
    using that assms(1,2) by (auto dest: inj_onD [of oe_id] distinct_map [THEN iffD1])
  note only = this
  show "\<forall>x \<in> set (outbox_events ox). (if oe_id x = oe_id e then touched now e' else x) = x \<or>
      (x \<in> {e} \<and> (\<exists>c \<ge> outbox_next_uuid ox. (if oe_id x = oe_id e then touched now e' else x) =
        touched now (fst (claim_row cfg now c x)) \<and> (snd (claim_row cfg now c x) \<longrightarrow>
          c < outbox_next_uuid ((write_event now (oe_id e) (\<lambda>_. e') ox)\<lparr>outbox_next_uuid :=
            (if claimed then Suc (outbox_next_uuid ox) else outbox_next_uuid ox)\<rparr>))))"
  proof
    fix x assume x: "x \<in> set (outbox_events ox)"
    show "(if oe_id x = oe_id e then touched now e' else x) = x \<or>
      (x \<in> {e} \<and> (\<exists>c \<ge> outbox_next_uuid ox. (if oe_id x = oe_id e then touched now e' else x) =
        touched now (fst (claim_row cfg now c x)) \<and> (snd (claim_row cfg now c x) \<longrightarrow>
          c < outbox_next_uuid ((write_event now (oe_id e) (\<lambda>_. e') ox)\<lparr>outbox_next_uuid :=
            (if claimed then Suc (outbox_next_uuid ox) else outbox_next_uuid ox)\<rparr>))))"
    proof (cases "oe_id x = oe_id e")
      case True
      with only [OF x] have "x = e" by simp
      with assms(3) show ?thesis by (intro disjI2 conjI exI [of _ "outbox_next_uuid ox"]) auto
    qed simp
  qed
qed simp

lemma claim_rows_claims:
  assumes "distinct (map oe_id (outbox_events ox))" "set rows \<subseteq> set (outbox_events ox)"
    and "distinct (map oe_id rows)"
  shows "claims_rows cfg now (set rows) ox (fst (claim_rows cfg now rows ox)) \<and>
    distinct (map oe_id (outbox_events (fst (claim_rows cfg now rows ox)))) \<and>
    (\<forall>x \<in> set (outbox_events ox). oe_id x \<notin> oe_id ` set rows \<longrightarrow> x \<in> set (outbox_events (fst (claim_rows cfg now rows ox))))"
  using assms
proof (induction rows arbitrary: ox)
  case Nil
  then show ?case by (simp add: claims_rows_refl)
next
  case (Cons e rows)
  obtain e' claimed where row: "claim_row cfg now (outbox_next_uuid ox) e = (e', claimed)" by fastforce
  define ox1 where "ox1 = (write_event now (oe_id e) (\<lambda>_. e') ox)\<lparr>outbox_next_uuid :=
    (if claimed then Suc (outbox_next_uuid ox) else outbox_next_uuid ox)\<rparr>"
  have id': "oe_id e' = oe_id e" using row claim_row_identity(1) [of cfg now "outbox_next_uuid ox" e] by simp
  have events: "outbox_events ox1 = map (\<lambda>x. if oe_id x = oe_id e then touched now e' else x) (outbox_events ox)"
    by (simp add: ox1_def write_event_events)
  have ids: "map oe_id (outbox_events ox1) = map oe_id (outbox_events ox)"
    by (auto simp: events touched_def id')
  have sub: "set rows \<subseteq> set (outbox_events ox1)"
  proof
    fix x assume x: "x \<in> set rows"
    with Cons.prems(2) have "x \<in> set (outbox_events ox)" by auto
    moreover have "oe_id x \<noteq> oe_id e" using x Cons.prems(3) by (metis distinct.simps(2) image_eqI list.simps(9) list.set_map)
    ultimately show "x \<in> set (outbox_events ox1)" by (auto simp: events intro!: image_eqI [of x _ x])
  qed
  have step: "claims_rows cfg now {e} ox ox1"
    unfolding ox1_def using Cons.prems row by (intro claims_rows_one) auto
  have IH: "claims_rows cfg now (set rows) ox1 (fst (claim_rows cfg now rows ox1))"
    "distinct (map oe_id (outbox_events (fst (claim_rows cfg now rows ox1))))"
    "\<forall>x \<in> set (outbox_events ox1). oe_id x \<notin> oe_id ` set rows \<longrightarrow>
      x \<in> set (outbox_events (fst (claim_rows cfg now rows ox1)))"
    using Cons.IH [of ox1] Cons.prems ids sub by simp_all
  have res: "fst (claim_rows cfg now (e # rows) ox) = fst (claim_rows cfg now rows ox1)"
    by (simp add: Let_def row ox1_def case_prod_beta)
  have "claims_rows cfg now ({e} \<union> set rows) ox (fst (claim_rows cfg now rows ox1))"
    by (rule claims_rows_compose [OF step IH(1)]) (use Cons.prems(3) in auto)
  moreover have "x \<in> set (outbox_events (fst (claim_rows cfg now rows ox1)))"
    if "x \<in> set (outbox_events ox)" "oe_id x \<notin> oe_id ` set (e # rows)" for x
  proof -
    have "x \<in> set (outbox_events ox1)" using that by (auto simp: events intro!: image_eqI [of x _ x])
    with IH(3) that(2) show ?thesis by simp
  qed
  ultimately show ?case unfolding res using IH(2) by simp
qed

lemma due_rows_sound:
  "set (due_rows now locked t ox) = {e \<in> set (outbox_events ox). oe_tenant_id e = t \<and>
     oe_status e = OUTBOX_PENDING \<and> oe_next_attempt_at e \<le> now \<and> oe_id e \<notin> set locked}"
  by (auto simp: due_rows_def)

lemma distinct_due_rows:
  assumes "distinct (map oe_id (outbox_events ox))"
  shows "distinct (map oe_id (take n (due_rows now locked t ox)))"
proof -
  have "distinct (map oe_id (due_rows now locked t ox))"
    using assms unfolding due_rows_def distinct_map by (auto intro: inj_on_subset)
  then show ?thesis by (simp add: take_map [symmetric] distinct_take)
qed

lemma claims_rows_tenant:
  assumes "claims_rows cfg now R ox ox'" "\<And>e. e \<in> R \<Longrightarrow> oe_tenant_id e = t"
    and "x \<in> set (outbox_events ox')" "oe_tenant_id x \<noteq> t"
  shows "x \<in> set (outbox_events ox)"
proof -
  obtain g where g: "outbox_events ox' = map g (outbox_events ox)" "\<And>e. e \<in> set (outbox_events ox) \<Longrightarrow>
      g e = e \<or> (e \<in> R \<and> (\<exists>c. g e = touched now (fst (claim_row cfg now c e))))"
    using assms(1) unfolding claims_rows_def by blast
  obtain e where e: "e \<in> set (outbox_events ox)" "x = g e" using assms(3) g(1) by auto
  have "oe_tenant_id (g e) = oe_tenant_id e" using g(2) [OF e(1)] by (auto simp: touched_def claim_row_identity)
  with assms(2,4) g(2) [OF e(1)] e show ?thesis by auto
qed

definition claimable :: "datetime \<Rightarrow> uuid set \<Rightarrow> outbox_event \<Rightarrow> bool" where
  "claimable now T e = (oe_status e = OUTBOX_PENDING \<and> oe_next_attempt_at e \<le> now \<and> oe_tenant_id e \<in> T)"

lemma claim_tenants_claims:
  assumes "distinct (map oe_id (outbox_events ox))" "distinct ts"
  shows "\<exists>R. R \<subseteq> {e \<in> set (outbox_events ox). claimable now (set ts) e} \<and>
    claims_rows cfg now R ox (fst (claim_tenants cfg now locked ts claimed ox)) \<and>
    distinct (map oe_id (outbox_events (fst (claim_tenants cfg now locked ts claimed ox))))"
  using assms
proof (induction ts arbitrary: ox claimed)
  case Nil
  then show ?case using claims_rows_refl by auto
next
  case (Cons t ts)
  show ?case
  proof (cases "oc_batch_size cfg \<le> length claimed")
    case True
    then show ?thesis using claims_rows_refl Cons.prems(1) by auto
  next
    case False
    define rows where "rows = take (min (oc_per_tenant_limit cfg) (oc_batch_size cfg - length claimed))
      (due_rows now locked t ox)"
    obtain ox1 new where run: "claim_rows cfg now rows ox = (ox1, new)" by fastforce
    have rows: "set rows \<subseteq> {e \<in> set (outbox_events ox). claimable now {t} e}"
      unfolding rows_def by (auto simp: claimable_def due_rows_sound dest!: in_set_takeD)
    have first: "claims_rows cfg now (set rows) ox ox1" "distinct (map oe_id (outbox_events ox1))"
      using claim_rows_claims [of ox rows cfg now] rows distinct_due_rows [OF Cons.prems(1)] Cons.prems(1) run
      by (auto simp: rows_def)
    from Cons.IH [OF first(2), of "claimed @ new"] Cons.prems(2)
    obtain R where R: "R \<subseteq> {e \<in> set (outbox_events ox1). claimable now (set ts) e}"
      "claims_rows cfg now R ox1 (fst (claim_tenants cfg now locked ts (claimed @ new) ox1))"
      "distinct (map oe_id (outbox_events (fst (claim_tenants cfg now locked ts (claimed @ new) ox1))))"
      by auto
    have old: "R \<subseteq> set (outbox_events ox)"
    proof
      fix x assume "x \<in> R"
      with R(1) Cons.prems(2) have "x \<in> set (outbox_events ox1)" "oe_tenant_id x \<noteq> t" by (auto simp: claimable_def)
      then show "x \<in> set (outbox_events ox)"
        using claims_rows_tenant [OF first(1), of t x] rows by (auto simp: claimable_def)
    qed
    have "claims_rows cfg now (set rows \<union> R) ox (fst (claim_tenants cfg now locked ts (claimed @ new) ox1))"
    proof (rule claims_rows_compose [OF first(1) R(2)])
      fix e x assume "e \<in> set rows" "x \<in> R"
      then have "oe_tenant_id e = t" "oe_tenant_id x \<noteq> t" "e \<in> set (outbox_events ox)" "x \<in> set (outbox_events ox)"
        using rows R(1) old Cons.prems(2) by (auto simp: claimable_def)
      then show "oe_id e \<noteq> oe_id x" using Cons.prems(1) by (metis distinct_map inj_onD)
    qed
    moreover have "set rows \<union> R \<subseteq> {e \<in> set (outbox_events ox). claimable now (set (t # ts)) e}"
      using rows R(1) old by (auto simp: claimable_def)
    moreover have "fst (claim_tenants cfg now locked (t # ts) claimed ox) =
        fst (claim_tenants cfg now locked ts (claimed @ new) ox1)"
      using False run by (simp add: Let_def rows_def)
    ultimately show ?thesis using R(3) by metis
  qed
qed

lemma claims_rows_row_wise:
  assumes "ids_ok ox" "claims_rows cfg now R ox ox'" "R \<subseteq> {e. claimable now (set (list_open_tenant_ids d)) e}"
  shows "row_wise cfg d (Claim now start locked) ox ox'"
proof -
  obtain g where g: "outbox_events ox' = map g (outbox_events ox)" "\<And>e. e \<in> set (outbox_events ox) \<Longrightarrow>
      g e = e \<or> (e \<in> R \<and> (\<exists>c \<ge> outbox_next_uuid ox. g e = touched now (fst (claim_row cfg now c e)) \<and>
        (snd (claim_row cfg now c e) \<longrightarrow> c < outbox_next_uuid ox')))"
    and le: "outbox_next_uuid ox \<le> outbox_next_uuid ox'"
    using assms(2) unfolding claims_rows_def by blast
  have move: "moves cfg d (outbox_next_uuid ox) (Claim now start locked) e (g e)"
    if "e \<in> set (outbox_events ox)" for e
    using g(2) [OF that]
  proof
    assume "e \<in> R \<and> (\<exists>c \<ge> outbox_next_uuid ox. g e = touched now (fst (claim_row cfg now c e)) \<and>
        (snd (claim_row cfg now c e) \<longrightarrow> c < outbox_next_uuid ox'))"
    then obtain c where c: "e \<in> R" "outbox_next_uuid ox \<le> c" "g e = touched now (fst (claim_row cfg now c e))"
      by blast
    with assms(3) have "claimable now (set (list_open_tenant_ids d)) e" by blast
    with c show ?thesis unfolding claimable_def by (metis moves.claims)
  qed (simp add: moves.stays)
  have id: "oe_id (g e) = oe_id e" if "e \<in> set (outbox_events ox)" for e
    using moves_identity move that by blast
  then have ids: "map oe_id (outbox_events ox') = map oe_id (outbox_events ox)" by (simp add: g(1))
  have token: "oe_claim_token (g e) = None \<or> oe_claim_token (g e) = oe_claim_token e \<or>
      (\<exists>c < outbox_next_uuid ox'. oe_claim_token (g e) = Some c)" if "e \<in> set (outbox_events ox)" for e
    using g(2) [OF that]
  proof
    assume "e \<in> R \<and> (\<exists>c \<ge> outbox_next_uuid ox. g e = touched now (fst (claim_row cfg now c e)) \<and>
        (snd (claim_row cfg now c e) \<longrightarrow> c < outbox_next_uuid ox'))"
    then obtain c where "g e = touched now (fst (claim_row cfg now c e))"
        "snd (claim_row cfg now c e) \<longrightarrow> c < outbox_next_uuid ox'" by blast
    then show ?thesis using claim_row_token [of cfg now c e] by (auto simp: touched_def)
  qed simp
  show ?thesis
    unfolding row_wise_def
  proof (intro conjI ballI le)
    show "distinct (map oe_id (outbox_events ox'))" using assms(1) ids by (simp add: ids_ok_def)
    fix e' assume "e' \<in> set (outbox_events ox')"
    then obtain e where e: "e \<in> set (outbox_events ox)" "e' = g e" by (auto simp: g(1))
    show "oe_id e' < outbox_next_uuid ox'"
      using e id le assms(1) by (auto simp: ids_ok_def list_all_iff intro: less_le_trans)
    show "case oe_claim_token e' of None \<Rightarrow> True | Some c \<Rightarrow>
        c < outbox_next_uuid ox' \<or> (\<exists>e \<in> set (outbox_events ox). oe_claim_token e = Some c)"
      unfolding e(2) by (rule token_source [OF e(1) token [OF e(1)]])
    show "(\<exists>e \<in> set (outbox_events ox). moves cfg d (outbox_next_uuid ox) (Claim now start locked) e e') \<or>
        fresh_event (outbox_next_uuid ox) e'"
      using e move by blast
  qed
qed

lemma claim_due_events_row_wise:
  assumes "ids_ok ox" "distinct (map tn_id (tenants d))"
  shows "row_wise cfg d (Claim now start locked) ox (fst (claim_due_events cfg now start locked d ox))"
proof (cases "list_open_tenant_ids d = []")
  case True
  then show ?thesis using assms(1) by (simp add: claim_due_events_def row_wise_same)
next
  case False
  define ids where "ids = list_open_tenant_ids d"
  have "distinct ids" using assms(2) by (simp add: ids_def list_open_tenant_ids_def distinct_map_filter)
  then have order: "distinct (rotate start ids)" "set (rotate start ids) = set ids" by simp_all
  have "distinct (map oe_id (outbox_events ox))" using assms(1) by (simp add: ids_ok_def)
  from claim_tenants_claims [OF this order(1), where now = now and cfg = cfg and locked = locked and claimed = "[]"]
  obtain R where "R \<subseteq> {e. claimable now (set ids) e}"
    "claims_rows cfg now R ox (fst (claim_tenants cfg now locked (rotate start ids) [] ox))"
    unfolding order(2) by auto
  moreover have "claim_due_events cfg now start locked d ox =
      claim_tenants cfg now locked (rotate start ids) [] ox"
    using False by (simp add: claim_due_events_def Let_def ids_def rotate_drop_take)
  ultimately show ?thesis using claims_rows_row_wise [OF assms(1)] by (simp add: ids_def)
qed

subsection \<open>Every action\<close>

lemma tokens_kept:
  "oe_claim_token (failed_row cfg now rng c s terminal hint e) = None"
  "oe_claim_token (not_sent_row cfg now rng c x b hint e) = None"
  "oe_claim_token (ambiguous_row cfg now rng c am e) = None"
  "oe_claim_token (released cfg now s e) = None"
  by (auto simp: row_defs Let_def split: option.splits)

lemma append_row_wise:
  assumes "ids_ok ox" "append_event d ox now t et at1 ai pl i r = Inr (ox', j)"
  shows "row_wise cfg d a ox ox'"
proof -
  obtain e where "outbox_events ox' = outbox_events ox @ [e]" "fresh_event (outbox_next_uuid ox) e"
    "outbox_next_uuid ox' = Suc (outbox_next_uuid ox)"
    using assms(2) by (auto simp: append_event_def Let_def fresh_event_def)
  with assms(1) show ?thesis
    unfolding row_wise_def ids_ok_def list_all_iff
    by (auto simp: fresh_event_def intro: moves.stays split: option.splits)
qed

lemma begin_row_wise:
  assumes "ids_ok ox"
  shows "row_wise cfg d (Begin now t i c) ox (fst (begin_event_execution cfg now d ox t i c))"
proof (cases "locked_claimed_row ox t i c")
  case None
  then show ?thesis
    using assms by (auto simp: begin_event_execution_def row_wise_same split: sum.splits)
next
  case (Some e)
  then have own: "owned t i c e" using assms by (simp add: locked_claimed_row_iff ids_ok_def)
  note by_write = write_owned_row_wise [OF assms Some]
  show ?thesis
  proof (cases "lock_open_tenant d t")
    case (Inl err)
    then have "closed_tenant d t" by (simp add: closed_tenant_def)
    then have "row_wise cfg d (Begin now t i c) ox (write_event now i (\<lambda>e. e\<lparr>oe_claim_token := None\<rparr>) ox)"
      using moves.fenced [OF own] by (intro by_write) auto
    then show ?thesis using Some Inl by (simp add: begin_event_execution_def)
  next
    case (Inr tenant)
    have "row_wise cfg d (Begin now t i c) ox (write_event now i (dead_letter (Some WINDOW_CLOSED_ERROR)) ox)"
      using moves.expires [OF own] by (intro by_write) (auto simp: row_defs)
    moreover have "row_wise cfg d (Begin now t i c) ox
        (write_event now i (\<lambda>e. e\<lparr>oe_next_attempt_at := now + oc_lease cfg\<rparr>) ox)"
      using moves.begins [OF own] by (intro by_write) auto
    ultimately show ?thesis using Some Inr by (simp add: begin_event_execution_def split: option.splits)
  qed
qed

lemma mark_row_wise:
  assumes "ids_ok ox" "mark_external_effect_started cfg now ox t i c = Inr (ox', b)"
  shows "row_wise cfg d (Mark now t i c) ox ox'"
proof (cases "oc_external_effect_markers cfg")
  case True
  let ?hit = "\<lambda>e. oe_tenant_id e = t \<and> oe_id e = i \<and> oe_claim_token e = Some c \<and>
    oe_status e = OUTBOX_PENDING \<and> oe_next_attempt_at e > now \<and> oe_external_started_claim e \<noteq> Some c"
  let ?f = "\<lambda>e. if ?hit e then touched now (e\<lparr>oe_external_started_at := Some now,
    oe_external_started_claim := Some c, oe_next_attempt_at := now + oc_lease cfg\<rparr>) else e"
  have "outbox_events ox' = map ?f (outbox_events ox)" "outbox_next_uuid ox' = outbox_next_uuid ox"
    using assms(2) True
    by (auto simp: mark_external_effect_started_def Let_def update_where_def touched_def split: if_splits)
  then show ?thesis
  proof (rule row_wise_map [OF assms(1)])
    fix e
    show "moves cfg d (outbox_next_uuid ox) (Mark now t i c) e (?f e)"
      by (auto simp: owned_def intro: moves.marks moves.stays)
    show "oe_claim_token (?f e) = None \<or> oe_claim_token (?f e) = oe_claim_token e" by (simp add: touched_def)
  qed
qed (use assms in \<open>simp add: mark_external_effect_started_def row_wise_same\<close>)

definition overwritten :: "datetime \<Rightarrow> bool \<Rightarrow> outbox_event \<Rightarrow> outbox_event \<Rightarrow> bool" where
  "overwritten now b e e' = (e' = e \<or> (b \<and> (\<exists>s. e' = touched now (e\<lparr>oe_last_error := Some (describe_error s)\<rparr>))))"

definition overwrites_rows :: "datetime \<Rightarrow> bool \<Rightarrow> outbox \<Rightarrow> outbox \<Rightarrow> bool" where
  "overwrites_rows now b ox ox' = (outbox_next_uuid ox' = outbox_next_uuid ox \<and>
     (\<exists>g. outbox_events ox' = map g (outbox_events ox) \<and> (\<forall>e. overwritten now b e (g e))))"

lemma overwritten_trans: "overwritten now b e e1 \<Longrightarrow> overwritten now b e1 e2 \<Longrightarrow> overwritten now b e e2"
  by (auto simp: overwritten_def touched_def)

lemma overwrites_rows_trans:
  assumes "overwrites_rows now b ox ox1" "overwrites_rows now b ox1 ox2"
  shows "overwrites_rows now b ox ox2"
proof -
  obtain g h where "outbox_events ox1 = map g (outbox_events ox)" "\<And>e. overwritten now b e (g e)"
      "outbox_events ox2 = map h (outbox_events ox1)" "\<And>e. overwritten now b e (h e)"
      "outbox_next_uuid ox2 = outbox_next_uuid ox"
    using assms unfolding overwrites_rows_def by metis
  then show ?thesis
    unfolding overwrites_rows_def by (intro conjI exI [of _ "h \<circ> g"]) (auto intro: overwritten_trans)
qed

lemma overwrites_rows_refl: "overwrites_rows now b ox ox"
  unfolding overwrites_rows_def by (intro conjI exI [of _ id]) (auto simp: overwritten_def)

lemma rewrite_tenant_overwrites: "overwrites_rows now b ox (fst (rewrite_tenant_errors now rs b t ox))"
proof (induction rs arbitrary: ox)
  case (Cons r rs)
  obtain p s where r: "r = (p, s)" by fastforce
  define ox1 where "ox1 = (if b then ox\<lparr>outbox_events := update_where
    (\<lambda>e. oe_tenant_id e = t \<and> starts_with p (oe_last_error e))
    (\<lambda>e. e\<lparr>oe_last_error := Some (describe_error s), oe_updated_at := now\<rparr>) (outbox_events ox)\<rparr> else ox)"
  have "overwrites_rows now b ox ox1"
  proof (cases b)
    case True
    then show ?thesis unfolding overwrites_rows_def ox1_def update_where_def
      by (intro conjI exI [of _ "\<lambda>e. if oe_tenant_id e = t \<and> starts_with p (oe_last_error e)
          then e\<lparr>oe_last_error := Some (describe_error s), oe_updated_at := now\<rparr> else e"])
        (auto simp: overwritten_def touched_def)
  qed (simp add: ox1_def overwrites_rows_refl)
  moreover have "fst (rewrite_tenant_errors now (r # rs) b t ox) = fst (rewrite_tenant_errors now rs b t ox1)"
    by (simp add: r Let_def ox1_def case_prod_beta)
  ultimately show ?case using Cons.IH [of ox1] overwrites_rows_trans by metis
qed (simp add: overwrites_rows_refl)

lemma rewrite_tenants_overwrites: "overwrites_rows now b ox (fst (rewrite_tenants now rs b ts ox))"
proof (induction ts arbitrary: ox)
  case (Cons t ts)
  have "fst (rewrite_tenants now rs b (t # ts) ox) =
      fst (rewrite_tenants now rs b ts (fst (rewrite_tenant_errors now rs b t ox)))"
    by (simp add: case_prod_beta)
  then show ?case using Cons.IH rewrite_tenant_overwrites overwrites_rows_trans by metis
qed (simp add: overwrites_rows_refl)

lemma rewrite_row_wise:
  assumes "ids_ok ox"
  shows "row_wise cfg d (Rewrite now rs b) ox (fst (rewrite_stored_errors now d rs b ox))"
proof -
  obtain g where g: "outbox_events (fst (rewrite_stored_errors now d rs b ox)) = map g (outbox_events ox)"
      "\<And>e. overwritten now b e (g e)"
      "outbox_next_uuid (fst (rewrite_stored_errors now d rs b ox)) = outbox_next_uuid ox"
    using rewrite_tenants_overwrites unfolding rewrite_stored_errors_def overwrites_rows_def by metis
  show ?thesis
  proof (rule row_wise_map [OF assms g(1,3)])
    fix e
    show "moves cfg d (outbox_next_uuid ox) (Rewrite now rs b) e (g e)"
      using g(2) [of e] by (auto simp: overwritten_def intro: moves.stays moves.overwrites)
    show "oe_claim_token (g e) = None \<or> oe_claim_token (g e) = oe_claim_token e"
      using g(2) [of e] by (auto simp: overwritten_def touched_def)
  qed
qed

lemma action_row_wise:
  assumes "ids_ok ox" "distinct (map tn_id (tenants d))"
  shows "row_wise cfg d a ox (outbox_after cfg a d ox)"
proof (cases a)
  case (Append now t et at1 ai pl i r)
  then show ?thesis using assms(1)
    by (auto simp: result_or_def row_wise_same append_row_wise split: sum.splits)
next
  case (DeleteAggregate t et at1 ai)
  then show ?thesis using assms(1)
    by (auto simp: delete_aggregate_events_def Let_def delete_where_def intro: row_wise_filter)
next
  case (Claim now start locked)
  then show ?thesis using claim_due_events_row_wise [OF assms] by simp
next
  case (Begin now t i c)
  then show ?thesis using begin_row_wise [OF assms(1)] by simp
next
  case (Complete now t i c)
  let ?f = "\<lambda>e. clear_marker (e\<lparr>oe_status := OUTBOX_PUBLISHED, oe_published_at := Some now, oe_claim_token := None\<rparr>)"
  have "row_wise cfg d (Complete now t i c) ox (fst (on_claimed now ox t i c ?f))"
    by (rule on_claimed_row_wise [OF assms(1)]) (auto simp: clear_marker_def intro: moves.completes [unfolded clear_marker_def])
  then show ?thesis using Complete by (simp add: complete_event_def on_claimed_def split: option.splits)
next
  case (Fail now rng t i c s terminal hint)
  then show ?thesis unfolding Fail outbox_after.simps fail_event_def
    by (intro on_claimed_row_wise [OF assms(1)]) (auto simp: tokens_kept intro: moves.fails)
next
  case (NotSent now rng t i c x b hint)
  then show ?thesis unfolding NotSent outbox_after.simps record_confirmed_not_sent_def
    by (intro on_claimed_row_wise [OF assms(1)]) (auto simp: tokens_kept intro: moves.attests)
next
  case (Ambiguous now rng t i c am)
  have "row_wise cfg d a ox (fst (on_claimed now ox t i c (ambiguous_row cfg now rng c am)))"
    if "locked_claimed_row ox t i c = Some e" "\<not> window_overflows c am e" for e
    unfolding Ambiguous by (intro on_claimed_row_wise [OF assms(1)]) (use that in \<open>auto simp: tokens_kept intro: moves.doubts\<close>)
  then show ?thesis
    using assms(1) Ambiguous
    by (auto simp: result_or_def record_ambiguous_outcome_def row_wise_same case_prod_beta split: option.splits sum.splits)
next
  case (Release now t i c s)
  have "row_wise cfg d a ox (fst (on_claimed now ox t i c (released cfg now s)))"
    unfolding Release by (intro on_claimed_row_wise [OF assms(1)]) (auto simp: tokens_kept intro: moves.releases)
  then show ?thesis by (simp add: Release release_claim_def case_prod_beta)
next
  case (Mark now t i c)
  then show ?thesis using assms(1)
    by (auto simp: result_or_def row_wise_same mark_row_wise split: sum.splits)
next
  case (Rewrite now rs b)
  then show ?thesis using rewrite_row_wise [OF assms(1)] by simp
next
  case (Consume t c i)
  then show ?thesis using assms(1)
    by (auto simp: result_or_def claim_event_consumption_def row_wise_same split: sum.splits if_splits)
next
  case (Replay now t sel)
  have "row_wise cfg d (Replay now t sel) ox (replay_rows now t sel ox)"
    by (rule row_wise_map [OF assms(1), where f = "\<lambda>e. if replayable t sel e then replayed now e else e"])
      (auto simp: replay_rows_def update_where_def replayed_def intro: moves.replays [unfolded replayed_def] moves.stays)
  then show ?thesis using Replay by simp
next
  case (Purge t)
  then show ?thesis using assms(1)
    by (auto simp: delete_tenant_events_def purge_tenant_outbox_consumptions_def Let_def delete_where_def
        intro: row_wise_filter)
next
  case (Registry d')
  then show ?thesis using assms(1) by (simp add: row_wise_same)
qed

subsection \<open>The invariant\<close>

definition outbox_ok :: "outbox_dispatch_config \<Rightarrow> db \<times> outbox \<Rightarrow> bool" where
  "outbox_ok cfg s = (distinct (map tn_id (tenants (fst s))) \<and>
     distinct (map oe_id (outbox_events (snd s))) \<and>
     list_all (event_ok cfg (outbox_next_uuid (snd s))) (outbox_events (snd s)))"

lemma outbox_ok_ids: "outbox_ok cfg s \<Longrightarrow> ids_ok (snd s)"
  by (auto simp: outbox_ok_def ids_ok_def event_ok_def list_all_iff)

lemma event_ok_short: "event_ok cfg nx e \<Longrightarrow> short_error e"
  by (simp add: event_ok_def short_error_def)

lemma fresh_event_ok: "fresh_event nx e \<Longrightarrow> nx < nx' \<Longrightarrow> event_ok cfg nx' e"
  by (simp add: fresh_event_def event_ok_def)

lemma outbox_ok_act:
  assumes "outbox_ok cfg s"
  shows "outbox_ok cfg (act cfg a s)"
proof -
  obtain d ox where s: "s = (d, ox)" by fastforce
  have ok: "distinct (map tn_id (tenants d))" "ids_ok ox"
      "\<And>e. e \<in> set (outbox_events ox) \<Longrightarrow> event_ok cfg (outbox_next_uuid ox) e"
    using assms outbox_ok_ids [OF assms] by (auto simp: s outbox_ok_def list_all_iff)
  define ox' where "ox' = outbox_after cfg a d ox"
  have rw: "row_wise cfg d a ox ox'" unfolding ox'_def by (rule action_row_wise [OF ok(2,1)])
  have "event_ok cfg (outbox_next_uuid ox') e'" if e': "e' \<in> set (outbox_events ox')" for e'
  proof -
    have bounds: "oe_id e' < outbox_next_uuid ox'" "case oe_claim_token e' of None \<Rightarrow> True | Some c \<Rightarrow>
        c < outbox_next_uuid ox' \<or> (\<exists>e \<in> set (outbox_events ox). oe_claim_token e = Some c)"
      and origin: "(\<exists>e \<in> set (outbox_events ox). moves cfg d (outbox_next_uuid ox) a e e') \<or>
        fresh_event (outbox_next_uuid ox) e'" and le: "outbox_next_uuid ox \<le> outbox_next_uuid ox'"
      using rw e' unfolding row_wise_def by blast+
    have token: "case oe_claim_token e' of None \<Rightarrow> True | Some c \<Rightarrow> c < outbox_next_uuid ox'"
      using bounds(2) ok(3) le by (fastforce simp: event_ok_def split: option.splits)
    from origin show ?thesis
    proof
      assume "\<exists>e \<in> set (outbox_events ox). moves cfg d (outbox_next_uuid ox) a e e'"
      then obtain e where e: "e \<in> set (outbox_events ox)" "moves cfg d (outbox_next_uuid ox) a e e'" by blast
      from moves_claim_fields [OF e(2) ok(3) [OF e(1)]] moves_short [OF e(2) event_ok_short [OF ok(3) [OF e(1)]]]
      show ?thesis using bounds(1) token unfolding event_ok_def short_error_def by blast
    next
      assume "fresh_event (outbox_next_uuid ox) e'"
      with bounds(1) show ?thesis by (metis fresh_event_def fresh_event_ok)
    qed
  qed
  moreover have "distinct (map tn_id (tenants (registry_after a d ox)))"
    using ok(1) by (cases a) (auto simp: registry_follows_def)
  moreover have "distinct (map oe_id (outbox_events ox'))" using rw by (simp add: row_wise_def)
  ultimately show ?thesis by (simp add: outbox_ok_def act_def s list_all_iff flip: ox'_def)
qed

lemma outbox_ok_act_all: "outbox_ok cfg s \<Longrightarrow> outbox_ok cfg (act_all cfg as s)"
  by (induction as arbitrary: s) (simp_all add: outbox_ok_act)

text \<open>A property of the row with a given identifier that every action keeps, if the row is still there.\<close>

definition of_event :: "uuid \<Rightarrow> (db \<Rightarrow> outbox_event \<Rightarrow> bool) \<Rightarrow> db \<times> outbox \<Rightarrow> bool" where
  "of_event i P s = (i < outbox_next_uuid (snd s) \<and>
     (\<forall>e \<in> set (outbox_events (snd s)). oe_id e = i \<longrightarrow> P (fst s) e))"

lemma of_event_act:
  assumes "outbox_ok cfg s" "of_event i P s"
    and "\<And>d nx e e'. \<lbrakk>moves cfg d nx a e e'; P d e; oe_id e = i; distinct (map tn_id (tenants d)); event_ok cfg nx e\<rbrakk> \<Longrightarrow> P d e'"
    and "\<And>d ox d' e. \<lbrakk>registry_follows d ox d'; e \<in> set (outbox_events ox); P d e\<rbrakk> \<Longrightarrow> P d' e"
  shows "of_event i P (act cfg a s)"
proof -
  obtain d ox where s: "s = (d, ox)" by fastforce
  have ok: "distinct (map tn_id (tenants d))" "ids_ok ox"
      "\<And>e. e \<in> set (outbox_events ox) \<Longrightarrow> event_ok cfg (outbox_next_uuid ox) e"
    using assms(1) outbox_ok_ids [OF assms(1)] by (auto simp: s outbox_ok_def list_all_iff)
  have rw: "row_wise cfg d a ox (outbox_after cfg a d ox)" by (rule action_row_wise [OF ok(2,1)])
  have old: "P d e'" if e': "e' \<in> set (outbox_events (outbox_after cfg a d ox))" "oe_id e' = i" for e'
  proof -
    have "\<not> fresh_event (outbox_next_uuid ox) e'" using that(2) assms(2) by (auto simp: s of_event_def fresh_event_def)
    with rw e'(1) obtain e where e: "e \<in> set (outbox_events ox)" "moves cfg d (outbox_next_uuid ox) a e e'"
      unfolding row_wise_def by blast
    with moves_identity [OF e(2)] that(2) have "oe_id e = i" by simp
    with e assms(2,3) ok show ?thesis by (auto simp: s of_event_def)
  qed
  have "P (registry_after a d ox) e'"
    if e': "e' \<in> set (outbox_events (outbox_after cfg a d ox))" "oe_id e' = i" for e'
  proof (cases "registry_after a d ox = d")
    case False
    then obtain d' where "a = Registry d'" "registry_follows d ox d'" "registry_after a d ox = d'"
      by (cases a) (auto split: if_splits)
    with old [OF e'] e' assms(4) show ?thesis by auto
  qed (use old [OF e'] in simp)
  moreover have "i < outbox_next_uuid (outbox_after cfg a d ox)"
    using rw assms(2) by (auto simp: row_wise_def of_event_def s)
  ultimately show ?thesis by (simp add: of_event_def act_def s)
qed

lemma of_event_act_all:
  assumes "outbox_ok cfg s" "of_event i P s"
    and "\<And>a d nx e e'. \<lbrakk>a \<in> set as; moves cfg d nx a e e'; P d e; oe_id e = i; distinct (map tn_id (tenants d));
      event_ok cfg nx e\<rbrakk> \<Longrightarrow> P d e'"
    and "\<And>d ox d' e. \<lbrakk>registry_follows d ox d'; e \<in> set (outbox_events ox); P d e\<rbrakk> \<Longrightarrow> P d' e"
  shows "of_event i P (act_all cfg as s)"
  using assms(1-3)
proof (induction as arbitrary: s)
  case (Cons a as)
  have "of_event i P (act cfg a s)"
    using Cons.prems(3) [OF list.set_intros(1)] by (rule of_event_act [OF Cons.prems(1,2) _ assms(4)])
  moreover have "outbox_ok cfg (act cfg a s)" using Cons.prems(1) by (rule outbox_ok_act)
  ultimately have "of_event i P (act_all cfg as (act cfg a s))"
    using Cons.prems(3) [OF list.set_intros(2)] by (intro Cons.IH)
  then show ?case by simp
qed simp

subsection \<open>A claim that was lost\<close>

definition lost_claim :: "uuid \<Rightarrow> uuid \<Rightarrow> db \<times> outbox \<Rightarrow> bool" where
  "lost_claim i c s = (c < outbox_next_uuid (snd s) \<and>
     (\<forall>e \<in> set (outbox_events (snd s)). oe_id e = i \<longrightarrow> oe_claim_token e \<noteq> Some c))"

lemma next_uuid_act_le: "outbox_ok cfg s \<Longrightarrow> outbox_next_uuid (snd s) \<le> outbox_next_uuid (snd (act cfg a s))"
  using action_row_wise [of "snd s" "fst s" cfg a] outbox_ok_ids [of cfg s]
  by (auto simp: outbox_ok_def row_wise_def act_def)

lemma lost_claim_act:
  assumes "outbox_ok cfg s" "lost_claim i c s" "i < outbox_next_uuid (snd s)"
  shows "lost_claim i c (act cfg a s)"
proof -
  obtain d ox where s: "s = (d, ox)" by fastforce
  have "row_wise cfg d a ox (outbox_after cfg a d ox)"
    using assms(1) outbox_ok_ids [OF assms(1)] by (intro action_row_wise) (auto simp: outbox_ok_def s)
  moreover have "oe_claim_token e' \<noteq> Some c"
    if "moves cfg d (outbox_next_uuid ox) a e e'" "e \<in> set (outbox_events ox)" "oe_id e' = i" for e e'
    using moves_token [OF that(1)] moves_identity [OF that(1)] that(2,3) assms(2)
    by (auto simp: lost_claim_def s)
  ultimately show ?thesis
    using assms(2,3) unfolding row_wise_def lost_claim_def act_def s
    by (fastforce simp: fresh_event_def)
qed

lemma lost_claim_act_all:
  assumes "outbox_ok cfg s" "lost_claim i c s" "i < outbox_next_uuid (snd s)"
  shows "lost_claim i c (act_all cfg as s)"
  using assms
proof (induction as arbitrary: s)
  case (Cons a as)
  with lost_claim_act outbox_ok_act next_uuid_act_le show ?case by (metis act_all.simps(2) less_le_trans)
qed simp

lemma lost_claim_powerless:
  assumes "outbox_ok cfg s" "lost_claim i c s"
  shows "locked_claimed_row (snd s) t i c = None"
    and "\<not> (\<exists>ox'. mark_external_effect_started cfg now (snd s) t i c = Inr (ox', True))"
proof -
  have "distinct (map oe_id (outbox_events (snd s)))" using assms(1) by (simp add: outbox_ok_def)
  then have "locked_claimed_row (snd s) t i c \<noteq> Some e" for e
    using assms(2) by (auto simp: locked_claimed_row_iff lost_claim_def owned_def)
  then show "locked_claimed_row (snd s) t i c = None" by auto
  have "filter (\<lambda>e. oe_tenant_id e = t \<and> oe_id e = i \<and> oe_claim_token e = Some c \<and> oe_status e = OUTBOX_PENDING \<and>
      oe_next_attempt_at e > now \<and> oe_external_started_claim e \<noteq> Some c) (outbox_events (snd s)) = []"
    using assms(2) by (auto simp: filter_empty_conv lost_claim_def)
  then show "\<not> (\<exists>ox'. mark_external_effect_started cfg now (snd s) t i c = Inr (ox', True))"
    by (auto simp: mark_external_effect_started_def Let_def split: if_splits)
qed

subsection \<open>A request that may have been sent\<close>

definition sent_row :: "uuid \<Rightarrow> db \<Rightarrow> outbox_event \<Rightarrow> bool" where
  "sent_row c d e = (oe_status e = OUTBOX_PUBLISHED \<or> oe_external_started_claim e = Some c \<and>
     (oe_status e = OUTBOX_DEAD_LETTERED \<or> oe_claim_token e = Some c \<or>
      oe_claim_token e = None \<and> closed_tenant d (oe_tenant_id e)))"

text \<open>The four ways in which the code lets a marked attempt run again: the hand-off is reported
  failed, the consumer attests that nothing was sent, the consumer declares at-least-once
  delivery, or an operator replays the event.\<close>

fun reopens :: "uuid \<Rightarrow> uuid \<Rightarrow> outbox_action \<Rightarrow> bool" where
  "reopens i c (Release now t i' c' s) = (i' = i \<and> c' = c)"
| "reopens i c (NotSent now rng t i' c' x b hint) = (i' = i \<and> c' = c \<and> is_attested_not_sent x b)"
| "reopens i c (Ambiguous now rng t i' c' am) = (i' = i \<and> c' = c \<and> am_at_least_once am)"
| "reopens i c (Replay now t sel) = (case sel of EventIds ids \<Rightarrow> i \<in> set ids | DeadLetteredSince _ \<Rightarrow> True)"
| "reopens i c _ = False"

lemma open_not_closed:
  assumes "t \<in> set (list_open_tenant_ids d)" "distinct (map tn_id (tenants d))"
  shows "\<not> closed_tenant d t"
proof -
  obtain x where x: "x \<in> set (tenants d)" "tn_id x = t" "\<not> is_closed (tn_status x)"
    using assms(1) by (auto simp: list_open_tenant_ids_def)
  then have "find_tenant d t = Some x" using find_unique [OF assms(2) x(1)] by (simp add: find_tenant_def)
  with x(3) show ?thesis by (simp add: closed_tenant_def lock_open_tenant_def)
qed

lemma sent_row_moves:
  assumes "moves cfg d nx a e e'" "sent_row c d e" "\<not> reopens (oe_id e) c a"
    and "distinct (map tn_id (tenants d))" "event_ok cfg nx e"
  shows "sent_row c d e'"
  using assms(1)
proof cases
  case (claims now token start locked)
  then have "\<not> closed_tenant d (oe_tenant_id e)" using open_not_closed assms(4) by blast
  with assms(2) claims have "oe_claim_token e = Some c" "oe_external_started_claim e = Some c"
    by (auto simp: sent_row_def)
  with claims show ?thesis by (simp add: sent_row_def row_defs marked_by_def)
next
  case (replays t sel now)
  with assms(3) show ?thesis by (auto simp: replayable_def selects_def split: replay_selection.splits)
next
  case (attests t i c' now rng x b hint)
  with assms(2,3,5) have "oe_external_started_claim e = Some c'" "\<not> is_attested_not_sent x b"
    by (auto simp: sent_row_def owned_def)
  with attests assms(2) show ?thesis by (auto simp: sent_row_def row_defs marked_by_def owned_def Let_def)
next
  case (doubts t i c' am now rng)
  with assms(2,3,5) have "oe_external_started_claim e = Some c'" "\<not> am_at_least_once am"
    by (auto simp: sent_row_def owned_def)
  with doubts assms(2) show ?thesis by (auto simp: sent_row_def row_defs marked_by_def owned_def Let_def)
qed (use assms(2,3) in \<open>auto simp: sent_row_def row_defs marked_by_def owned_def Let_def\<close>)

lemma sent_row_registry:
  "registry_follows d ox d' \<Longrightarrow> e \<in> set (outbox_events ox) \<Longrightarrow> sent_row c d e \<Longrightarrow> sent_row c d' e"
  by (auto simp: registry_follows_def sent_row_def list_all_iff)

lemma sent_row_no_mark:
  assumes "of_event i (sent_row c) s"
  shows "\<not> (\<exists>ox'. mark_external_effect_started cfg now (snd s) t i c' = Inr (ox', True))"
proof -
  have "filter (\<lambda>e. oe_tenant_id e = t \<and> oe_id e = i \<and> oe_claim_token e = Some c' \<and> oe_status e = OUTBOX_PENDING \<and>
      oe_next_attempt_at e > now \<and> oe_external_started_claim e \<noteq> Some c') (outbox_events (snd s)) = []"
    using assms by (auto simp: filter_empty_conv of_event_def sent_row_def)
  then show ?thesis by (auto simp: mark_external_effect_started_def Let_def split: if_splits)
qed

lemma marked_event_sent:
  assumes "outbox_ok cfg (d, ox)" "mark_external_effect_started cfg now ox t i c = Inr (ox', True)"
  shows "of_event i (sent_row c) (d, ox') \<and> outbox_ok cfg (d, ox')"
proof -
  let ?hit = "\<lambda>e. oe_tenant_id e = t \<and> oe_id e = i \<and> oe_claim_token e = Some c \<and> oe_status e = OUTBOX_PENDING \<and>
      oe_next_attempt_at e > now \<and> oe_external_started_claim e \<noteq> Some c"
  have res: "length (filter ?hit (outbox_events ox)) = 1" "ox' = ox\<lparr>outbox_events := update_where ?hit
      (\<lambda>e. e\<lparr>oe_external_started_at := Some now, oe_external_started_claim := Some c,
        oe_next_attempt_at := now + oc_lease cfg, oe_updated_at := now\<rparr>) (outbox_events ox)\<rparr>"
    using assms(2) by (auto simp: mark_external_effect_started_def Let_def split: if_splits)
  then obtain e where "filter ?hit (outbox_events ox) = [e]" by (auto simp: length_Suc_conv)
  then have "e \<in> set (filter ?hit (outbox_events ox))" by simp
  then have e: "e \<in> set (outbox_events ox)" "?hit e" by simp_all
  have only: "x = e" if "x \<in> set (outbox_events ox)" "oe_id x = i" for x
    using that e assms(1) by (metis distinct_map fst_conv inj_onD outbox_ok_def snd_conv)
  have "sent_row c d x" if x: "x \<in> set (outbox_events ox')" "oe_id x = i" for x
  proof -
    let ?u = "\<lambda>e. e\<lparr>oe_external_started_at := Some now, oe_external_started_claim := Some c,
        oe_next_attempt_at := now + oc_lease cfg, oe_updated_at := now\<rparr>"
    obtain y where y: "y \<in> set (outbox_events ox)" "x = (if ?hit y then ?u y else y)"
      using x(1) unfolding res(2) by (auto simp: set_update_where)
    then have "oe_id y = i" using x(2) by (cases "?hit y") simp_all
    with only y have "x = ?u e" using e(2) by auto
    then show ?thesis using e(2) by (simp add: sent_row_def)
  qed
  moreover have "i < outbox_next_uuid ox'"
    using e assms(1) by (auto simp: res(2) outbox_ok_def list_all_iff event_ok_def)
  moreover have "outbox_ok cfg (d, ox')"
    using outbox_ok_act [OF assms(1), of "Mark now t i c"] assms(2) by (simp add: act_def result_or_def)
  ultimately show ?thesis by (simp add: of_event_def)
qed

end
