(* ===== verification/Outbox_Properties.thy ===== *)
theory Outbox_Properties
  imports Outbox_Invariants
begin

section \<open>Properties of the outbox\<close>

text \<open>
  The guarantees of \<open>saas_os/core/outbox/dispatch.py\<close> over every interleaving of its
  transactions, the bounds of its delays and of its stored errors, and what one claim cycle
  claims. The last part is a small outbox that meets the hypotheses.
\<close>

subsection \<open>Retry windows\<close>

definition windowed_row :: "uuid \<Rightarrow> datetime \<Rightarrow> db \<Rightarrow> outbox_event \<Rightarrow> bool" where
  "windowed_row i bound d e = (oe_id e = i \<and>
     (oe_status e = OUTBOX_PENDING \<longrightarrow> (if oe_claim_token e = None then 1 else 2) \<le> oe_attempts e) \<and>
     (case retry_deadline (oe_last_error e) of None \<Rightarrow> False | Some deadline \<Rightarrow> deadline \<le> bound))"

text \<open>The actions that may take the deadline away or move it: an operator's replay or rewrite of
  stored errors, and a later outcome that declares a window ending after the bound.\<close>

fun moves_window :: "uuid \<Rightarrow> datetime \<Rightarrow> datetime \<Rightarrow> outbox_action \<Rightarrow> bool" where
  "moves_window i created bound (Replay now t sel) = True"
| "moves_window i created bound (Rewrite now rs b) = b"
| "moves_window i created bound (Ambiguous now rng t i' c am) =
     (i' = i \<and> (case am_retry_within am of None \<Rightarrow> False | Some w \<Rightarrow> bound < created + w))"
| "moves_window i created bound _ = False"

lemma recorded_error_keeps:
  "retry_deadline (oe_last_error (record_error s e)) = retry_deadline (oe_last_error e)"
  by (simp add: record_error_def recorded_error_deadline)

lemma dead_letter_keeps:
  "retry_deadline (oe_last_error (dead_letter r e)) = retry_deadline (oe_last_error e)"
  by (cases r) (simp_all add: dead_letter_def Let_def record_error_def recorded_error_deadline)

lemma truncate_le: "truncate_to_second t \<le> t"
  by (simp add: truncate_to_second_def MICROSECOND_SECOND_def minus_mod_eq_div_mult [symmetric])

lemma row_deadlines:
  "retry_deadline (oe_last_error (touched now e)) = retry_deadline (oe_last_error e)"
  "retry_deadline (oe_last_error (retried n e)) = retry_deadline (oe_last_error e)"
  "retry_deadline (oe_last_error (ordinary_failure cfg now rng s terminal hint e)) = retry_deadline (oe_last_error e)"
  "retry_deadline (oe_last_error (failed_row cfg now rng c s terminal hint e)) = retry_deadline (oe_last_error e)"
  "retry_deadline (oe_last_error (not_sent_row cfg now rng c x b hint e)) = retry_deadline (oe_last_error e)"
  "retry_deadline (oe_last_error (released cfg now s e)) = retry_deadline (oe_last_error e)"
  "retry_deadline (oe_last_error (fst (claim_row cfg now c e))) = retry_deadline (oe_last_error e)"
  by (simp_all add: touched_def retried_def clear_marker_def ordinary_failure_def failed_row_def not_sent_row_def
      released_def claim_row_def Let_def dead_letter_keeps recorded_error_keeps [simplified record_error_def]
      record_error_def recorded_error_deadline)

lemma ambiguous_deadline:
  assumes "\<not> window_overflows c am e" "retry_deadline (oe_last_error e) = Some deadline" "deadline \<le> bound"
    and "\<And>w. am_retry_within am = Some w \<Longrightarrow> oe_created_at e + w \<le> bound"
  shows "\<exists>deadline' \<le> bound. retry_deadline (oe_last_error (ambiguous_row cfg now rng c am e)) = Some deadline'"
proof -
  have tagged: "retry_deadline (Some (with_tag s (Some (deadline_tag (oe_created_at e + w))))) =
      Some (truncate_to_second (oe_created_at e + w))"
    if "am_retry_within am = Some w" "\<not> marked_by e (Some c)" "\<not> am_at_least_once am" for s w
    using assms(1) that by (intro deadline_read_back) (simp add: window_overflows_def)
  have "truncate_to_second (oe_created_at e + w) \<le> bound" if "am_retry_within am = Some w" for w
    using assms(4) [OF that] truncate_le order_trans by blast
  with tagged assms(2,3) show ?thesis
    by (auto simp: ambiguous_row_def Let_def dead_letter_keeps row_deadlines recorded_error_keeps split: option.splits)
qed

lemma row_shapes:
  "oe_id (ambiguous_row cfg now rng c am e) = oe_id e" "oe_attempts (ambiguous_row cfg now rng c am e) = oe_attempts e"
  "oe_id (failed_row cfg now rng c s terminal hint e) = oe_id e"
  "oe_attempts (failed_row cfg now rng c s terminal hint e) = oe_attempts e"
  "oe_id (not_sent_row cfg now rng c x b hint e) = oe_id e"
  "oe_attempts (not_sent_row cfg now rng c x b hint e) = oe_attempts e"
  "oe_id (released cfg now s e) = oe_id e" "oe_attempts (released cfg now s e) = oe_attempts e - 1"
  by (simp_all add: row_defs Let_def split: option.splits)

lemma windowed_moves:
  assumes "moves cfg d nx a e e'" "windowed_row i bound d e"
    and "\<not> moves_window i (oe_created_at e) bound a"
  shows "windowed_row i bound d e'"
proof -
  obtain deadline where dl: "retry_deadline (oe_last_error e) = Some deadline" "deadline \<le> bound"
    using assms(2) by (auto simp: windowed_row_def split: option.splits)
  have same: "windowed_row i bound d x" if "retry_deadline (oe_last_error x) = retry_deadline (oe_last_error e)"
    "oe_id x = i" "oe_status x = OUTBOX_PENDING \<longrightarrow> (if oe_claim_token x = None then 1 else 2) \<le> oe_attempts x" for x
    using that dl by (simp add: windowed_row_def)
  from assms(1) show ?thesis
  proof cases
    case (doubts t i' c am now rng)
    have "\<exists>deadline' \<le> bound. retry_deadline (oe_last_error e') = Some deadline'"
      unfolding doubts row_deadlines
      by (rule ambiguous_deadline [OF _ dl]) (use doubts assms(2,3) in \<open>auto simp: owned_def windowed_row_def\<close>)
    then show ?thesis
      using doubts assms(2) tokens_kept(3) [of cfg now rng c am e]
      by (auto simp: windowed_row_def touched_def row_shapes owned_def)
  next
    case (claims now token start locked)
    then show ?thesis using assms(2)
      by (intro same) (auto simp: row_deadlines windowed_row_def touched_def claim_row_def Let_def dead_letter_def
          record_error_def recorded_error_deadline split: if_splits option.splits)
  next
    case (overwrites now rs s)
    then show ?thesis using assms(3) by simp
  next
    case (replays t sel now)
    then show ?thesis using assms(3) by simp
  next
    case (expires t i' c now)
    then show ?thesis using assms(2) by (intro same) (auto simp: row_deadlines dead_letter_keeps windowed_row_def row_defs recorded_error_deadline)
  next
    case (fails t i' c now rng s terminal hint)
    then show ?thesis using assms(2) tokens_kept(1) [of cfg now rng c s terminal hint e]
      by (intro same) (auto simp: row_deadlines row_shapes windowed_row_def touched_def owned_def)
  next
    case (attests t i' c now rng x b hint)
    then show ?thesis using assms(2) tokens_kept(2) [of cfg now rng c x b hint e]
      by (intro same) (auto simp: row_deadlines row_shapes windowed_row_def touched_def owned_def)
  next
    case (releases t i' c now s)
    then show ?thesis using assms(2) tokens_kept(4) [of cfg now s e]
      by (intro same) (auto simp: row_deadlines row_shapes windowed_row_def touched_def owned_def)
  qed (use assms(2) in \<open>simp_all add: windowed_row_def touched_def clear_marker_def owned_def\<close>)
qed

definition created_row :: "datetime \<Rightarrow> uuid \<Rightarrow> datetime \<Rightarrow> db \<Rightarrow> outbox_event \<Rightarrow> bool" where
  "created_row created i bound d e = (oe_created_at e = created \<and> windowed_row i bound d e)"

lemma created_row_moves:
  "moves cfg d nx a e e' \<Longrightarrow> created_row created i bound d e \<Longrightarrow> \<not> moves_window i created bound a \<Longrightarrow>
    created_row created i bound d e'"
  unfolding created_row_def using moves_identity windowed_moves by metis

lemma created_row_registry:
  "registry_follows d ox d' \<Longrightarrow> e \<in> set (outbox_events ox) \<Longrightarrow> created_row created i bound d e \<Longrightarrow>
    created_row created i bound d' e"
  by (simp add: created_row_def windowed_row_def)

lemma windowed_begin:
  assumes "of_event i (created_row created i bound) (d, ox)" "outbox_ok cfg (d, ox)"
    and "begin_event_execution cfg now d ox t i c = (ox', Some x)"
  shows "now < bound"
proof -
  obtain e where locked: "locked_claimed_row ox t i c = Some e"
    using assms(3) by (auto simp: begin_event_execution_def split: sum.splits option.splits)
  then have e: "e \<in> set (outbox_events ox)" "owned t i c e"
    using assms(2) by (simp_all add: locked_claimed_row_iff outbox_ok_def)
  with assms(1) obtain deadline where dl: "retry_deadline (oe_last_error e) = Some deadline" "deadline \<le> bound" "2 \<le> oe_attempts e"
    by (auto simp: of_event_def created_row_def windowed_row_def owned_def split: option.splits)
  then have "now < deadline"
    using assms(3) locked by (auto simp: begin_event_execution_def split: sum.splits if_splits)
  with dl(2) show ?thesis by simp
qed

text \<open>The state just after an ambiguous outcome was released for a retry.\<close>

lemma ambiguous_retry_windowed:
  assumes "outbox_ok cfg (d, ox)" "locked_claimed_row ox t i c = Some e"
    and "am_retry_within am = Some w" "\<not> am_at_least_once am"
    and "record_ambiguous_outcome cfg now rng ox t i c am = Inr (ox', Some OUTBOX_PENDING)"
  shows "of_event i (created_row (oe_created_at e) i (oe_created_at e + w)) (d, ox') \<and> outbox_ok cfg (d, ox')"
proof -
  have ids: "ids_ok ox" using outbox_ok_ids [OF assms(1)] by simp
  then have e: "e \<in> set (outbox_events ox)" "owned t i c e"
    using assms(2) by (simp_all add: locked_claimed_row_iff ids_ok_def)
  have claimed: "1 \<le> oe_attempts e" "oe_id e < outbox_next_uuid ox"
    using assms(1) e by (auto simp: outbox_ok_def list_all_iff event_ok_def owned_def)
  have no: "\<not> window_overflows c am e" and ox': "ox' = write_event now i (ambiguous_row cfg now rng c am) ox"
      and st: "oe_status (ambiguous_row cfg now rng c am e) = OUTBOX_PENDING"
    using assms(2,5) by (auto simp: record_ambiguous_outcome_def on_claimed_def split: if_splits)
  then have row: "ambiguous_row cfg now rng c am e = retried (now + retry_delay (oe_attempts e) cfg rng)
      (e\<lparr>oe_last_error := Some (with_tag (outcome_unknown am (codes ''retried with the same idempotency key''))
        (Some (deadline_tag (oe_created_at e + w))))\<rparr>)" "\<not> marked_by e (Some c)"
    using assms(3,4) st by (auto simp: ambiguous_row_def Let_def dead_letter_def split: if_splits)
  have "retry_deadline (oe_last_error (ambiguous_row cfg now rng c am e)) = Some (truncate_to_second (oe_created_at e + w))"
    unfolding row(1) row_deadlines
    using no row(2) assms(3,4) by (simp add: deadline_read_back window_overflows_def)
  then have good: "created_row (oe_created_at e) i (oe_created_at e + w) d (touched now (ambiguous_row cfg now rng c am e))"
    unfolding created_row_def windowed_row_def row_deadlines
    using e(2) claimed(1) by (simp add: truncate_le touched_def row(1) retried_def clear_marker_def owned_def)
  have only: "x = e" if "x \<in> set (outbox_events ox)" "oe_id x = i" for x
    using that e ids by (metis distinct_map ids_ok_def inj_onD owned_def)
  have "created_row (oe_created_at e) i (oe_created_at e + w) d x" if x: "x \<in> set (outbox_events ox')" "oe_id x = i" for x
  proof -
    obtain y where y: "y \<in> set (outbox_events ox)"
      "x = (if oe_id y = i then touched now (ambiguous_row cfg now rng c am y) else y)"
      using x(1) unfolding ox' write_event_events by auto
    then have "y = e" using only x(2) by (cases "oe_id y = i") auto
    with good y(2) e(2) show ?thesis by (simp add: owned_def)
  qed
  moreover have "i < outbox_next_uuid ox'" using claimed(2) e(2) by (simp add: ox' write_event_events owned_def)
  moreover have "outbox_ok cfg (d, ox')"
    using outbox_ok_act [OF assms(1), of "Ambiguous now rng t i c am"] assms(5) by (simp add: act_def result_or_def)
  ultimately show ?thesis by (simp add: of_event_def)
qed

subsection \<open>What a claim cycle returns\<close>

definition claimed_from :: "outbox_event list \<Rightarrow> claimed_event \<Rightarrow> bool" where
  "claimed_from rows k = (\<exists>e \<in> set rows. ce_id k = oe_id e \<and> ce_tenant_id k = oe_tenant_id e \<and>
     ce_attempts k = oe_attempts e + 1)"

lemma claim_row_attempts:
  "snd (claim_row cfg now c e) \<Longrightarrow> oe_attempts (fst (claim_row cfg now c e)) = oe_attempts e + 1 \<and>
    oe_attempts e < oc_max_attempts cfg"
  by (auto simp: claim_row_def Let_def record_error_def split: if_splits)

lemma claim_rows_claimed:
  "length (snd (claim_rows cfg now rows ox)) \<le> length rows \<and>
   list_all (claimed_from rows) (snd (claim_rows cfg now rows ox)) \<and>
   list_all (\<lambda>k. ce_attempts k \<le> oc_max_attempts cfg) (snd (claim_rows cfg now rows ox))"
proof (induction rows arbitrary: ox)
  case (Cons e rows)
  obtain e' claimed where row: "claim_row cfg now (outbox_next_uuid ox) e = (e', claimed)" by fastforce
  define ox1 where "ox1 = (write_event now (oe_id e) (\<lambda>_. e') ox)\<lparr>outbox_next_uuid :=
    (if claimed then Suc (outbox_next_uuid ox) else outbox_next_uuid ox)\<rparr>"
  have res: "snd (claim_rows cfg now (e # rows) ox) =
      (if claimed then [claimed_of e' (outbox_next_uuid ox)] else []) @ snd (claim_rows cfg now rows ox1)"
    by (simp add: Let_def row ox1_def case_prod_beta)
  have row_facts: "claimed \<longrightarrow> oe_id e' = oe_id e \<and> oe_tenant_id e' = oe_tenant_id e \<and>
      oe_attempts e' = oe_attempts e + 1 \<and> oe_attempts e < oc_max_attempts cfg"
    using claim_row_identity [of cfg now "outbox_next_uuid ox" e] claim_row_attempts [of cfg now "outbox_next_uuid ox" e] row
    by simp
  show ?case
    unfolding res using Cons.IH [of ox1] row_facts
    by (auto simp: list_all_iff claimed_from_def claimed_of_def)
qed simp

lemma claim_row_owned:
  "snd (claim_row cfg now c e) \<Longrightarrow> oe_status e = OUTBOX_PENDING \<Longrightarrow>
    owned (oe_tenant_id e) (oe_id e) c (touched now' (fst (claim_row cfg now c e)))"
  by (auto simp: owned_def touched_def claim_row_def Let_def record_error_def split: if_splits)

lemma claim_rows_owned:
  assumes "distinct (map oe_id (outbox_events ox))" "set rows \<subseteq> set (outbox_events ox)" "distinct (map oe_id rows)"
    and "\<And>e. e \<in> set rows \<Longrightarrow> oe_status e = OUTBOX_PENDING"
    and "k \<in> set (snd (claim_rows cfg now rows ox))"
  shows "\<exists>e' \<in> set (outbox_events (fst (claim_rows cfg now rows ox))).
    owned (ce_tenant_id k) (ce_id k) (ce_claim_token k) e'"
  using assms
proof (induction rows arbitrary: ox)
  case (Cons e rows)
  obtain e' claimed where row: "claim_row cfg now (outbox_next_uuid ox) e = (e', claimed)" by fastforce
  define ox1 where "ox1 = (write_event now (oe_id e) (\<lambda>_. e') ox)\<lparr>outbox_next_uuid :=
    (if claimed then Suc (outbox_next_uuid ox) else outbox_next_uuid ox)\<rparr>"
  have run: "fst (claim_rows cfg now (e # rows) ox) = fst (claim_rows cfg now rows ox1)"
    "snd (claim_rows cfg now (e # rows) ox) =
      (if claimed then [claimed_of e' (outbox_next_uuid ox)] else []) @ snd (claim_rows cfg now rows ox1)"
    by (simp_all add: Let_def row ox1_def case_prod_beta)
  have ident: "oe_id e' = oe_id e" "oe_tenant_id e' = oe_tenant_id e"
    using claim_row_identity [of cfg now "outbox_next_uuid ox" e] row by simp_all
  have events: "outbox_events ox1 = map (\<lambda>x. if oe_id x = oe_id e then touched now e' else x) (outbox_events ox)"
    by (simp add: ox1_def write_event_events)
  have ids: "map oe_id (outbox_events ox1) = map oe_id (outbox_events ox)" by (auto simp: events touched_def ident)
  have sub: "set rows \<subseteq> set (outbox_events ox1)"
  proof
    fix x assume x: "x \<in> set rows"
    then have "x \<in> set (outbox_events ox)" "oe_id x \<noteq> oe_id e" using Cons.prems(2,3) by (auto simp: image_iff)
    then show "x \<in> set (outbox_events ox1)" by (auto simp: events intro!: image_eqI [of x _ x])
  qed
  show ?case
  proof (cases "k \<in> set (snd (claim_rows cfg now rows ox1))")
    case True
    with Cons.IH [of ox1] Cons.prems(1-4) ids sub show ?thesis unfolding run(1) by simp
  next
    case False
    with Cons.prems(5) run(2) have k: "claimed" "k = claimed_of e' (outbox_next_uuid ox)" by (auto split: if_splits)
    have "touched now e' \<in> set (outbox_events ox1)"
      using Cons.prems(2) by (auto simp: events intro!: image_eqI [of _ _ e])
    moreover have "oe_id (touched now e') \<notin> oe_id ` set rows"
      using Cons.prems(3) by (simp add: touched_def ident)
    ultimately have "touched now e' \<in> set (outbox_events (fst (claim_rows cfg now rows ox1)))"
      using claim_rows_claims [of ox1 rows cfg now] Cons.prems ids sub by auto
    moreover have "owned (ce_tenant_id k) (ce_id k) (ce_claim_token k) (touched now e')"
      using claim_row_owned [of cfg now "outbox_next_uuid ox" e now] row k Cons.prems(4) by (simp add: claimed_of_def ident)
    ultimately show ?thesis unfolding run(1) by blast
  qed
qed simp

lemma claims_rows_keeps:
  assumes "claims_rows cfg now R ox ox'" "x \<in> set (outbox_events ox)" "x \<notin> R"
  shows "x \<in> set (outbox_events ox')"
proof -
  obtain g where "outbox_events ox' = map g (outbox_events ox)" "g x = x"
    using assms unfolding claims_rows_def by blast
  then show ?thesis using assms(2) by (metis image_eqI list.set_map)
qed

definition sound_claim :: "outbox_dispatch_config \<Rightarrow> datetime \<Rightarrow> uuid list \<Rightarrow> uuid set \<Rightarrow> outbox \<Rightarrow> claimed_event \<Rightarrow> bool" where
  "sound_claim cfg now locked T ox k = (\<exists>e \<in> set (outbox_events ox). ce_id k = oe_id e \<and> ce_tenant_id k = oe_tenant_id e \<and>
     claimable now T e \<and> oe_id e \<notin> set locked \<and> ce_attempts k = oe_attempts e + 1 \<and> ce_attempts k \<le> oc_max_attempts cfg)"

lemma claim_one_tenant:
  assumes "distinct (map oe_id (outbox_events ox))" "claim_rows cfg now (take n (due_rows now locked t ox)) ox = (ox1, new)"
  shows "\<exists>R. claims_rows cfg now R ox ox1 \<and> (\<forall>e \<in> R. oe_tenant_id e = t)"
    and "distinct (map oe_id (outbox_events ox1))" and "length new \<le> n"
    and "k \<in> set new \<Longrightarrow> ce_tenant_id k = t \<and> sound_claim cfg now locked {t} ox k \<and>
      (\<exists>e' \<in> set (outbox_events ox1). owned (ce_tenant_id k) (ce_id k) (ce_claim_token k) e')"
proof -
  define rows where "rows = take n (due_rows now locked t ox)"
  have rows: "set rows \<subseteq> {e \<in> set (outbox_events ox). claimable now {t} e \<and> oe_id e \<notin> set locked}"
    unfolding rows_def by (auto simp: claimable_def due_rows_sound dest!: in_set_takeD)
  have ids: "distinct (map oe_id rows)" unfolding rows_def by (rule distinct_due_rows [OF assms(1)])
  have run: "claim_rows cfg now rows ox = (ox1, new)" using assms(2) by (simp add: rows_def)
  have "claims_rows cfg now (set rows) ox ox1" "distinct (map oe_id (outbox_events ox1))"
    using claim_rows_claims [of ox rows cfg now] rows ids assms(1) run by auto
  then show "\<exists>R. claims_rows cfg now R ox ox1 \<and> (\<forall>e \<in> R. oe_tenant_id e = t)"
      "distinct (map oe_id (outbox_events ox1))"
    using rows by (auto simp: claimable_def)
  have new: "length new \<le> length rows" "list_all (claimed_from rows) new"
      "list_all (\<lambda>k. ce_attempts k \<le> oc_max_attempts cfg) new"
    using claim_rows_claimed [of cfg now rows ox] run by simp_all
  then show "length new \<le> n" by (simp add: rows_def)
  assume k: "k \<in> set new"
  obtain e where e: "e \<in> set rows" "ce_id k = oe_id e" "ce_tenant_id k = oe_tenant_id e" "ce_attempts k = oe_attempts e + 1"
      "ce_attempts k \<le> oc_max_attempts cfg"
    using new(2,3) k unfolding list_all_iff claimed_from_def by metis
  have "\<exists>e' \<in> set (outbox_events ox1). owned (ce_tenant_id k) (ce_id k) (ce_claim_token k) e'"
    using claim_rows_owned [of ox rows k cfg now] rows ids assms(1) run k by (auto simp: claimable_def)
  moreover have "ce_tenant_id k = t \<and> sound_claim cfg now locked {t} ox k"
    using rows e by (auto simp: sound_claim_def claimable_def)
  ultimately show "ce_tenant_id k = t \<and> sound_claim cfg now locked {t} ox k \<and>
      (\<exists>e' \<in> set (outbox_events ox1). owned (ce_tenant_id k) (ce_id k) (ce_claim_token k) e')" by blast
qed

lemma sound_claim_mono: "sound_claim cfg now locked T ox k \<Longrightarrow> T \<subseteq> T' \<Longrightarrow> sound_claim cfg now locked T' ox k"
  by (auto simp: sound_claim_def claimable_def)

lemma sound_claim_earlier:
  assumes "claims_rows cfg now R ox ox1" "\<forall>e \<in> R. oe_tenant_id e = t" "sound_claim cfg now locked T ox1 k" "t \<notin> T"
  shows "sound_claim cfg now locked T ox k \<and> ce_tenant_id k \<noteq> t"
proof -
  obtain e where e: "e \<in> set (outbox_events ox1)" "ce_id k = oe_id e" "ce_tenant_id k = oe_tenant_id e"
      "claimable now T e" "oe_id e \<notin> set locked" "ce_attempts k = oe_attempts e + 1" "ce_attempts k \<le> oc_max_attempts cfg"
    using assms(3) by (auto simp: sound_claim_def)
  then have other: "oe_tenant_id e \<noteq> t" using assms(4) by (auto simp: claimable_def)
  then have "e \<in> set (outbox_events ox)" using claims_rows_tenant [OF assms(1) _ e(1)] assms(2) by blast
  with e other show ?thesis by (auto simp: sound_claim_def)
qed

lemma filter_two_parts:
  assumes "\<And>k. k \<in> set xs \<Longrightarrow> f k = t" "\<And>k. k \<in> set ys \<Longrightarrow> f k \<noteq> t" "length xs \<le> n"
    and "length (filter (\<lambda>k. f k = u) ys) \<le> n"
  shows "length (filter (\<lambda>k. f k = u) (xs @ ys)) \<le> n"
proof (cases "u = t")
  case True
  then have "filter (\<lambda>k. f k = u) ys = []" using assms(2) by (auto simp: filter_empty_conv)
  then show ?thesis using le_trans [OF length_filter_le assms(3)] by simp
next
  case False
  then have "filter (\<lambda>k. f k = u) xs = []" using assms(1) by (auto simp: filter_empty_conv)
  then show ?thesis using assms(4) by simp
qed

lemma claim_tenants_sound:
  assumes "distinct (map oe_id (outbox_events ox))" "distinct ts" "length claimed \<le> oc_batch_size cfg"
    and "claim_tenants cfg now locked ts claimed ox = (ox', ks)"
  shows "length ks \<le> oc_batch_size cfg \<and> (\<exists>new. ks = claimed @ new \<and>
    (\<forall>k \<in> set new. sound_claim cfg now locked (set ts) ox k \<and>
      (\<exists>e' \<in> set (outbox_events ox'). owned (ce_tenant_id k) (ce_id k) (ce_claim_token k) e')) \<and>
    (\<forall>t. length (filter (\<lambda>k. ce_tenant_id k = t) new) \<le> oc_per_tenant_limit cfg))"
  using assms
proof (induction ts arbitrary: ox claimed)
  case (Cons t ts)
  show ?case
  proof (cases "oc_batch_size cfg \<le> length claimed")
    case False
    let ?n = "min (oc_per_tenant_limit cfg) (oc_batch_size cfg - length claimed)"
    obtain ox1 new where run: "claim_rows cfg now (take ?n (due_rows now locked t ox)) ox = (ox1, new)" by fastforce
    note one = claim_one_tenant [OF Cons.prems(1) run]
    obtain R where R: "claims_rows cfg now R ox ox1" "\<forall>e \<in> R. oe_tenant_id e = t" using one(1) by blast
    have len: "length (claimed @ new) \<le> oc_batch_size cfg" "length new \<le> oc_per_tenant_limit cfg"
      using one(3) False by auto
    have tail: "claim_tenants cfg now locked ts (claimed @ new) ox1 = (ox', ks)"
      using Cons.prems(4) False run by (simp add: Let_def)
    from Cons.IH [OF one(2) _ len(1) tail] Cons.prems(2) obtain rest where rest: "length ks \<le> oc_batch_size cfg"
      "ks = (claimed @ new) @ rest" "\<And>k. k \<in> set rest \<Longrightarrow> sound_claim cfg now locked (set ts) ox1 k \<and>
        (\<exists>e' \<in> set (outbox_events ox'). owned (ce_tenant_id k) (ce_id k) (ce_claim_token k) e')"
      "\<And>u. length (filter (\<lambda>k. ce_tenant_id k = u) rest) \<le> oc_per_tenant_limit cfg" by auto
    obtain S where S: "S \<subseteq> {e \<in> set (outbox_events ox1). claimable now (set ts) e}" "claims_rows cfg now S ox1 ox'"
      using claim_tenants_claims [OF one(2), where ts = ts and now = now and cfg = cfg and locked = locked and claimed = "claimed @ new"]
        Cons.prems(2) tail by auto
    have old: "sound_claim cfg now locked (set ts) ox k \<and> ce_tenant_id k \<noteq> t" if "k \<in> set rest" for k
      using sound_claim_earlier [OF R] rest(3) [OF that] Cons.prems(2) by auto
    have kept: "\<exists>e' \<in> set (outbox_events ox'). owned (ce_tenant_id k) (ce_id k) (ce_claim_token k) e'" if k: "k \<in> set new" for k
    proof -
      obtain e' where e': "e' \<in> set (outbox_events ox1)" "owned (ce_tenant_id k) (ce_id k) (ce_claim_token k) e'"
        using one(4) [OF k] by blast
      then have "e' \<notin> S" using one(4) [OF k] S(1) Cons.prems(2) by (auto simp: owned_def claimable_def)
      with claims_rows_keeps [OF S(2) e'(1)] e'(2) show ?thesis by blast
    qed
    have "length (filter (\<lambda>k. ce_tenant_id k = u) (new @ rest)) \<le> oc_per_tenant_limit cfg" for u
      by (rule filter_two_parts [of _ _ t]) (use one(4) old len(2) rest(4) in auto)
    moreover have "sound_claim cfg now locked (set (t # ts)) ox k" if "k \<in> set (new @ rest)" for k
      using that one(4) [of k] old [of k] by (auto intro: sound_claim_mono)
    ultimately show ?thesis using rest(1-3) kept by (intro conjI exI [of _ "new @ rest"]) auto
  qed (use Cons.prems in auto)
qed simp

subsection \<open>Delays\<close>

lemma timedelta_mono: "x \<le> y \<Longrightarrow> timedelta_seconds x \<le> timedelta_seconds y"
proof -
  assume "x \<le> y"
  define a b where "a = x * 1000000" and "b = y * 1000000"
  then have ab: "a \<le> b" using \<open>x \<le> y\<close> by simp
  then have fl: "\<lfloor>a\<rfloor> \<le> \<lfloor>b\<rfloor>" by (rule floor_mono)
  show ?thesis
  proof (cases "\<lfloor>a\<rfloor> = \<lfloor>b\<rfloor>")
    case True
    then show ?thesis using ab unfolding timedelta_seconds_def Let_def a_def [symmetric] b_def [symmetric] by auto
  next
    case False
    with fl show ?thesis unfolding timedelta_seconds_def Let_def a_def [symmetric] b_def [symmetric] by auto
  qed
qed

lemma base_delay_bounds:
  assumes "outbox_config_ok cfg" "0 \<le> rng" "rng < 1"
  shows "timedelta_seconds (oc_retry_base_seconds cfg) \<le> retry_delay attempts cfg rng"
    and "retry_delay attempts cfg rng \<le> timedelta_seconds (2 * oc_retry_max_seconds cfg)"
proof -
  define b m r where "b = oc_retry_base_seconds cfg" and "m = oc_retry_max_seconds cfg" and "r = oc_retry_jitter_ratio cfg"
  have cfg: "0 < b" "b \<le> m" "0 \<le> r" "r \<le> 1" using assms(1) by (simp_all add: outbox_config_ok_def b_def m_def r_def)
  define x where "x = min (b * 2 ^ (attempts - 1)) m"
  have "b * 1 \<le> b * 2 ^ (attempts - 1)" by (rule mult_left_mono) (use cfg(1) in auto)
  with cfg have x: "b \<le> x" "x \<le> m" "0 \<le> x" by (auto simp: x_def)
  have "0 \<le> r * rng" "r * rng \<le> 1 * 1" using cfg assms by (simp, intro mult_mono) auto
  then have "0 \<le> x * (r * rng)" "x * (r * rng) \<le> x * 1" using x by (simp, intro mult_left_mono) auto
  then have j: "0 \<le> x * r * rng" "x * r * rng \<le> x" by (simp_all add: mult.assoc)
  have delay: "retry_delay attempts cfg rng = timedelta_seconds (x + x * r * rng)"
    by (simp add: retry_delay_def Let_def x_def b_def m_def r_def)
  show "timedelta_seconds (oc_retry_base_seconds cfg) \<le> retry_delay attempts cfg rng"
    unfolding delay b_def [symmetric] using x(1) j(1) by (intro timedelta_mono) linarith
  show "retry_delay attempts cfg rng \<le> timedelta_seconds (2 * oc_retry_max_seconds cfg)"
    unfolding delay m_def [symmetric] using x(2) j(2) by (intro timedelta_mono) linarith
qed

lemma hint_delay_bounds:
  assumes "outbox_config_ok cfg"
  shows "0 \<le> retry_hint_delay hint cfg" "retry_hint_delay hint cfg \<le> timedelta_seconds (oc_retry_hint_max_seconds cfg)"
proof -
  have zero: "timedelta_seconds 0 = 0" by (simp add: timedelta_seconds_def)
  have "0 < oc_retry_hint_max_seconds cfg" using assms by (simp add: outbox_config_ok_def)
  then have pos: "0 \<le> timedelta_seconds (min s (oc_retry_hint_max_seconds cfg))" if "0 \<le> s" for s
    using timedelta_mono [of 0 "min s (oc_retry_hint_max_seconds cfg)"] zero that by simp
  then show "0 \<le> retry_hint_delay hint cfg"
    using pos [of "oc_retry_hint_max_seconds cfg"] \<open>0 < _\<close>
    by (cases hint) (auto simp: retry_hint_delay_def)
  show "retry_hint_delay hint cfg \<le> timedelta_seconds (oc_retry_hint_max_seconds cfg)"
    using pos [of "oc_retry_hint_max_seconds cfg"] \<open>0 < _\<close>
    by (cases hint) (auto simp: retry_hint_delay_def intro: timedelta_mono)
qed

subsection \<open>Properties\<close>

text \<open>C29: the outbox stays well formed whatever its transactions and their order. After any
  sequence of actions event identifiers are unique; a claim is held on a pending event only,
  under a token issued before, with at least one attempt counted; the two columns of a started
  marker are set together; a published event has its time and no marker; the attempts
  counted never exceed the configured maximum; and the stored error fits its column.\<close>

theorem outbox_history_well_formed:
  assumes "outbox_ok cfg s"
  shows "outbox_ok cfg (act_all cfg actions s)"
  using assms by (rule outbox_ok_act_all)

text \<open>C27: a claim that was lost is lost for good. Once an event no longer carries a claim
  token, no later transaction that names the token finds the event, whatever happened in
  between: the worker that lost its claim can never publish, fail, release or mark the event.\<close>

theorem lost_claim_stays_lost:
  assumes "outbox_ok cfg s" "i < outbox_next_uuid (snd s)" "lost_claim i c s"
  shows "(let s' = act_all cfg actions s in
    (\<forall>now t. complete_event now (snd s') t i c = (snd s', False)) \<and>
    (\<forall>now rng t e terminal hint. fail_event cfg now rng (snd s') t i c e terminal hint = (snd s', None)) \<and>
    (\<forall>now t e. release_claim cfg now (snd s') t i c e = (snd s', False)) \<and>
    (\<forall>now t. begin_event_execution cfg now (fst s') (snd s') t i c = (snd s', None)) \<and>
    \<not> (\<exists>now t ox'. mark_external_effect_started cfg now (snd s') t i c = Inr (ox', True)))"
proof -
  have "outbox_ok cfg (act_all cfg actions s)" using assms(1) by (rule outbox_ok_act_all)
  note dead = lost_claim_powerless [OF this lost_claim_act_all [OF assms(1,3,2)]]
  show ?thesis
    unfolding Let_def complete_event_def fail_event_def release_claim_def begin_event_execution_def on_claimed_def dead(1)
    using dead(2) by (auto split: sum.splits)
qed

text \<open>C26: an external request that may have been sent is not repeated by the system itself. Once
  a claim has committed its started marker on an event, no transaction starts another external
  request for the event, under that claim or any other and however often leases expire or
  events are reclaimed, unless one of four things happened: the hand-off of that claim was
  reported failed, its consumer attested that nothing was sent, its consumer declared
  at-least-once delivery, or an operator replayed the event.\<close>

theorem started_request_not_repeated:
  assumes "outbox_ok cfg (d, ox)"
    and "mark_external_effect_started cfg now ox t i c = Inr (ox', True)"
    and "list_all (\<lambda>a. \<not> reopens i c a) actions"
  shows "\<not> (\<exists>now' t' c' ox''.
    mark_external_effect_started cfg now' (snd (act_all cfg actions (d, ox'))) t' i c' = Inr (ox'', True))"
proof -
  have "of_event i (sent_row c) (act_all cfg actions (d, ox'))"
  proof (rule of_event_act_all)
    show "outbox_ok cfg (d, ox')" "of_event i (sent_row c) (d, ox')"
      using marked_event_sent [OF assms(1,2)] by simp_all
    show "sent_row c d e'" if "a \<in> set actions" "moves cfg d nx a e e'" "sent_row c d e" "oe_id e = i"
      "distinct (map tn_id (tenants d))" "event_ok cfg nx e" for a d nx e e'
      using sent_row_moves [OF that(2,3) _ that(5,6)] that(1,4) assms(3) by (auto simp: list_all_iff)
    show "sent_row c d' e" if "registry_follows d ox d'" "e \<in> set (outbox_events ox)" "sent_row c d e" for d ox d' e
      using that by (rule sent_row_registry)
  qed
  then show ?thesis using sent_row_no_mark by blast
qed

text \<open>C28: a retry never starts after its idempotency window. When a consumer reported an
  ambiguous outcome with a window and the event was released for a retry, then whatever other
  failures, expired leases or hand-off problems follow, the event starts running again only
  before its creation time plus the window, as long as no operator replays it or rewrites
  stored errors and no later outcome declares a longer window.\<close>

theorem retry_stays_in_window:
  assumes "outbox_ok cfg (d, ox)" "locked_claimed_row ox t i c = Some e"
    and "am_retry_within am = Some w" "\<not> am_at_least_once am"
    and "record_ambiguous_outcome cfg now rng ox t i c am = Inr (ox', Some OUTBOX_PENDING)"
    and "list_all (\<lambda>a. \<not> moves_window i (oe_created_at e) (oe_created_at e + w) a) actions"
    and "begin_event_execution cfg later (fst (act_all cfg actions (d, ox'))) (snd (act_all cfg actions (d, ox'))) t' i c' =
      (ox'', Some x)"
  shows "later < oe_created_at e + w"
proof -
  note start = ambiguous_retry_windowed [OF assms(1-5)]
  have "of_event i (created_row (oe_created_at e) i (oe_created_at e + w)) (act_all cfg actions (d, ox'))"
  proof (rule of_event_act_all)
    let ?P = "created_row (oe_created_at e) i (oe_created_at e + w)"
    show "outbox_ok cfg (d, ox')" "of_event i ?P (d, ox')" using start by simp_all
    show "?P d y'" if "a \<in> set actions" "moves cfg d nx a y y'" "?P d y" for a d nx y y'
      using created_row_moves [OF that(2,3)] that(1) assms(6) by (auto simp: list_all_iff)
    show "?P d' y" if "registry_follows d ox d'" "y \<in> set (outbox_events ox)" "?P d y" for d ox d' y
      using that by (rule created_row_registry)
  qed
  moreover have "outbox_ok cfg (act_all cfg actions (d, ox'))" using start outbox_ok_act_all by blast
  ultimately show ?thesis
    using assms(7) windowed_begin [of i "oe_created_at e" "oe_created_at e + w" _ _ cfg later t' c' ox'' x]
    by (metis prod.collapse)
qed

text \<open>C31: the deadline stored in an error is read back exactly, to the second, and cannot be
  forged. A tag written for a deadline is read as that deadline truncated to whole seconds,
  whatever text precedes it; and the description of any error, even one quoting such a tag,
  reads as carrying no deadline. Both texts fit the column of 500 characters.\<close>

theorem deadline_tag_round_trip:
  assumes "representable t"
  shows "retry_deadline (Some (with_tag s (Some (deadline_tag t)))) = Some (truncate_to_second t) \<and>
    truncate_to_second t \<le> t \<and> t < truncate_to_second t + MICROSECOND_SECOND \<and>
    retry_deadline (Some (describe_error s)) = None \<and>
    length (with_tag s (Some (deadline_tag t))) \<le> MAX_ERROR_LENGTH \<and> length (describe_error s) \<le> MAX_ERROR_LENGTH"
proof -
  have "t < truncate_to_second t + MICROSECOND_SECOND"
    using div_mult_mod_eq [of t 1000000] pos_mod_bound [of 1000000 t]
    by (simp add: truncate_to_second_def MICROSECOND_SECOND_def)
  then show ?thesis
    using deadline_read_back [OF assms] described_error_has_no_deadline length_with_tag [OF assms]
      length_describe_error truncate_le by simp
qed

text \<open>C30: a claim cycle claims what it should and no more. It returns at most the batch size and
  at most the per-tenant limit of any tenant. Every event it returns was pending, due, not held
  by another transaction and in an open tenant, has one attempt more than before and no more
  than the maximum, and is owned afterwards by the token returned with it.\<close>

theorem claim_cycle_bounds:
  assumes "outbox_ok cfg (d, ox)" "claim_due_events cfg now start locked d ox = (ox', ks)"
  shows "length ks \<le> oc_batch_size cfg \<and>
    (\<forall>t. length (filter (\<lambda>k. ce_tenant_id k = t) ks) \<le> oc_per_tenant_limit cfg) \<and>
    (\<forall>k \<in> set ks. sound_claim cfg now locked (set (list_open_tenant_ids d)) ox k \<and>
      (\<exists>e' \<in> set (outbox_events ox'). owned (ce_tenant_id k) (ce_id k) (ce_claim_token k) e'))"
proof (cases "list_open_tenant_ids d = []")
  case True
  then show ?thesis using assms(2) by (simp add: claim_due_events_def)
next
  case False
  define ids where "ids = list_open_tenant_ids d"
  have "distinct ids" using assms(1) by (simp add: ids_def list_open_tenant_ids_def distinct_map_filter outbox_ok_def)
  then have "distinct (rotate start ids)" "set (rotate start ids) = set ids" by simp_all
  moreover have "claim_tenants cfg now locked (rotate start ids) [] ox = (ox', ks)"
    using False assms(2) by (simp add: claim_due_events_def Let_def ids_def rotate_drop_take)
  moreover have "distinct (map oe_id (outbox_events ox))" using assms(1) by (simp add: outbox_ok_def)
  ultimately show ?thesis
    using claim_tenants_sound [of ox "rotate start ids" "[]" cfg now locked ox' ks] by (auto simp: ids_def)
qed

text \<open>Delays stay within their configured bounds. For every valid configuration, however many
  attempts failed, a retry waits at least the base delay and at most twice the maximum, and a
  consumer's hint, whatever its value, delays it by at most the hint's bound.\<close>

theorem retry_delays_bounded:
  assumes "outbox_config_ok cfg" "0 \<le> rng" "rng < 1"
  shows "timedelta_seconds (oc_retry_base_seconds cfg) \<le> retry_delay attempts cfg rng \<and>
    retry_delay attempts cfg rng \<le> timedelta_seconds (2 * oc_retry_max_seconds cfg) \<and>
    0 \<le> retry_hint_delay hint cfg \<and> retry_hint_delay hint cfg \<le> timedelta_seconds (oc_retry_hint_max_seconds cfg)"
  using base_delay_bounds [OF assms] hint_delay_bounds [OF assms(1)] by blast

subsection \<open>A small outbox\<close>

text \<open>One open tenant with two events: event 1 is claimed under token 3 on its first attempt,
  event 2 is due. The lease is 900 seconds; markers are on.\<close>

definition outbox_config :: outbox_dispatch_config where
  "outbox_config = \<lparr>oc_max_attempts = 10, oc_retry_base_seconds = 30, oc_retry_max_seconds = 3600,
     oc_retry_jitter_ratio = 1 / 10, oc_lease_seconds = 900, oc_enqueue_retry_seconds = 30,
     oc_batch_size = 100, oc_per_tenant_limit = 25, oc_poll_seconds = 10,
     oc_retry_hint_max_seconds = 86400, oc_external_effect_markers = True\<rparr>"

definition mk_event :: "uuid \<Rightarrow> nat \<Rightarrow> uuid option \<Rightarrow> datetime \<Rightarrow> outbox_event" where
  "mk_event i attempts token next_attempt = \<lparr>oe_id = i, oe_tenant_id = 1, oe_event_type = ''webhook.delivery'',
     oe_aggregate_type = ''webhook'', oe_aggregate_id = ''7'', oe_payload = [], oe_correlation_id = None,
     oe_status = OUTBOX_PENDING, oe_attempts = attempts, oe_next_attempt_at = next_attempt, oe_last_error = None,
     oe_published_at = None, oe_claim_token = token, oe_external_started_at = None,
     oe_external_started_claim = None, oe_created_at = 0, oe_updated_at = 0\<rparr>"

definition registry_db :: db where
  "registry_db = empty_db\<lparr>tenants := [\<lparr>tn_id = 1, tn_name = ''t'', tn_status = ACTIVE, tn_parent_id = None,
     tn_inherits_billing = False\<rparr>]\<rparr>"

definition small_outbox :: outbox where
  "small_outbox = \<lparr>outbox_events = [mk_event 1 1 (Some 3) 900000000, mk_event 2 0 None 0],
     outbox_consumptions = [], outbox_next_uuid = 4\<rparr>"

lemma small_outbox_ok: "outbox_ok outbox_config (registry_db, small_outbox)"
  by code_simp

lemma outbox_config_valid: "outbox_config_ok outbox_config"
  by code_simp

definition retry_outcome :: ambiguous_outcome where
  "retry_outcome = \<lparr>am_reason = codes ''read_timeout'', am_phase = codes ''read'', am_retry_within = Some 3600000000,
     am_at_least_once = False\<rparr>"

theorem outbox_history_well_formed_witness:
  "outbox_ok outbox_config (act_all outbox_config [Claim 10 0 [], Fail 20 0 1 1 3 (codes ''x'') False None]
     (registry_db, small_outbox))"
  by (rule outbox_history_well_formed [OF small_outbox_ok])

theorem lost_claim_stays_lost_witness:
  "(let s' = act_all outbox_config [Claim 10 0 []] (registry_db, small_outbox) in
     (\<forall>now t. complete_event now (snd s') t 2 3 = (snd s', False)))"
proof -
  have "lost_claim 2 3 (registry_db, small_outbox)" "2 < outbox_next_uuid (snd (registry_db, small_outbox))"
    by (simp_all add: lost_claim_def small_outbox_def mk_event_def)
  from lost_claim_stays_lost [OF small_outbox_ok this(2,1), of "[Claim 10 0 []]"] show ?thesis
    unfolding Let_def by blast
qed

theorem started_request_not_repeated_witness:
  "\<exists>ox'. mark_external_effect_started outbox_config 10 small_outbox 1 1 3 = Inr (ox', True) \<and>
     \<not> (\<exists>now' t' c' ox''. mark_external_effect_started outbox_config now'
       (snd (act_all outbox_config [Claim 5000000000 0 [], Claim 9000000000 0 []] (registry_db, ox'))) t' 1 c' = Inr (ox'', True))"
proof -
  have "length (filter (\<lambda>e. oe_tenant_id e = 1 \<and> oe_id e = 1 \<and> oe_claim_token e = Some 3 \<and> oe_status e = OUTBOX_PENDING \<and>
      oe_next_attempt_at e > 10 \<and> oe_external_started_claim e \<noteq> Some 3) (outbox_events small_outbox)) = 1"
    by code_simp
  moreover have "oc_external_effect_markers outbox_config" by (simp add: outbox_config_def)
  ultimately obtain ox' where "mark_external_effect_started outbox_config 10 small_outbox 1 1 3 = Inr (ox', True)"
    by (simp add: mark_external_effect_started_def Let_def)
  with started_request_not_repeated [OF small_outbox_ok this, of "[Claim 5000000000 0 [], Claim 9000000000 0 []]"]
  show ?thesis by auto
qed

theorem deadline_tag_round_trip_witness:
  "retry_deadline (Some (with_tag (codes ''x'') (Some (deadline_tag 3600500000)))) = Some 3600000000"
  using deadline_tag_round_trip [of 3600500000 "codes ''x''"]
  by (simp add: representable_def MICROSECOND_SECOND_def truncate_to_second_def)

theorem claim_cycle_bounds_witness:
  "\<exists>ox' ks. claim_due_events outbox_config 10 0 [] registry_db small_outbox = (ox', ks) \<and>
     length ks \<le> oc_batch_size outbox_config"
  using claim_cycle_bounds [OF small_outbox_ok] by (metis prod.exhaust)

theorem retry_stays_in_window_witness:
  "\<exists>ox'. record_ambiguous_outcome outbox_config 10 0 small_outbox 1 1 3 retry_outcome = Inr (ox', Some OUTBOX_PENDING) \<and>
     (\<forall>later t' c' ox'' x. begin_event_execution outbox_config later
       (fst (act_all outbox_config [Claim 60000000 0 []] (registry_db, ox')))
       (snd (act_all outbox_config [Claim 60000000 0 []] (registry_db, ox'))) t' 1 c' = (ox'', Some x) \<longrightarrow> later < 3600000000)"
proof -
  define e where "e = mk_event 1 1 (Some 3) 900000000"
  have row: "locked_claimed_row small_outbox 1 1 3 = Some e"
    by (simp add: locked_claimed_row_def small_outbox_def mk_event_def e_def)
  have "\<not> window_overflows 3 retry_outcome e" "oe_status (ambiguous_row outbox_config 10 0 3 retry_outcome e) = OUTBOX_PENDING"
    "oe_created_at e = 0"
    by (simp_all add: window_overflows_def retry_outcome_def e_def mk_event_def representable_def MICROSECOND_SECOND_def
        ambiguous_row_def marked_by_def Let_def retried_def clear_marker_def outbox_config_def retry_delay_def timedelta_seconds_def)
  then obtain ox' where run: "record_ambiguous_outcome outbox_config 10 0 small_outbox 1 1 3 retry_outcome = Inr (ox', Some OUTBOX_PENDING)"
    using row by (simp add: record_ambiguous_outcome_def on_claimed_def)
  have "am_retry_within retry_outcome = Some 3600000000" "\<not> am_at_least_once retry_outcome"
    by (simp_all add: retry_outcome_def)
  from retry_stays_in_window [OF small_outbox_ok row this run, of "[Claim 60000000 0 []]"] \<open>oe_created_at e = 0\<close> run
  show ?thesis by auto
qed

subsection \<open>Where a request is repeated\<close>

text \<open>A hand-off that is reported failed although the job was queued: the job has already
  marked its request as started when the claim is released. The marker is cleared, the event
  is claimed again, and a second request is started.\<close>

definition released_twice :: "outbox_action list" where
  "released_twice = [Mark 10 1 1 3, Release 20 1 1 3 (codes ''TimeoutError: ''), Claim 90000000 0 [2]]"

theorem released_claim_forgets_started_request:
  "\<exists>ox'. mark_external_effect_started outbox_config 90000001
     (snd (act_all outbox_config released_twice (registry_db, small_outbox))) 1 1 4 = Inr (ox', True)"
proof -
  let ?ox = "snd (act_all outbox_config released_twice (registry_db, small_outbox))"
  have "length (filter (\<lambda>e. oe_tenant_id e = 1 \<and> oe_id e = 1 \<and> oe_claim_token e = Some 4 \<and> oe_status e = OUTBOX_PENDING \<and>
      oe_next_attempt_at e > 90000001 \<and> oe_external_started_claim e \<noteq> Some 4) (outbox_events ?ox)) = 1"
    by code_simp
  moreover have "oc_external_effect_markers outbox_config" by (simp add: outbox_config_def)
  ultimately show ?thesis by (simp add: mark_external_effect_started_def Let_def)
qed

text \<open>Rewriting a stored error drops the deadline that its tag carried.\<close>

theorem rewrite_drops_deadline:
  "retry_deadline (oe_last_error (e\<lparr>oe_last_error := Some (describe_error s)\<rparr>)) = None"
  by (simp add: described_error_has_no_deadline)

end
