(* ===== verification/Outbox_Replay.thy ===== *)
theory Outbox_Replay
  imports Outbox Tenancy Fixture
begin

section \<open>Replay of dead-lettered events by an operator\<close>

text \<open>
  \<open>saas_os/core/outbox/replay.py\<close> and \<open>purge_tenant_outbox_events\<close> of \<open>saas_os/core/outbox/service.py\<close>:
  the platform authority, the bounds and the evidence around the row changes of \<open>Outbox\<close>. A
  selection is by identifiers or by a time; event identifiers are UUIDs by their type.
\<close>

definition OUTBOX_REPLAY :: string where
  "OUTBOX_REPLAY = ''outbox.replay''"

definition MAX_REPLAY_EVENTS :: nat where
  "MAX_REPLAY_EVENTS = 1000"

record outbox_replay_result =
  orr_tenant_id :: uuid
  orr_matched :: nat
  orr_replayed :: nat
  orr_applied :: bool

datatype since_arg = AwareSince datetime | NaiveSince

definition validated_selection :: "uuid list option \<Rightarrow> since_arg option \<Rightarrow> error + replay_selection" where
  "validated_selection event_ids since = (case (event_ids, since) of
     (Some given, None) \<Rightarrow> (let ids = rev (remdups (rev given)) in
       if ids = [] \<or> length ids > MAX_REPLAY_EVENTS then Inl InvalidPlatformRequestError else Inr (EventIds ids))
   | (None, Some (AwareSince t)) \<Rightarrow> Inr (DeadLetteredSince t)
   | _ \<Rightarrow> Inl InvalidPlatformRequestError)"

definition replay_in_transaction ::
  "db \<Rightarrow> outbox \<Rightarrow> datetime \<Rightarrow> caller \<Rightarrow> uuid \<Rightarrow> string \<Rightarrow> replay_selection \<Rightarrow> bool
    \<Rightarrow> error + (db \<times> outbox \<times> outbox_replay_result)" where
  "replay_in_transaction d ox now c tenant_id reason selection apply_it =
     ebind (authorize_platform_caller d c OUTBOX_REPLAY) (\<lambda>spec.
     ebind (case c of UserCaller _ \<Rightarrow> Inr () | _ \<Rightarrow> Inl (CallerTypeError OUTBOX_REPLAY)) (\<lambda>_.
     ebind (lock_open_tenant d tenant_id) (\<lambda>_.
     let matched = length (filter (replayable tenant_id selection) (outbox_events ox)) in
     if matched > MAX_REPLAY_EVENTS then Inl InvalidPlatformRequestError
     else if \<not> apply_it
     then Inr (d, ox, \<lparr>orr_tenant_id = tenant_id, orr_matched = matched, orr_replayed = 0, orr_applied = False\<rparr>)
     else
       ebind (record_in_transaction d c tenant_id ''outbox.replay'' ''tenant'' (Some tenant_id) SUCCESS) (\<lambda>d1.
       ebind (record_platform_event_in_transaction d1 now c (po_audit_action spec) ''tenant'' (Some tenant_id) None
           (Some tenant_id) SUCCESS (Some reason)) (\<lambda>d2.
       Inr (d2, replay_rows now tenant_id selection ox,
         \<lparr>orr_tenant_id = tenant_id, orr_matched = matched, orr_replayed = matched, orr_applied = True\<rparr>))))))"

definition replay_dead_lettered_events ::
  "db \<Rightarrow> outbox \<Rightarrow> datetime \<Rightarrow> uuid \<Rightarrow> caller \<Rightarrow> string \<Rightarrow> uuid list option \<Rightarrow> since_arg option \<Rightarrow> bool
    \<Rightarrow> db \<times> (error + (outbox \<times> outbox_replay_result))" where
  "replay_dead_lettered_events d ox now tenant_id c reason_given event_ids since apply_it =
     (case ebind (validated_selection event_ids since) (\<lambda>selection.
           ebind (validate_reason reason_given) (\<lambda>reason. Inr (selection, reason))) of
        Inl e \<Rightarrow> (d, Inl e)
      | Inr (selection, reason) \<Rightarrow>
          (case refusal_recorded d now c OUTBOX_REPLAY (Some tenant_id)
               (replay_in_transaction d ox now c tenant_id reason selection apply_it) of
             (d', Inl (TenantClosedError t status)) \<Rightarrow>
               record_refusal d' now c OUTBOX_REPLAY (Some tenant_id) ''tenant_closed'' (TenantClosedError t status)
           | (d', Inl (TenantNotFoundError t)) \<Rightarrow>
               record_refusal d' now c OUTBOX_REPLAY (Some tenant_id) ''tenant_not_found'' (TenantNotFoundError t)
           | ended \<Rightarrow> ended))"

definition purge_tenant_outbox_events :: "db \<Rightarrow> outbox \<Rightarrow> uuid \<Rightarrow> error + (outbox \<times> nat)" where
  "purge_tenant_outbox_events d ox tenant_id =
     ebind (require_purging_tenant d tenant_id) (\<lambda>_. Inr (delete_tenant_events ox tenant_id))"

subsection \<open>What a replay does\<close>

lemma replay_ok:
  assumes "replay_dead_lettered_events d ox now t c reason ids since apply_it = (d', Inr (ox', res))"
  obtains selection reason' where "validated_selection ids since = Inr selection"
    "replay_in_transaction d ox now c t reason' selection apply_it = Inr (d', ox', res)"
proof -
  obtain selection reason' where sel: "validated_selection ids since = Inr selection" "validate_reason reason = Inr reason'"
    using assms by (cases "validated_selection ids since"; cases "validate_reason reason")
      (auto simp: replay_dead_lettered_events_def)
  have "refusal_recorded d now c OUTBOX_REPLAY (Some t) (replay_in_transaction d ox now c t reason' selection apply_it) =
      (d', Inr (ox', res))"
    using assms sel by (auto simp: replay_dead_lettered_events_def record_refusal_def
        split: prod.splits sum.splits error.splits tenancy_error.splits)
  then have "replay_in_transaction d ox now c t reason' selection apply_it = Inr (d', ox', res)"
    by (auto simp: refusal_recorded_def recording_platform_refusal_def split: sum.splits option.splits)
  with sel(1) show ?thesis by (rule that)
qed

lemma authorized_person:
  assumes "authorize_platform_caller d (UserCaller u) OUTBOX_REPLAY = Inr spec"
  shows "platform_can d u P_OUTBOX_REPLAY = Inr True"
  using assms by (auto simp: authorize_platform_caller_def OUTBOX_REPLAY_def platform_operation_def
      PLATFORM_OPERATIONS_def operation_row_def require_def split: if_splits)

text \<open>A replay is an authorized, bounded and evidenced act. When it is applied, the caller is a person
  who holds the replay permission on the platform and the tenant is open; at most a thousand events
  were moved, exactly the dead-lettered events of this one tenant that the selection names, each now
  pending, due at once and judged afresh, with its error kept; no other event and no consumption
  record changed; and the tenant's audit trail and the platform's each gained their row.\<close>

theorem replay_is_controlled:
  assumes "replay_dead_lettered_events d ox now t c reason ids since True = (d', Inr (ox', res))"
  shows "\<exists>u selection. c = UserCaller u \<and> platform_can d u P_OUTBOX_REPLAY = Inr True \<and> is_open d t \<and>
    validated_selection ids since = Inr selection \<and>
    outbox_events ox' = map (\<lambda>e. if replayable t selection e then replayed now e else e) (outbox_events ox) \<and>
    outbox_consumptions ox' = outbox_consumptions ox \<and>
    orr_replayed res = length (filter (replayable t selection) (outbox_events ox)) \<and> orr_replayed res \<le> 1000 \<and>
    length (audit_log d') = length (audit_log d) + 1 \<and> length (platform_audit_log d') = length (platform_audit_log d) + 1"
proof -
  obtain selection reason' where sel: "validated_selection ids since = Inr selection"
      and run: "replay_in_transaction d ox now c t reason' selection True = Inr (d', ox', res)"
    using assms by (rule replay_ok)
  obtain spec u tn d1 where auth: "authorize_platform_caller d c OUTBOX_REPLAY = Inr spec" "c = UserCaller u"
      and tn: "lock_open_tenant d t = Inr tn"
      and few: "length (filter (replayable t selection) (outbox_events ox)) \<le> MAX_REPLAY_EVENTS"
      and first: "record_in_transaction d c t ''outbox.replay'' ''tenant'' (Some t) SUCCESS = Inr d1"
      and second: "record_platform_event_in_transaction d1 now c (po_audit_action spec) ''tenant'' (Some t) None (Some t)
        SUCCESS (Some reason') = Inr d'"
      and res: "ox' = replay_rows now t selection ox" "orr_replayed res = length (filter (replayable t selection) (outbox_events ox))"
    using run by (auto simp: replay_in_transaction_def Let_def split: caller.splits if_splits)
  have "length (audit_log d1) = length (audit_log d) + 1" "platform_audit_log d1 = platform_audit_log d"
    using first by (auto simp: record_in_transaction_def split: if_splits)
  moreover have "audit_log d' = audit_log d1" "length (platform_audit_log d') = length (platform_audit_log d1) + 1"
    using second by (auto simp: record_platform_event_in_transaction_def insert_platform_entry_def split: if_splits)
  moreover have "is_open d t" using tn by (simp add: is_open_def is_ok_iff)
  ultimately show ?thesis
    using auth(2) authorized_person [OF auth(1) [unfolded auth(2)]] sel few res
    by (simp add: MAX_REPLAY_EVENTS_def replay_rows_def update_where_def)
qed

end
