(* ===== verification/Oversight.thy ===== *)
theory Oversight
  imports Platform_Authority
begin

section \<open>Operational oversight reads\<close>

text \<open>
  \<open>saas_os/core/platform_authority/oversight.py\<close>: the shared path of a read of the platform's tables
  or of a tenant's rows by an operator, and the pages of operators and grants. The path is two
  transactions: the attempt, authorized and recorded before anything is read, and the read,
  authorized again and recorded before its value leaves. What other transactions commit between
  the two is the argument \<open>between\<close>. Rows keep no identifier or metadata in the model, so the link of
  a completion to its attempt is their order. Statement timeouts do not occur. The read of the audit
  table itself, which needs those columns, is not modelled.
\<close>

definition DEFAULT_OVERSIGHT_PAGE_SIZE :: int where
  "DEFAULT_OVERSIGHT_PAGE_SIZE = 50"

definition MAX_OVERSIGHT_PAGE_SIZE :: int where
  "MAX_OVERSIGHT_PAGE_SIZE = 200"

definition OPERATOR_READ :: string where
  "OPERATOR_READ = ''operator.read''"

subsection \<open>The shared path\<close>

definition oversight_attempt_action :: "string \<Rightarrow> error + string" where
  "oversight_attempt_action operation =
     ebind (platform_operation operation) (\<lambda>spec. Inr (po_audit_action spec @ ''_attempt''))"

definition record_oversight_attempt ::
  "db \<Rightarrow> datetime \<Rightarrow> caller \<Rightarrow> string \<Rightarrow> string \<Rightarrow> uuid option \<Rightarrow> uuid option \<Rightarrow> error + db" where
  "record_oversight_attempt d now c operation target_type target_id target_user_id =
     ebind (oversight_attempt_action operation) (\<lambda>action.
     ebind (user_target_arguments target_type target_id target_user_id) (\<lambda>_.
     ebind (authorize_platform_caller d c operation) (\<lambda>_.
     record_platform_event_in_transaction d now c action target_type target_id target_user_id None SUCCESS None)))"

record 'v oversight_outcome =
  ov_value :: 'v
  ov_returned :: nat
  ov_target_id :: "uuid option"
  ov_target_tenant_id :: "uuid option"
  ov_target_user_id :: "uuid option"

definition require_oversight_caller :: "string \<Rightarrow> caller \<Rightarrow> error + unit" where
  "require_oversight_caller operation c =
     ebind (require_caller operation c ALL_CALLER_TYPES) (\<lambda>_.
     (case c of ServiceAccountCaller _ _ \<Rightarrow> Inl (PlatformNotAuthorizedError operation) | _ \<Rightarrow> Inr ()))"

text \<open>The second transaction.\<close>

definition read_in_transaction ::
  "db \<Rightarrow> datetime \<Rightarrow> caller \<Rightarrow> string \<Rightarrow> string \<Rightarrow> uuid option \<Rightarrow> uuid option \<Rightarrow> (db \<Rightarrow> error + 'v oversight_outcome)
    \<Rightarrow> error + (db \<times> 'v)" where
  "read_in_transaction d now c operation target_type target_id target_user_id read =
     ebind (authorize_platform_caller d c operation) (\<lambda>spec.
     ebind (read d) (\<lambda>outcome.
     let completion_user_id = (if ov_target_user_id outcome \<noteq> None then ov_target_user_id outcome else target_user_id) in
     ebind (record_platform_event_in_transaction d now c (po_audit_action spec) target_type
         (if completion_user_id \<noteq> None then None
          else if ov_target_id outcome = None then target_id else ov_target_id outcome)
         completion_user_id (ov_target_tenant_id outcome) SUCCESS None) (\<lambda>d'.
     Inr (d', ov_value outcome))))"

text \<open>A failure that is not a refusal is recorded, when asked for, and raised.\<close>

definition record_read_failure ::
  "bool \<Rightarrow> db \<Rightarrow> datetime \<Rightarrow> caller \<Rightarrow> string \<Rightarrow> string \<Rightarrow> uuid option \<Rightarrow> uuid option \<Rightarrow> error \<Rightarrow> db" where
  "record_read_failure records_failure d now c action target_type target_id target_user_id e =
     (if refusal_code e = None \<and> records_failure
      then record_platform_outcome FAILURE d now c action target_type target_id target_user_id ''error'' else d)"

definition run_oversight_read ::
  "(db \<Rightarrow> db) \<Rightarrow> db \<Rightarrow> datetime \<Rightarrow> datetime \<Rightarrow> caller \<Rightarrow> string \<Rightarrow> string \<Rightarrow> uuid option \<Rightarrow> uuid option \<Rightarrow> bool
    \<Rightarrow> (db \<Rightarrow> error + 'v oversight_outcome) \<Rightarrow> db \<times> (error + 'v)" where
  "run_oversight_read between d now later c operation target_type target_id target_user_id records_failure read =
     (case ebind (require_oversight_caller operation c) (\<lambda>_. platform_operation operation) of
        Inl e \<Rightarrow> (d, Inl e)
      | Inr spec \<Rightarrow>
          (case recording_platform_refusal d now c operation target_type target_id target_user_id
               (ebind (record_oversight_attempt d now c operation target_type target_id target_user_id) (\<lambda>d'. Inr (d', ()))) of
             (d1, Inl e) \<Rightarrow> (d1, Inl e)
           | (d1, Inr _) \<Rightarrow>
               (let d2 = between d1 in
                case read_in_transaction d2 later c operation target_type target_id target_user_id read of
                  Inr (d3, v) \<Rightarrow> (d3, Inr v)
                | Inl e \<Rightarrow> recording_platform_refusal
                    (record_read_failure records_failure d2 later c (po_audit_action spec) target_type target_id target_user_id e)
                    later c operation target_type target_id target_user_id (Inl e :: error + (db \<times> 'v)))))"

text \<open>A read of one tenant's own rows.\<close>

definition run_tenant_oversight_read ::
  "(db \<Rightarrow> db) \<Rightarrow> db \<Rightarrow> datetime \<Rightarrow> datetime \<Rightarrow> caller \<Rightarrow> string \<Rightarrow> uuid \<Rightarrow> string
    \<Rightarrow> (db \<Rightarrow> error + 'v oversight_outcome) \<Rightarrow> db \<times> (error + 'v)" where
  "run_tenant_oversight_read between d now later c operation tenant_id target_type read =
     run_oversight_read between d now later c operation target_type (Some tenant_id) None True
       (\<lambda>d. ebind (read d) (\<lambda>outcome. Inr \<lparr>ov_value = ov_value outcome, ov_returned = ov_returned outcome,
          ov_target_id = Some tenant_id, ov_target_tenant_id = Some tenant_id, ov_target_user_id = None\<rparr>))"

subsection \<open>Pages by keyset\<close>

text \<open>\<open>validate_page_request\<close>: rejected, never clamped. A cursor is an identifier by its type.\<close>

definition validate_page_request :: "int \<Rightarrow> int \<Rightarrow> error + unit" where
  "validate_page_request limit maximum = require (1 \<le> limit \<and> limit \<le> maximum) InvalidPlatformRequestError"

definition keyset_page :: "('r \<Rightarrow> 'k :: linorder) \<Rightarrow> 'k option \<Rightarrow> nat \<Rightarrow> 'r list \<Rightarrow> 'r list \<times> 'k option" where
  "keyset_page key cursor limit rows =
     (let page = take limit (sort_key key (filter (\<lambda>r. case cursor of None \<Rightarrow> True | Some c \<Rightarrow> key r > c) rows)) in
      (page, if length page = limit then Some (key (last page)) else None))"

definition list_platform_operators ::
  "(db \<Rightarrow> db) \<Rightarrow> db \<Rightarrow> datetime \<Rightarrow> datetime \<Rightarrow> caller \<Rightarrow> uuid option \<Rightarrow> int
    \<Rightarrow> db \<times> (error + (platform_operator list \<times> uuid option))" where
  "list_platform_operators between d now later c cursor limit =
     (case ebind (require_oversight_caller OPERATOR_READ c) (\<lambda>_. validate_page_request limit MAX_OVERSIGHT_PAGE_SIZE) of
        Inl e \<Rightarrow> (d, Inl e)
      | Inr _ \<Rightarrow> run_oversight_read between d now later c OPERATOR_READ ''platform_operator'' None None False
          (\<lambda>d. let page = keyset_page op_id cursor (nat limit) (platform_operators d) in
             Inr \<lparr>ov_value = page, ov_returned = length (fst page), ov_target_id = None, ov_target_tenant_id = None,
               ov_target_user_id = None\<rparr>))"

definition list_platform_grants ::
  "(db \<Rightarrow> db) \<Rightarrow> db \<Rightarrow> datetime \<Rightarrow> datetime \<Rightarrow> caller \<Rightarrow> uuid option \<Rightarrow> uuid option \<Rightarrow> int
    \<Rightarrow> db \<times> (error + (platform_grant list \<times> uuid option))" where
  "list_platform_grants between d now later c operator_id cursor limit =
     (case ebind (require_oversight_caller OPERATOR_READ c) (\<lambda>_. validate_page_request limit MAX_OVERSIGHT_PAGE_SIZE) of
        Inl e \<Rightarrow> (d, Inl e)
      | Inr _ \<Rightarrow> run_oversight_read between d now later c OPERATOR_READ ''platform_grant'' operator_id None False
          (\<lambda>d. let page = keyset_page pg_id cursor (nat limit)
                 (filter (\<lambda>g. case operator_id of None \<Rightarrow> True | Some i \<Rightarrow> pg_operator_id g = i) (platform_grants d)) in
             Inr \<lparr>ov_value = page, ov_returned = length (fst page), ov_target_id = None, ov_target_tenant_id = None,
               ov_target_user_id = None\<rparr>))"

subsection \<open>Evidence comes before disclosure\<close>

lemma recorded_row:
  assumes "record_platform_event_in_transaction d now c action ty i u t outcome reason = Inr d'"
  shows "\<exists>e. platform_audit_log d' = platform_audit_log d @ [e] \<and> pl_action e = action \<and> pl_outcome e = outcome \<and>
    (pl_actor_type e, pl_actor_user_id e, pl_system_authority e) = platform_actor c"
proof -
  obtain d1 row_type row_id e where "case u of None \<Rightarrow> d1 = d | Some v \<Rightarrow> user_audit_target d now v = Inr (d1, row_type, row_id)"
      and e: "platform_entry c action row_type row_id t outcome reason = Inr e" "insert_platform_entry d1 e = Inr d'"
    using assms by (auto simp: record_platform_event_in_transaction_def split: option.splits)
  then have "platform_audit_log d1 = platform_audit_log d"
    by (auto dest: user_audit_target_frame same_but_linksD(5) split: option.splits)
  moreover have "pl_action e = action \<and> pl_outcome e = outcome \<and>
      (pl_actor_type e, pl_actor_user_id e, pl_system_authority e) = platform_actor c"
    using e(1) by (auto simp: platform_entry_def split: if_splits prod.splits)
  ultimately show ?thesis using insert_platform_entry_ok [OF e(2)] by simp
qed

lemma attempt_ok:
  assumes "recording_platform_refusal d now c operation ty i u
      (ebind (record_oversight_attempt d now c operation ty i u) (\<lambda>d'. Inr (d', ()))) = (d1, Inr ())"
  shows "record_oversight_attempt d now c operation ty i u = Inr d1"
  using assms by (auto simp: recording_platform_refusal_def split: sum.splits option.splits)

text \<open>C40: an operator sees nothing without leaving evidence first. When an oversight read returns a
  value, the caller was authorized for it in the attempt transaction and again in the one that
  read, whatever was committed between them; the value is what the read found in that second
  state; and the platform audit table gained an attempt row under the caller's name before the
  read and the completion row after it, both successful and under the operation's action.\<close>

theorem oversight_read_is_evidenced:
  assumes "run_oversight_read between d now later c operation ty i u records read = (d', Inr v)"
  shows "\<exists>spec d1 outcome attempt completion.
    authorize_platform_caller d c operation = Inr spec \<and>
    platform_audit_log d1 = platform_audit_log d @ [attempt] \<and> pl_action attempt = po_audit_action spec @ ''_attempt'' \<and>
    authorize_platform_caller (between d1) c operation = Inr spec \<and>
    read (between d1) = Inr outcome \<and> ov_value outcome = v \<and>
    platform_audit_log d' = platform_audit_log (between d1) @ [completion] \<and> pl_action completion = po_audit_action spec \<and>
    list_all (\<lambda>e. pl_outcome e = SUCCESS \<and>
      (pl_actor_type e, pl_actor_user_id e, pl_system_authority e) = platform_actor c) [attempt, completion]"
proof -
  have authorized_spec: "authorize_platform_caller x c operation = Inr spec \<Longrightarrow> platform_operation operation = Inr spec" for x spec
    by (cases c) (auto simp: authorize_platform_caller_def split: option.splits)
  obtain d1 where att: "recording_platform_refusal d now c operation ty i u
      (ebind (record_oversight_attempt d now c operation ty i u) (\<lambda>d'. Inr (d', ()))) = (d1, Inr ())"
      and rd: "read_in_transaction (between d1) later c operation ty i u read = Inr (d', v)"
    using assms unfolding run_oversight_read_def
    by (auto simp: recording_platform_refusal_def Let_def split: sum.splits prod.splits option.splits)
  obtain spec where a: "authorize_platform_caller d c operation = Inr spec"
      "record_platform_event_in_transaction d now c (po_audit_action spec @ ''_attempt'') ty i u None SUCCESS None = Inr d1"
    using attempt_ok [OF att] authorized_spec [of d]
    by (fastforce simp: record_oversight_attempt_def oversight_attempt_action_def)
  obtain spec' outcome i' u' t' where r: "authorize_platform_caller (between d1) c operation = Inr spec'"
      "read (between d1) = Inr outcome" "ov_value outcome = v"
      "record_platform_event_in_transaction (between d1) later c (po_audit_action spec') ty i' u' t' SUCCESS None = Inr d'"
    using rd by (auto simp: read_in_transaction_def Let_def)
  have "spec' = spec" using authorized_spec [OF a(1)] authorized_spec [OF r(1)] by simp
  then show ?thesis using a(1) r(1-3) recorded_row [OF a(2)] recorded_row [OF r(4)]
    by (auto simp: list_all_iff)
qed

subsection \<open>Walking the pages\<close>

definition after_cursor :: "('r \<Rightarrow> 'k :: linorder) \<Rightarrow> 'k option \<Rightarrow> 'r \<Rightarrow> bool" where
  "after_cursor key cursor r = (case cursor of None \<Rightarrow> True | Some c \<Rightarrow> key r > c)"

lemma after_cursor_simps [simp]: "after_cursor key None r" "after_cursor key (Some c) r \<longleftrightarrow> c < key r"
  by (simp_all add: after_cursor_def)

lemma keyset_page_eq:
  "keyset_page key cursor limit rows = (let page = take limit (filter (after_cursor key cursor) (sort_key key rows)) in
     (page, if length page = limit then Some (key (last page)) else None))"
  by (simp add: keyset_page_def filter_sort after_cursor_def [abs_def])

lemma full_page_last:
  assumes "keyset_page key cursor limit rows = (page, Some c)" "0 < limit"
  shows "length page = limit" "c = key (last page)" "last page \<in> set (filter (after_cursor key cursor) rows)"
proof -
  show *: "length page = limit" "c = key (last page)"
    using assms(1) by (auto simp: keyset_page_eq Let_def split: if_splits)
  have "last page \<in> set page" using * assms(2) by (intro last_in_set) auto
  then show "last page \<in> set (filter (after_cursor key cursor) rows)"
    using assms(1) by (auto simp: keyset_page_eq Let_def dest!: in_set_takeD)
qed

lemma later_after_cursor: "after_cursor key cursor x \<Longrightarrow> key x < key r \<Longrightarrow> after_cursor key cursor r"
  by (auto simp: after_cursor_def split: option.splits)

text \<open>A caller who follows the cursors. The walk ends: after a full page fewer rows are left.\<close>

function walk_pages :: "('r \<Rightarrow> 'k :: linorder) \<Rightarrow> nat \<Rightarrow> 'r list \<Rightarrow> 'k option \<Rightarrow> 'r list" where
  "walk_pages key limit rows cursor = (case keyset_page key cursor limit rows of
     (page, None) \<Rightarrow> page
   | (page, Some c) \<Rightarrow> if limit = 0 then page else page @ walk_pages key limit rows (Some c))"
  by pat_completeness auto

termination
proof (relation "measure (\<lambda>(key, limit, rows, cursor). length (filter (after_cursor key cursor) rows))", goal_cases)
  case (2 key limit rows cursor page y c)
  then have page: "keyset_page key cursor limit rows = (page, Some c)" "0 < limit" by simp_all
  note last = full_page_last [OF page]
  have "length (filter (after_cursor key (Some c)) (filter (after_cursor key cursor) rows)) <
      length (filter (after_cursor key cursor) rows)"
    by (rule length_filter_less [OF last(3)]) (simp add: last(2))
  moreover have "filter (after_cursor key (Some c)) (filter (after_cursor key cursor) rows) = filter (after_cursor key (Some c)) rows"
    using last(2,3) later_after_cursor [of key cursor "last page"]
    by (auto intro!: filter_cong)
  ultimately show ?case by simp
qed simp

declare walk_pages.simps [simp del]

lemma rest_of_page:
  assumes "distinct (map key rows)" "keyset_page key cursor limit rows = (page, Some c)" "0 < limit"
  shows "filter (after_cursor key (Some c)) (sort_key key rows) =
    drop limit (filter (after_cursor key cursor) (sort_key key rows))"
proof -
  let ?S = "filter (after_cursor key cursor) (sort_key key rows)"
  note last = full_page_last [OF assms(2,3)]
  have page: "page = take limit ?S" using assms(2) by (simp add: keyset_page_eq Let_def)
  have "sorted (map key (sort_key key rows))" by simp
  then have "sorted (map key ?S)" by (rule sorted_filter)
  moreover have "distinct (map key ?S)"
    using assms(1) by (simp add: distinct_map inj_on_def)
  ultimately have strict: "sorted_wrt (<) (map key (take limit ?S @ drop limit ?S))"
    by (simp add: strict_sorted_iff)
  have "page \<noteq> []" using last(1) assms(3) by auto
  then have split: "take limit ?S = butlast page @ [last page]" unfolding page [symmetric] by simp
  have low: "\<forall>r \<in> set (take limit ?S). \<not> c < key r" and high: "\<forall>r \<in> set (drop limit ?S). c < key r"
    using strict unfolding split last(2) by (auto simp: sorted_wrt_append less_imp_le not_less)
  have "filter (after_cursor key (Some c)) (sort_key key rows) = filter (\<lambda>r. c < key r) ?S"
    using last(2,3) later_after_cursor [of key cursor "last page"]
    by (auto intro!: filter_cong)
  also have "\<dots> = filter (\<lambda>r. c < key r) (take limit ?S) @ filter (\<lambda>r. c < key r) (drop limit ?S)"
    by (metis append_take_drop_id filter_append)
  finally show ?thesis using low high by (simp add: filter_True filter_False)
qed

lemma walk_from:
  assumes "distinct (map key rows)" "0 < limit"
  shows "walk_pages key limit rows cursor = filter (after_cursor key cursor) (sort_key key rows)"
  using assms
proof (induction key limit rows cursor rule: walk_pages.induct)
  case (1 key limit rows cursor)
  let ?S = "filter (after_cursor key cursor) (sort_key key rows)"
  obtain page next_cursor where page: "keyset_page key cursor limit rows = (page, next_cursor)"
    by (metis surj_pair)
  have taken: "page = take limit ?S" using page by (simp add: keyset_page_eq Let_def)
  show ?case
  proof (cases next_cursor)
    case None
    then have "length (take limit ?S) \<noteq> limit" using page by (auto simp: keyset_page_eq Let_def split: if_splits)
    then show ?thesis using page None taken by (simp add: walk_pages.simps [of key limit rows cursor])
  next
    case (Some c)
    have nonzero: "limit \<noteq> 0" using 1(3) by simp
    have "walk_pages key limit rows (Some c) = drop limit ?S"
      unfolding 1(1) [OF page [symmetric] Some nonzero 1(2,3)] by (rule rest_of_page [OF 1(2) page [unfolded Some] 1(3)])
    then show ?thesis using page Some 1(3) taken
      by (simp add: walk_pages.simps [of key limit rows cursor])
  qed
qed

text \<open>Following the cursors from the start, with any page size, returns every row exactly once, in the
  order of the key: nothing is skipped or repeated at a page boundary.\<close>

theorem page_walk_is_complete:
  assumes "distinct (map key rows)" "0 < limit"
  shows "walk_pages key limit rows None = sort_key key rows"
  using walk_from [OF assms, of None] by simp

subsection \<open>An operator reads the operators\<close>

definition overseer_db :: db where
  "overseer_db = platform_db\<lparr>platform_grants := [mk_grant 213 200 P_OPERATOR_READ]\<rparr>"

definition operators_page :: "db \<Rightarrow> error + (uuid list) oversight_outcome" where
  "operators_page d = Inr \<lparr>ov_value = map op_id (platform_operators d), ov_returned = length (platform_operators d),
     ov_target_id = None, ov_target_tenant_id = None, ov_target_user_id = None\<rparr>"

theorem oversight_read_is_evidenced_witness:
  "\<exists>d'. run_oversight_read id overseer_db 0 1 (UserCaller 10) OPERATOR_READ ''platform_operator'' None None False operators_page
      = (d', Inr [200, 201]) \<and>
    map pl_action (platform_audit_log d') = map pl_action (platform_audit_log overseer_db) @
      [''platform.operator.read_attempt'', ''platform.operator.read'']"
proof -
  let ?r = "run_oversight_read id overseer_db 0 1 (UserCaller 10) OPERATOR_READ ''platform_operator'' None None False operators_page"
  have "snd ?r = Inr [200, 201]" by code_simp
  then have run: "?r = (fst ?r, Inr [200, 201])" by (metis prod.collapse)
  have "authorize_platform_caller overseer_db (UserCaller 10) OPERATOR_READ = Inr spec \<Longrightarrow>
      po_audit_action spec = ''platform.operator.read''" for spec
    by (cases "platform_operation OPERATOR_READ")
      (auto simp: authorize_platform_caller_def OPERATOR_READ_def platform_operation_def PLATFORM_OPERATIONS_def
        operation_row_def split: option.splits)
  then show ?thesis using oversight_read_is_evidenced [OF run] run by fastforce
qed

end
