(* ===== verification/Canonical_Json.thy ===== *)
theory Canonical_Json
  imports Outbox Digest "HOL-Library.List_Lexorder" "HOL-Library.Multiset"
begin

section \<open>Canonical JSON\<close>

text \<open>
  What \<open>compute_fingerprint\<close> of \<open>saas_os/core/idempotency/service.py\<close> uses of \<open>json.dumps\<close>: sorted
  keys, no white space, every character outside printable ASCII escaped, and \<open>default=str\<close>, the
  text of an object JSON has no form for. The values of a request are every Python value the call
  accepts, with strings as the keys of objects, as \<open>Mapping[str, object]\<close> says. The text determines
  the canonical form of the request, by a reader of escapes and a prefix argument on the grammar.
\<close>

text \<open>A string is its code points, lone surrogates included. A floating-point number is kept as the
  text \<open>float.__repr__\<close> gives (\<open>NaN\<close>, \<open>Infinity\<close> and \<open>-Infinity\<close> for the three that have none), and
  \<^term>\<open>ROther\<close> is any object without a JSON form, a UUID, a decimal or a date among them, by the
  text \<open>str\<close> gives.\<close>

datatype request_value = RNull | RBool bool | RInt int | RFloat string | RStr pystr
  | RList "request_value list" | RObject "(pystr \<times> request_value) list" | ROther pystr

type_synonym request = "(pystr \<times> request_value) list"

definition hex4 :: "nat \<Rightarrow> string" where
  "hex4 n = map hex_digit [n div 4096 mod 16, n div 256 mod 16, n div 16 mod 16, n mod 16]"

text \<open>The escapes of \<open>json.dumps\<close> with its default \<open>ensure_ascii\<close>; a character outside the
  basic plane is a surrogate pair.\<close>

definition escape :: "nat \<Rightarrow> string" where
  "escape c =
     (if c = 34 then [CHR 0x5C, CHR 0x22] else if c = 92 then [CHR 0x5C, CHR 0x5C]
      else if c = 10 then [CHR 0x5C, CHR ''n''] else if c = 13 then [CHR 0x5C, CHR ''r'']
      else if c = 9 then [CHR 0x5C, CHR ''t''] else if c = 12 then [CHR 0x5C, CHR ''f'']
      else if c = 8 then [CHR 0x5C, CHR ''b'']
      else if 32 \<le> c \<and> c \<le> 126 then [char_of c]
      else if c < 65536 then CHR 0x5C # CHR ''u'' # hex4 c
      else CHR 0x5C # CHR ''u'' # hex4 (55296 + (c - 65536) div 1024 mod 1024) @
           CHR 0x5C # CHR ''u'' # hex4 (56320 + (c - 65536) mod 1024))"

definition quote :: "pystr \<Rightarrow> string" where
  "quote s = CHR 0x22 # concat (map escape s) @ [CHR 0x22]"

definition render_int :: "int \<Rightarrow> string" where
  "render_int i = (if i < 0 then ''-'' else []) @ map char_of (decimal (nat \<bar>i\<bar>))"

fun comma_separated :: "string list \<Rightarrow> string" where
  "comma_separated [] = []"
| "comma_separated [x] = x"
| "comma_separated (x # y # xs) = x @ '','' @ comma_separated (y # xs)"

fun dumps :: "request_value \<Rightarrow> string" where
  "dumps RNull = ''null''"
| "dumps (RBool b) = (if b then ''true'' else ''false'')"
| "dumps (RInt i) = render_int i"
| "dumps (RFloat t) = t"
| "dumps (RStr s) = quote s"
| "dumps (ROther s) = quote s"
| "dumps (RList xs) = ''['' @ comma_separated (map dumps xs) @ '']''"
| "dumps (RObject kvs) = ''{'' @ comma_separated (map (\<lambda>(k, t). quote k @ '':'' @ t)
     (sort_key fst (map (\<lambda>(k, v). (k, dumps v)) kvs))) @ ''}''"


subsection \<open>Escapes are read back\<close>

text \<open>The UTF-16 units of a string are what its escapes spell: a character outside the basic plane
  and the pair of its surrogates, written as two characters, have the same ones.\<close>

definition utf16 :: "nat \<Rightarrow> nat list" where
  "utf16 c = (if c < 65536 then [c]
     else [55296 + (c - 65536) div 1024 mod 1024, 56320 + (c - 65536) mod 1024])"

definition utf16_units :: "pystr \<Rightarrow> pystr" where
  "utf16_units s = concat (map utf16 s)"

abbreviation code_unit :: "nat \<Rightarrow> bool" where
  "code_unit c \<equiv> c < 65536"

definition hex_value :: "char \<Rightarrow> nat" where
  "hex_value c = (let n = of_char c :: nat in if n \<le> 57 then n - 48 else n - 87)"

definition unhex4 :: "string \<Rightarrow> nat" where
  "unhex4 s = foldl (\<lambda>n c. 16 * n + hex_value c) 0 (take 4 s)"

definition unescape :: "string \<Rightarrow> nat \<times> string" where
  "unescape s = (case s of [] \<Rightarrow> (0, []) | a # r \<Rightarrow>
     if a \<noteq> CHR 0x5C then (of_char a, r)
     else (case r of [] \<Rightarrow> (0, []) | e # r' \<Rightarrow>
       if e = CHR ''n'' then (10, r') else if e = CHR ''r'' then (13, r')
       else if e = CHR ''t'' then (9, r') else if e = CHR ''f'' then (12, r')
       else if e = CHR ''b'' then (8, r') else if e \<noteq> CHR ''u'' then (of_char e, r')
       else (unhex4 r', drop 4 r')))"

lemma hex_value_digit: "n < 16 \<Longrightarrow> hex_value (hex_digit n) = n"
proof -
  assume "n < 16"
  then have "n \<in> set [0..<16]" by simp
  moreover have "list_all (\<lambda>n. hex_value (hex_digit n) = n) [0..<16]" by code_simp
  ultimately show ?thesis by (simp only: list_all_iff)
qed

lemma length_hex4 [simp]: "length (hex4 n) = 4"
  by (simp add: hex4_def)

lemma sixteen_split: "(n :: nat) < 65536 \<Longrightarrow>
    16 * (16 * (16 * (n div 4096 mod 16) + n div 256 mod 16) + n div 16 mod 16) + n mod 16 = n"
proof -
  assume small: "n < 65536"
  have "n div 256 = n div 16 div 16" "n div 4096 = n div 16 div 16 div 16"
    by (simp_all add: div_mult2_eq [symmetric])
  moreover have "n div 16 div 16 div 16 < 16" using small by (simp add: div_mult2_eq [symmetric] less_mult_imp_div_less)
  ultimately show ?thesis by simp
qed

lemma unhex4_hex4 [simp]: "n < 65536 \<Longrightarrow> unhex4 (hex4 n @ s) = n"
  using sixteen_split [of n] by (simp add: unhex4_def hex4_def hex_value_digit)

lemma drop_hex4 [simp]: "drop 4 (hex4 n @ s) = s"
  by (simp add: hex4_def)

lemma unescape_plain:
  assumes "32 \<le> c" "c \<le> 126" "c \<noteq> 34" "c \<noteq> 92"
  shows "escape c = [char_of c]" "char_of c \<noteq> CHR 0x5C" "char_of c \<noteq> CHR 0x22"
proof -
  show "escape c = [char_of c]" using assms by (simp add: escape_def)
  have code: "of_char x = c" if "char_of c = x" for x :: char
    using that assms by (auto simp: of_char_of)
  show "char_of c \<noteq> CHR 0x5C" using code [of "CHR 0x5C"] assms(4) by (auto simp del: char_of_eq_iff)
  show "char_of c \<noteq> CHR 0x22" using code [of "CHR 0x22"] assms(3) by (auto simp del: char_of_eq_iff)
qed

lemma unescape_hex:
  "code_unit c \<Longrightarrow> unescape (CHR 0x5C # CHR ''u'' # hex4 c @ s) = (c, s)"
  by (simp add: unescape_def)

lemma unescape_escape:
  assumes "code_unit c"
  shows "unescape (escape c @ s) = (c, s)"
proof -
  consider "c \<in> {34, 92, 10, 13, 9, 12, 8}" | "32 \<le> c" "c \<le> 126" "c \<noteq> 34" "c \<noteq> 92"
    | "c \<notin> {34, 92, 10, 13, 9, 12, 8}" "\<not> (32 \<le> c \<and> c \<le> 126)"
    by (cases "32 \<le> c \<and> c \<le> 126"; cases "c \<in> {34, 92, 10, 13, 9, 12, 8}") auto
  then show ?thesis
  proof cases
    case 1
    then show ?thesis by (auto simp: escape_def unescape_def)
  next
    case 2
    then show ?thesis using unescape_plain [OF 2] by (simp add: unescape_def of_char_of)
  next
    case 3
    then have "escape c = CHR 0x5C # CHR ''u'' # hex4 c" using assms by (simp add: escape_def)
    then show ?thesis using unescape_hex [OF assms] by simp
  qed
qed

lemma surrogate_escape:
  assumes "55296 \<le> c" "code_unit c"
  shows "escape c = CHR 0x5C # CHR ''u'' # hex4 c"
  using assms by (simp add: escape_def)

lemma escape_utf16: "escape c = concat (map escape (utf16 c))"
proof (cases "code_unit c")
  case False
  have "(c - 65536) div 1024 mod 1024 < 1024" "(c - 65536) mod 1024 < 1024" by simp_all
  then show ?thesis using False
    by (simp add: utf16_def surrogate_escape del: mod_less_divisor) (simp add: escape_def)
qed (simp add: utf16_def)

lemma utf16_is_unit: "c' \<in> set (utf16 c) \<Longrightarrow> code_unit c'"
proof -
  have "(c - 65536) div 1024 mod 1024 < 1024" "(c - 65536) mod 1024 < 1024" by simp_all
  then show "c' \<in> set (utf16 c) \<Longrightarrow> code_unit c'" by (auto simp: utf16_def simp del: mod_less_divisor split: if_splits)
qed

lemma utf16_units_ok: "list_all code_unit (utf16_units s)"
  by (auto simp: utf16_units_def list_all_iff utf16_is_unit)

lemma quote_units: "quote s = quote (utf16_units s)"
proof -
  have "concat (map escape s) = concat (map escape (utf16_units s))"
    by (induction s) (simp_all add: utf16_units_def escape_utf16 [symmetric])
  then show ?thesis by (simp add: quote_def)
qed

lemma escape_hd: "escape c \<noteq> []" "hd (escape c) \<noteq> CHR 0x22"
proof -
  show "escape c \<noteq> []" by (simp add: escape_def)
  show "hd (escape c) \<noteq> CHR 0x22"
  proof (cases "32 \<le> c \<and> c \<le> 126 \<and> c \<noteq> 34 \<and> c \<noteq> 92")
    case True
    then show ?thesis using unescape_plain [of c] by simp
  next
    case False
    then show ?thesis by (auto simp: escape_def)
  qed
qed

lemma escape_not_quote [simp]: "escape c @ r \<noteq> CHR 0x22 # s" "CHR 0x22 # s \<noteq> escape c @ r"
  using escape_hd [of c] by (metis hd_append list.sel(1))+

lemma quote_prefix:
  assumes "list_all code_unit k" "list_all code_unit k'" "quote k @ s = quote k' @ t"
  shows "k = k' \<and> s = t"
  using assms
proof (induction k arbitrary: k')
  case Nil
  then show ?case by (cases k') (simp_all add: quote_def)
next
  case (Cons c k)
  have "escape c @ concat (map escape k) @ CHR 0x22 # s = concat (map escape k') @ CHR 0x22 # t"
    using Cons.prems(3) by (simp add: quote_def)
  then have nonempty: "k' \<noteq> []" by (rule contrapos_pn) (simp only: list.map concat.simps append_Nil escape_not_quote not_False_eq_True)
  define c' l where "c' = hd k'" and "l = tl k'"
  have k': "k' = c' # l" using nonempty by (simp add: c'_def l_def)
  define rest where "rest x u = concat (map escape x) @ CHR 0x22 # u" for x u
  have "escape c @ rest k s = escape c' @ rest l t"
    using Cons.prems(3) by (simp add: k' quote_def rest_def)
  then have "unescape (escape c @ rest k s) = unescape (escape c' @ rest l t)" by (rule arg_cong)
  moreover have "code_unit c" "code_unit c'" "list_all code_unit k" "list_all code_unit l"
    using Cons.prems(1,2) by (simp_all add: k')
  ultimately have eq: "c = c'" "rest k s = rest l t" by (simp_all only: unescape_escape prod.inject)
  have "quote k @ s = quote l @ t" using eq(2) by (simp add: quote_def rest_def)
  then have "k = l \<and> s = t"
    using Cons.IH \<open>list_all code_unit k\<close> \<open>list_all code_unit l\<close> by blast
  then show ?case using eq(1) by (simp add: k')
qed

subsection \<open>Numbers are read back\<close>

lemma decimal_digits: "list_all is_digit (decimal n) \<and> decimal n \<noteq> []"
proof (induction n rule: decimal.induct)
  case (1 n)
  then show ?case unfolding decimal.simps [of n] by (auto simp: is_digit_def)
qed

lemma number_of_decimal: "number_of (decimal n) = n"
proof (induction n rule: decimal.induct)
  case (1 n)
  then show ?case unfolding decimal.simps [of n]
    by (cases "n < 10") (simp_all add: number_of_snoc, simp add: number_of_def)
qed

text \<open>What may follow a value in the text: the end, or a delimiter.\<close>

definition delimited :: "string \<Rightarrow> bool" where
  "delimited s = (s = [] \<or> hd s \<in> {CHR '','', CHR '']'', CHR ''}''})"

lemma render_int_hd:
  "render_int i \<noteq> []" "hd (render_int i) = CHR ''-'' \<or> is_digit (of_char (hd (render_int i)))"
proof -
  have d: "decimal (nat \<bar>i\<bar>) \<noteq> []" "is_digit (hd (decimal (nat \<bar>i\<bar>)))"
    using decimal_digits [of "nat \<bar>i\<bar>"] by (auto simp: list_all_iff)
  then show "render_int i \<noteq> []" by (simp add: render_int_def)
  from d show "hd (render_int i) = CHR ''-'' \<or> is_digit (of_char (hd (render_int i)))"
    by (cases "i < 0") (simp_all add: render_int_def hd_map of_char_of is_digit_def abs_if)
qed

text \<open>A floating-point number as \<open>float.__repr__\<close> writes it: digits, a sign, a point, an exponent, and
  always a point or an exponent, which no integer has; or one of the three names.\<close>

definition float_text :: "string \<Rightarrow> bool" where
  "float_text t = (t \<in> {''NaN'', ''Infinity'', ''-Infinity''} \<or>
     (t \<noteq> [] \<and> (is_digit (of_char (hd t)) \<or> hd t = CHR ''-'') \<and>
      list_all (\<lambda>c. is_digit (of_char c) \<or> c \<in> {CHR ''.'', CHR ''e'', CHR ''+'', CHR ''-''}) t \<and>
      (CHR ''.'' \<in> set t \<or> CHR ''e'' \<in> set t)))"

definition token :: "string \<Rightarrow> bool" where
  "token u = list_all (\<lambda>c. c \<notin> {CHR '','', CHR '']'', CHR ''}''}) u"

lemma token_prefix:
  assumes "token u" "token v" "delimited s" "delimited t" "u @ s = v @ t"
  shows "u = v \<and> s = t"
proof -
  let ?p = "\<lambda>c. c \<notin> {CHR '','', CHR '']'', CHR ''}''}"
  have "takeWhile ?p r = []" if "delimited r" for r
    using that by (cases r) (auto simp: delimited_def)
  then have "takeWhile ?p (w @ r) = w" if "token w" "delimited r" for w r
    using that by (simp add: token_def list_all_iff takeWhile_append2)
  then show ?thesis using assms by (metis same_append_eq)
qed

lemma digit_not_delimiter: "is_digit (of_char c) \<Longrightarrow> c \<notin> {CHR '','', CHR '']'', CHR ''}''}"
  by (auto simp: is_digit_def)

lemma float_token:
  assumes "float_text t"
  shows "token t"
proof -
  have "token ''NaN''" "token ''Infinity''" "token ''-Infinity''" by (simp_all add: token_def)
  moreover have "token t" if "list_all (\<lambda>c. is_digit (of_char c) \<or> c \<in> {CHR ''.'', CHR ''e'', CHR ''+'', CHR ''-''}) t"
    using that digit_not_delimiter unfolding token_def list_all_iff by fastforce
  ultimately show ?thesis using assms unfolding float_text_def by blast
qed

lemma render_int_chars: "c \<in> set (render_int i) \<Longrightarrow> c = CHR ''-'' \<or> is_digit (of_char c)"
  using decimal_digits [of "nat \<bar>i\<bar>"]
  by (auto simp: render_int_def list_all_iff of_char_of is_digit_def split: if_splits)

lemma int_token: "token (render_int i)"
  using render_int_chars digit_not_delimiter unfolding token_def list_all_iff by fastforce

lemma int_not_float: "float_text t \<Longrightarrow> render_int i \<noteq> t"
proof
  assume float: "float_text t" and eq: "render_int i = t"
  have "CHR ''N'' \<in> set t \<or> CHR ''I'' \<in> set t \<or> CHR ''.'' \<in> set t \<or> CHR ''e'' \<in> set t"
    using float unfolding float_text_def by auto
  then show False using render_int_chars [of "CHR ''N''" i] render_int_chars [of "CHR ''I''" i]
      render_int_chars [of "CHR ''.''" i] render_int_chars [of "CHR ''e''" i] unfolding eq by (auto simp: is_digit_def)
qed

lemma digits_inject:
  assumes "list_all is_digit ds" "list_all is_digit es" "map char_of ds = (map char_of es :: string)"
  shows "ds = es"
proof -
  have codes_back: "map of_char (map (char_of :: nat \<Rightarrow> char) xs) = xs" if "list_all is_digit xs" for xs
    using that by (induction xs) (auto simp: of_char_of is_digit_def)
  show ?thesis using codes_back assms by metis
qed

lemma digits_not_minus: "map char_of (decimal n) \<noteq> CHR ''-'' # v"
proof
  assume eq: "map char_of (decimal n) = CHR ''-'' # v"
  obtain d ds where d: "decimal n = d # ds" "is_digit d" using decimal_digits [of n] by (cases "decimal n") auto
  have "char_of d = CHR ''-''" using eq d(1) by simp
  from arg_cong [OF this, of "of_char :: char \<Rightarrow> nat"] d(2) show False
    by (auto simp: of_char_of is_digit_def)
qed

lemma render_int_inject:
  assumes "render_int i = render_int j"
  shows "i = j"
proof -
  have same: "(i < 0) = (j < 0)"
    using assms digits_not_minus digits_not_minus [symmetric] by (auto simp: render_int_def split: if_splits)
  then have "decimal (nat \<bar>i\<bar>) = decimal (nat \<bar>j\<bar>)"
    using assms digits_inject decimal_digits by (auto simp: render_int_def split: if_splits)
  then have "nat \<bar>i\<bar> = nat \<bar>j\<bar>" using number_of_decimal by metis
  with same show ?thesis by linarith
qed

subsection \<open>The grammar\<close>

text \<open>The text of a value in canonical form: keys in order already.\<close>

fun render :: "request_value \<Rightarrow> string" where
  "render RNull = ''null''"
| "render (RBool b) = (if b then ''true'' else ''false'')"
| "render (RInt i) = render_int i"
| "render (RFloat t) = t"
| "render (RStr s) = quote s"
| "render (RList xs) = ''['' @ comma_separated (map render xs) @ '']''"
| "render (RObject kvs) = ''{'' @ comma_separated (map (\<lambda>(k, v). quote k @ '':'' @ render v) kvs) @ ''}''"
| "render (ROther s) = quote s"

text \<open>The canonical form of a request: the keys of every object in order, an object without a JSON
  form replaced by its text, and every text read as its UTF-16 units.\<close>

fun canonical :: "request_value \<Rightarrow> request_value" where
  "canonical (RStr s) = RStr (utf16_units s)"
| "canonical (ROther s) = RStr (utf16_units s)"
| "canonical (RList xs) = RList (map canonical xs)"
| "canonical (RObject kvs) = RObject (map (\<lambda>(k, v). (utf16_units k, v))
     (sort_key fst (map (\<lambda>(k, v). (k, canonical v)) kvs)))"
| "canonical v = v"

text \<open>Every float of a Python value has a text of that shape.\<close>

fun floats_ok :: "request_value \<Rightarrow> bool" where
  "floats_ok (RFloat t) = float_text t"
| "floats_ok (RList xs) = list_all floats_ok xs"
| "floats_ok (RObject kvs) = list_all (\<lambda>(k, v). floats_ok v) kvs"
| "floats_ok v = True"

fun canonical_ok :: "request_value \<Rightarrow> bool" where
  "canonical_ok (RFloat t) = float_text t"
| "canonical_ok (RStr s) = list_all code_unit s"
| "canonical_ok (RList xs) = list_all canonical_ok xs"
| "canonical_ok (RObject kvs) = list_all (\<lambda>(k, v). list_all code_unit k \<and> canonical_ok v) kvs"
| "canonical_ok (ROther s) = False"
| "canonical_ok v = True"

lemma insort_key_map_snd:
  "insort_key fst (k, f v) (map (\<lambda>(k, v). (k, f v)) ys) = map (\<lambda>(k, v). (k, f v)) (insort_key fst (k, v) ys)"
  by (induction ys) auto

lemma sort_key_map_snd: "sort_key fst (map (\<lambda>(k, v). (k, f v)) xs) = map (\<lambda>(k, v). (k, f v)) (sort_key fst xs)"
  by (induction xs) (auto simp: insort_key_map_snd)

lemma dumps_render: "dumps v = render (canonical v)"
proof (induction v)
  case (RList xs)
  then have "map dumps xs = map (render \<circ> canonical) xs" by simp
  then show ?case by (simp only: dumps.simps canonical.simps render.simps map_map)
next
  case (RObject kvs)
  have eq: "map (\<lambda>(k, v). (k, dumps v)) kvs = map (\<lambda>(k, v). (k, render v)) (map (\<lambda>(k, v). (k, canonical v)) kvs)"
    using RObject by (auto simp: snds.simps)
  have "map (\<lambda>(k, t). quote k @ '':'' @ t) (sort_key fst (map (\<lambda>(k, v). (k, dumps v)) kvs)) =
      map (\<lambda>(k, v). quote k @ '':'' @ render v) (map (\<lambda>(k, v). (utf16_units k, v))
        (sort_key fst (map (\<lambda>(k, v). (k, canonical v)) kvs)))"
    unfolding eq sort_key_map_snd [of render] by (simp only: map_map) (auto simp: quote_units [symmetric] simp del: sort_key_map_snd)
  then show ?case by simp
qed (simp_all add: quote_units [symmetric])

lemma comma_separated_Cons: "comma_separated (x # xs) = x @ concat (map ((#) CHR '','') xs)"
  by (induction xs arbitrary: x) auto

text \<open>Two sequences of items with the same text are the same sequence, when each item is
  determined by its text before a delimiter.\<close>

definition determined :: "('a \<Rightarrow> string) \<Rightarrow> char \<Rightarrow> 'a list \<Rightarrow> 'a list \<Rightarrow> bool" where
  "determined p close xs ys = (close \<in> {CHR '']'', CHR ''}''} \<and>
     (\<forall>x \<in> set xs \<union> set ys. p x \<noteq> [] \<and> hd (p x) \<noteq> close) \<and>
     (\<forall>x \<in> set xs. \<forall>y \<in> set ys. \<forall>s t. delimited s \<longrightarrow> delimited t \<longrightarrow> p x @ s = p y @ t \<longrightarrow> x = y \<and> s = t))"

lemma tails:
  assumes closes: "close \<in> {CHR '']'', CHR ''}''}"
    and item: "\<And>x y s t. x \<in> set us \<Longrightarrow> y \<in> set vs \<Longrightarrow> delimited s \<Longrightarrow> delimited t \<Longrightarrow> p x @ s = p y @ t \<Longrightarrow> x = y \<and> s = t"
    and "concat (map (\<lambda>x. CHR '','' # p x) us) @ close # s = concat (map (\<lambda>x. CHR '','' # p x) vs) @ close # t"
  shows "us = vs \<and> s = t"
  using item assms(3)
proof (induction us arbitrary: vs)
  case Nil
  then show ?case using closes by (cases vs) auto
next
  case (Cons u us)
  obtain v vs' where vs: "vs = v # vs'" using Cons.prems(2) closes by (cases vs) auto
  let ?rest = "\<lambda>ws r. concat (map (\<lambda>x. CHR '','' # p x) ws) @ close # r"
  have del: "delimited (?rest ws r)" for ws r using closes by (cases ws) (auto simp: delimited_def)
  have "p u @ ?rest us s = p v @ ?rest vs' t" using Cons.prems(2) by (simp add: vs)
  then have eq: "u = v \<and> ?rest us s = ?rest vs' t" by (intro Cons.prems(1) del) (simp_all add: vs)
  have "us = vs' \<and> s = t"
  proof (rule Cons.IH)
    show "x = y \<and> s = t" if "x \<in> set us" "y \<in> set vs'" "delimited s" "delimited t" "p x @ s = p y @ t" for x y s t
      using that by (intro Cons.prems(1)) (simp_all add: vs)
    show "?rest us s = ?rest vs' t" using eq by (rule conjunct2)
  qed
  then show ?case using eq by (simp add: vs)
qed

lemma sequences:
  assumes "determined p close xs ys"
    and "comma_separated (map p xs) @ close # s = comma_separated (map p ys) @ close # t"
  shows "xs = ys \<and> s = t"
proof -
  have closes: "close \<in> {CHR '']'', CHR ''}''}" using assms(1) by (simp add: determined_def)
  have item: "x = y \<and> s = t" if "x \<in> set xs" "y \<in> set ys" "delimited s" "delimited t" "p x @ s = p y @ t" for x y s t
    using assms(1) that unfolding determined_def by blast
  have other: "p x @ r \<noteq> close # r'" if "x \<in> set xs \<union> set ys" for x r r'
    using assms(1) that unfolding determined_def by (metis hd_append list.sel(1))
  have sep: "CHR '','' # comma_separated (map p zs) = concat (map (\<lambda>x. CHR '','' # p x) zs)" if "zs \<noteq> []" for zs
    using that by (cases zs) (simp_all add: comma_separated_Cons comp_def)
  have first: "comma_separated (map p zs) @ r \<noteq> close # r'" if "zs \<noteq> []" "set zs \<subseteq> set xs \<union> set ys" for zs r r'
    using that other by (cases zs) (simp_all add: comma_separated_Cons)
  show ?thesis
  proof (cases "xs = [] \<or> ys = []")
    case True
    then show ?thesis using assms(2) first [of xs] first [of ys] by (cases xs; cases ys) (auto dest: sym)
  next
    case False
    then have nx: "xs \<noteq> []" and ny: "ys \<noteq> []" by simp_all
    have "(CHR '','' # comma_separated (map p xs)) @ close # s = (CHR '','' # comma_separated (map p ys)) @ close # t"
      using assms(2) by simp
    then have "concat (map (\<lambda>x. CHR '','' # p x) xs) @ close # s = concat (map (\<lambda>x. CHR '','' # p x) ys) @ close # t"
      by (simp only: sep [OF nx] sep [OF ny])
    with tails [OF closes item] show ?thesis by blast
  qed
qed

text \<open>The first character tells the kind of a value.\<close>

fun value_kind :: "request_value \<Rightarrow> nat" where
  "value_kind RNull = 0" | "value_kind (RBool b) = 1" | "value_kind (RInt i) = 2"
| "value_kind (RFloat t) = 2" | "value_kind (RStr s) = 3" | "value_kind (ROther s) = 3" | "value_kind (RList xs) = 4" | "value_kind (RObject kvs) = 5"

definition lead_kind :: "char \<Rightarrow> nat" where
  "lead_kind c = (if c = CHR ''n'' then 0 else if c \<in> {CHR ''t'', CHR ''f''} then 1
     else if c = CHR 0x22 then 3 else if c = CHR ''['' then 4 else if c = CHR ''{'' then 5 else 2)"

lemma digit_lead:
  assumes "c = CHR ''-'' \<or> is_digit (of_char c)"
  shows "lead_kind c = 2 \<and> c \<notin> {CHR '']'', CHR ''}''}"
proof -
  have "c \<noteq> x" if "x \<noteq> CHR ''-''" "\<not> is_digit (of_char x)" for x using assms that by metis
  from this [of "CHR ''n''"] this [of "CHR ''t''"] this [of "CHR ''f''"] this [of "CHR 0x22"] this [of "CHR ''[''"]
    this [of "CHR ''{''"] this [of "CHR '']''"] this [of "CHR ''}''"]
  show ?thesis by (simp add: is_digit_def lead_kind_def)
qed

lemma float_lead:
  assumes "float_text t"
  shows "t \<noteq> []" "lead_kind (hd t) = 2 \<and> hd t \<notin> {CHR '']'', CHR ''}''}"
proof -
  have "t \<noteq> [] \<and> (hd t \<in> {CHR ''N'', CHR ''I''} \<or> hd t = CHR ''-'' \<or> is_digit (of_char (hd t)))"
    using assms by (auto simp: float_text_def)
  then show "t \<noteq> []" "lead_kind (hd t) = 2 \<and> hd t \<notin> {CHR '']'', CHR ''}''}"
    using digit_lead [of "hd t"] by (auto simp: lead_kind_def)
qed

lemma render_lead:
  assumes "canonical_ok v"
  shows "render v \<noteq> [] \<and> lead_kind (hd (render v)) = value_kind v \<and> hd (render v) \<notin> {CHR '']'', CHR ''}''}"
proof (cases v)
  case (RInt i)
  then show ?thesis using render_int_hd [of i] digit_lead [of "hd (render_int i)"] by simp
next
  case (RFloat t)
  then show ?thesis using float_lead [of t] assms by simp
qed (simp_all add: quote_def lead_kind_def)

lemma same_kind:
  assumes "canonical_ok x" "canonical_ok y" "render x @ s = render y @ t"
  shows "value_kind x = value_kind y"
  using render_lead [OF assms(1)] render_lead [OF assms(2)] assms(3) by (metis hd_append2)

lemma number_prefix:
  assumes "canonical_ok x" "canonical_ok y" "value_kind x = 2" "delimited s" "delimited t"
    and "render x @ s = render y @ t"
  shows "x = y \<and> s = t"
proof -
  have tokens: "token (render v)" if "canonical_ok v" "value_kind v = 2" for v
    using that by (cases v) (simp_all add: int_token float_token)
  have kind: "value_kind y = 2" using same_kind [OF assms(1,2,6)] assms(3) by simp
  have eq: "render x = render y \<and> s = t"
    using token_prefix [OF tokens tokens] assms kind by blast
  then have "x = y"
    using assms(1-3) kind int_not_float [symmetric] by (cases x; cases y) (auto dest: render_int_inject int_not_float)
  with eq show ?thesis by simp
qed

lemma list_prefix:
  assumes "\<And>x y s t. x \<in> set xs \<Longrightarrow> y \<in> set ys \<Longrightarrow> delimited s \<Longrightarrow> delimited t \<Longrightarrow> render x @ s = render y @ t \<Longrightarrow> x = y \<and> s = t"
    and "list_all canonical_ok (xs @ ys)"
    and "render (RList xs) @ s = render (RList ys) @ t"
  shows "xs = ys \<and> s = t"
proof (rule sequences)
  show "determined render CHR '']'' xs ys"
    unfolding determined_def using assms(1,2) render_lead by (auto simp: list_all_iff)
  show "comma_separated (map render xs) @ CHR '']'' # s = comma_separated (map render ys) @ CHR '']'' # t"
    using assms(3) by simp
qed

lemma object_prefix:
  assumes "\<And>x y s t. x \<in> snd ` set xs \<Longrightarrow> y \<in> snd ` set ys \<Longrightarrow> delimited s \<Longrightarrow> delimited t \<Longrightarrow> render x @ s = render y @ t \<Longrightarrow> x = y \<and> s = t"
    and "list_all (list_all code_unit \<circ> fst) xs" "list_all (list_all code_unit \<circ> fst) ys"
    and "render (RObject xs) @ s = render (RObject ys) @ t"
  shows "xs = ys \<and> s = t"
proof (rule sequences)
  let ?p = "\<lambda>(k, v). quote k @ '':'' @ render v"
  have "a = b \<and> s = t" if "a \<in> set xs" "b \<in> set ys" "delimited s" "delimited t" "?p a @ s = ?p b @ t" for a b s t
  proof -
    have "quote (fst a) @ '':'' @ render (snd a) @ s = quote (fst b) @ '':'' @ render (snd b) @ t"
      using that(5) by (simp add: case_prod_beta)
    then have k: "fst a = fst b \<and> '':'' @ render (snd a) @ s = '':'' @ render (snd b) @ t"
      by (rule quote_prefix [rotated 2]) (use assms(2,3) that(1,2) in \<open>auto simp: list_all_iff\<close>)
    then have "snd a = snd b \<and> s = t" using assms(1) [of "snd a" "snd b" s t] that(1-4) by simp
    with k show ?thesis by (simp add: prod_eq_iff)
  qed
  then show "determined ?p CHR ''}'' xs ys"
    unfolding determined_def by (auto simp: quote_def)
  show "comma_separated (map ?p xs) @ CHR ''}'' # s = comma_separated (map ?p ys) @ CHR ''}'' # t"
    using assms(4) by simp
qed

lemma render_prefix:
  assumes "canonical_ok x" "canonical_ok y" "delimited s" "delimited t" "render x @ s = render y @ t"
  shows "x = y \<and> s = t"
  using assms
proof (induction x arbitrary: y s t)
  case RNull
  then show ?case using same_kind [OF RNull(1,2,5)] by (cases y) simp_all
next
  case (RBool b)
  then show ?case using same_kind [OF RBool(1,2,5)] by (cases y) (auto split: if_splits)
next
  case (RInt i)
  show ?case by (rule number_prefix [OF RInt(1,2) _ RInt(3-5)]) simp
next
  case (RFloat r)
  show ?case by (rule number_prefix [OF RFloat(1,2) _ RFloat(3-5)]) simp
next
  case (RStr k)
  obtain k' where y: "y = RStr k'" using same_kind [OF RStr(1,2,5)] RStr(2) by (cases y) simp_all
  have "k = k' \<and> s = t" by (rule quote_prefix) (use RStr in \<open>simp_all only: y canonical_ok.simps render.simps\<close>)
  then show ?case by (simp add: y)
next
  case (RList xs)
  obtain ys where y: "y = RList ys" using same_kind [OF RList.prems(1,2,5)] by (cases y) simp_all
  have "xs = ys \<and> s = t"
  proof (rule list_prefix)
    show "u = v \<and> s = t" if "u \<in> set xs" "v \<in> set ys" "delimited s" "delimited t" "render u @ s = render v @ t" for u v s t
      using RList.prems(1,2) that by (intro RList.IH) (auto simp: y list_all_iff)
  qed (use RList.prems in \<open>simp_all only: y canonical_ok.simps list_all_append simp_thms\<close>)
  then show ?case by (simp add: y)
next
  case (RObject xs)
  obtain ys where y: "y = RObject ys" using same_kind [OF RObject.prems(1,2,5)] by (cases y) simp_all
  have "xs = ys \<and> s = t"
  proof (rule object_prefix)
    show "u = v \<and> s = t"
      if uv: "u \<in> snd ` set xs" "v \<in> snd ` set ys" "delimited s" "delimited t" "render u @ s = render v @ t" for u v s t
    proof -
      obtain a b where ab: "a \<in> set xs" "u = snd a" "b \<in> set ys" "v = snd b" using uv(1,2) by blast
      then have "canonical_ok u" "canonical_ok v"
        using RObject.prems(1,2) by (auto simp: y list_all_iff)
      then show ?thesis using RObject.IH [OF ab(1), of u] uv(3-5) ab(2) by (simp add: snds.simps)
    qed
  qed (use RObject.prems in \<open>auto simp: y list_all_iff\<close>)
  then show ?case by (simp add: y)
qed simp

lemma canonical_ok_canonical: "floats_ok v \<Longrightarrow> canonical_ok (canonical v)"
proof (induction v)
  case (RObject kvs)
  then show ?case by (auto simp: list_all_iff snds.simps utf16_units_ok [unfolded list_all_iff])
qed (auto simp: list_all_iff utf16_units_ok [unfolded list_all_iff])

text \<open>The order in which an object's keys were written is not part of its canonical form.\<close>

lemma canonical_key_order:
  assumes "mset kvs = mset kvs'" "distinct (map fst kvs)"
  shows "canonical (RObject kvs) = canonical (RObject kvs')"
proof -
  let ?f = "\<lambda>(k, v). (k, canonical v)"
  have "inj_on fst (set (map ?f kvs))" using assms(2) by (fastforce simp: distinct_map inj_on_def)
  then have "sort_key fst (map ?f kvs) = sort_key fst (map ?f kvs')"
    using assms(1) by (intro sort_key_inj_key_eq) (simp_all add: mset_map)
  then show ?thesis by simp
qed



end
