(* ===== verification/Idempotency.thy ===== *)
theory Idempotency
  imports Canonical_Json
begin

section \<open>Idempotent operations\<close>

text \<open>
  \<open>saas_os/core/idempotency/\<close>: \<open>models.py\<close> (the record), \<open>config.py\<close> and \<open>service.py\<close>. A
  caller's key names one operation of one tenant; the stored record holds the fingerprint of the
  request and, once it succeeded, its result.

  \<open>run_idempotent\<close> couples a business function of the same transaction to its record: the
  function is an argument on its own state, which may fail, and may fail with the database's
  \<open>IntegrityError\<close>, the one class the source catches. The two-step primitive is three
  transactions, kept apart as \<open>reserve\<close>, \<open>decide_existing\<close> and \<open>reset_record\<close>, so that
  histories below may interleave them with those of other callers. The clock of the application
  and that of the database agree. A session bound to a tenant sees that tenant's rows only.

  A fingerprint is the SHA-256 of the request's canonical JSON (theory \<open>Canonical_Json\<close>).
\<close>

subsection \<open>Records and configuration\<close>

definition compute_fingerprint :: "request \<Rightarrow> string" where
  "compute_fingerprint request = sha256_hexdigest (dumps (RObject request))"

datatype idempotency_status = IDEM_PENDING | IDEM_SUCCEEDED | IDEM_FAILED

record idempotency_record =
  ir_id :: uuid
  ir_tenant_id :: uuid
  ir_operation :: string
  ir_idempotency_key :: string
  ir_fingerprint :: string
  ir_status :: idempotency_status
  ir_result :: "payload option"
  ir_expires_at :: datetime
  ir_updated_at :: datetime

record idempotency_store =
  idempotency_records :: "idempotency_record list"
  next_record_id :: uuid

record idempotency_config =
  ic_retention_seconds :: int
  ic_pending_ttl_seconds :: int

definition idempotency_config_ok :: "idempotency_config \<Rightarrow> bool" where
  "idempotency_config_ok cfg = (ic_retention_seconds cfg \<ge> 1 \<and> ic_pending_ttl_seconds cfg \<ge> 1)"

datatype 'e idempotency_error =
    IdempotencyKeyInvalidError
  | IdempotencyKeyReusedError uuid string string
  | IdempotencyInProgressError uuid string string
  | IdempotencyTenantError error
  | NoResultFound
  | AssertionError
  | BusinessFailure 'e

datatype 'e business_error = BusinessIntegrityError | BusinessError 'e

subsection \<open>Validation\<close>

definition MAX_KEY_LENGTH :: nat where
  "MAX_KEY_LENGTH = 200"

definition MAX_OPERATION_LENGTH :: nat where
  "MAX_OPERATION_LENGTH = 100"

definition safe_key_character :: "char \<Rightarrow> bool" where
  "safe_key_character c = (let n = of_char c :: nat in
     65 \<le> n \<and> n \<le> 90 \<or> 97 \<le> n \<and> n \<le> 122 \<or> 48 \<le> n \<and> n \<le> 57 \<or> n \<in> {46, 95, 126, 45})"

text \<open>The final \<open>$\<close> of the pattern also matches before one trailing newline.\<close>

definition safe_key :: "string \<Rightarrow> bool" where
  "safe_key s = (let s' = chomp s in
     list_all safe_key_character s' \<and> 1 \<le> length s' \<and> length s' \<le> 200)"

definition validate_idempotency_key :: "string \<Rightarrow> 'e idempotency_error + unit" where
  "validate_idempotency_key key =
     require (key \<noteq> [] \<and> length key \<le> MAX_KEY_LENGTH \<and> safe_key key) IdempotencyKeyInvalidError"

definition validate_operation :: "string \<Rightarrow> 'e idempotency_error + unit" where
  "validate_operation operation =
     require (operation \<noteq> [] \<and> length operation \<le> MAX_OPERATION_LENGTH) IdempotencyKeyInvalidError"

definition idempotency_expires_at :: "idempotency_config \<Rightarrow> datetime \<Rightarrow> datetime" where
  "idempotency_expires_at cfg now = now + ic_retention_seconds cfg * 1000000"

definition check_request :: "db \<Rightarrow> uuid \<Rightarrow> string \<Rightarrow> string \<Rightarrow> 'e idempotency_error + unit" where
  "check_request d tenant_id operation key =
     ebind (validate_operation operation) (\<lambda>_.
     ebind (validate_idempotency_key key) (\<lambda>_.
     (case require_open_tenant d tenant_id of
        Inl e \<Rightarrow> Inl (IdempotencyTenantError e)
      | Inr _ \<Rightarrow> Inr ())))"

subsection \<open>The transactions\<close>

definition same_key :: "uuid \<Rightarrow> string \<Rightarrow> string \<Rightarrow> idempotency_record \<Rightarrow> bool" where
  "same_key tenant_id operation key r =
     (ir_tenant_id r = tenant_id \<and> ir_operation r = operation \<and> ir_idempotency_key r = key)"

definition existing_record :: "idempotency_store \<Rightarrow> uuid \<Rightarrow> string \<Rightarrow> string \<Rightarrow> idempotency_record option" where
  "existing_record st tenant_id operation key = find (same_key tenant_id operation key) (idempotency_records st)"

text \<open>The insertion of a reservation; \<open>None\<close> is the unique constraint's \<open>IntegrityError\<close>.\<close>

definition new_record ::
  "idempotency_config \<Rightarrow> datetime \<Rightarrow> uuid \<Rightarrow> uuid \<Rightarrow> string \<Rightarrow> string \<Rightarrow> string \<Rightarrow> idempotency_record" where
  "new_record cfg now i tenant_id operation key fingerprint = \<lparr>ir_id = i, ir_tenant_id = tenant_id,
     ir_operation = operation, ir_idempotency_key = key, ir_fingerprint = fingerprint,
     ir_status = IDEM_PENDING, ir_result = None,
     ir_expires_at = idempotency_expires_at cfg now, ir_updated_at = now\<rparr>"

definition reserve ::
  "idempotency_config \<Rightarrow> datetime \<Rightarrow> idempotency_store \<Rightarrow> uuid \<Rightarrow> string \<Rightarrow> string \<Rightarrow> string
    \<Rightarrow> (idempotency_store \<times> uuid) option" where
  "reserve cfg now st tenant_id operation key fingerprint =
     (if existing_record st tenant_id operation key \<noteq> None then None
      else (let i = next_record_id st in
        Some (st\<lparr>idempotency_records := idempotency_records st @
            [new_record cfg now i tenant_id operation key fingerprint],
          next_record_id := i + 1\<rparr>, i)))"

definition update_record ::
  "uuid \<Rightarrow> uuid \<Rightarrow> (idempotency_record \<Rightarrow> idempotency_record) \<Rightarrow> idempotency_store \<Rightarrow> idempotency_store" where
  "update_record tenant_id i f st =
     st\<lparr>idempotency_records := update_where (\<lambda>r. ir_id r = i \<and> ir_tenant_id r = tenant_id) f
       (idempotency_records st)\<rparr>"

definition resolve_existing ::
  "idempotency_store \<Rightarrow> uuid \<Rightarrow> string \<Rightarrow> string \<Rightarrow> string \<Rightarrow> 'e idempotency_error + payload" where
  "resolve_existing st tenant_id operation key fingerprint =
     (case existing_record st tenant_id operation key of
        None \<Rightarrow> Inl NoResultFound
      | Some existing \<Rightarrow>
          if ir_fingerprint existing \<noteq> fingerprint
          then Inl (IdempotencyKeyReusedError tenant_id operation key)
          else if ir_status existing = IDEM_SUCCEEDED
          then Inr (case ir_result existing of None \<Rightarrow> [] | Some result \<Rightarrow> result)
          else Inl (IdempotencyInProgressError tenant_id operation key))"

definition run_idempotent ::
  "idempotency_config \<Rightarrow> db \<Rightarrow> datetime \<Rightarrow> idempotency_store \<Rightarrow> uuid \<Rightarrow> string \<Rightarrow> string \<Rightarrow> request
    \<Rightarrow> ('s \<Rightarrow> 'e business_error + ('s \<times> payload)) \<Rightarrow> 's
    \<Rightarrow> 'e idempotency_error + (idempotency_store \<times> 's \<times> bool \<times> payload)" where
  "run_idempotent cfg d now st tenant_id operation key request business s =
     ebind (check_request d tenant_id operation key) (\<lambda>_.
     let fingerprint = compute_fingerprint request;
         replay = ebind (resolve_existing st tenant_id operation key fingerprint)
           (\<lambda>result. Inr (st, s, True, result))
     in case reserve cfg now st tenant_id operation key fingerprint of
          None \<Rightarrow> replay
        | Some (st1, i) \<Rightarrow> (case business s of
              Inl BusinessIntegrityError \<Rightarrow> replay
            | Inl (BusinessError e) \<Rightarrow> Inl (BusinessFailure e)
            | Inr (s', result) \<Rightarrow>
                Inr (update_record tenant_id i (\<lambda>r. r\<lparr>ir_status := IDEM_SUCCEEDED,
                    ir_result := Some result, ir_updated_at := now\<rparr>) st1, s', False, result)))"

record idempotency_reservation =
  rv_is_replay :: bool
  rv_result :: "payload option"
  rv_record_id :: uuid

datatype existing_decision = Replay_It payload | Retry_It

definition decide_existing ::
  "idempotency_config \<Rightarrow> datetime \<Rightarrow> uuid \<Rightarrow> string \<Rightarrow> string \<Rightarrow> string \<Rightarrow> idempotency_record
    \<Rightarrow> 'e idempotency_error + existing_decision" where
  "decide_existing cfg now tenant_id operation key fingerprint existing =
     (if ir_fingerprint existing \<noteq> fingerprint
      then Inl (IdempotencyKeyReusedError tenant_id operation key)
      else if ir_status existing = IDEM_SUCCEEDED
      then Inr (Replay_It (case ir_result existing of None \<Rightarrow> [] | Some result \<Rightarrow> result))
      else if ir_status existing = IDEM_PENDING \<and>
              now - ir_updated_at existing < ic_pending_ttl_seconds cfg * 1000000
      then Inl (IdempotencyInProgressError tenant_id operation key)
      else Inr Retry_It)"

definition reset_record ::
  "idempotency_config \<Rightarrow> datetime \<Rightarrow> idempotency_store \<Rightarrow> uuid \<Rightarrow> uuid \<Rightarrow> 'e idempotency_error + idempotency_store" where
  "reset_record cfg now st tenant_id i =
     (if list_ex (\<lambda>r. ir_id r = i \<and> ir_tenant_id r = tenant_id) (idempotency_records st)
      then Inr (update_record tenant_id i (\<lambda>r. r\<lparr>ir_status := IDEM_PENDING,
        ir_expires_at := idempotency_expires_at cfg now, ir_updated_at := now\<rparr>) st)
      else Inl AssertionError)"

definition begin_idempotent_operation ::
  "idempotency_config \<Rightarrow> db \<Rightarrow> datetime \<Rightarrow> idempotency_store \<Rightarrow> uuid \<Rightarrow> string \<Rightarrow> string \<Rightarrow> request
    \<Rightarrow> 'e idempotency_error + (idempotency_store \<times> idempotency_reservation)" where
  "begin_idempotent_operation cfg d now st tenant_id operation key request =
     ebind (check_request d tenant_id operation key) (\<lambda>_.
     let fingerprint = compute_fingerprint request in
     case reserve cfg now st tenant_id operation key fingerprint of
       Some (st1, i) \<Rightarrow> Inr (st1, \<lparr>rv_is_replay = False, rv_result = None, rv_record_id = i\<rparr>)
     | None \<Rightarrow> (case existing_record st tenant_id operation key of
         None \<Rightarrow> Inl NoResultFound
       | Some existing \<Rightarrow>
           ebind (decide_existing cfg now tenant_id operation key fingerprint existing) (\<lambda>decision.
           case decision of
             Replay_It result \<Rightarrow>
               Inr (st, \<lparr>rv_is_replay = True, rv_result = Some result, rv_record_id = ir_id existing\<rparr>)
           | Retry_It \<Rightarrow>
               ebind (reset_record cfg now st tenant_id (ir_id existing)) (\<lambda>st1.
               Inr (st1, \<lparr>rv_is_replay = False, rv_result = None, rv_record_id = ir_id existing\<rparr>)))))"

definition finalize_idempotent_operation ::
  "datetime \<Rightarrow> idempotency_store \<Rightarrow> uuid \<Rightarrow> uuid \<Rightarrow> idempotency_status \<Rightarrow> payload option \<Rightarrow> idempotency_store" where
  "finalize_idempotent_operation now st tenant_id i status result =
     update_record tenant_id i (\<lambda>r. r\<lparr>ir_status := status, ir_result := result, ir_updated_at := now\<rparr>) st"

definition purge_expired_idempotency_records :: "datetime \<Rightarrow> idempotency_store \<Rightarrow> uuid \<Rightarrow> idempotency_store \<times> nat" where
  "purge_expired_idempotency_records now st tenant_id =
     (let stale = (\<lambda>r. ir_tenant_id r = tenant_id \<and> ir_expires_at r < now) in
      (st\<lparr>idempotency_records := delete_where stale (idempotency_records st)\<rparr>,
       length (filter stale (idempotency_records st))))"

definition purge_tenant_idempotency_records ::
  "db \<Rightarrow> idempotency_store \<Rightarrow> uuid \<Rightarrow> error + (idempotency_store \<times> nat)" where
  "purge_tenant_idempotency_records d st tenant_id =
     ebind (require_purging_tenant d tenant_id) (\<lambda>_.
     let own = (\<lambda>r. ir_tenant_id r = tenant_id) in
     Inr (st\<lparr>idempotency_records := delete_where own (idempotency_records st)\<rparr>,
       length (filter own (idempotency_records st))))"

end
