(* ===== verification/Idempotency_Properties.thy ===== *)
theory Idempotency_Properties
  imports Idempotency Fixture
begin

section \<open>What an idempotency key guarantees\<close>

text \<open>
  Histories are sequences of the module's transactions, those of concurrent callers interleaved.
  The second component of a state holds the records some caller has read and decided to retry:
  its reset is a transaction of its own and may come at any later moment.
\<close>

datatype idempotency_action =
    Reserve_Step datetime uuid string string string
  | Look_Step datetime uuid string string string
  | Reset_Step datetime uuid uuid
  | Run_Step datetime uuid string string string "payload option"
  | Finalize_Step datetime uuid uuid idempotency_status "payload option"
  | Purge_Expired_Step datetime uuid
  | Purge_Tenant_Step uuid

type_synonym idempotency_state = "idempotency_store \<times> uuid list"

definition reserved :: "idempotency_store \<Rightarrow> (idempotency_store \<times> uuid) option \<Rightarrow> idempotency_store" where
  "reserved st r = (case r of None \<Rightarrow> st | Some (st', _) \<Rightarrow> st')"

definition succeed :: "datetime \<Rightarrow> uuid \<Rightarrow> uuid \<Rightarrow> payload \<Rightarrow> idempotency_store \<Rightarrow> idempotency_store" where
  "succeed now t i result = update_record t i (\<lambda>r. r\<lparr>ir_status := IDEM_SUCCEEDED,
     ir_result := Some result, ir_updated_at := now\<rparr>)"

fun idem_after :: "idempotency_config \<Rightarrow> idempotency_action \<Rightarrow> idempotency_state \<Rightarrow> idempotency_state" where
  "idem_after cfg (Reserve_Step now t op k fp) (st, looked) = (reserved st (reserve cfg now st t op k fp), looked)"
| "idem_after cfg (Look_Step now t op k fp) (st, looked) =
     (st, case existing_record st t op k of None \<Rightarrow> looked
        | Some r \<Rightarrow> if decide_existing cfg now t op k fp r = (Inr Retry_It :: unit idempotency_error + _)
                    then ir_id r # looked else looked)"
| "idem_after cfg (Reset_Step now t i) (st, looked) =
     (if i \<in> set looked then case reset_record cfg now st t i of
        (Inl (_ :: unit idempotency_error)) \<Rightarrow> st | Inr st' \<Rightarrow> st' else st, looked)"
| "idem_after cfg (Run_Step now t op k fp outcome) (st, looked) =
     (case (reserve cfg now st t op k fp, outcome) of
        (Some (st1, i), Some result) \<Rightarrow> succeed now t i result st1 | _ \<Rightarrow> st, looked)"
| "idem_after cfg (Finalize_Step now t i status result) (st, looked) =
     (finalize_idempotent_operation now st t i status result, looked)"
| "idem_after cfg (Purge_Expired_Step now t) (st, looked) =
     (fst (purge_expired_idempotency_records now st t), looked)"
| "idem_after cfg (Purge_Tenant_Step t) (st, looked) =
     (st\<lparr>idempotency_records := delete_where (\<lambda>r. ir_tenant_id r = t) (idempotency_records st)\<rparr>, looked)"

fun idem_all :: "idempotency_config \<Rightarrow> idempotency_action list \<Rightarrow> idempotency_state \<Rightarrow> idempotency_state" where
  "idem_all cfg [] s = s"
| "idem_all cfg (a # as) s = idem_all cfg as (idem_after cfg a s)"

text \<open>A history leaves the record \<open>r\<close> alone when it neither finalizes nor deletes it, and when a
  caller that reads it does not find it abandoned.\<close>

definition not_retried :: "idempotency_config \<Rightarrow> datetime \<Rightarrow> idempotency_record \<Rightarrow> bool" where
  "not_retried cfg now r = (ir_status r = IDEM_SUCCEEDED \<or>
     ir_status r = IDEM_PENDING \<and> now - ir_updated_at r < ic_pending_ttl_seconds cfg * 1000000)"

fun spares :: "idempotency_config \<Rightarrow> idempotency_record \<Rightarrow> idempotency_action \<Rightarrow> bool" where
  "spares cfg r (Look_Step now t op k fp) \<longleftrightarrow> not_retried cfg now r"
| "spares cfg r (Finalize_Step now t i status result) \<longleftrightarrow> t \<noteq> ir_tenant_id r \<or> i \<noteq> ir_id r"
| "spares cfg r (Purge_Expired_Step now t) \<longleftrightarrow> t \<noteq> ir_tenant_id r \<or> now \<le> ir_expires_at r"
| "spares cfg r (Purge_Tenant_Step t) \<longleftrightarrow> t \<noteq> ir_tenant_id r"
| "spares cfg r _ \<longleftrightarrow> True"

subsection \<open>The store stays keyed\<close>

definition store_ok :: "idempotency_state \<Rightarrow> bool" where
  "store_ok s = (distinct (map ir_id (idempotency_records (fst s))) \<and>
     distinct (map (\<lambda>r. (ir_tenant_id r, ir_operation r, ir_idempotency_key r)) (idempotency_records (fst s))) \<and>
     list_all (\<lambda>r. ir_id r < next_record_id (fst s)) (idempotency_records (fst s)) \<and>
     list_all (\<lambda>i. i < next_record_id (fst s)) (snd s))"

abbreviation record_key :: "idempotency_record \<Rightarrow> uuid \<times> string \<times> string" where
  "record_key r \<equiv> (ir_tenant_id r, ir_operation r, ir_idempotency_key r)"

lemma same_key_iff: "same_key t op k r \<longleftrightarrow> record_key r = (t, op, k)"
  by (simp add: same_key_def)

lemma existing_record_iff:
  assumes "distinct (map record_key (idempotency_records st))"
  shows "existing_record st t op k = Some r \<longleftrightarrow> r \<in> set (idempotency_records st) \<and> record_key r = (t, op, k)"
  unfolding existing_record_def same_key_iff [abs_def]
proof
  assume "find (\<lambda>r. record_key r = (t, op, k)) (idempotency_records st) = Some r"
  then show "r \<in> set (idempotency_records st) \<and> record_key r = (t, op, k)" by (rule find_SomeD)
next
  assume "r \<in> set (idempotency_records st) \<and> record_key r = (t, op, k)"
  with find_unique [OF assms, of r]
  show "find (\<lambda>r. record_key r = (t, op, k)) (idempotency_records st) = Some r" by simp
qed

lemma existing_record_None:
  "existing_record st t op k = None \<longleftrightarrow> (t, op, k) \<notin> record_key ` set (idempotency_records st)"
  unfolding existing_record_def same_key_iff [abs_def] find_None_iff_all by (auto simp: image_iff)

text \<open>A reservation appends one record; the other transactions rewrite or drop records in place.\<close>

lemma reserve_SomeD:
  assumes "reserve cfg now st t op k fp = Some (st', i)"
  shows "idempotency_records st' = idempotency_records st @ [new_record cfg now i t op k fp]"
    "i = next_record_id st" "next_record_id st' = i + 1" "(t, op, k) \<notin> record_key ` set (idempotency_records st)"
proof -
  have "existing_record st t op k = None" and st': "st' = st\<lparr>idempotency_records := idempotency_records st @
      [new_record cfg now i t op k fp], next_record_id := i + 1\<rparr>" and i: "i = next_record_id st"
    using assms unfolding reserve_def Let_def by (auto split: if_splits)
  then show "(t, op, k) \<notin> record_key ` set (idempotency_records st)" by (simp only: existing_record_None simp_thms)
  show "idempotency_records st' = idempotency_records st @ [new_record cfg now i t op k fp]"
    "i = next_record_id st" "next_record_id st' = i + 1"
    by (simp_all add: st' i)
qed

lemma new_record_simps [simp]:
  "ir_id (new_record cfg now i t op k fp) = i"
  "ir_tenant_id (new_record cfg now i t op k fp) = t"
  "ir_operation (new_record cfg now i t op k fp) = op"
  "ir_idempotency_key (new_record cfg now i t op k fp) = k"
  "ir_fingerprint (new_record cfg now i t op k fp) = fp"
  "ir_status (new_record cfg now i t op k fp) = IDEM_PENDING"
  "ir_updated_at (new_record cfg now i t op k fp) = now"
  "ir_expires_at (new_record cfg now i t op k fp) = idempotency_expires_at cfg now"
  by (simp_all add: new_record_def)

definition in_place :: "idempotency_store \<Rightarrow> idempotency_store \<Rightarrow> bool" where
  "in_place st st' = (next_record_id st' = next_record_id st \<and>
     (\<exists>f p. (\<forall>r. ir_id (f r) = ir_id r \<and> record_key (f r) = record_key r) \<and>
        idempotency_records st' = map f (filter p (idempotency_records st))))"

lemma in_place_update:
  assumes "\<And>r. ir_id (f r) = ir_id r \<and> record_key (f r) = record_key r"
  shows "in_place st (update_record t i f st)"
  unfolding in_place_def update_record_def
  using assms by (auto simp: update_where_def intro!: exI [of _ "\<lambda>r. if ir_id r = i \<and> ir_tenant_id r = t then f r else r"]
      exI [of _ "\<lambda>_. True"])

lemma in_place_refl: "in_place st st"
  unfolding in_place_def by (auto intro!: exI [of _ id] exI [of _ "\<lambda>_. True"])

lemma in_place_delete: "in_place st (st\<lparr>idempotency_records := delete_where p (idempotency_records st)\<rparr>)"
  unfolding in_place_def delete_where_def by (auto intro!: exI [of _ id])

lemma in_place_ok:
  assumes "in_place st st'" "store_ok (st, looked)"
  shows "store_ok (st', looked)"
proof -
  obtain f p where f: "\<And>r. ir_id (f r) = ir_id r" "\<And>r. record_key (f r) = record_key r"
      "idempotency_records st' = map f (filter p (idempotency_records st))"
    and next_id: "next_record_id st' = next_record_id st"
    using assms(1) unfolding in_place_def by blast
  have "ir_id \<circ> f = ir_id" "record_key \<circ> f = record_key" using f(1,2) by (simp_all add: fun_eq_iff)
  with f next_id assms(2) show ?thesis
    by (auto simp: store_ok_def list_all_iff distinct_map_filter)
qed

lemma reserve_ok:
  assumes "reserve cfg now st t op k fp = Some (st', i)" "store_ok (st, looked)"
  shows "store_ok (st', looked)"
  using assms(2) reserve_SomeD [OF assms(1)]
  by (auto simp: store_ok_def list_all_iff less_Suc_eq image_iff)

lemma succeed_in_place: "in_place st (succeed now t i result st)"
  unfolding succeed_def by (rule in_place_update) simp

lemma reset_in_place: "reset_record cfg now st t i = Inr st' \<Longrightarrow> in_place st st'"
  by (auto simp: reset_record_def intro!: in_place_update split: if_splits)

lemma finalize_in_place: "in_place st (finalize_idempotent_operation now st t i status result)"
  unfolding finalize_idempotent_operation_def by (rule in_place_update) simp

lemma purge_expired_in_place: "in_place st (fst (purge_expired_idempotency_records now st t))"
  unfolding purge_expired_idempotency_records_def Let_def fst_conv by (rule in_place_delete)

lemma look_ok:
  assumes "store_ok (st, looked)"
  shows "store_ok (idem_after cfg (Look_Step now t op k fp) (st, looked))"
  using assms by (auto simp: store_ok_def existing_record_iff list_all_iff split: option.splits)

lemma idem_after_ok:
  assumes "store_ok (st, looked)"
  shows "store_ok (idem_after cfg a (st, looked))"
proof (cases a)
  case Reserve_Step
  then show ?thesis using assms reserve_ok by (auto simp: reserved_def split: option.splits)
next
  case Look_Step
  then show ?thesis using look_ok [OF assms] by simp
next
  case Reset_Step
  then show ?thesis using assms reset_in_place in_place_ok by (fastforce split: sum.splits)
next
  case Run_Step
  then show ?thesis using assms reserve_ok succeed_in_place in_place_ok
    by (fastforce split: option.splits)
next
  case Finalize_Step
  then show ?thesis using finalize_in_place in_place_ok [OF _ assms] by simp
next
  case Purge_Expired_Step
  then show ?thesis using purge_expired_in_place in_place_ok [OF _ assms] by simp
next
  case Purge_Tenant_Step
  then show ?thesis using in_place_delete in_place_ok [OF _ assms] by simp
qed

subsection \<open>A settled record is left alone\<close>

definition keeps :: "idempotency_record \<Rightarrow> idempotency_state \<Rightarrow> bool" where
  "keeps r s = (store_ok s \<and> r \<in> set (idempotency_records (fst s)) \<and> ir_id r \<notin> set (snd s))"

lemma same_id:
  assumes "store_ok (st, looked)" "r \<in> set (idempotency_records st)" "r' \<in> set (idempotency_records st)"
    and "ir_id r' = ir_id r"
  shows "r' = r"
  using assms inj_onD [of ir_id "set (idempotency_records st)" r' r]
  by (simp add: store_ok_def distinct_map)

lemma update_other:
  assumes "r \<in> set (idempotency_records st)" "i \<noteq> ir_id r \<or> t \<noteq> ir_tenant_id r"
  shows "r \<in> set (idempotency_records (update_record t i f st))"
  using assms by (auto simp: update_record_def row_simps image_iff intro!: bexI [of _ r])

lemma look_keeps:
  assumes "keeps r (st, looked)" "not_retried cfg now r"
  shows "keeps r (idem_after cfg (Look_Step now t op k fp) (st, looked))"
proof -
  let ?dec = "decide_existing cfg now t op k fp :: _ \<Rightarrow> unit idempotency_error + _"
  have no: "?dec r \<noteq> Inr Retry_It"
    using assms(2) by (auto simp: decide_existing_def not_retried_def)
  have same: "ir_id r' \<noteq> ir_id r" if found: "existing_record st t op k = Some r'" "?dec r' = Inr Retry_It" for r'
  proof
    assume eq: "ir_id r' = ir_id r"
    have "r' \<in> set (idempotency_records st)" using found(1) by (auto simp: existing_record_def dest: find_SomeD)
    then have "r' = r" using same_id [OF _ _ _ eq] assms(1) by (auto simp: keeps_def)
    with no found(2) show False by simp
  qed
  have "ir_id r \<notin> set (snd (idem_after cfg (Look_Step now t op k fp) (st, looked)))"
  proof (cases "existing_record st t op k")
    case None
    then show ?thesis using assms(1) by (simp add: keeps_def)
  next
    case (Some r')
    then show ?thesis using same [OF Some] assms(1) by (auto simp: keeps_def)
  qed
  then show ?thesis using assms(1) look_ok by (simp add: keeps_def)
qed

lemma reserve_keeps:
  assumes "reserve cfg now st t op k fp = Some (st', i)" "keeps r (st, looked)"
  shows "keeps r (st', looked)" "i \<noteq> ir_id r"
proof -
  have "r \<in> set (idempotency_records st')" "i = next_record_id st"
    using assms(2) reserve_SomeD [OF assms(1)] by (simp_all add: keeps_def)
  then show "keeps r (st', looked)" "i \<noteq> ir_id r"
    using assms(2) reserve_ok [OF assms(1)] by (auto simp: keeps_def store_ok_def list_all_iff)
qed

lemma in_place_keeps:
  assumes "in_place st st'" "keeps r (st, looked)" "r \<in> set (idempotency_records st')"
  shows "keeps r (st', looked)"
  using assms in_place_ok by (auto simp: keeps_def)

lemma idem_after_keeps:
  assumes "keeps r (st, looked)" "spares cfg r a"
  shows "keeps r (idem_after cfg a (st, looked))"
proof (cases a)
  case Reserve_Step
  then show ?thesis using assms reserve_keeps by (auto simp: reserved_def split: option.splits)
next
  case Look_Step
  then show ?thesis using look_keeps [OF assms(1)] assms(2) by simp
next
  case (Reset_Step now t i)
  have "keeps r (st', looked)" if st': "i \<in> set looked" "reset_record cfg now st t i = Inr st'" for st'
  proof (rule in_place_keeps [OF reset_in_place [OF st'(2)] assms(1)])
    have "i \<noteq> ir_id r" "r \<in> set (idempotency_records st)" using assms(1) st'(1) by (auto simp: keeps_def)
    then show "r \<in> set (idempotency_records st')"
      using st'(2) update_other by (auto simp: reset_record_def split: if_splits)
  qed
  then show ?thesis using assms(1) Reset_Step by (auto split: sum.splits)
next
  case (Run_Step now t op k fp outcome)
  have "keeps r (succeed now t i result st1, looked)" if res: "reserve cfg now st t op k fp = Some (st1, i)"
    for st1 i result
  proof (rule in_place_keeps [OF succeed_in_place])
    show k1: "keeps r (st1, looked)" by (rule reserve_keeps [OF res assms(1)])
    show "r \<in> set (idempotency_records (succeed now t i result st1))"
      unfolding succeed_def using k1 reserve_keeps(2) [OF res assms(1)] by (auto simp: keeps_def intro!: update_other)
  qed
  then show ?thesis using assms(1) Run_Step by (auto split: option.splits)
next
  case (Finalize_Step now t i status result)
  have "r \<in> set (idempotency_records (finalize_idempotent_operation now st t i status result))"
    unfolding finalize_idempotent_operation_def
    by (rule update_other) (use assms Finalize_Step in \<open>auto simp: keeps_def\<close>)
  then show ?thesis
    using in_place_keeps [OF finalize_in_place assms(1)] Finalize_Step by simp
next
  case (Purge_Expired_Step now t)
  have "r \<in> set (idempotency_records (fst (purge_expired_idempotency_records now st t)))"
    using assms Purge_Expired_Step by (auto simp: purge_expired_idempotency_records_def Let_def keeps_def row_simps)
  then show ?thesis using in_place_keeps [OF purge_expired_in_place assms(1)] Purge_Expired_Step by simp
next
  case (Purge_Tenant_Step t)
  have "r \<in> set (delete_where (\<lambda>r. ir_tenant_id r = t) (idempotency_records st))"
    using assms Purge_Tenant_Step by (auto simp: keeps_def row_simps)
  then show ?thesis using in_place_keeps [OF in_place_delete assms(1)] Purge_Tenant_Step by simp
qed

lemma idem_all_keeps:
  "keeps r s \<Longrightarrow> list_all (spares cfg r) as \<Longrightarrow> keeps r (idem_all cfg as s)"
proof (induction as arbitrary: s)
  case (Cons a as)
  then show ?case by (cases s) (simp add: idem_after_keeps)
qed simp

lemma idem_all_ok: "store_ok s \<Longrightarrow> store_ok (idem_all cfg as s)"
proof (induction as arbitrary: s)
  case (Cons a as)
  then show ?case by (cases s) (simp add: idem_after_ok)
qed simp

subsection \<open>At most once\<close>

lemma kept_found:
  "keeps r s \<Longrightarrow> existing_record (fst s) (ir_tenant_id r) (ir_operation r) (ir_idempotency_key r) = Some r"
  by (cases s) (simp add: keeps_def store_ok_def existing_record_iff)

lemma run_on_existing:
  assumes "check_request d t op k = (Inr () :: 'e idempotency_error + unit)" "existing_record st t op k = Some r"
  shows "run_idempotent cfg d now st t op k req f s = (ebind (resolve_existing st t op k (compute_fingerprint req))
    (\<lambda>result. Inr (st, s, True, result)) :: 'e idempotency_error + _)"
  using assms by (simp add: run_idempotent_def reserve_def Let_def)

lemma run_fresh:
  assumes "run_idempotent cfg d now st t op k req f s = Inr (st1, s1, False, result)"
  obtains st0 i where "reserve cfg now st t op k (compute_fingerprint req) = Some (st0, i)"
    "st1 = succeed now t i result st0" "f s = Inr (s1, result)"
  using assms unfolding run_idempotent_def succeed_def Let_def
  by (auto split: option.splits sum.splits business_error.splits)

definition succeeded_record ::
  "idempotency_config \<Rightarrow> datetime \<Rightarrow> uuid \<Rightarrow> uuid \<Rightarrow> string \<Rightarrow> string \<Rightarrow> string \<Rightarrow> payload \<Rightarrow> idempotency_record" where
  "succeeded_record cfg now i t op k fp result =
     (new_record cfg now i t op k fp)\<lparr>ir_status := IDEM_SUCCEEDED, ir_result := Some result\<rparr>"

lemma succeed_new:
  assumes "store_ok (st, looked)" "reserve cfg now st t op k fp = Some (st0, i)"
  shows "keeps (succeeded_record cfg now i t op k fp result) (succeed now t i result st0, looked)"
proof -
  have ok: "store_ok (succeed now t i result st0, looked)"
    by (rule in_place_ok [OF succeed_in_place reserve_ok [OF assms(2,1)]])
  have "new_record cfg now i t op k fp \<in> set (idempotency_records st0)"
    using reserve_SomeD(1) [OF assms(2)] by simp
  then have "succeeded_record cfg now i t op k fp result \<in> set (idempotency_records (succeed now t i result st0))"
    by (auto simp: succeed_def update_record_def row_simps succeeded_record_def new_record_def image_iff
        intro!: bexI [of _ "new_record cfg now i t op k fp"])
  moreover have "i \<notin> set looked"
    using assms(1) reserve_SomeD(2) [OF assms(2)] by (auto simp: store_ok_def list_all_iff)
  ultimately show ?thesis using ok by (simp add: keeps_def succeeded_record_def)
qed

lemma check_request_later:
  assumes "check_request d t op k = (Inr () :: 'e idempotency_error + unit)" "require_open_tenant d' t = Inr tn"
  shows "check_request d' t op k = (Inr () :: 'f idempotency_error + unit)"
  using assms by (auto simp: check_request_def validate_operation_def validate_idempotency_key_def
      require_def split: if_splits sum.splits)

lemma run_checked:
  "run_idempotent cfg d now st t op k req f s = (Inr x :: 'e idempotency_error + _) \<Longrightarrow>
    check_request d t op k = (Inr () :: 'e idempotency_error + unit)"
  by (cases "check_request d t op k :: 'e idempotency_error + unit") (auto simp: run_idempotent_def)

lemma begin_checked:
  "begin_idempotent_operation cfg d now st t op k req = (Inr x :: 'e idempotency_error + _) \<Longrightarrow>
    check_request d t op k = (Inr () :: 'e idempotency_error + unit)"
  by (cases "check_request d t op k :: 'e idempotency_error + unit") (auto simp: begin_idempotent_operation_def)

text \<open>C34: an operation that succeeded under a key is never performed again. After a run committed
  its result, whatever transactions of whatever callers follow in whatever order, as long as the
  record itself is neither deleted by retention or purge nor finalized by hand, a repeated call
  with the same request changes nothing, does not run its business function and returns the
  stored result; a call with another request under the same key is refused.\<close>

theorem completed_run_is_replayed:
  fixes f :: "'s \<Rightarrow> 'e business_error + ('s \<times> payload)" and g :: "'u \<Rightarrow> 'f business_error + ('u \<times> payload)"
  assumes "store_ok (st, looked)"
    and "run_idempotent cfg d now st t op k req f s = Inr (st1, s1, False, result)"
    and "existing_record st1 t op k = Some r" "list_all (spares cfg r) as"
    and "require_open_tenant d2 t = Inr tn"
  shows "let st2 = fst (idem_all cfg as (st1, looked)) in
    run_idempotent cfg d2 now2 st2 t op k req g u = Inr (st2, u, True, result) \<and>
    (\<forall>req'. compute_fingerprint req' \<noteq> compute_fingerprint req \<longrightarrow>
       run_idempotent cfg d2 now2 st2 t op k req' g u = Inl (IdempotencyKeyReusedError t op k))"
proof -
  let ?r = "\<lambda>i. succeeded_record cfg now i t op k (compute_fingerprint req) result"
  obtain st0 i where res: "reserve cfg now st t op k (compute_fingerprint req) = Some (st0, i)"
      and st1: "st1 = succeed now t i result st0"
    using assms(2) by (rule run_fresh)
  have kept: "keeps (?r i) (st1, looked)" unfolding st1 by (rule succeed_new [OF assms(1) res])
  have key: "ir_tenant_id (?r i) = t" "ir_operation (?r i) = op" "ir_idempotency_key (?r i) = k"
    "ir_fingerprint (?r i) = compute_fingerprint req" "ir_status (?r i) = IDEM_SUCCEEDED" "ir_result (?r i) = Some result"
    by (simp_all add: succeeded_record_def)
  have "r = ?r i" using kept_found [OF kept] assms(3) by (simp add: key)
  then have "keeps (?r i) (idem_all cfg as (st1, looked))" using idem_all_keeps [OF kept] assms(4) by simp
  then have found: "existing_record (fst (idem_all cfg as (st1, looked))) t op k = Some (?r i)"
    using kept_found key by fastforce
  have ok: "check_request d2 t op k = (Inr () :: 'f idempotency_error + unit)"
    by (rule check_request_later [OF run_checked [OF assms(2)] assms(5)])
  show ?thesis unfolding Let_def run_on_existing [OF ok found]
    by (simp add: resolve_existing_def found key)
qed

text \<open>C35: a first reservation is exclusive while it may be running. After a key was reserved for an
  operation with an external call, and until the pending period has passed since, no other caller
  is given it, in any interleaving with other callers' transactions, unless the holder finalized
  it: the same request is told that it is in progress, through either primitive.\<close>

theorem first_reservation_is_exclusive:
  fixes g :: "'u \<Rightarrow> 'f business_error + ('u \<times> payload)"
  assumes "store_ok (st, looked)" "existing_record st t op k = None"
    and "begin_idempotent_operation cfg d now st t op k req = (Inr (st1, rv) :: 'e idempotency_error + _)"
    and "existing_record st1 t op k = Some r" "list_all (spares cfg r) as"
    and "require_open_tenant d2 t = Inr tn" "now2 - now < ic_pending_ttl_seconds cfg * 1000000"
  shows "let st2 = fst (idem_all cfg as (st1, looked)) in
    begin_idempotent_operation cfg d2 now2 st2 t op k req =
      (Inl (IdempotencyInProgressError t op k) :: 'f idempotency_error + _) \<and>
    run_idempotent cfg d2 now2 st2 t op k req g u = Inl (IdempotencyInProgressError t op k)"
proof -
  note checked = begin_checked [OF assms(3)]
  obtain i where res: "reserve cfg now st t op k (compute_fingerprint req) = Some (st1, i)"
    using assms(2,3) checked by (auto simp: begin_idempotent_operation_def reserve_def Let_def)
  let ?r = "new_record cfg now i t op k (compute_fingerprint req)"
  have "i \<notin> set looked" using assms(1) reserve_SomeD(2) [OF res] by (auto simp: store_ok_def list_all_iff)
  then have kept: "keeps ?r (st1, looked)"
    using reserve_ok [OF res assms(1)] reserve_SomeD(1) [OF res] by (simp add: keeps_def)
  then have "r = ?r" using kept_found [OF kept] assms(4) by simp
  then have "keeps ?r (idem_all cfg as (st1, looked))" using idem_all_keeps [OF kept] assms(5) by simp
  then have found: "existing_record (fst (idem_all cfg as (st1, looked))) t op k = Some ?r"
    using kept_found by fastforce
  have ok: "check_request d2 t op k = (Inr () :: 'f idempotency_error + unit)"
    by (rule check_request_later [OF checked assms(6)])
  have "begin_idempotent_operation cfg d2 now2 (fst (idem_all cfg as (st1, looked))) t op k req =
      (Inl (IdempotencyInProgressError t op k) :: 'f idempotency_error + _)"
    using ok found assms(7) by (simp add: begin_idempotent_operation_def reserve_def decide_existing_def Let_def)
  then show ?thesis unfolding Let_def run_on_existing [OF ok found]
    by (simp add: resolve_existing_def found)
qed

subsection \<open>A small store\<close>

definition idem_config :: idempotency_config where
  "idem_config = \<lparr>ic_retention_seconds = 86400, ic_pending_ttl_seconds = 30\<rparr>"

definition empty_store :: idempotency_store where
  "empty_store = \<lparr>idempotency_records = [], next_record_id = 1\<rparr>"

definition count_call :: "nat \<Rightarrow> unit business_error + (nat \<times> payload)" where
  "count_call n = Inr (n + 1, [(''calls'', JString ''1'')])"

lemma open_sample: "require_open_tenant sample_db 1 = Inr (mk_tenant 1 ACTIVE None)"
  by code_simp

lemma sample_request: "check_request sample_db 1 ''op'' ''k-1'' = (Inr () :: unit idempotency_error + unit)"
  by code_simp

lemma empty_store_ok: "store_ok (empty_store, [])"
  by code_simp

theorem completed_run_is_replayed_witness:
  "\<exists>st1. run_idempotent idem_config sample_db 0 empty_store 1 ''op'' ''k-1'' [] count_call 0 =
       Inr (st1, 1, False, [(''calls'', JString ''1'')]) \<and>
     (let st2 = fst (idem_all idem_config [Look_Step 99 1 ''op'' ''k-1'' (compute_fingerprint []), Purge_Expired_Step 7 1]
        (st1, [])) in
      run_idempotent idem_config sample_db 9 st2 1 ''op'' ''k-1'' [] count_call 1 =
        Inr (st2, 1, True, [(''calls'', JString ''1'')]))"
proof -
  let ?r = "succeeded_record idem_config 0 1 1 ''op'' ''k-1'' (compute_fingerprint []) [(''calls'', JString ''1'')]"
  let ?st1 = "\<lparr>idempotency_records = [?r], next_record_id = 2\<rparr>"
  have run: "run_idempotent idem_config sample_db 0 empty_store 1 ''op'' ''k-1'' [] count_call 0 =
      Inr (?st1, 1, False, [(''calls'', JString ''1'')])"
    by (simp add: run_idempotent_def sample_request reserve_def existing_record_def empty_store_def count_call_def
        update_record_def update_where_def succeeded_record_def new_record_def Let_def del: One_nat_def)
  have found: "existing_record ?st1 1 ''op'' ''k-1'' = Some ?r"
    by (simp add: existing_record_def same_key_def succeeded_record_def)
  have "list_all (spares idem_config ?r) [Look_Step 99 1 ''op'' ''k-1'' (compute_fingerprint []), Purge_Expired_Step 7 1]"
    by (simp add: not_retried_def succeeded_record_def idempotency_expires_at_def idem_config_def)
  from completed_run_is_replayed [OF empty_store_ok run found this open_sample, of 9 count_call 1] run
  show ?thesis unfolding Let_def by blast
qed

theorem first_reservation_is_exclusive_witness:
  "\<exists>st1 rv. begin_idempotent_operation idem_config sample_db 0 empty_store 1 ''op'' ''k-1'' [] =
       (Inr (st1, rv) :: unit idempotency_error + _) \<and>
     begin_idempotent_operation idem_config sample_db 9 st1 1 ''op'' ''k-1'' [] =
       (Inl (IdempotencyInProgressError 1 ''op'' ''k-1'') :: unit idempotency_error + _)"
proof -
  let ?r = "new_record idem_config 0 1 1 ''op'' ''k-1'' (compute_fingerprint [])"
  let ?st1 = "\<lparr>idempotency_records = [?r], next_record_id = 2\<rparr>"
  let ?rv = "\<lparr>rv_is_replay = False, rv_result = None, rv_record_id = 1\<rparr>"
  have none: "existing_record empty_store 1 ''op'' ''k-1'' = None" by (simp add: existing_record_def empty_store_def)
  have begun: "begin_idempotent_operation idem_config sample_db 0 empty_store 1 ''op'' ''k-1'' [] =
      (Inr (?st1, ?rv) :: unit idempotency_error + _)"
    using none by (simp add: begin_idempotent_operation_def sample_request reserve_def empty_store_def Let_def del: One_nat_def)
  have found: "existing_record ?st1 1 ''op'' ''k-1'' = Some ?r"
    by (simp add: existing_record_def same_key_def)
  have spared: "list_all (spares idem_config ?r) []" by simp
  have "(9 :: int) - 0 < ic_pending_ttl_seconds idem_config * 1000000" by (simp add: idem_config_def)
  from first_reservation_is_exclusive [OF empty_store_ok none begun found spared open_sample this, of count_call 0] begun
  show ?thesis unfolding Let_def idem_all.simps(1) fst_conv by blast
qed

subsection \<open>Where the guarantee ends\<close>

text \<open>Two concurrent retries of a failed attempt: both read the record before either resets it, so
  both are given the operation, although the module promises that two concurrent callers never
  both reach the external call. Worse, the slower one resets the record after the faster one has
  finalized its success, which is then forgotten.\<close>

theorem concurrent_retries_both_proceed:
  assumes "store_ok (st, looked)" "existing_record st t op k = Some r"
    and "ir_status r = IDEM_FAILED" "ir_fingerprint r = fp"
  shows "decide_existing cfg now t op k fp r = Inr Retry_It" "decide_existing cfg now' t op k fp r = Inr Retry_It"
    "\<exists>st1 st2. reset_record cfg now st t (ir_id r) = Inr st1 \<and>
       reset_record cfg now' (finalize_idempotent_operation later st1 t (ir_id r) IDEM_SUCCEEDED (Some result)) t (ir_id r) =
         Inr st2 \<and> map_option ir_status (existing_record st2 t op k) = Some IDEM_PENDING"
proof -
  show "decide_existing cfg now t op k fp r = Inr Retry_It" "decide_existing cfg now' t op k fp r = Inr Retry_It"
    using assms(3,4) by (simp_all add: decide_existing_def)
  let ?p = "\<lambda>x. ir_id x = ir_id r \<and> ir_tenant_id x = t"
  define upd where "upd f s = update_record t (ir_id r) f s" for f s
  have r: "r \<in> set (idempotency_records st)" "record_key r = (t, op, k)"
    using assms(1,2) by (simp_all add: store_ok_def existing_record_iff)
  have ex: "list_ex ?p (idempotency_records (upd f s))"
    if e: "list_ex ?p (idempotency_records s)" "\<And>x. ir_id (f x) = ir_id x" "\<And>x. ir_tenant_id (f x) = ir_tenant_id x" for f s
  proof -
    obtain x where x: "x \<in> set (idempotency_records s)" "?p x" using e(1) by (auto simp: list_ex_iff)
    then have "f x \<in> set (idempotency_records (upd f s))"
      by (auto simp: upd_def update_record_def row_simps image_iff intro!: bexI [of _ x])
    with x e(2,3) show ?thesis unfolding list_ex_iff by (intro bexI [of _ "f x"]) simp_all
  qed
  have in_st: "list_ex ?p (idempotency_records st)" using r by (auto simp: row_simps)
  have found: "existing_record (upd f s) t op k = Some (f x)"
    if s: "existing_record s t op k = Some x" "ir_id x = ir_id r"
      and f: "\<And>x. ir_id (f x) = ir_id x" "\<And>x. record_key (f x) = record_key x" for f s x
  proof -
    have "find (\<lambda>r. record_key r = (t, op, k)) (update_where ?p f (idempotency_records s)) =
        map_option (\<lambda>r. if ?p r then f r else r) (find (\<lambda>r. record_key r = (t, op, k)) (idempotency_records s))"
      by (rule find_update_where [where key = "\<lambda>r. record_key r"]) (rule f(2))
    then show ?thesis using s
      by (auto simp: existing_record_def same_key_iff [abs_def] upd_def update_record_def dest: find_SomeD)
  qed
  show "\<exists>st1 st2. reset_record cfg now st t (ir_id r) = Inr st1 \<and>
       reset_record cfg now' (finalize_idempotent_operation later st1 t (ir_id r) IDEM_SUCCEEDED (Some result)) t (ir_id r) =
         Inr st2 \<and> map_option ir_status (existing_record st2 t op k) = Some IDEM_PENDING"
    unfolding reset_record_def finalize_idempotent_operation_def
    by (simp add: in_st ex found assms(2) flip: upd_def)
qed

text \<open>An \<open>IntegrityError\<close> of the business function itself is taken for a lost reservation: instead of
  the error, the caller gets the failure of a lookup that finds nothing.\<close>

theorem business_integrity_error_is_hidden:
  assumes "check_request d t op k = (Inr () :: 'e idempotency_error + unit)" "existing_record st t op k = None"
  shows "run_idempotent cfg d now st t op k req (\<lambda>_. Inl BusinessIntegrityError) s =
    (Inl NoResultFound :: 'e idempotency_error + _)"
  using assms by (simp add: run_idempotent_def reserve_def resolve_existing_def Let_def)

end
