(* ===== verification/Control_Plane.thy ===== *)
theory Control_Plane
  imports Authorization Audit_Log Outbox
begin

section \<open>The agent control plane\<close>

text \<open>
  \<open>saas_os/control_plane/orchestration/\<close> (the tool registry and the authorize-then-execute path),
  \<open>saas_os/control_plane/data_authorization/\<close> (the data policy and the check that a decision is
  genuine) and \<open>saas_os/control_plane/approvals/\<close> (propose, approve or reject, execute).

  The rows of \<open>core.audit_log\<close> these modules write are kept with the columns they read back, in
  the order of \<open>created_at\<close>. The handler of a tool is code of a product: a function on the world
  outside, which may raise. Each transaction commits on its own, so a failed operation still
  returns the state it leaves; approving, rejecting and executing are given with their
  transactions apart. Random identifiers are drawn from a counter.
\<close>

subsection \<open>Tools\<close>

datatype scope_type = TENANT_SCOPE | ENVIRONMENT_SCOPE | REPOSITORY_SCOPE | UNKNOWN_SCOPE string

record execution_context =
  ec_tool_key :: string
  ec_declared_secrets :: "string list"
  ec_agent_user_id :: uuid
  ec_tenant_id :: uuid
  ec_agent_scope_value :: "string option"

record 'w tool_definition =
  td_key :: string
  td_handler :: "execution_context \<Rightarrow> payload \<Rightarrow> 'w \<Rightarrow> 'w \<times> (unit + payload)"
  td_required_scope_type :: scope_type
  td_required_resource :: "string option"
  td_required_action :: "string option"
  td_required_scope_value :: "string option"
  td_declared_secrets :: "string list"
  td_autonomy_tier :: int
  td_data_classification :: string
  td_side_effect :: string
  td_requires_data_authorization :: bool

type_synonym 'w tool_registry = "'w tool_definition list"

datatype control_error =
    InvalidToolDefinitionError
  | ToolNotFoundError string
  | UndeclaredSecretError string string
  | TierRequiresApprovalError string int
  | UnauthorizedToolInvocationError string
  | DataAuthorizationRequiredError string
  | ToolExecutionError string
  | ApprovalRequestNotFoundError uuid uuid
  | ApprovalNotPendingError uuid string
  | SelfApprovalNotAllowedError uuid
  | CoreError error

definition MAX_TIER :: int where
  "MAX_TIER = 2"

definition VALID_DATA_CLASSIFICATIONS :: "string list" where
  "VALID_DATA_CLASSIFICATIONS = [''none'', ''tenant_data'', ''sensitive'']"

definition VALID_SIDE_EFFECTS :: "string list" where
  "VALID_SIDE_EFFECTS = [''read_only'', ''mutating'']"

definition absent :: "string option \<Rightarrow> bool" where
  "absent s = (case s of None \<Rightarrow> True | Some v \<Rightarrow> v = [])"

definition blank :: "string option \<Rightarrow> bool" where
  "blank s = (case s of None \<Rightarrow> True | Some v \<Rightarrow> is_blank v)"

definition registry_get :: "'w tool_registry \<Rightarrow> string \<Rightarrow> control_error + 'w tool_definition" where
  "registry_get registry tool_key = (case find (\<lambda>t. td_key t = tool_key) registry of
     None \<Rightarrow> Inl (ToolNotFoundError tool_key)
   | Some tool \<Rightarrow> Inr tool)"

definition tool_definition_ok :: "'w tool_definition \<Rightarrow> bool" where
  "tool_definition_ok t =
     (\<not> is_blank (td_key t) \<and> 0 \<le> td_autonomy_tier t \<and> td_autonomy_tier t \<le> MAX_TIER \<and>
      (case td_required_scope_type t of
         UNKNOWN_SCOPE _ \<Rightarrow> False
       | TENANT_SCOPE \<Rightarrow> \<not> absent (td_required_resource t) \<and> \<not> absent (td_required_action t)
       | _ \<Rightarrow> \<not> blank (td_required_scope_value t)) \<and>
      td_data_classification t \<in> set VALID_DATA_CLASSIFICATIONS \<and>
      td_side_effect t \<in> set VALID_SIDE_EFFECTS)"

definition register_tool :: "'w tool_registry \<Rightarrow> 'w tool_definition \<Rightarrow> control_error + 'w tool_registry" where
  "register_tool registry t =
     (if tool_definition_ok t \<and> td_key t \<notin> td_key ` set registry then Inr (registry @ [t])
      else Inl InvalidToolDefinitionError)"

definition get_secret :: "(string \<Rightarrow> 'v) \<Rightarrow> execution_context \<Rightarrow> string \<Rightarrow> control_error + 'v" where
  "get_secret provider c name =
     (if name \<notin> set (ec_declared_secrets c) then Inl (UndeclaredSecretError (ec_tool_key c) name)
      else Inr (provider name))"

subsection \<open>State and evidence\<close>

datatype resource_ref = Keyed string | Identified uuid

record control_entry =
  ce_tenant_id :: uuid
  ce_actor_user_id :: uuid
  ce_action :: string
  ce_resource_type :: string
  ce_resource_id :: resource_ref
  ce_outcome :: audit_outcome

record approval_request =
  ap_id :: uuid
  ap_tenant_id :: uuid
  ap_proposer_user_id :: uuid
  ap_tool_key :: string
  ap_agent_scope_value :: "string option"
  ap_payload :: payload
  ap_status :: string
  ap_approver_user_id :: "uuid option"
  ap_decided_at :: "datetime option"

record control_plane =
  cp_db :: db
  cp_audit :: "control_entry list"
  approval_requests :: "approval_request list"
  cp_next_uuid :: uuid

fun resource_ref_ok :: "resource_ref \<Rightarrow> bool" where
  "resource_ref_ok (Keyed s) = (length s \<le> 255 \<and> \<not> has_control_characters s)"
| "resource_ref_ok (Identified _) = True"

definition control_user_exists :: "db \<Rightarrow> uuid \<Rightarrow> bool" where
  "control_user_exists d user_id = (lock_user_is_active d user_id \<noteq> None)"

definition record_control_event ::
  "control_plane \<Rightarrow> uuid \<Rightarrow> uuid \<Rightarrow> string \<Rightarrow> string \<Rightarrow> resource_ref \<Rightarrow> audit_outcome \<Rightarrow> control_error + control_plane" where
  "record_control_event cp tenant_id actor_user_id action resource_type resource_id outcome =
     (case validate_action_and_resource action resource_type of
        Inl e \<Rightarrow> Inl (CoreError e)
      | Inr _ \<Rightarrow>
          if \<not> resource_ref_ok resource_id then Inl (CoreError InvalidActionOrResourceError)
          else if find_tenant (cp_db cp) tenant_id = None \<or> \<not> control_user_exists (cp_db cp) actor_user_id
          then Inl (CoreError IntegrityError)
          else Inr (cp\<lparr>cp_audit := cp_audit cp @ [\<lparr>ce_tenant_id = tenant_id, ce_actor_user_id = actor_user_id,
            ce_action = action, ce_resource_type = resource_type, ce_resource_id = resource_id,
            ce_outcome = outcome\<rparr>]\<rparr>))"

text \<open>Evidence is written, then an error raised; or it cannot be written, and that is the error.\<close>

definition audit_then ::
  "control_plane \<Rightarrow> control_error + control_plane \<Rightarrow> control_error + 'a \<Rightarrow> control_plane \<times> (control_error + 'a)" where
  "audit_then cp recorded result = (case recorded of Inl e \<Rightarrow> (cp, Inl e) | Inr cp' \<Rightarrow> (cp', result))"

subsection \<open>Data authorization\<close>

datatype denial_reason = UNCLASSIFIED_DATA | NO_TENANT_POLICY | DATA_CLASS_NOT_PERMITTED
  | PURPOSE_NOT_PERMITTED | PROVIDER_NOT_GLOBALLY_ELIGIBLE | PROVIDER_NOT_PERMITTED

record data_authorization_request =
  dr_tenant_id :: uuid
  dr_data_classification :: string
  dr_purpose :: string
  dr_provider :: string

record tenant_data_policy =
  dp_tenant_id :: uuid
  dp_allowed_data_classifications :: "string list"
  dp_allowed_purposes :: "string list"
  dp_allowed_providers :: "string list"

text \<open>A decision is an allow exactly when it carries no denial reason.\<close>

record data_authorization_decision =
  dd_allow :: bool
  dd_tenant_id :: uuid
  dd_reason :: "denial_reason option"
  dd_decision_id :: uuid

definition evaluate_data_authorization ::
  "data_authorization_request \<Rightarrow> tenant_data_policy option \<Rightarrow> string list \<Rightarrow> denial_reason option" where
  "evaluate_data_authorization request tenant_policy eligible_providers =
     (if dr_data_classification request \<notin> set VALID_DATA_CLASSIFICATIONS then Some UNCLASSIFIED_DATA
      else (case tenant_policy of
        None \<Rightarrow> Some NO_TENANT_POLICY
      | Some policy \<Rightarrow>
          if dp_tenant_id policy \<noteq> dr_tenant_id request then Some NO_TENANT_POLICY
          else if dr_data_classification request \<notin> set (dp_allowed_data_classifications policy)
          then Some DATA_CLASS_NOT_PERMITTED
          else if dr_purpose request = [] \<or> dr_purpose request \<notin> set (dp_allowed_purposes policy)
          then Some PURPOSE_NOT_PERMITTED
          else if dr_provider request \<notin> set eligible_providers then Some PROVIDER_NOT_GLOBALLY_ELIGIBLE
          else if dr_provider request \<notin> set (dp_allowed_providers policy) then Some PROVIDER_NOT_PERMITTED
          else None))"

definition DATA_RESOURCE_TYPE :: string where
  "DATA_RESOURCE_TYPE = ''ai_data_authorization''"

definition DATA_APPROVED :: string where
  "DATA_APPROVED = ''ai_control_plane.data_access_approved''"

definition DATA_DENIED :: string where
  "DATA_DENIED = ''ai_control_plane.data_access_denied''"

definition authorize_data_access ::
  "control_plane \<Rightarrow> data_authorization_request \<Rightarrow> tenant_data_policy option \<Rightarrow> string list \<Rightarrow> uuid
    \<Rightarrow> control_plane \<times> (control_error + data_authorization_decision)" where
  "authorize_data_access cp request tenant_policy eligible_providers actor_user_id =
     (let reason = evaluate_data_authorization request tenant_policy eligible_providers;
          i = cp_next_uuid cp;
          cp1 = cp\<lparr>cp_next_uuid := i + 1\<rparr>;
          decision = \<lparr>dd_allow = (reason = None), dd_tenant_id = dr_tenant_id request, dd_reason = reason,
            dd_decision_id = i\<rparr>
      in audit_then cp1 (record_control_event cp1 (dr_tenant_id request) actor_user_id
           (if dd_allow decision then DATA_APPROVED else DATA_DENIED) DATA_RESOURCE_TYPE (Identified i)
           (if dd_allow decision then SUCCESS else DENIED)) (Inr decision))"

definition verify_data_authorization_provenance ::
  "control_plane \<Rightarrow> data_authorization_decision \<Rightarrow> uuid \<Rightarrow> bool" where
  "verify_data_authorization_provenance cp decision tenant_id =
     (dd_allow decision \<and> dd_tenant_id decision = tenant_id \<and>
      list_ex (\<lambda>e. ce_action e = DATA_APPROVED \<and> ce_outcome e = SUCCESS)
        (take 25 (rev (filter (\<lambda>e. ce_tenant_id e = tenant_id \<and> ce_resource_type e = DATA_RESOURCE_TYPE \<and>
           ce_resource_id e = Identified (dd_decision_id decision)) (cp_audit cp)))))"

subsection \<open>Executing a tool\<close>

definition is_authorized ::
  "db \<Rightarrow> datetime \<Rightarrow> 'w tool_definition \<Rightarrow> uuid \<Rightarrow> uuid \<Rightarrow> string option \<Rightarrow> bool" where
  "is_authorized d now tool agent_user_id tenant_id agent_scope_value =
     (case td_required_scope_type tool of
        TENANT_SCOPE \<Rightarrow> user_can d now agent_user_id tenant_id (the (td_required_action tool))
          (the (td_required_resource tool))
      | _ \<Rightarrow> agent_scope_value \<noteq> None \<and> agent_scope_value = td_required_scope_value tool)"

definition data_authorization_satisfied ::
  "control_plane \<Rightarrow> data_authorization_decision option \<Rightarrow> uuid \<Rightarrow> bool" where
  "data_authorization_satisfied cp decision tenant_id = (case decision of
     None \<Rightarrow> False
   | Some x \<Rightarrow> dd_tenant_id x = tenant_id \<and> dd_allow x \<and> verify_data_authorization_provenance cp x tenant_id)"

definition tool_audit :: "control_plane \<Rightarrow> uuid \<Rightarrow> uuid \<Rightarrow> string \<Rightarrow> audit_outcome \<Rightarrow> control_error + control_plane" where
  "tool_audit cp tenant_id agent_user_id tool_key outcome =
     record_control_event cp tenant_id agent_user_id ''control_plane.tool_invocation'' ''control_plane_tool''
       (Keyed tool_key) outcome"

definition execute_tool ::
  "'w tool_registry \<Rightarrow> control_plane \<Rightarrow> datetime \<Rightarrow> string \<Rightarrow> uuid \<Rightarrow> uuid \<Rightarrow> string option \<Rightarrow> payload
    \<Rightarrow> data_authorization_decision option \<Rightarrow> 'w \<Rightarrow> 'w \<times> control_plane \<times> (control_error + payload)" where
  "execute_tool registry cp now tool_key agent_user_id tenant_id agent_scope_value payload decision w =
     (case registry_get registry tool_key of
        Inl e \<Rightarrow> (w, cp, Inl e)
      | Inr tool \<Rightarrow>
          (let audit = tool_audit cp tenant_id agent_user_id tool_key in
           case require_open_tenant (cp_db cp) tenant_id of
             Inl e \<Rightarrow> (w, case e of
                 TenantClosedError _ _ \<Rightarrow> audit_then cp (audit DENIED) (Inl (CoreError e))
               | _ \<Rightarrow> (cp, Inl (CoreError e)))
           | Inr _ \<Rightarrow>
               if \<not> is_authorized (cp_db cp) now tool agent_user_id tenant_id agent_scope_value
               then (w, audit_then cp (audit DENIED) (Inl (UnauthorizedToolInvocationError tool_key)))
               else if td_requires_data_authorization tool \<and> \<not> data_authorization_satisfied cp decision tenant_id
               then (w, audit_then cp (audit DENIED) (Inl (DataAuthorizationRequiredError tool_key)))
               else (case td_handler tool \<lparr>ec_tool_key = tool_key, ec_declared_secrets = td_declared_secrets tool,
                     ec_agent_user_id = agent_user_id, ec_tenant_id = tenant_id,
                     ec_agent_scope_value = agent_scope_value\<rparr> payload w of
                   (w', Inl _) \<Rightarrow> (w', audit_then cp (audit FAILURE) (Inl (ToolExecutionError tool_key)))
                 | (w', Inr output) \<Rightarrow> (w', audit_then cp (audit SUCCESS) (Inr output)))))"

definition invoke_tool ::
  "'w tool_registry \<Rightarrow> control_plane \<Rightarrow> datetime \<Rightarrow> string \<Rightarrow> uuid \<Rightarrow> uuid \<Rightarrow> string option \<Rightarrow> payload
    \<Rightarrow> data_authorization_decision option \<Rightarrow> 'w \<Rightarrow> 'w \<times> control_plane \<times> (control_error + payload)" where
  "invoke_tool registry cp now tool_key agent_user_id tenant_id agent_scope_value payload decision w =
     (case registry_get registry tool_key of
        Inl e \<Rightarrow> (w, cp, Inl e)
      | Inr tool \<Rightarrow>
          if td_autonomy_tier tool \<ge> 1
          then (w, cp, Inl (TierRequiresApprovalError tool_key (td_autonomy_tier tool)))
          else execute_tool registry cp now tool_key agent_user_id tenant_id agent_scope_value payload decision w)"

subsection \<open>Approvals\<close>

definition APPROVAL_RESOURCE_TYPE :: string where
  "APPROVAL_RESOURCE_TYPE = ''control_plane_approval_request''"

definition approval_audit ::
  "control_plane \<Rightarrow> uuid \<Rightarrow> uuid \<Rightarrow> string \<Rightarrow> uuid \<Rightarrow> audit_outcome \<Rightarrow> control_error + control_plane" where
  "approval_audit cp tenant_id user_id action approval_id outcome =
     record_control_event cp tenant_id user_id action APPROVAL_RESOURCE_TYPE (Identified approval_id) outcome"

definition propose_action ::
  "control_plane \<Rightarrow> uuid \<Rightarrow> uuid \<Rightarrow> string \<Rightarrow> string option \<Rightarrow> payload
    \<Rightarrow> control_plane \<times> (control_error + approval_request)" where
  "propose_action cp tenant_id proposer_user_id tool_key agent_scope_value payload =
     (case lock_open_tenant (cp_db cp) tenant_id of
        Inl e \<Rightarrow> (cp, Inl (CoreError e))
      | Inr _ \<Rightarrow>
          if \<not> control_user_exists (cp_db cp) proposer_user_id then (cp, Inl (CoreError IntegrityError))
          else if length tool_key > 200 \<or> (case agent_scope_value of None \<Rightarrow> False | Some v \<Rightarrow> length v > 255)
          then (cp, Inl (CoreError DataError))
          else (let i = cp_next_uuid cp;
              approval = \<lparr>ap_id = i, ap_tenant_id = tenant_id, ap_proposer_user_id = proposer_user_id,
                ap_tool_key = tool_key, ap_agent_scope_value = agent_scope_value, ap_payload = payload,
                ap_status = ''pending'', ap_approver_user_id = None, ap_decided_at = None\<rparr>;
              cp1 = cp\<lparr>approval_requests := approval_requests cp @ [approval], cp_next_uuid := i + 1\<rparr>
            in audit_then cp1 (approval_audit cp1 tenant_id proposer_user_id ''control_plane.action_proposed'' i SUCCESS)
                 (Inr approval)))"

definition get_approval :: "control_plane \<Rightarrow> uuid \<Rightarrow> uuid \<Rightarrow> control_error + approval_request" where
  "get_approval cp tenant_id approval_id =
     (case find (\<lambda>a. ap_id a = approval_id \<and> ap_tenant_id a = tenant_id) (approval_requests cp) of
        None \<Rightarrow> Inl (ApprovalRequestNotFoundError tenant_id approval_id)
      | Some a \<Rightarrow> Inr a)"

definition list_approvals :: "control_plane \<Rightarrow> uuid \<Rightarrow> string option \<Rightarrow> approval_request list" where
  "list_approvals cp tenant_id status = filter (\<lambda>a. ap_tenant_id a = tenant_id \<and>
     (case status of None \<Rightarrow> True | Some s \<Rightarrow> ap_status a = s)) (approval_requests cp)"

definition write_approval ::
  "uuid \<Rightarrow> (approval_request \<Rightarrow> approval_request) \<Rightarrow> control_plane \<Rightarrow> control_plane" where
  "write_approval approval_id f cp =
     cp\<lparr>approval_requests := update_where (\<lambda>a. ap_id a = approval_id) f (approval_requests cp)\<rparr>"

definition pending_approval :: "control_plane \<Rightarrow> uuid \<Rightarrow> uuid \<Rightarrow> control_error + approval_request" where
  "pending_approval cp tenant_id approval_id =
     ebind (get_approval cp tenant_id approval_id) (\<lambda>a.
     if ap_status a \<noteq> ''pending'' then Inl (ApprovalNotPendingError approval_id (ap_status a)) else Inr a)"

text \<open>The transaction that writes a decision, with the foreign key and the check constraint of the
  table: it does not look at the status again.\<close>

definition commit_decision ::
  "control_plane \<Rightarrow> datetime \<Rightarrow> uuid \<Rightarrow> uuid \<Rightarrow> uuid \<Rightarrow> string \<Rightarrow> control_error + (control_plane \<times> approval_request)" where
  "commit_decision cp now tenant_id approval_id approver_user_id status =
     ebind (get_approval cp tenant_id approval_id) (\<lambda>a.
     (case lock_open_tenant (cp_db cp) tenant_id of
        Inl e \<Rightarrow> Inl (CoreError e)
      | Inr _ \<Rightarrow>
          (let decide = (\<lambda>x. x\<lparr>ap_status := status, ap_approver_user_id := Some approver_user_id,
             ap_decided_at := Some now\<rparr>) in
           if \<not> control_user_exists (cp_db cp) approver_user_id \<or> ap_proposer_user_id a = approver_user_id
           then Inl (CoreError IntegrityError)
           else Inr (write_approval approval_id decide cp, decide a))))"

definition decided ::
  "control_plane \<Rightarrow> uuid \<Rightarrow> uuid \<Rightarrow> string \<Rightarrow> control_error + (control_plane \<times> approval_request)
    \<Rightarrow> control_plane \<times> (control_error + approval_request)" where
  "decided cp tenant_id user_id action committed = (case committed of
     Inl e \<Rightarrow> (cp, Inl e)
   | Inr (cp1, a) \<Rightarrow> audit_then cp1 (approval_audit cp1 tenant_id user_id action (ap_id a) SUCCESS) (Inr a))"

definition approve_check ::
  "control_plane \<Rightarrow> uuid \<Rightarrow> uuid \<Rightarrow> uuid \<Rightarrow> control_plane \<times> (control_error + unit)" where
  "approve_check cp tenant_id approval_id approver_user_id =
     (case pending_approval cp tenant_id approval_id of
        Inl e \<Rightarrow> (cp, Inl e)
      | Inr a \<Rightarrow>
          if approver_user_id = ap_proposer_user_id a
          then audit_then cp (approval_audit cp tenant_id approver_user_id ''control_plane.action_approved'' approval_id DENIED)
            (Inl (SelfApprovalNotAllowedError approval_id))
          else (cp, Inr ()))"

definition approve_commit ::
  "control_plane \<Rightarrow> datetime \<Rightarrow> uuid \<Rightarrow> uuid \<Rightarrow> uuid \<Rightarrow> control_plane \<times> (control_error + approval_request)" where
  "approve_commit cp now tenant_id approval_id approver_user_id =
     decided cp tenant_id approver_user_id ''control_plane.action_approved''
       (commit_decision cp now tenant_id approval_id approver_user_id ''approved'')"

definition approve ::
  "control_plane \<Rightarrow> datetime \<Rightarrow> uuid \<Rightarrow> uuid \<Rightarrow> uuid \<Rightarrow> control_plane \<times> (control_error + approval_request)" where
  "approve cp now tenant_id approval_id approver_user_id =
     (case approve_check cp tenant_id approval_id approver_user_id of
        (cp1, Inl e) \<Rightarrow> (cp1, Inl e)
      | (cp1, Inr _) \<Rightarrow> approve_commit cp1 now tenant_id approval_id approver_user_id)"

definition reject_commit ::
  "control_plane \<Rightarrow> datetime \<Rightarrow> uuid \<Rightarrow> uuid \<Rightarrow> uuid \<Rightarrow> control_plane \<times> (control_error + approval_request)" where
  "reject_commit cp now tenant_id approval_id approver_user_id =
     decided cp tenant_id approver_user_id ''control_plane.action_rejected''
       (commit_decision cp now tenant_id approval_id approver_user_id ''rejected'')"

definition reject ::
  "control_plane \<Rightarrow> datetime \<Rightarrow> uuid \<Rightarrow> uuid \<Rightarrow> uuid \<Rightarrow> control_plane \<times> (control_error + approval_request)" where
  "reject cp now tenant_id approval_id approver_user_id =
     (case pending_approval cp tenant_id approval_id of
        Inl e \<Rightarrow> (cp, Inl e)
      | Inr _ \<Rightarrow> reject_commit cp now tenant_id approval_id approver_user_id)"

definition claim_for_execution ::
  "control_plane \<Rightarrow> uuid \<Rightarrow> uuid \<Rightarrow> control_error + (control_plane \<times> approval_request)" where
  "claim_for_execution cp tenant_id approval_id =
     (case lock_open_tenant (cp_db cp) tenant_id of
        Inl e \<Rightarrow> Inl (CoreError e)
      | Inr _ \<Rightarrow> ebind (get_approval cp tenant_id approval_id) (\<lambda>a.
          if ap_status a \<noteq> ''approved'' then Inl (ApprovalNotPendingError approval_id (ap_status a))
          else Inr (write_approval approval_id (\<lambda>x. x\<lparr>ap_status := ''executing''\<rparr>) cp,
            a\<lparr>ap_status := ''executing''\<rparr>)))"

definition give_back :: "control_plane \<Rightarrow> uuid \<Rightarrow> uuid \<Rightarrow> control_plane" where
  "give_back cp tenant_id approval_id =
     cp\<lparr>approval_requests := update_where (\<lambda>a. ap_id a = approval_id \<and> ap_tenant_id a = tenant_id \<and>
       ap_status a = ''executing'') (\<lambda>a. a\<lparr>ap_status := ''approved''\<rparr>) (approval_requests cp)\<rparr>"

definition mark_executed :: "control_plane \<Rightarrow> uuid \<Rightarrow> uuid \<Rightarrow> control_plane \<times> (control_error + approval_request)" where
  "mark_executed cp tenant_id approval_id = (case get_approval cp tenant_id approval_id of
     Inl e \<Rightarrow> (cp, Inl e)
   | Inr a \<Rightarrow> (write_approval approval_id (\<lambda>x. x\<lparr>ap_status := ''executed''\<rparr>) cp,
       Inr (a\<lparr>ap_status := ''executed''\<rparr>)))"

definition execute_approved ::
  "'w tool_registry \<Rightarrow> control_plane \<Rightarrow> datetime \<Rightarrow> uuid \<Rightarrow> uuid \<Rightarrow> data_authorization_decision option \<Rightarrow> 'w
    \<Rightarrow> 'w \<times> control_plane \<times> (control_error + approval_request)" where
  "execute_approved registry cp now tenant_id approval_id decision w =
     (case claim_for_execution cp tenant_id approval_id of
        Inl e \<Rightarrow> (w, cp, Inl e)
      | Inr (cp1, a) \<Rightarrow>
          (case execute_tool registry cp1 now (ap_tool_key a) (ap_proposer_user_id a) tenant_id
              (ap_agent_scope_value a) (ap_payload a) decision w of
             (w', cp2, Inl e) \<Rightarrow> (w', give_back cp2 tenant_id approval_id, Inl e)
           | (w', cp2, Inr _) \<Rightarrow> (w', mark_executed cp2 tenant_id approval_id)))"

end
