(* ===== verification/Approval_Properties.thy ===== *)
theory Approval_Properties
  imports Control_Plane Fixture
begin

section \<open>What an approval guarantees\<close>

text \<open>
  \<open>control_step\<close> is one transaction of the control plane, so a history may interleave those of
  concurrent callers; its second component holds the requests whose execution is under way.
  \<open>operation_step\<close> is one whole operation. Separation of duties holds in every interleaving;
  that a decision is final holds between whole operations, and the last section shows the
  interleaving in which it does not.
\<close>

subsection \<open>A tool runs only when authorized\<close>

lemma lock_open_eq: "require_open_tenant d t = Inr x \<longleftrightarrow> lock_open_tenant d t = Inr x"
  by (simp add: require_open_tenant_eq)

lemma execute_tool_effect:
  assumes "execute_tool registry cp now k u t sv p decision w = (w', cp', r)" "w' \<noteq> w"
  obtains tool where "registry_get registry k = Inr tool" "is_ok (lock_open_tenant (cp_db cp) t)"
    "is_authorized (cp_db cp) now tool u t sv"
    "td_requires_data_authorization tool \<longrightarrow> data_authorization_satisfied cp decision t"
  using assms unfolding execute_tool_def Let_def
  by (auto simp: require_open_tenant_eq split: sum.splits if_splits)

lemma claim_cases:
  assumes "claim_for_execution cp t i = Inr (cp', a)"
  obtains b where "get_approval cp t i = Inr b" "ap_status b = ''approved''" "a = b\<lparr>ap_status := ''executing''\<rparr>"
    "cp' = write_approval i (\<lambda>x. x\<lparr>ap_status := ''executing''\<rparr>) cp" "is_ok (lock_open_tenant (cp_db cp) t)"
  using assms unfolding claim_for_execution_def by (auto split: sum.splits if_splits)

lemma write_approval_frame [simp]:
  "cp_db (write_approval i f cp) = cp_db cp" "cp_audit (write_approval i f cp) = cp_audit cp"
  "cp_next_uuid (write_approval i f cp) = cp_next_uuid cp"
  by (simp_all add: write_approval_def)

lemma provenance_frame:
  "cp_audit cp' = cp_audit cp \<Longrightarrow> data_authorization_satisfied cp' = data_authorization_satisfied cp"
  by (simp add: fun_eq_iff data_authorization_satisfied_def verify_data_authorization_provenance_def
      split: option.splits)

text \<open>An authorized invocation, as the documents state it.\<close>

definition invocation_allowed ::
  "'w tool_registry \<Rightarrow> control_plane \<Rightarrow> datetime \<Rightarrow> string \<Rightarrow> uuid \<Rightarrow> uuid \<Rightarrow> string option
    \<Rightarrow> data_authorization_decision option \<Rightarrow> 'w tool_definition \<Rightarrow> bool" where
  "invocation_allowed registry cp now k u t sv decision tool \<longleftrightarrow>
     tool \<in> set registry \<and> td_key tool = k \<and> is_open (cp_db cp) t \<and>
     (td_required_scope_type tool = TENANT_SCOPE \<longrightarrow>
        user_can (cp_db cp) now u t (the (td_required_action tool)) (the (td_required_resource tool))) \<and>
     (td_required_scope_type tool \<noteq> TENANT_SCOPE \<longrightarrow> sv \<noteq> None \<and> sv = td_required_scope_value tool) \<and>
     (td_requires_data_authorization tool \<longrightarrow> (\<exists>x. decision = Some x \<and> dd_tenant_id x = t \<and> dd_allow x \<and>
        (\<exists>e \<in> set (cp_audit cp). ce_tenant_id e = t \<and> ce_resource_type e = DATA_RESOURCE_TYPE \<and>
           ce_resource_id e = Identified (dd_decision_id x) \<and> ce_action e = DATA_APPROVED \<and> ce_outcome e = SUCCESS)))"

lemma invocation_allowed_frame:
  "cp_db cp' = cp_db cp \<Longrightarrow> cp_audit cp' = cp_audit cp \<Longrightarrow>
    invocation_allowed registry cp' now k u t sv decision tool = invocation_allowed registry cp now k u t sv decision tool"
  unfolding invocation_allowed_def by simp

lemma provenance_sound:
  assumes "verify_data_authorization_provenance cp x t"
  shows "\<exists>e \<in> set (cp_audit cp). ce_tenant_id e = t \<and> ce_resource_type e = DATA_RESOURCE_TYPE \<and>
    ce_resource_id e = Identified (dd_decision_id x) \<and> ce_action e = DATA_APPROVED \<and> ce_outcome e = SUCCESS"
proof -
  obtain e where e: "ce_action e = DATA_APPROVED" "ce_outcome e = SUCCESS"
      "e \<in> set (take 25 (rev (filter (\<lambda>e. ce_tenant_id e = t \<and> ce_resource_type e = DATA_RESOURCE_TYPE \<and>
         ce_resource_id e = Identified (dd_decision_id x)) (cp_audit cp))))"
    using assms by (auto simp: verify_data_authorization_provenance_def list_ex_iff)
  from in_set_takeD [OF e(3)] e(1,2) show ?thesis by auto
qed

lemma effect_allowed:
  assumes "execute_tool registry cp now k u t sv p decision w = (w', cp', r)" "w' \<noteq> w"
  obtains tool where "registry_get registry k = Inr tool" "invocation_allowed registry cp now k u t sv decision tool"
proof -
  obtain tool where tool: "registry_get registry k = Inr tool" "is_ok (lock_open_tenant (cp_db cp) t)"
      "is_authorized (cp_db cp) now tool u t sv"
      "td_requires_data_authorization tool \<longrightarrow> data_authorization_satisfied cp decision t"
    using assms by (rule execute_tool_effect)
  have "invocation_allowed registry cp now k u t sv decision tool"
    using tool provenance_sound unfolding invocation_allowed_def
    by (auto simp: registry_get_def is_authorized_def data_authorization_satisfied_def is_open_def
        split: option.splits scope_type.splits dest!: find_SomeD)
  with tool(1) show thesis by (rule that)
qed

subsection \<open>Separation of duties\<close>

inductive control_step :: "control_plane \<times> uuid list \<Rightarrow> control_plane \<times> uuid list \<Rightarrow> bool" where
  propose: "propose_action cp t u k sv p = (cp', r) \<Longrightarrow> control_step (cp, run) (cp', run)"
| look: "approve_check cp t i u = (cp', r) \<Longrightarrow> control_step (cp, run) (cp', run)"
| approved: "approve_commit cp now t i u = (cp', r) \<Longrightarrow> control_step (cp, run) (cp', run)"
| rejected: "reject_commit cp now t i u = (cp', r) \<Longrightarrow> control_step (cp, run) (cp', run)"
| claim: "claim_for_execution cp t i = Inr (cp', a) \<Longrightarrow> control_step (cp, run) (cp', i # run)"
| give_back: "i \<in> set run \<Longrightarrow> control_step (cp, run) (give_back cp t i, run)"
| finish: "i \<in> set run \<Longrightarrow> mark_executed cp t i = (cp', r) \<Longrightarrow> control_step (cp, run) (cp', run)"
| data: "authorize_data_access cp req pol elig u = (cp', r) \<Longrightarrow> control_step (cp, run) (cp', run)"
| elsewhere: "control_step (cp, run) (cp\<lparr>cp_db := d, cp_audit := es\<rparr>, run)"

definition other_approved :: "approval_request \<Rightarrow> bool" where
  "other_approved a = (\<exists>u. ap_approver_user_id a = Some u \<and> u \<noteq> ap_proposer_user_id a)"

definition separated :: "control_plane \<times> uuid list \<Rightarrow> bool" where
  "separated s = (distinct (map ap_id (approval_requests (fst s))) \<and>
     (\<forall>a \<in> set (approval_requests (fst s)). ap_id a < cp_next_uuid (fst s) \<and>
        (ap_status a \<in> {''approved'', ''executing'', ''executed''} \<or> ap_id a \<in> set (snd s) \<longrightarrow> other_approved a)) \<and>
     (\<forall>i \<in> set (snd s). i < cp_next_uuid (fst s)))"

text \<open>Writing evidence changes no request.\<close>

lemma audit_frame:
  assumes "record_control_event cp t u action rt ri outcome = Inr cp'"
  shows "approval_requests cp' = approval_requests cp" "cp_next_uuid cp' = cp_next_uuid cp" "cp_db cp' = cp_db cp"
  using assms unfolding record_control_event_def by (auto split: sum.splits if_splits)

lemma audit_then_frame:
  assumes "audit_then cp (record_control_event cp t u action rt ri outcome) res = (cp', r)"
  shows "approval_requests cp' = approval_requests cp" "cp_next_uuid cp' = cp_next_uuid cp" "cp_db cp' = cp_db cp"
  using assms audit_frame unfolding audit_then_def by (auto split: sum.splits)

lemma separated_cong:
  "approval_requests cp' = approval_requests cp \<Longrightarrow> cp_next_uuid cp' = cp_next_uuid cp \<Longrightarrow>
    separated (cp, run) = separated (cp', run)"
  by (simp add: separated_def)

lemma audited_separated:
  assumes "audit_then cp (record_control_event cp t u action rt ri outcome) res = (cp', r)"
  shows "separated (cp', run) = separated (cp, run)"
  by (rule separated_cong [symmetric]) (rule audit_then_frame [OF assms])+

lemma get_approval_in:
  "get_approval cp t i = Inr a \<Longrightarrow> a \<in> set (approval_requests cp) \<and> ap_id a = i \<and> ap_tenant_id a = t"
  by (auto simp: get_approval_def split: option.splits dest: find_SomeD)

lemma requests_write: "approval_requests (write_approval i f cp) = map (\<lambda>a. if ap_id a = i then f a else a) (approval_requests cp)"
  by (simp add: write_approval_def update_where_def)

lemma separated_write:
  assumes "separated (cp, run)" "\<And>a. ap_id (f a) = ap_id a \<and> ap_proposer_user_id (f a) = ap_proposer_user_id a"
    and "\<And>a. a \<in> set (approval_requests cp) \<Longrightarrow> ap_id a = i \<Longrightarrow> other_approved (f a)"
  shows "separated (write_approval i f cp, run)"
proof -
  have ids: "map ap_id (approval_requests (write_approval i f cp)) = map ap_id (approval_requests cp)"
    unfolding requests_write using assms(2) by simp
  have "ap_id a < cp_next_uuid cp \<and> (ap_status a \<in> {''approved'', ''executing'', ''executed''} \<or> ap_id a \<in> set run \<longrightarrow> other_approved a)"
    if a: "a \<in> set (approval_requests (write_approval i f cp))" for a
  proof -
    obtain b where b: "b \<in> set (approval_requests cp)" "a = (if ap_id b = i then f b else b)"
      using a unfolding requests_write by auto
    then show ?thesis using assms(1) assms(2) [of b] assms(3) [of b] by (cases "ap_id b = i") (auto simp: separated_def)
  qed
  moreover have "distinct (map ap_id (approval_requests (write_approval i f cp)))"
    using assms(1) unfolding ids by (simp add: separated_def)
  ultimately show ?thesis using assms(1) unfolding separated_def fst_conv snd_conv write_approval_frame by blast
qed

lemma same_request:
  assumes "separated (cp, run)" "a \<in> set (approval_requests cp)" "b \<in> set (approval_requests cp)" "ap_id a = ap_id b"
  shows "a = b"
  using assms inj_onD [of ap_id "set (approval_requests cp)" a b] by (simp add: separated_def distinct_map)

lemma commit_separated:
  assumes "commit_decision cp now t i u status = Inr (cp', a)" "separated (cp, run)"
  shows "separated (cp', run)"
proof -
  define f where "f = (\<lambda>x :: approval_request. x\<lparr>ap_status := status, ap_approver_user_id := Some u, ap_decided_at := Some now\<rparr>)"
  obtain b where b: "get_approval cp t i = Inr b" "ap_proposer_user_id b \<noteq> u" "cp' = write_approval i f cp"
    using assms(1) unfolding commit_decision_def f_def Let_def
    by (cases "lock_open_tenant (cp_db cp) t"; cases "get_approval cp t i") (auto split: if_splits)
  have "other_approved (f x)" if "x \<in> set (approval_requests cp)" "ap_id x = i" for x
  proof -
    have "x = b" using same_request [OF assms(2) that(1), of b] get_approval_in [OF b(1)] that(2) by simp
    with b(2) show ?thesis by (simp add: other_approved_def f_def)
  qed
  then show ?thesis unfolding b(3) by (intro separated_write [OF assms(2)]) (simp_all add: f_def)
qed

lemma decided_separated:
  assumes "decided cp t u action (commit_decision cp now t i u status) = (cp', r)" "separated (cp, run)"
  shows "separated (cp', run)"
proof (cases "commit_decision cp now t i u status")
  case (Inl e)
  then show ?thesis using assms by (simp add: decided_def)
next
  case (Inr x)
  obtain cp1 a where x: "x = (cp1, a)" by (cases x)
  have "separated (cp1, run)" using commit_separated assms(2) Inr x by simp
  moreover have "audit_then cp1 (approval_audit cp1 t u action (ap_id a) SUCCESS) (Inr a) = (cp', r)"
    using assms(1) Inr x by (simp add: decided_def)
  ultimately show ?thesis unfolding approval_audit_def using audited_separated by blast
qed

lemma propose_separated:
  assumes "propose_action cp t u k sv p = (cp', r)" "separated (cp, run)"
  shows "separated (cp', run)"
proof (cases "cp' = cp")
  case False
  define a where "a = \<lparr>ap_id = cp_next_uuid cp, ap_tenant_id = t, ap_proposer_user_id = u, ap_tool_key = k,
    ap_agent_scope_value = sv, ap_payload = p, ap_status = ''pending'', ap_approver_user_id = None, ap_decided_at = None\<rparr>"
  define cp1 where "cp1 = cp\<lparr>approval_requests := approval_requests cp @ [a], cp_next_uuid := cp_next_uuid cp + 1\<rparr>"
  have "audit_then cp1 (approval_audit cp1 t u ''control_plane.action_proposed'' (cp_next_uuid cp) SUCCESS) (Inr a) = (cp', r)"
    using assms(1) False unfolding propose_action_def Let_def cp1_def a_def by (auto split: sum.splits if_splits)
  then have "separated (cp', run) = separated (cp1, run)"
    unfolding approval_audit_def by (rule audited_separated)
  moreover have "separated (cp1, run)"
    using assms(2) by (auto simp: separated_def cp1_def a_def less_Suc_eq)
  ultimately show ?thesis by simp
qed (use assms in simp)

lemma claim_separated:
  assumes "claim_for_execution cp t i = Inr (cp', a)" "separated (cp, run)"
  shows "separated (cp', i # run)"
proof -
  obtain b where b: "get_approval cp t i = Inr b" "ap_status b = ''approved''"
      "cp' = write_approval i (\<lambda>x. x\<lparr>ap_status := ''executing''\<rparr>) cp"
    using assms(1) by (rule claim_cases)
  have ok: "other_approved b" "i < cp_next_uuid cp"
    using assms(2) get_approval_in [OF b(1)] b(2) by (auto simp: separated_def)
  have same: "x = b" if "x \<in> set (approval_requests cp)" "ap_id x = i" for x
    using same_request [OF assms(2) that(1)] get_approval_in [OF b(1)] that(2) by simp
  then have "separated (cp, i # run)" using assms(2) ok by (auto simp: separated_def)
  then show ?thesis unfolding b(3)
    by (rule separated_write) (use same ok in \<open>auto simp: other_approved_def\<close>)
qed

lemma give_back_separated:
  assumes "i \<in> set run" "separated (cp, run)"
  shows "separated (give_back cp t i, run)"
proof -
  define f where "f = (\<lambda>a :: approval_request. if ap_tenant_id a = t \<and> ap_status a = ''executing'' then a\<lparr>ap_status := ''approved''\<rparr> else a)"
  have "give_back cp t i = write_approval i f cp"
    by (auto simp: give_back_def write_approval_def update_where_def f_def)
  then show ?thesis using assms
    by (auto intro!: separated_write [OF assms(2)] simp: f_def) (auto simp: separated_def other_approved_def)
qed

lemma finish_separated:
  assumes "i \<in> set run" "mark_executed cp t i = (cp', r)" "separated (cp, run)"
  shows "separated (cp', run)"
proof (cases "get_approval cp t i")
  case (Inr a)
  then have "cp' = write_approval i (\<lambda>x. x\<lparr>ap_status := ''executed''\<rparr>) cp"
    using assms(2) by (simp add: mark_executed_def)
  then show ?thesis using assms(1,3)
    by (auto intro!: separated_write [OF assms(3)]) (auto simp: separated_def other_approved_def)
qed (use assms in \<open>simp add: mark_executed_def\<close>)

lemma control_step_separated: "control_step s s' \<Longrightarrow> separated s \<Longrightarrow> separated s'"
proof (induction rule: control_step.induct)
  case (look cp t i u cp' r run)
  then show ?case unfolding approve_check_def approval_audit_def
    by (auto split: sum.splits if_splits dest: audited_separated)
next
  case (data cp req pol elig u cp' r run)
  have "separated (cp\<lparr>cp_next_uuid := cp_next_uuid cp + 1\<rparr>, run)"
    using data.prems by (auto simp: separated_def)
  then show ?case using data.hyps unfolding authorize_data_access_def Let_def
    by (auto dest: audited_separated)
next
  case (elsewhere cp run d es)
  then show ?case by (simp add: separated_def)
qed (simp_all add: propose_separated decided_separated claim_separated give_back_separated finish_separated
    approve_commit_def reject_commit_def)

lemma history_separated: "control_step\<^sup>*\<^sup>* s s' \<Longrightarrow> separated s \<Longrightarrow> separated s'"
  by (induction rule: rtranclp_induct) (auto intro: control_step_separated)

lemma direct_effect:
  assumes "invoke_tool registry cp now k u t sv p decision w = (w', cp', r)" "w' \<noteq> w"
  shows "\<exists>tool. invocation_allowed registry cp now k u t sv decision tool \<and> td_autonomy_tier tool < 1"
proof -
  from assms(1) obtain tool where "registry_get registry k = Inr tool" "td_autonomy_tier tool < 1"
      "execute_tool registry cp now k u t sv p decision w = (w', cp', r)"
    using assms(2) by (auto simp: invoke_tool_def split: sum.splits if_splits)
  with assms(2) show ?thesis by (metis effect_allowed sum.inject(2))
qed

lemma approved_effect:
  assumes sep: "separated (cp, run)"
    and ex: "execute_approved registry cp now t i decision w = (w', cp', r')" "w' \<noteq> w"
  shows "\<exists>a tool. get_approval cp t i = Inr a \<and> ap_status a = ''approved'' \<and> other_approved a \<and>
    invocation_allowed registry cp now (ap_tool_key a) (ap_proposer_user_id a) t (ap_agent_scope_value a) decision tool"
proof -
  obtain cp1 a where claim: "claim_for_execution cp t i = Inr (cp1, a)"
    using ex by (auto simp: execute_approved_def split: sum.splits prod.splits)
  obtain cp2 r2 where ran: "execute_tool registry cp1 now (ap_tool_key a) (ap_proposer_user_id a) t
      (ap_agent_scope_value a) (ap_payload a) decision w = (w', cp2, r2)"
    using ex(1) claim by (auto simp: execute_approved_def split: sum.splits prod.splits)
  obtain b where b: "get_approval cp t i = Inr b" "ap_status b = ''approved''" "a = b\<lparr>ap_status := ''executing''\<rparr>"
      "cp1 = write_approval i (\<lambda>x. x\<lparr>ap_status := ''executing''\<rparr>) cp"
    using claim by (rule claim_cases)
  have cp1: "cp_db cp1 = cp_db cp" "cp_audit cp1 = cp_audit cp" by (simp_all add: b(4))
  obtain tool where "invocation_allowed registry cp1 now (ap_tool_key a) (ap_proposer_user_id a) t
      (ap_agent_scope_value a) decision tool"
    using effect_allowed [OF ran ex(2)] by blast
  then have "invocation_allowed registry cp now (ap_tool_key b) (ap_proposer_user_id b) t (ap_agent_scope_value b) decision tool"
    unfolding b(3) invocation_allowed_frame [OF cp1(1,2)] by simp
  moreover have "other_approved b" using sep get_approval_in [OF b(1)] b(2) by (simp add: separated_def)
  ultimately show ?thesis using b(1,2) by blast
qed

text \<open>C32: an agent's tool takes effect only with the authority the documents ask for. If the world
  outside changed, the tool is registered, the tenant is open at that moment, and the agent holds
  the tool's permission there by the authorization decision, or declares exactly the tool's scope;
  a tool that hands data to a provider also has an allowing decision of this tenant with a genuine
  audit record. A direct call runs tier 0 only. Through the approval path, whatever interleaving
  of transactions preceded, the request was approved, by somebody other than its proposer, and
  the authority checked is the proposer's.\<close>

theorem tool_effects_are_authorized:
  "(invoke_tool registry cp now k u t sv p decision w = (w', cp', r) \<longrightarrow> w' \<noteq> w \<longrightarrow>
      (\<exists>tool. invocation_allowed registry cp now k u t sv decision tool \<and> td_autonomy_tier tool < 1)) \<and>
   (control_step\<^sup>*\<^sup>* (cp0, []) (cp, run) \<longrightarrow> separated (cp0, []) \<longrightarrow>
      execute_approved registry cp now t i decision w = (w', cp', r') \<longrightarrow> w' \<noteq> w \<longrightarrow>
      (\<exists>a tool. get_approval cp t i = Inr a \<and> ap_status a = ''approved'' \<and> other_approved a \<and>
        invocation_allowed registry cp now (ap_tool_key a) (ap_proposer_user_id a) t (ap_agent_scope_value a) decision tool))"
  by (intro conjI impI; (rule direct_effect | rule approved_effect [OF history_separated]); assumption)

subsection \<open>A decision is final between whole operations\<close>

inductive operation_step :: "'w tool_registry \<Rightarrow> control_plane \<times> 'w \<Rightarrow> control_plane \<times> 'w \<Rightarrow> bool"
  for registry :: "'w tool_registry" where
  op_propose: "propose_action cp t u k sv p = (cp', r) \<Longrightarrow> operation_step registry (cp, w) (cp', w)"
| op_approve: "approve cp now t i u = (cp', r) \<Longrightarrow> operation_step registry (cp, w) (cp', w)"
| op_reject: "reject cp now t i u = (cp', r) \<Longrightarrow> operation_step registry (cp, w) (cp', w)"
| op_execute: "execute_approved registry cp now t i decision w = (w', cp', r) \<Longrightarrow> operation_step registry (cp, w) (cp', w')"
| op_invoke: "invoke_tool registry cp now k u t sv p decision w = (w', cp', r) \<Longrightarrow> operation_step registry (cp, w) (cp', w')"
| op_data: "authorize_data_access cp req pol elig u = (cp', r) \<Longrightarrow> operation_step registry (cp, w) (cp', w)"
| op_elsewhere: "operation_step registry (cp, w) (cp\<lparr>cp_db := d, cp_audit := es\<rparr>, w')"

definition settled_request :: "approval_request \<Rightarrow> control_plane \<Rightarrow> bool" where
  "settled_request a cp = (separated (cp, []) \<and> a \<in> set (approval_requests cp) \<and> ap_status a \<in> {''rejected'', ''executed''})"

lemma settled_get:
  assumes "settled_request a cp" "get_approval cp t i = Inr b" "ap_id a = i"
  shows "b = a"
  using same_request [of cp "[]" b a] get_approval_in [OF assms(2)] assms(1,3) by (simp add: settled_request_def)

lemma settled_write:
  assumes "settled_request a cp" "separated (write_approval i f cp, [])" "ap_id a \<noteq> i"
  shows "settled_request a (write_approval i f cp)"
  using assms by (auto simp: settled_request_def requests_write)

lemma settled_frame:
  "approval_requests cp' = approval_requests cp \<Longrightarrow> cp_next_uuid cp' = cp_next_uuid cp \<Longrightarrow>
    settled_request a cp' = settled_request a cp"
  by (simp add: settled_request_def separated_def)

lemma settled_audited:
  assumes "audit_then cp (record_control_event cp t u action rt ri outcome) res = (cp', r)"
  shows "settled_request a cp' = settled_request a cp"
  by (rule settled_frame) (rule audit_then_frame [OF assms])+

lemma execute_tool_frame:
  assumes "execute_tool registry cp now k u t sv p decision w = (w', cp', r)"
  shows "approval_requests cp' = approval_requests cp \<and> cp_next_uuid cp' = cp_next_uuid cp"
  using assms unfolding execute_tool_def Let_def tool_audit_def
  by (auto split: sum.splits if_splits prod.splits error.splits tenancy_error.splits dest: audit_then_frame)

lemma separated_fewer: "separated (cp, run) \<Longrightarrow> separated (cp, [])"
  by (auto simp: separated_def)

lemma settled_pending: "settled_request a cp \<Longrightarrow> pending_approval cp t i = Inr b \<Longrightarrow> ap_id a \<noteq> i"
  using settled_get by (fastforce simp: pending_approval_def settled_request_def split: if_splits)

lemma commit_writes:
  assumes "commit_decision cp now t i u status = Inr (cp', b)"
  obtains f where "cp' = write_approval i f cp"
  using assms unfolding commit_decision_def Let_def
  by (cases "lock_open_tenant (cp_db cp) t"; cases "get_approval cp t i") (auto split: if_splits)

lemma decided_settled:
  assumes "settled_request a cp" "ap_id a \<noteq> i" "decided cp t u action (commit_decision cp now t i u status) = (cp', r)"
  shows "settled_request a cp'"
proof (cases "commit_decision cp now t i u status")
  case (Inl e)
  then show ?thesis using assms by (simp add: decided_def)
next
  case (Inr x)
  obtain cp1 b where x: "x = (cp1, b)" by (cases x)
  have com: "commit_decision cp now t i u status = Inr (cp1, b)" using Inr x by simp
  obtain f where f: "cp1 = write_approval i f cp" using com by (rule commit_writes)
  have "separated (cp1, [])" using commit_separated [OF com] assms(1) by (simp add: settled_request_def)
  then have "settled_request a cp1" using settled_write assms(1,2) unfolding f by blast
  moreover have "audit_then cp1 (approval_audit cp1 t u action (ap_id b) SUCCESS) (Inr b) = (cp', r)"
    using assms(3) com by (simp add: decided_def)
  ultimately show ?thesis unfolding approval_audit_def using settled_audited by blast
qed

lemma propose_settled:
  assumes "settled_request a cp" "propose_action cp t u k sv p = (cp', r)"
  shows "settled_request a cp'"
proof -
  have "separated (cp', [])" using propose_separated [OF assms(2)] assms(1) by (simp add: settled_request_def)
  moreover have "set (approval_requests cp) \<subseteq> set (approval_requests cp')"
    using assms(2) unfolding propose_action_def approval_audit_def Let_def
    by (auto split: sum.splits if_splits option.splits dest!: audit_then_frame(1))
  ultimately show ?thesis using assms(1) by (auto simp: settled_request_def)
qed

lemma check_settled:
  assumes "settled_request a cp" "approve_check cp t i u = (cp', r)"
  shows "settled_request a cp' \<and> (\<forall>x. r = Inr x \<longrightarrow> cp' = cp \<and> ap_id a \<noteq> i)"
proof (cases "pending_approval cp t i")
  case (Inl e)
  then show ?thesis using assms by (auto simp: approve_check_def)
next
  case (Inr b)
  show ?thesis
  proof (cases "u = ap_proposer_user_id b")
    case True
    then have "audit_then cp (approval_audit cp t u ''control_plane.action_approved'' i DENIED)
        (Inl (SelfApprovalNotAllowedError i)) = (cp', r)" using assms(2) Inr by (simp add: approve_check_def)
    moreover from this have "\<exists>e. r = Inl e" by (auto simp: audit_then_def split: sum.splits)
    ultimately show ?thesis using settled_audited assms(1) unfolding approval_audit_def by blast
  next
    case False
    then show ?thesis using assms Inr settled_pending by (auto simp: approve_check_def)
  qed
qed

lemma execute_settled:
  assumes "settled_request a cp" "execute_approved registry cp now t i decision w = (w', cp', r)"
  shows "settled_request a cp'"
proof (cases "claim_for_execution cp t i")
  case (Inl e)
  then show ?thesis using assms by (simp add: execute_approved_def)
next
  case (Inr x)
  obtain cp1 b where x: "x = (cp1, b)" by (cases x)
  have claim: "claim_for_execution cp t i = Inr (cp1, b)" using Inr x by simp
  obtain c where c: "get_approval cp t i = Inr c" "ap_status c = ''approved''"
      "cp1 = write_approval i (\<lambda>x. x\<lparr>ap_status := ''executing''\<rparr>) cp"
    using claim by (rule claim_cases)
  have other: "ap_id a \<noteq> i" using settled_get [OF assms(1) c(1)] c(2) assms(1) by (auto simp: settled_request_def)
  have sep: "separated (cp1, [i])" using claim_separated [OF claim] assms(1) by (simp add: settled_request_def)
  obtain cp2 r2 where run: "execute_tool registry cp1 now (ap_tool_key b) (ap_proposer_user_id b) t
      (ap_agent_scope_value b) (ap_payload b) decision w = (w', cp2, r2)"
    and last: "cp' = give_back cp2 t i \<or> (\<exists>r3. mark_executed cp2 t i = (cp', r3))"
    using assms(2) claim by (auto simp: execute_approved_def split: sum.splits prod.splits)
  have sep2: "separated (cp2, [i])" using sep execute_tool_frame [OF run] by (simp add: separated_def)
  have "separated (cp', [i])"
    using last give_back_separated [OF _ sep2] finish_separated [OF _ _ sep2] by auto
  moreover have "a \<in> set (approval_requests cp2)"
    using assms(1) other execute_tool_frame [OF run] by (auto simp: c(3) requests_write settled_request_def)
  then have "a \<in> set (approval_requests cp')"
    using last other by (auto simp: give_back_def mark_executed_def row_simps requests_write split: sum.splits)
  ultimately show ?thesis using assms(1) separated_fewer by (auto simp: settled_request_def)
qed

lemma operation_settled:
  "operation_step registry s s' \<Longrightarrow> settled_request a (fst s) \<Longrightarrow> settled_request a (fst s')"
proof (induction rule: operation_step.induct)
  case (op_approve cp now t i u cp' r w)
  obtain cp1 r1 where check: "approve_check cp t i u = (cp1, r1)" by (cases "approve_check cp t i u")
  note ok = check_settled [OF _ check, of a]
  show ?case
  proof (cases r1)
    case (Inl e)
    then show ?thesis using op_approve ok check by (simp add: approve_def)
  next
    case (Inr v)
    then have dec: "decided cp t u ''control_plane.action_approved'' (commit_decision cp now t i u ''approved'') = (cp', r)"
      using op_approve ok check by (auto simp: approve_def approve_commit_def)
    have other: "ap_id a \<noteq> i" using ok op_approve.prems Inr by simp
    have "settled_request a cp" using op_approve.prems by simp
    from decided_settled [OF this other dec] show ?thesis by simp
  qed
next
  case (op_reject cp now t i u cp' r w)
  show ?case
  proof (cases "pending_approval cp t i")
    case (Inl e)
    then show ?thesis using op_reject by (simp add: reject_def)
  next
    case (Inr b)
    then have dec: "decided cp t u ''control_plane.action_rejected'' (commit_decision cp now t i u ''rejected'') = (cp', r)"
      using op_reject.hyps by (simp add: reject_def reject_commit_def)
    have settled: "settled_request a cp" using op_reject.prems by simp
    from decided_settled [OF this settled_pending [OF this Inr] dec] show ?thesis by simp
  qed
next
  case (op_invoke cp now k u t sv p decision w w' cp' r)
  have "approval_requests cp' = approval_requests cp \<and> cp_next_uuid cp' = cp_next_uuid cp"
    using op_invoke.hyps unfolding invoke_tool_def by (auto split: sum.splits if_splits dest: execute_tool_frame)
  then show ?case using op_invoke.prems settled_frame [of cp' cp a] by simp
next
  case (op_data cp req pol elig u cp' r w)
  have "settled_request a (cp\<lparr>cp_next_uuid := cp_next_uuid cp + 1\<rparr>)"
    using op_data.prems by (auto simp: settled_request_def separated_def)
  then show ?case using op_data.hyps unfolding authorize_data_access_def Let_def
    by (auto dest: settled_audited)
next
  case (op_elsewhere cp w d es w')
  then show ?case by (simp add: settled_request_def separated_def)
qed (auto intro: propose_settled execute_settled)

text \<open>C33: a decision is final between whole operations. Once a request is rejected or executed, no
  sequence of complete operations on the control plane changes it again, and executing it is
  refused and leaves the world as it is: a rejected proposal never runs, and an approved one runs
  to success at most once.\<close>

theorem decided_request_is_final:
  assumes "(operation_step registry)\<^sup>*\<^sup>* (cp, w) (cp', w')" "settled_request a cp"
  shows "a \<in> set (approval_requests cp') \<and>
    (\<exists>e. execute_approved registry cp' now t (ap_id a) decision x = (x, cp', Inl e))"
proof (intro conjI)
  have "settled_request a (fst (cp', w'))"
    using assms(1) by (induction rule: rtranclp_induct) (simp_all add: assms(2) operation_settled)
  then have settled: "settled_request a cp'" by simp
  then show "a \<in> set (approval_requests cp')" by (simp add: settled_request_def)
  show "\<exists>e. execute_approved registry cp' now t (ap_id a) decision x = (x, cp', Inl e)"
  proof (cases "claim_for_execution cp' t (ap_id a)")
    case (Inl e)
    then show ?thesis by (simp add: execute_approved_def)
  next
    case (Inr y)
    then obtain b where "get_approval cp' t (ap_id a) = Inr b" "ap_status b = ''approved''"
      using claim_cases by (metis surj_pair)
    moreover from this(1) have "b = a" using settled_get [OF settled] by simp
    ultimately have False using settled by (auto simp: settled_request_def)
    then show ?thesis ..
  qed
qed

subsection \<open>A small control plane\<close>

text \<open>Tenant 1 with its administrator 10 as the agent, a tier 1 tool that needs the permission
  \<open>membership_role:create\<close>, and a tool that counts its calls.\<close>

definition sample_tool :: "nat tool_definition" where
  "sample_tool = \<lparr>td_key = ''t'', td_handler = (\<lambda>_ _ n. (n + 1, Inr [])), td_required_scope_type = TENANT_SCOPE,
     td_required_resource = Some ''membership_role'', td_required_action = Some ''create'', td_required_scope_value = None,
     td_declared_secrets = [], td_autonomy_tier = 1, td_data_classification = ''none'', td_side_effect = ''mutating'',
     td_requires_data_authorization = False\<rparr>"

definition sample_request :: "string \<Rightarrow> uuid option \<Rightarrow> approval_request" where
  "sample_request status approver = \<lparr>ap_id = 500, ap_tenant_id = 1, ap_proposer_user_id = 10, ap_tool_key = ''t'',
     ap_agent_scope_value = None, ap_payload = [], ap_status = status, ap_approver_user_id = approver, ap_decided_at = None\<rparr>"

definition sample_plane :: "approval_request \<Rightarrow> control_plane" where
  "sample_plane a = \<lparr>cp_db = sample_db, cp_audit = [], approval_requests = [a], cp_next_uuid = 501\<rparr>"

lemma sample_separated: "separated (sample_plane (sample_request ''approved'' (Some 11)), [])"
  by (simp add: separated_def sample_plane_def sample_request_def other_approved_def)

lemma sample_runs: "fst (execute_approved [sample_tool] (sample_plane (sample_request ''approved'' (Some 11))) 100 1 500 None 0) = 1"
  by code_simp

theorem tool_effects_are_authorized_witness:
  "\<exists>tool. invocation_allowed [sample_tool] (sample_plane (sample_request ''approved'' (Some 11))) 100 ''t'' 10 1 None None tool"
proof -
  obtain w' cp' r where run: "execute_approved [sample_tool] (sample_plane (sample_request ''approved'' (Some 11))) 100 1 500
      None 0 = (w', cp', r)" by (metis surj_pair)
  then have "w' \<noteq> 0" using sample_runs by simp
  with run sample_separated rtranclp.rtrancl_refl [of control_step]
    tool_effects_are_authorized [of "[sample_tool]" "sample_plane (sample_request ''approved'' (Some 11))" 100 "[]" 0 1 None "[]"
      None 0 w' cp' "Inr []" "sample_plane (sample_request ''approved'' (Some 11))" "[]" 500 r]
  show ?thesis by (auto simp: get_approval_def sample_plane_def sample_request_def split: if_splits)
qed

theorem decided_request_is_final_witness:
  "\<exists>e. execute_approved [sample_tool] (sample_plane (sample_request ''rejected'' (Some 11))) 100 1 500 None 7 =
     (7, sample_plane (sample_request ''rejected'' (Some 11)), Inl e)"
proof -
  have "settled_request (sample_request ''rejected'' (Some 11)) (sample_plane (sample_request ''rejected'' (Some 11)))"
    by (simp add: settled_request_def separated_def sample_plane_def sample_request_def)
  from decided_request_is_final [OF rtranclp.rtrancl_refl this, of "[sample_tool]" 100 1 None 7]
  show ?thesis by (simp add: sample_request_def)
qed

subsection \<open>Where finality ends\<close>

text \<open>The status is read in one transaction and overwritten in another. An approver who read the
  request while it was pending commits after it has been rejected: the rejection is overwritten and
  the rejected action executes.\<close>

theorem stale_approval_revives_rejected:
  "\<exists>cp1 cp2 cp3 cp4.
     approve_check (sample_plane (sample_request ''pending'' None)) 1 500 11 = (cp1, Inr ()) \<and>
     (\<exists>a. reject cp1 50 1 500 12 = (cp2, Inr a) \<and> ap_status a = ''rejected'') \<and>
     (\<exists>a. approve_commit cp2 60 1 500 11 = (cp3, Inr a)) \<and>
     (\<exists>a. execute_approved [sample_tool] cp3 100 1 500 None 0 = (1, cp4, Inr a))"
proof -
  let ?cp1 = "sample_plane (sample_request ''pending'' None)"
  let ?rej = "reject ?cp1 50 1 500 12"
  let ?app = "approve_commit (fst ?rej) 60 1 500 11"
  let ?exe = "execute_approved [sample_tool] (fst ?app) 100 1 500 None 0"
  have "approve_check ?cp1 1 500 11 = (?cp1, Inr ())" by code_simp
  moreover have "case snd ?rej of Inl _ \<Rightarrow> False | Inr a \<Rightarrow> ap_status a = ''rejected''" by code_simp
  then obtain a where "?rej = (fst ?rej, Inr a)" "ap_status a = ''rejected''"
    by (cases ?rej) (auto split: sum.splits)
  moreover have "is_ok (snd ?app)" by code_simp
  then obtain b where "?app = (fst ?app, Inr b)" by (cases ?app) (auto simp: is_ok_iff)
  moreover have "fst ?exe = 1" "is_ok (snd (snd ?exe))" by code_simp+
  then obtain c cp4 where "?exe = (1, cp4, Inr c)" by (cases ?exe) (auto simp: is_ok_iff)
  ultimately show ?thesis by blast
qed

text \<open>A proposer cannot withdraw a proposal by rejecting it: the decision violates the table's check
  constraint, and the caller gets the raw error of the database.\<close>

theorem proposer_cannot_reject:
  assumes "get_approval cp t i = Inr a" "ap_status a = ''pending''" "ap_proposer_user_id a = u"
    and "lock_open_tenant (cp_db cp) t = Inr tn"
  shows "reject cp now t i u = (cp, Inl (CoreError IntegrityError))"
  using assms by (simp add: reject_def pending_approval_def reject_commit_def decided_def commit_decision_def Let_def)

end
