(* ===== verification/Entitlements.thy ===== *)
theory Entitlements
  imports Directory Outbox
begin

section \<open>Subscriptions and entitlements\<close>

text \<open>
  \<open>saas_os/core/billing/lifecycle.py\<close> (the subscription state machine) and the entitlement reads of
  \<open>saas_os/core/billing/service.py\<close>: who owns a tenant's billing, which plans count, and how
  their entitlements combine. A plan's entitlements are a JSON object; a number is its decimal
  value. The columns of plans and subscriptions that no read here uses are left out.
\<close>

subsection \<open>The subscription lifecycle\<close>

datatype subscription_status = SUB_PENDING | SUB_ACTIVE | SUB_PAST_DUE | SUB_CANCELED

datatype provider_subscription_state = PROVIDER_ACTIVE | PROVIDER_PENDING | PROVIDER_PAST_DUE
  | PROVIDER_CANCELED | PROVIDER_NOT_FOUND | PROVIDER_UNKNOWN

fun status_value :: "subscription_status \<Rightarrow> string" where
  "status_value SUB_PENDING = ''pending''"
| "status_value SUB_ACTIVE = ''active''"
| "status_value SUB_PAST_DUE = ''past_due''"
| "status_value SUB_CANCELED = ''canceled''"

fun SUBSCRIPTION_TRANSITIONS :: "subscription_status \<Rightarrow> subscription_status list" where
  "SUBSCRIPTION_TRANSITIONS SUB_PENDING = [SUB_ACTIVE, SUB_PAST_DUE, SUB_CANCELED]"
| "SUBSCRIPTION_TRANSITIONS SUB_ACTIVE = [SUB_PAST_DUE, SUB_CANCELED]"
| "SUBSCRIPTION_TRANSITIONS SUB_PAST_DUE = [SUB_ACTIVE, SUB_CANCELED]"
| "SUBSCRIPTION_TRANSITIONS SUB_CANCELED = []"

definition LIVE_STATUSES :: "subscription_status list" where
  "LIVE_STATUSES = [SUB_PENDING, SUB_ACTIVE, SUB_PAST_DUE]"

definition ENTITLEMENT_GRANTING_STATUSES :: "subscription_status list" where
  "ENTITLEMENT_GRANTING_STATUSES = [SUB_ACTIVE]"

datatype billing_error =
    InvalidSubscriptionTransitionError string string
  | InvalidBillingHierarchyError uuid
  | EntitlementDeniedError uuid string
  | BillingTenantError error

definition parse_status :: "string \<Rightarrow> billing_error + subscription_status" where
  "parse_status v = (case find (\<lambda>s. status_value s = v) [SUB_PENDING, SUB_ACTIVE, SUB_PAST_DUE, SUB_CANCELED] of
     None \<Rightarrow> Inl (InvalidSubscriptionTransitionError v v)
   | Some s \<Rightarrow> Inr s)"

definition is_transition_allowed :: "subscription_status \<Rightarrow> subscription_status \<Rightarrow> bool" where
  "is_transition_allowed current target = (current = target \<or> target \<in> set (SUBSCRIPTION_TRANSITIONS current))"

definition validate_transition :: "string \<Rightarrow> subscription_status \<Rightarrow> billing_error + subscription_status" where
  "validate_transition current target = ebind (parse_status current) (\<lambda>current_status.
     if \<not> is_transition_allowed current_status target
     then Inl (InvalidSubscriptionTransitionError current (status_value target)) else Inr target)"

record plan =
  pn_id :: uuid
  pn_entitlements :: payload

record subscription =
  sb_id :: uuid
  sb_tenant_id :: uuid
  sb_plan_id :: uuid
  sb_status :: string
  sb_created_at :: datetime

record billing =
  billing_plans :: "plan list"
  billing_subscriptions :: "subscription list"

definition set_subscription_status ::
  "subscription \<Rightarrow> subscription_status \<Rightarrow> billing_error + (subscription \<times> bool)" where
  "set_subscription_status s target = ebind (validate_transition (sb_status s) target) (\<lambda>_.
     if sb_status s = status_value target then Inr (s, False)
     else Inr (s\<lparr>sb_status := status_value target\<rparr>, True))"

fun target_status_for :: "provider_subscription_state \<Rightarrow> subscription_status option" where
  "target_status_for PROVIDER_ACTIVE = Some SUB_ACTIVE"
| "target_status_for PROVIDER_PENDING = Some SUB_PENDING"
| "target_status_for PROVIDER_PAST_DUE = Some SUB_PAST_DUE"
| "target_status_for PROVIDER_CANCELED = Some SUB_CANCELED"
| "target_status_for _ = None"

text \<open>The table meets the contract of a lifecycle: nothing leaves a canceled subscription.\<close>

interpretation subscription_lifecycle:
  lifecycle_graph "\<lambda>s t. t \<in> set (SUBSCRIPTION_TRANSITIONS s)" "\<lambda>_. 0" "\<lambda>s. s = SUB_CANCELED"
  by unfold_locales auto

subsection \<open>Entitlements\<close>

fun first_owner :: "db \<Rightarrow> uuid list \<Rightarrow> error + uuid option" where
  "first_owner d [] = Inr None"
| "first_owner d (a # as) = ebind (get_tenant d a) (\<lambda>ancestor.
     if \<not> tn_inherits_billing ancestor then Inr (Some a) else first_owner d as)"

definition resolve_billing_owner :: "db \<Rightarrow> uuid \<Rightarrow> billing_error + uuid" where
  "resolve_billing_owner d tenant_id = (case get_tenant d tenant_id of
     Inl e \<Rightarrow> Inl (BillingTenantError e)
   | Inr tenant \<Rightarrow>
       if \<not> tn_inherits_billing tenant then Inr tenant_id
       else (case first_owner d (get_ancestor_chain d tenant_id) of
         Inl e \<Rightarrow> Inl (BillingTenantError e)
       | Inr None \<Rightarrow> Inl (InvalidBillingHierarchyError tenant_id)
       | Inr (Some owner) \<Rightarrow> Inr owner))"

fun number_of_json :: "json \<Rightarrow> rat option" where
  "number_of_json (JNumber q) = Some q"
| "number_of_json _ = None"

fun bool_of_json :: "json \<Rightarrow> bool option" where
  "bool_of_json (JBool b) = Some b"
| "bool_of_json _ = None"

definition combined_value :: "json list \<Rightarrow> json" where
  "combined_value held_values =
     (let numbers = List.map_filter number_of_json held_values; booleans = List.map_filter bool_of_json held_values in
      if numbers \<noteq> [] then JNumber (foldl max (hd numbers) (tl numbers))
      else if booleans \<noteq> [] then JBool (list_ex id booleans)
      else hd held_values)"

definition combine_entitlements :: "payload list \<Rightarrow> payload" where
  "combine_entitlements maps =
     map (\<lambda>key. (key, combined_value (List.map_filter (\<lambda>m. map_of m key) maps)))
       (remdups (concat (map (map fst) maps)))"

definition entitlement_maps_for :: "db \<Rightarrow> billing \<Rightarrow> uuid \<Rightarrow> billing_error + payload list" where
  "entitlement_maps_for d b tenant_id = ebind (resolve_billing_owner d tenant_id) (\<lambda>owner.
     let granting = filter (\<lambda>s. sb_tenant_id s = owner \<and>
           sb_status s \<in> set (map status_value ENTITLEMENT_GRANTING_STATUSES)) (billing_subscriptions b);
         plan_ids = map sb_plan_id (sort_key (\<lambda>s. (- sb_created_at s, sb_id s)) granting)
     in Inr (List.map_filter (\<lambda>i. map_option pn_entitlements (find (\<lambda>p. pn_id p = i) (billing_plans b))) plan_ids))"

definition get_entitlements :: "db \<Rightarrow> billing \<Rightarrow> uuid \<Rightarrow> billing_error + payload" where
  "get_entitlements d b tenant_id = ebind (entitlement_maps_for d b tenant_id) (\<lambda>maps. Inr (combine_entitlements maps))"

definition has_entitlement :: "db \<Rightarrow> billing \<Rightarrow> uuid \<Rightarrow> string \<Rightarrow> billing_error + bool" where
  "has_entitlement d b tenant_id key = ebind (get_entitlements d b tenant_id) (\<lambda>entitlements.
     Inr (map_of entitlements key = Some (JBool True)))"

definition require_entitlement :: "db \<Rightarrow> billing \<Rightarrow> uuid \<Rightarrow> string \<Rightarrow> billing_error + unit" where
  "require_entitlement d b tenant_id key = ebind (has_entitlement d b tenant_id key) (\<lambda>held.
     require held (EntitlementDeniedError tenant_id key))"

text \<open>The limit that \<open>_numeric_limit\<close> of the usage module reads for a metric.\<close>

definition numeric_limit :: "payload \<Rightarrow> string \<Rightarrow> rat option" where
  "numeric_limit entitlements metric = Option.bind (map_of entitlements metric) number_of_json"

subsection \<open>Several plans\<close>

lemma set_map_filter: "set (List.map_filter f xs) = {y. \<exists>x \<in> set xs. f x = Some y}"
  by (induction xs) (auto simp: map_filter_simps split: option.splits)

lemma foldl_max: "foldl max x xs = Max (insert x (set xs))" for x :: rat
proof (induction xs arbitrary: x)
  case (Cons a xs)
  then show ?case by (cases "xs = []") (simp_all add: Max_insert max.assoc max.commute max.left_commute)
qed simp

lemma combined_number:
  "number_of_json (combined_value held_values) =
     (let N = {q. JNumber q \<in> set held_values} in if N = {} then
        (if \<exists>b. JBool b \<in> set held_values then None else number_of_json (hd held_values)) else Some (Max N))"
proof -
  have set_numbers: "set (List.map_filter number_of_json held_values) = {q. JNumber q \<in> set held_values}"
    unfolding set_map_filter by (auto elim!: number_of_json.elims intro: bexI [where x = "JNumber _"])
  have set_booleans: "set (List.map_filter bool_of_json held_values) = {b. JBool b \<in> set held_values}"
    unfolding set_map_filter by (auto elim!: bool_of_json.elims intro: bexI [where x = "JBool _"])
  show ?thesis
  proof (cases "List.map_filter number_of_json held_values")
    case Nil
    then have "{q. JNumber q \<in> set held_values} = {}" using set_numbers by simp
    moreover have "(List.map_filter bool_of_json held_values = []) = (\<nexists>b. JBool b \<in> set held_values)"
      using set_booleans by (metis (no_types, lifting) Collect_empty_eq set_empty)
    ultimately show ?thesis using Nil by (simp add: combined_value_def Let_def)
  next
    case (Cons q qs)
    then have "{q. JNumber q \<in> set held_values} = insert q (set qs)" using set_numbers by simp
    then show ?thesis using Cons by (simp add: combined_value_def Let_def foldl_max)
  qed
qed

lemma map_of_map_self: "map_of (map (\<lambda>k. (k, f k)) ks) k = (if k \<in> set ks then Some (f k) else None)"
  by (induction ks) auto

text \<open>C37: a limit set by any active plan binds, whatever the other plans say. The limit a metric has
  under several subscriptions is the largest of the numbers their plans set for it; it is
  unlimited only if no plan sets a number, so a plan that holds a flag, a text or nothing for
  the metric never lifts another plan's limit, and the order of the subscriptions does not matter.\<close>

theorem combined_limit_is_largest:
  "numeric_limit (combine_entitlements maps) metric =
     (let limits = {q. \<exists>m \<in> set maps. map_of m metric = Some (JNumber q)} in
      if limits = {} then None else Some (Max limits))"
proof -
  let ?held_values = "List.map_filter (\<lambda>m. map_of m metric) maps"
  have vals: "set ?held_values = {v. \<exists>m \<in> set maps. map_of m metric = Some v}"
    unfolding set_map_filter by auto
  have limits: "{q. JNumber q \<in> set ?held_values} = {q. \<exists>m \<in> set maps. map_of m metric = Some (JNumber q)}"
    using vals by auto
  show ?thesis
  proof (cases "\<exists>m \<in> set maps. metric \<in> fst ` set m")
    case True
    then obtain m v where "m \<in> set maps" "map_of m metric = Some v"
      by (metis map_of_eq_None_iff not_None_eq)
    then have nonempty: "?held_values \<noteq> []" using vals by (metis (mono_tags, lifting) empty_iff mem_Collect_eq set_empty)
    have "number_of_json (hd ?held_values) = None" if "{q. JNumber q \<in> set ?held_values} = {}"
      using that hd_in_set [OF nonempty] by (cases "hd ?held_values") auto
    then show ?thesis using True limits combined_number [of ?held_values]
      by (auto simp: numeric_limit_def combine_entitlements_def map_of_map_self Let_def image_iff)
  next
    case False
    then have "{q. \<exists>m \<in> set maps. map_of m metric = Some (JNumber q)} = {}"
      by (auto simp: map_of_eq_None_iff [symmetric])
    then show ?thesis using False
      by (auto simp: numeric_limit_def combine_entitlements_def map_of_map_self image_iff)
  qed
qed

end
