(* ===== verification/Usage.thy ===== *)
theory Usage
  imports Entitlements Idempotency
begin

section \<open>Usage and quotas\<close>

text \<open>
  \<open>saas_os/core/usage/service.py\<close>: validation of a quantity, recording of usage, aggregation over a
  window, and the quota check that consumes. A quantity is a Python \<open>Decimal\<close>: a coefficient and an
  exponent. Adding two of them rounds to the 28 digits of the default context, half to even;
  \<open>normalize\<close> rounds too, which decides how many decimal places a quantity has. PostgreSQL's \<open>SUM\<close>
  is exact.

  The two reads of the clock in one call are two arguments: the instant that chooses the default
  window, and the instant recorded. The transaction holds an advisory lock on the tenant and
  metric, so consumptions of one metric are serial. The result of an idempotent consumption is
  returned as stored, in text form. The consumer of an ingestion event is given from the fields
  its payload was parsed and validated into.
\<close>

subsection \<open>Decimals\<close>

datatype pydecimal = Dec int int

definition power10 :: "int \<Rightarrow> rat" where
  "power10 e = (if e \<ge> 0 then 10 ^ nat e else 1 / 10 ^ nat (- e))"

fun dec_value :: "pydecimal \<Rightarrow> rat" where
  "dec_value (Dec c e) = of_int c * power10 e"

definition digit_count :: "int \<Rightarrow> nat" where
  "digit_count c = length (decimal (nat \<bar>c\<bar>))"

definition round_half_even :: "int \<Rightarrow> nat \<Rightarrow> int" where
  "round_half_even c k = (let b = 10 ^ k; q = c div b; r = c mod b in
     if 2 * r < b \<or> (2 * r = b \<and> even q) then q else q + 1)"

text \<open>The default context: 28 digits, and no exponent below \<open>Etiny\<close>.\<close>

definition ETINY :: int where
  "ETINY = -1000026"

fun context_fix :: "pydecimal \<Rightarrow> pydecimal" where
  "context_fix (Dec c e) = (let target = max (e + int (digit_count c) - 28) ETINY in
     if e < target then Dec (round_half_even c (nat (target - e))) target else Dec c e)"

fun dec_plus :: "pydecimal \<Rightarrow> pydecimal \<Rightarrow> pydecimal" where
  "dec_plus (Dec a e) (Dec b f) = (let m = min e f in
     Dec (a * 10 ^ nat (e - m) + b * 10 ^ nat (f - m)) m)"

definition dec_add :: "pydecimal \<Rightarrow> pydecimal \<Rightarrow> pydecimal" where
  "dec_add x y = context_fix (dec_plus x y)"

function strip_zeros :: "int \<Rightarrow> int \<Rightarrow> pydecimal" where
  "strip_zeros c e = (if c \<noteq> 0 \<and> c mod 10 = 0 then strip_zeros (c div 10) (e + 1) else Dec c e)"
  by auto

termination
  by (relation "measure (\<lambda>(c, _). nat \<bar>c\<bar>)") auto

declare strip_zeros.simps [simp del]

fun normalized_exponent :: "pydecimal \<Rightarrow> int" where
  "normalized_exponent d = (case context_fix d of Dec c e \<Rightarrow>
     if c = 0 then 0 else (case strip_zeros c e of Dec _ e' \<Rightarrow> e'))"

text \<open>\<open>str\<close> of a non-negative \<open>Decimal\<close>.\<close>

definition signed_text :: "int \<Rightarrow> string" where
  "signed_text i = (if i < 0 then ''-'' else ''+'') @ map char_of (decimal (nat \<bar>i\<bar>))"

fun dec_text :: "pydecimal \<Rightarrow> string" where
  "dec_text (Dec c e) =
     (let ds = map char_of (decimal (nat \<bar>c\<bar>)); n = int (length ds); left = e + n;
          dot = (if e \<le> 0 \<and> left > -6 then left else 1)
      in (if c < 0 then ''-'' else []) @
         (if dot \<le> 0 then ''0.'' @ replicate (nat (- dot)) CHR ''0'' @ ds
          else if dot \<ge> n then ds @ replicate (nat (dot - n)) CHR ''0''
          else take (nat dot) ds @ ''.'' @ drop (nat dot) ds) @
         (if left = dot then [] else CHR ''E'' # signed_text (left - dot)))"

subsection \<open>Validation\<close>

datatype quantity_arg = QDecimal pydecimal | QInt int | QNotFinite | QNotANumber

datatype time_arg = Aware datetime | NotAware

datatype usage_error =
    InvalidUsageEventError
  | QuotaExceededError uuid string pydecimal rat
  | UsageTenantError error
  | UsageBillingError billing_error
  | UsageOutboxError outbox_error
  | UsageIngestionError uuid string
  | CalendarOverflow

definition MAX_METRIC_LENGTH :: nat where
  "MAX_METRIC_LENGTH = 100"

definition MAX_QUANTITY :: rat where
  "MAX_QUANTITY = 10 ^ 18"

definition MAX_QUANTITY_DECIMAL_PLACES :: int where
  "MAX_QUANTITY_DECIMAL_PLACES = 18"

definition validate_metric :: "string \<Rightarrow> usage_error + unit" where
  "validate_metric metric =
     require (\<not> is_blank metric \<and> length metric \<le> MAX_METRIC_LENGTH \<and> \<not> has_control_characters metric)
       InvalidUsageEventError"

definition checked_quantity :: "pydecimal \<Rightarrow> usage_error + pydecimal" where
  "checked_quantity v =
     (if dec_value v < 0 then Inl InvalidUsageEventError
      else if dec_value v \<ge> MAX_QUANTITY then Inl InvalidUsageEventError
      else if dec_value v \<noteq> 0 \<and> - normalized_exponent v > MAX_QUANTITY_DECIMAL_PLACES
      then Inl InvalidUsageEventError
      else Inr v)"

fun validate_quantity :: "quantity_arg \<Rightarrow> usage_error + pydecimal" where
  "validate_quantity (QDecimal v) = checked_quantity v"
| "validate_quantity (QInt i) = checked_quantity (Dec i 0)"
| "validate_quantity QNotFinite = Inl InvalidUsageEventError"
| "validate_quantity QNotANumber = Inl InvalidUsageEventError"

definition DAY :: int where
  "DAY = 86400 * MICROSECOND_SECOND"

definition start_of_day :: "nat \<times> nat \<times> nat \<Rightarrow> datetime" where
  "start_of_day date = int (day_of_date date) * DAY"

definition current_utc_month_window :: "datetime \<Rightarrow> usage_error + (datetime \<times> datetime)" where
  "current_utc_month_window now = (case date_of_day (nat (now div DAY)) of
     (y, m, _) \<Rightarrow>
       if m = 12 \<and> y = 9999 then Inl CalendarOverflow
       else Inr (start_of_day (y, m, 1), if m = 12 then start_of_day (y + 1, 1, 1) else start_of_day (y, m + 1, 1)))"

definition usage_window ::
  "datetime \<Rightarrow> time_arg option \<Rightarrow> time_arg option \<Rightarrow> usage_error + (datetime \<times> datetime)" where
  "usage_window now since until = (case (since, until) of
     (None, None) \<Rightarrow> current_utc_month_window now
   | (Some (Aware s), Some (Aware u)) \<Rightarrow> if s > u then Inl InvalidUsageEventError else Inr (s, u)
   | _ \<Rightarrow> Inl InvalidUsageEventError)"

subsection \<open>Recording and aggregation\<close>

record usage_event =
  ue_tenant_id :: uuid
  ue_metric :: string
  ue_quantity :: pydecimal
  ue_occurred_at :: datetime

definition USAGE_INGESTION_EVENT_TYPE :: string where
  "USAGE_INGESTION_EVENT_TYPE = ''usage.ingestion''"

definition in_window :: "uuid \<Rightarrow> string \<Rightarrow> datetime \<Rightarrow> datetime \<Rightarrow> usage_event \<Rightarrow> bool" where
  "in_window tenant_id metric start end_of r =
     (ue_tenant_id r = tenant_id \<and> ue_metric r = metric \<and> start \<le> ue_occurred_at r \<and> ue_occurred_at r < end_of)"

text \<open>The sum in SQL is exact; no row is \<open>Decimal("0")\<close>.\<close>

definition usage_sum :: "usage_event list \<Rightarrow> uuid \<Rightarrow> string \<Rightarrow> datetime \<Rightarrow> datetime \<Rightarrow> pydecimal" where
  "usage_sum rows tenant_id metric start end_of =
     fold (\<lambda>r. dec_plus (ue_quantity r)) (filter (in_window tenant_id metric start end_of) rows) (Dec 0 0)"

definition aggregate_usage ::
  "usage_event list \<Rightarrow> datetime \<Rightarrow> uuid \<Rightarrow> string \<Rightarrow> time_arg option \<Rightarrow> time_arg option \<Rightarrow> usage_error + pydecimal" where
  "aggregate_usage rows now tenant_id metric since until =
     ebind (usage_window now since until) (\<lambda>(start, end_of). Inr (usage_sum rows tenant_id metric start end_of))"

fun sum_over_tenants ::
  "usage_event list \<Rightarrow> datetime \<Rightarrow> string \<Rightarrow> time_arg option \<Rightarrow> time_arg option \<Rightarrow> uuid list \<Rightarrow> pydecimal
    \<Rightarrow> usage_error + pydecimal" where
  "sum_over_tenants rows now metric since until [] acc = Inr acc"
| "sum_over_tenants rows now metric since until (t # ts) acc =
     ebind (aggregate_usage rows now t metric since until) (\<lambda>x.
     sum_over_tenants rows now metric since until ts (dec_add acc x))"

definition aggregate_usage_including_descendants ::
  "db \<Rightarrow> usage_event list \<Rightarrow> datetime \<Rightarrow> uuid \<Rightarrow> string \<Rightarrow> time_arg option \<Rightarrow> time_arg option \<Rightarrow> usage_error + pydecimal" where
  "aggregate_usage_including_descendants d rows now tenant_id metric since until =
     sum_over_tenants rows now metric since until (get_descendant_ids d tenant_id) (Dec 0 0)"

subsection \<open>Quotas\<close>

record quota_check_result =
  qr_metric :: string
  qr_used :: pydecimal
  qr_limit :: "rat option"
  qr_exceeded :: bool

definition quota_limit :: "db \<Rightarrow> billing \<Rightarrow> uuid \<Rightarrow> string \<Rightarrow> usage_error + rat option" where
  "quota_limit d b tenant_id metric = (case get_entitlements d b tenant_id of
     Inl e \<Rightarrow> Inl (UsageBillingError e)
   | Inr entitlements \<Rightarrow> Inr (numeric_limit entitlements metric))"

definition check_quota ::
  "db \<Rightarrow> billing \<Rightarrow> usage_event list \<Rightarrow> datetime \<Rightarrow> uuid \<Rightarrow> string \<Rightarrow> time_arg option \<Rightarrow> time_arg option
    \<Rightarrow> usage_error + quota_check_result" where
  "check_quota d b rows now tenant_id metric since until =
     ebind (usage_window now since until) (\<lambda>(start, end_of).
     ebind (quota_limit d b tenant_id metric) (\<lambda>limit.
     let used = usage_sum rows tenant_id metric start end_of in
     Inr \<lparr>qr_metric = metric, qr_used = used, qr_limit = limit,
       qr_exceeded = (case limit of None \<Rightarrow> False | Some l \<Rightarrow> dec_value used > l)\<rparr>))"

definition consume_quota_in_session ::
  "usage_event list \<Rightarrow> datetime \<Rightarrow> uuid \<Rightarrow> string \<Rightarrow> pydecimal \<Rightarrow> rat option \<Rightarrow> datetime \<Rightarrow> datetime
    \<Rightarrow> usage_error + (usage_event list \<times> quota_check_result)" where
  "consume_quota_in_session rows recorded tenant_id metric quantity limit start end_of =
     (let used = usage_sum rows tenant_id metric start end_of; total = dec_add used quantity;
          row = \<lparr>ue_tenant_id = tenant_id, ue_metric = metric, ue_quantity = quantity, ue_occurred_at = recorded\<rparr>;
          done_result = Inr (rows @ [row], \<lparr>qr_metric = metric, qr_used = total, qr_limit = limit, qr_exceeded = False\<rparr>)
      in case limit of
           None \<Rightarrow> done_result
         | Some l \<Rightarrow> if dec_value total > l then Inl (QuotaExceededError tenant_id metric used l) else done_result)"

definition consume_quota ::
  "db \<Rightarrow> billing \<Rightarrow> usage_event list \<Rightarrow> datetime \<Rightarrow> datetime \<Rightarrow> uuid \<Rightarrow> string \<Rightarrow> quantity_arg
    \<Rightarrow> time_arg option \<Rightarrow> time_arg option \<Rightarrow> usage_error + (usage_event list \<times> quota_check_result)" where
  "consume_quota d b rows now recorded tenant_id metric quantity_given since until =
     ebind (validate_metric metric) (\<lambda>_.
     ebind (validate_quantity quantity_given) (\<lambda>quantity.
     ebind (usage_window now since until) (\<lambda>(start, end_of).
     (case require_open_tenant d tenant_id of
        Inl e \<Rightarrow> Inl (UsageTenantError e)
      | Inr _ \<Rightarrow>
          ebind (quota_limit d b tenant_id metric) (\<lambda>limit.
          consume_quota_in_session rows recorded tenant_id metric quantity limit start end_of)))))"

definition quota_result_dict :: "(rat \<Rightarrow> string) \<Rightarrow> quota_check_result \<Rightarrow> payload" where
  "quota_result_dict limit_text r = [(''metric'', JString (qr_metric r)), (''used'', JString (dec_text (qr_used r))),
     (''limit'', case qr_limit r of None \<Rightarrow> JNull | Some l \<Rightarrow> JString (limit_text l)),
     (''exceeded'', JBool (qr_exceeded r))]"

definition consume_quota_idempotent ::
  "idempotency_config \<Rightarrow> (rat \<Rightarrow> string) \<Rightarrow> db \<Rightarrow> billing \<Rightarrow> idempotency_store \<Rightarrow> usage_event list \<Rightarrow> datetime \<Rightarrow> datetime
    \<Rightarrow> uuid \<Rightarrow> string \<Rightarrow> quantity_arg \<Rightarrow> string \<Rightarrow> time_arg option \<Rightarrow> time_arg option
    \<Rightarrow> usage_error + (usage_error idempotency_error + (idempotency_store \<times> usage_event list \<times> bool \<times> payload))" where
  "consume_quota_idempotent cfg limit_text d b st rows now recorded tenant_id metric quantity_given key since until =
     ebind (validate_metric metric) (\<lambda>_.
     ebind (validate_quantity quantity_given) (\<lambda>quantity.
     ebind (usage_window now since until) (\<lambda>(start, end_of).
     ebind (quota_limit d b tenant_id metric) (\<lambda>limit.
     Inr (run_idempotent cfg d now st tenant_id ''usage.consume_quota'' key
       [(codes ''metric'', RStr (codes metric)), (codes ''quantity'', RStr (codes (dec_text quantity)))]
       (\<lambda>rows. case consume_quota_in_session rows recorded tenant_id metric quantity limit start end_of of
          Inl e \<Rightarrow> Inl (BusinessError e)
        | Inr (rows', result) \<Rightarrow> Inr (rows', quota_result_dict limit_text result))
       rows)))))"

text \<open>Recording usage for later: an outbox event of the caller's transaction.\<close>

definition ingest_event ::
  "(datetime \<Rightarrow> string) \<Rightarrow> db \<Rightarrow> outbox \<Rightarrow> datetime \<Rightarrow> uuid \<Rightarrow> string \<Rightarrow> quantity_arg \<Rightarrow> time_arg option \<Rightarrow> json option
    \<Rightarrow> string option \<Rightarrow> usage_error + (outbox \<times> uuid)" where
  "ingest_event isoformat d ox now tenant_id metric quantity_given occurred_at initiator correlation_id =
     ebind (validate_metric metric) (\<lambda>_.
     ebind (validate_quantity quantity_given) (\<lambda>quantity.
     ebind (case occurred_at of None \<Rightarrow> Inr now | Some (Aware t) \<Rightarrow> Inr t | Some NotAware \<Rightarrow> Inl InvalidUsageEventError)
       (\<lambda>occurred.
     (case lock_open_tenant d tenant_id of
        Inl e \<Rightarrow> Inl (UsageTenantError e)
      | Inr _ \<Rightarrow>
          (case append_event d ox now tenant_id USAGE_INGESTION_EVENT_TYPE ''usage_metric'' metric
             [(''metric'', JString metric), (''quantity'', JString (dec_text quantity)),
              (''occurred_at'', JString (isoformat occurred))] initiator correlation_id of
             Inl e \<Rightarrow> Inl (UsageOutboxError e)
           | Inr r \<Rightarrow> Inr r)))))"

text \<open>The consumer of such an event. A closed tenant, or an event counted before, is a normal return
  without a row; every other failure is raised for a retry. The consumption claim and the row are
  one transaction.\<close>

definition ingest_usage_event_job ::
  "db \<Rightarrow> outbox \<Rightarrow> usage_event list \<Rightarrow> uuid \<Rightarrow> uuid option \<Rightarrow> string \<Rightarrow> pydecimal \<Rightarrow> datetime
    \<Rightarrow> usage_error + (outbox \<times> usage_event list)" where
  "ingest_usage_event_job d ox rows tenant_id event_id metric quantity occurred_at =
     (let row = \<lparr>ue_tenant_id = tenant_id, ue_metric = metric, ue_quantity = quantity, ue_occurred_at = occurred_at\<rparr>
      in case require_open_tenant d tenant_id of
           Inl (TenantClosedError _ _) \<Rightarrow> Inr (ox, rows)
         | _ \<Rightarrow> (case lock_open_tenant d tenant_id of
             Inl (TenantClosedError _ _) \<Rightarrow> Inr (ox, rows)
           | Inl _ \<Rightarrow> Inl (UsageIngestionError tenant_id metric)
           | Inr _ \<Rightarrow> (case event_id of
               None \<Rightarrow> Inr (ox, rows @ [row])
             | Some e \<Rightarrow> (case claim_event_consumption d ox tenant_id USAGE_INGESTION_EVENT_TYPE e of
                 Inl _ \<Rightarrow> Inl (UsageIngestionError tenant_id metric)
               | Inr (ox', claimed) \<Rightarrow> Inr (if claimed then (ox', rows @ [row]) else (ox, rows))))))"

end
