(* ===== verification/Usage_Properties.thy ===== *)
theory Usage_Properties
  imports Usage Fixture
begin

section \<open>What a quota guarantees\<close>

text \<open>
  Rounding to 28 digits never decides a quota when quantities have at most 18 decimal places and
  the limit is below \<open>10^10\<close>: a total below it is represented exactly, and a larger one stays above.
  On that rest the bound on the usage of a calendar month over any sequence of consumptions, and
  the composition with the outbox: an ingestion event is counted at most once.
\<close>

subsection \<open>Powers of ten and digits\<close>

lemma power10_powi: "power10 e = 10 powi e"
  by (simp add: power10_def power_int_def inverse_eq_divide power_one_over)

lemma power10_add: "power10 (a + b) = power10 a * power10 b"
  by (simp add: power10_powi power_int_add)

lemma power10_pos [simp]: "0 < power10 e"
  by (simp add: power10_powi)

lemma power10_nat: "0 \<le> e \<Longrightarrow> power10 e = of_int (10 ^ nat e)"
  by (simp add: power10_def)

lemma power10_less_iff: "power10 a < power10 b \<longleftrightarrow> a < b"
proof -
  have step: "power10 i < power10 j" if "i < j" for i j
    unfolding power10_powi using that by (rule power_int_strict_increasing) simp
  then show ?thesis by (metis less_asym linorder_neqE order_less_irrefl)
qed

lemma power10_le_iff: "power10 a \<le> power10 b \<longleftrightarrow> a \<le> b"
  by (simp add: power10_less_iff not_less [symmetric])

lemma decimal_bounds: "n < 10 ^ length (decimal n) \<and> (0 < n \<longrightarrow> 10 ^ (length (decimal n) - 1) \<le> n) \<and> decimal n \<noteq> []"
proof (induction n rule: decimal.induct)
  case (1 n)
  show ?case
  proof (cases "n < 10")
    case True
    then show ?thesis by (simp add: decimal.simps [of n])
  next
    case False
    let ?k = "length (decimal (n div 10))"
    have IH: "n div 10 < 10 ^ ?k" "10 ^ (?k - 1) \<le> n div 10" "0 < ?k"
      using 1 [OF False] False by auto
    have "(10 :: nat) ^ ?k = 10 * 10 ^ (?k - 1)" using IH(3) by (cases ?k) auto
    then have "10 ^ ?k \<le> 10 * (n div 10)" using IH(2) by simp
    then have "10 ^ ?k \<le> n" by linarith
    moreover have "n < 10 * 10 ^ ?k" using IH(1) by linarith
    ultimately have "n < 10 * 10 ^ ?k" "10 ^ ?k \<le> n" by blast+
    then show ?thesis using False by (simp add: decimal.simps [of n])
  qed
qed

lemma digit_count_bounds:
  assumes "0 < c"
  shows "c < 10 ^ digit_count c" "10 ^ (digit_count c - 1) \<le> c" "0 < digit_count c"
proof -
  have *: "nat c < 10 ^ digit_count c" "10 ^ (digit_count c - 1) \<le> nat c" "0 < digit_count c"
    using decimal_bounds [of "nat c"] assms by (auto simp: digit_count_def)
  show "c < 10 ^ digit_count c" using *(1) assms by (metis nat_less_eq_zless nat_0_le of_nat_less_iff of_nat_numeral of_nat_power order_less_imp_le)
  show "10 ^ (digit_count c - 1) \<le> c"
    using *(2) assms by (metis nat_0_le of_nat_le_iff of_nat_numeral of_nat_power order_less_imp_le)
  show "0 < digit_count c" by (rule *(3))
qed

text \<open>A decimal lies between two powers of ten, told by its digits and exponent.\<close>

lemma dec_value_bounds:
  assumes "0 < c"
  shows "power10 (e + int (digit_count c) - 1) \<le> dec_value (Dec c e)" "dec_value (Dec c e) < power10 (e + int (digit_count c))"
proof -
  note b = digit_count_bounds [OF assms]
  have "e + int (digit_count c) - 1 = int (digit_count c - 1) + e" using b(3) by simp
  then have "power10 (e + int (digit_count c) - 1) = of_int (10 ^ (digit_count c - 1)) * power10 e"
    by (simp only: power10_add power10_nat of_nat_0_le_iff nat_int)
  also have "\<dots> \<le> of_int c * power10 e" using b(2) by (intro mult_right_mono) (simp_all only: of_int_le_iff order_less_imp_le power10_pos)
  finally show "power10 (e + int (digit_count c) - 1) \<le> dec_value (Dec c e)" by simp
  have "of_int c * power10 e < of_int (10 ^ digit_count c) * power10 e"
    using b(1) by (intro mult_strict_right_mono) (simp_all only: of_int_less_iff power10_pos)
  also have "\<dots> = power10 (e + int (digit_count c))" by (simp add: power10_add power10_nat)
  finally show "dec_value (Dec c e) < power10 (e + int (digit_count c))" by simp
qed

subsection \<open>When rounding is harmless\<close>

text \<open>A decimal that is not negative and has at most 18 decimal places.\<close>

fun exact_quantity :: "pydecimal \<Rightarrow> bool" where
  "exact_quantity (Dec c e) = (0 \<le> c \<and> dec_value (Dec c e) * 10 ^ 18 \<in> \<int>)"

lemma round_half_even_exact: "10 ^ k dvd c \<Longrightarrow> round_half_even c k = c div 10 ^ k"
  by (simp add: round_half_even_def Let_def)

lemma round_half_even_ge: "c div 10 ^ k \<le> round_half_even c k"
  by (simp add: round_half_even_def Let_def)

lemma grid_divides:
  assumes "dec_value (Dec c e) * 10 ^ 18 \<in> \<int>" "e < g" "g \<le> - 18"
  shows "10 ^ nat (g - e) dvd c"
proof -
  obtain k where "of_int c * power10 e * 10 ^ 18 = of_int k" using assms(1) by (auto elim: Ints_cases)
  then have k: "of_int c * (power10 e * power10 18) = of_int k" by (simp add: power10_def mult.assoc)
  have "power10 e * power10 18 * power10 (- 18 - e) = power10 0" by (simp only: power10_add [symmetric]) simp
  then have unit: "power10 e * power10 18 * power10 (- 18 - e) = 1" by (simp add: power10_def)
  have "of_int c = of_int k * power10 (- 18 - e)" unfolding k [symmetric] using unit by (simp add: mult.assoc)
  also have "power10 (- 18 - e) = of_int (10 ^ nat (- 18 - e))" using assms(2,3) by (intro power10_nat) simp
  finally have "c = k * 10 ^ nat (- 18 - e)" by (metis of_int_eq_iff of_int_mult)
  moreover have "(10 :: int) ^ nat (g - e) dvd 10 ^ nat (- 18 - e)" using assms(3) by (intro le_imp_power_dvd) simp
  ultimately show ?thesis by simp
qed

lemma context_fix_exact:
  assumes "exact_quantity x" "dec_value x < 10 ^ 10"
  shows "dec_value (context_fix x) = dec_value x"
proof (cases x)
  case (Dec c e)
  define g where "g = max (e + int (digit_count c) - 28) ETINY"
  show ?thesis
  proof (cases "c = 0 \<or> \<not> e < g")
    case True
    then show ?thesis by (auto simp: Dec g_def Let_def round_half_even_def)
  next
    case False
    then have "0 < c" "e < g" using assms(1) by (simp_all add: Dec)
    have "power10 (e + int (digit_count c) - 1) < power10 10"
      using dec_value_bounds(1) [OF \<open>0 < c\<close>, of e] assms(2) by (simp add: Dec power10_def)
    then have "g \<le> - 18" by (simp only: power10_less_iff) (simp add: g_def ETINY_def)
    then have dvd: "10 ^ nat (g - e) dvd c" using grid_divides [OF _ \<open>e < g\<close>, of c] assms(1) by (simp add: Dec)
    then obtain q where q: "c = 10 ^ nat (g - e) * q" ..
    have "context_fix x = Dec (round_half_even c (nat (g - e))) g"
      using \<open>e < g\<close> by (simp add: Dec g_def Let_def)
    also have "\<dots> = Dec q g" unfolding round_half_even_exact [OF dvd] by (simp add: q)
    finally have "context_fix x = Dec q g" .
    moreover have "power10 g = of_int (10 ^ nat (g - e)) * power10 e"
      using power10_add [of "g - e" e] power10_nat [of "g - e"] \<open>e < g\<close> by simp
    ultimately show ?thesis by (simp add: Dec q)
  qed
qed

lemma context_fix_large:
  assumes "exact_quantity x" "10 ^ 10 \<le> dec_value x"
  shows "10 ^ 10 \<le> dec_value (context_fix x)"
proof (cases x)
  case (Dec c e)
  define n where "n = digit_count c"
  define g where "g = max (e + int n - 28) ETINY"
  have "0 < c" using assms by (cases "c = 0") (simp_all add: Dec)
  have "power10 10 < power10 (e + int n)"
    using dec_value_bounds(2) [OF \<open>0 < c\<close>, of e] assms(2) by (simp add: Dec n_def power10_def)
  then have en: "10 < e + int n" by (simp only: power10_less_iff)
  then have g: "g = e + int n - 28" by (simp add: g_def ETINY_def)
  show ?thesis
  proof (cases "e < g")
    case False
    then show ?thesis using assms(2) by (simp add: Dec g_def n_def Let_def)
  next
    case True
    then have k: "nat (g - e) = n - 28" "28 < n" by (simp_all add: g)
    have "(10 :: int) ^ (n - 1) = 10 ^ 27 * 10 ^ (n - 28)" using k(2) by (simp only: power_add [symmetric]) simp
    then have "10 ^ 27 * 10 ^ (n - 28) \<le> c" using digit_count_bounds(2) [OF \<open>0 < c\<close>] by (simp add: n_def)
    then have "(10 :: int) ^ 27 \<le> c div 10 ^ (n - 28)" by (simp add: zdiv_mono1 [of "10 ^ 27 * 10 ^ (n - 28)" c "10 ^ (n - 28)", simplified])
    also have "\<dots> \<le> round_half_even c (n - 28)" by (rule round_half_even_ge)
    finally have r: "(10 :: rat) ^ 27 \<le> of_int (round_half_even c (n - 28))" by (metis of_int_le_iff of_int_numeral of_int_power)
    have "(10 :: rat) ^ 10 \<le> power10 (27 + g)" using en power10_le_iff [of 10 "27 + g"] by (simp add: g power10_def)
    also have "\<dots> = 10 ^ 27 * power10 g" by (simp add: power10_add) (simp add: power10_def)
    also have "\<dots> \<le> of_int (round_half_even c (n - 28)) * power10 g" using r by (intro mult_right_mono) (simp_all add: less_imp_le)
    finally show ?thesis using True by (simp add: Dec g_def [symmetric] n_def [symmetric] Let_def k)
  qed
qed

text \<open>So the comparison with a limit below \<open>10^10\<close> is the comparison of the exact values.\<close>

lemma context_fix_exceeds_iff:
  assumes "exact_quantity x" "l < 10 ^ 10"
  shows "l < dec_value (context_fix x) \<longleftrightarrow> l < dec_value x"
  using context_fix_exact [OF assms(1)] context_fix_large [OF assms(1)] assms(2)
  by (cases "dec_value x < 10 ^ 10") auto

lemma dec_value_plus: "dec_value (dec_plus x y) = dec_value x + dec_value y"
proof (cases x; cases y)
  fix a e b f assume xy: "x = Dec a e" "y = Dec b f"
  define m where "m = min e f"
  have "power10 e = of_int (10 ^ nat (e - m)) * power10 m" "power10 f = of_int (10 ^ nat (f - m)) * power10 m"
    using power10_add [of "e - m" m] power10_add [of "f - m" m] by (simp_all add: power10_nat m_def)
  then show ?thesis by (simp add: xy m_def [symmetric] Let_def distrib_right mult.assoc)
qed

lemma exact_plus: "exact_quantity x \<Longrightarrow> exact_quantity y \<Longrightarrow> exact_quantity (dec_plus x y)"
proof (cases x; cases y)
  fix a e b f assume xy: "x = Dec a e" "y = Dec b f" and ex: "exact_quantity x" "exact_quantity y"
  have "dec_value x * 10 ^ 18 \<in> \<int>" "dec_value y * 10 ^ 18 \<in> \<int>" using ex by (simp_all add: xy)
  then have "dec_value (dec_plus x y) * 10 ^ 18 \<in> \<int>" unfolding dec_value_plus distrib_right by (rule Ints_add)
  with ex show ?thesis by (simp add: xy Let_def)
qed

subsection \<open>Validated quantities\<close>

text \<open>A quantity as callers write it: an integer, or a decimal that fits the default context.\<close>

fun plain_quantity :: "quantity_arg \<Rightarrow> bool" where
  "plain_quantity (QDecimal (Dec c e)) = (digit_count c \<le> 28 \<and> ETINY \<le> e)"
| "plain_quantity _ = True"

lemma strip_zeros_value: "dec_value (strip_zeros c e) = of_int c * power10 e"
proof (induction c e rule: strip_zeros.induct)
  case (1 c e)
  show ?case
  proof (cases "c \<noteq> 0 \<and> c mod 10 = 0")
    case True
    then have "c = c div 10 * 10" by presburger
    then have "rat_of_int c = of_int (c div 10) * 10" by (metis of_int_mult of_int_numeral)
    moreover have "power10 (e + 1) = 10 * power10 e" by (simp add: power10_add mult.commute) (simp add: power10_def)
    ultimately show ?thesis using 1 True by (simp add: strip_zeros.simps [of c e])
  next
    case False
    then show ?thesis by (auto simp: strip_zeros.simps [of c e])
  qed
qed

lemma grid_exponent:
  assumes "- 18 \<le> e"
  shows "of_int c * power10 e * 10 ^ 18 \<in> \<int>"
proof -
  have "of_int c * power10 e * 10 ^ 18 = of_int c * power10 (e + 18)"
    by (simp add: power10_add) (simp add: power10_def)
  also have "\<dots> = of_int (c * 10 ^ nat (e + 18))" using assms by (simp add: power10_nat)
  finally show ?thesis by (simp only: Ints_of_int)
qed

lemma checked_quantity_exact:
  assumes "checked_quantity (Dec c e) = Inr v" "digit_count c \<le> 28 \<and> ETINY \<le> e \<or> - 18 \<le> e"
  shows "exact_quantity v"
proof -
  have ok: "v = Dec c e" "0 \<le> of_int c * power10 e"
      "of_int c * power10 e \<noteq> 0 \<Longrightarrow> - 18 \<le> normalized_exponent (Dec c e)"
    using assms(1) by (auto simp: checked_quantity_def MAX_QUANTITY_DECIMAL_PLACES_def split: if_splits)
  have "0 \<le> c" using ok(2) power10_pos [of e] by (simp add: zero_le_mult_iff)
  moreover have "of_int c * power10 e * 10 ^ 18 \<in> \<int>"
  proof (cases "c = 0 \<or> - 18 \<le> e")
    case False
    obtain c' e' where strip: "strip_zeros c e = Dec c' e'" by (cases "strip_zeros c e")
    have "context_fix (Dec c e) = Dec c e" using assms(2) False by (auto simp: Let_def less_max_iff_disj)
    then have "- 18 \<le> e'" using ok(3) False strip power10_pos [of e] by simp
    moreover have "of_int c * power10 e = of_int c' * power10 e'" using strip_zeros_value [of c e] strip by simp
    ultimately show ?thesis using grid_exponent by simp
  next
    case True
    then show ?thesis using grid_exponent [of e c] by auto
  qed
  ultimately show ?thesis by (simp add: ok(1))
qed

lemma validate_quantity_exact:
  "validate_quantity q = Inr v \<Longrightarrow> plain_quantity q \<Longrightarrow> exact_quantity v"
  using checked_quantity_exact by (cases q; cases "case q of QDecimal x \<Rightarrow> x") auto

subsection \<open>One consumption\<close>

definition rows_ok :: "uuid \<Rightarrow> string \<Rightarrow> usage_event list \<Rightarrow> bool" where
  "rows_ok t m rows = list_all (\<lambda>r. ue_tenant_id r = t \<and> ue_metric r = m \<longrightarrow> exact_quantity (ue_quantity r)) rows"

lemma usage_sum_exact:
  assumes "rows_ok t m rows"
  shows "exact_quantity (usage_sum rows t m a b)"
proof -
  have "exact_quantity x \<Longrightarrow> list_all (exact_quantity \<circ> ue_quantity) rs \<Longrightarrow>
      exact_quantity (fold (\<lambda>r. dec_plus (ue_quantity r)) rs x)" for x rs
    by (induction rs arbitrary: x) (simp_all add: exact_plus)
  moreover have "list_all (exact_quantity \<circ> ue_quantity) (filter (in_window t m a b) rows)"
    using assms by (auto simp: list_all_iff rows_ok_def in_window_def)
  moreover have "exact_quantity (Dec 0 0)" by simp
  ultimately show ?thesis unfolding usage_sum_def by blast
qed

lemma usage_sum_snoc:
  "usage_sum (rows @ [r]) t m a b =
     (if in_window t m a b r then dec_plus (ue_quantity r) (usage_sum rows t m a b) else usage_sum rows t m a b)"
  by (simp add: usage_sum_def)

lemma exact_nonneg: "exact_quantity x \<Longrightarrow> 0 \<le> dec_value x"
  by (cases x) (simp add: less_imp_le)

text \<open>A longer window holds at least as much usage.\<close>

lemma usage_sum_mono:
  assumes "rows_ok t m rows" "a' \<le> a" "b \<le> b'"
  shows "dec_value (usage_sum rows t m a b) \<le> dec_value (usage_sum rows t m a' b')"
  using assms(1)
proof (induction rows rule: rev_induct)
  case Nil
  then show ?case by (simp add: usage_sum_def)
next
  case (snoc r rows)
  have le: "dec_value (usage_sum rows t m a b) \<le> dec_value (usage_sum rows t m a' b')"
    using snoc by (simp add: rows_ok_def)
  have "0 \<le> dec_value (ue_quantity r)" if "in_window t m a' b' r"
    using that snoc.prems by (auto simp: rows_ok_def in_window_def intro: exact_nonneg)
  moreover have "in_window t m a b r \<Longrightarrow> in_window t m a' b' r" using assms(2,3) by (auto simp: in_window_def)
  ultimately show ?case using le by (auto simp: usage_sum_snoc dec_value_plus)
qed

text \<open>A limited consumption is accepted exactly when the total, this quantity included, is within the
  limit; it is refused without a row.\<close>

lemma consumption_decision:
  assumes "rows_ok t m rows" "exact_quantity q" "l < 10 ^ 10"
  shows "is_ok (consume_quota_in_session rows recorded t m q (Some l) a b) \<longleftrightarrow>
    dec_value (usage_sum rows t m a b) + dec_value q \<le> l"
proof -
  have "l < dec_value (dec_add (usage_sum rows t m a b) q) \<longleftrightarrow> l < dec_value (usage_sum rows t m a b) + dec_value q"
    unfolding dec_add_def dec_value_plus [symmetric]
    by (rule context_fix_exceeds_iff [OF exact_plus [OF usage_sum_exact [OF assms(1)] assms(2)] assms(3)])
  then show ?thesis by (simp add: consume_quota_in_session_def Let_def not_less [symmetric] is_ok_iff)
qed

lemma consumed_row:
  "consume_quota_in_session rows recorded t m v limit a u = Inr (rows', res) \<Longrightarrow>
    rows' = rows @ [\<lparr>ue_tenant_id = t, ue_metric = m, ue_quantity = v, ue_occurred_at = recorded\<rparr>]"
  by (auto simp: consume_quota_in_session_def Let_def split: option.splits if_splits)

lemma consume_quota_cases:
  assumes "consume_quota d b rows now recorded t m q since until = Inr (rows', res)"
  obtains v a u limit where "validate_quantity q = Inr v" "usage_window now since until = Inr (a, u)"
    "quota_limit d b t m = Inr limit" "consume_quota_in_session rows recorded t m v limit a u = Inr (rows', res)"
  using assms by (cases "require_open_tenant d t") (auto simp: consume_quota_def)

subsection \<open>Any sequence of consumptions\<close>

datatype quota_call = Quota_Call db billing datetime datetime uuid string quantity_arg "time_arg option" "time_arg option"

fun consume_one :: "quota_call \<Rightarrow> usage_event list \<Rightarrow> usage_event list" where
  "consume_one (Quota_Call d b now recorded t m q since until) rows =
     (case consume_quota d b rows now recorded t m q since until of Inl _ \<Rightarrow> rows | Inr (rows', _) \<Rightarrow> rows')"

text \<open>A call about the tenant and metric keeps to the window and the limit: it measures the whole
  window, or more, or records outside of it, and the plan it sees allows at most \<open>L\<close>.\<close>

fun keeps_to :: "uuid \<Rightarrow> string \<Rightarrow> datetime \<times> datetime \<Rightarrow> rat \<Rightarrow> quota_call \<Rightarrow> bool" where
  "keeps_to t m w l (Quota_Call d b now recorded t' m' q since until) =
     (t' = t \<and> m' = m \<longrightarrow> plain_quantity q \<and>
        (case quota_limit d b t m of Inr (Some l') \<Rightarrow> l' \<le> l | Inr None \<Rightarrow> False | Inl _ \<Rightarrow> True) \<and>
        (\<forall>w'. usage_window now since until = Inr w' \<longrightarrow> (fst w' \<le> fst w \<and> snd w \<le> snd w') \<or> \<not> (fst w \<le> recorded \<and> recorded < snd w)))"

definition within_limit :: "uuid \<Rightarrow> string \<Rightarrow> datetime \<times> datetime \<Rightarrow> rat \<Rightarrow> usage_event list \<Rightarrow> bool" where
  "within_limit t m w l rows = (rows_ok t m rows \<and> dec_value (usage_sum rows t m (fst w) (snd w)) \<le> l)"

lemma consume_one_within:
  assumes "within_limit t m w l rows" "keeps_to t m w l c" "l < 10 ^ 10"
  shows "within_limit t m w l (consume_one c rows)"
proof (cases c)
  case (Quota_Call d b now recorded t' m' q since until)
  show ?thesis
  proof (cases "consume_quota d b rows now recorded t' m' q since until")
    case (Inl e)
    then show ?thesis using assms(1) by (simp add: Quota_Call)
  next
    case (Inr r)
    then obtain rows' res where ok: "consume_quota d b rows now recorded t' m' q since until = Inr (rows', res)"
      by (cases r) simp
    then obtain v a u limit where v: "validate_quantity q = Inr v" and win: "usage_window now since until = Inr (a, u)"
        and lim: "quota_limit d b t' m' = Inr limit"
        and run: "consume_quota_in_session rows recorded t' m' v limit a u = Inr (rows', res)"
      by (rule consume_quota_cases)
    let ?r = "\<lparr>ue_tenant_id = t', ue_metric = m', ue_quantity = v, ue_occurred_at = recorded\<rparr>"
    have rows': "rows' = rows @ [?r]" by (rule consumed_row [OF run])
    have ok_rows: "rows_ok t m rows'" using assms(1,2) validate_quantity_exact [OF v]
      by (auto simp: rows' Quota_Call within_limit_def rows_ok_def)
    show ?thesis
    proof (cases "in_window t m (fst w) (snd w) ?r")
      case False
      then show ?thesis using assms(1) ok ok_rows by (simp add: Quota_Call within_limit_def rows' usage_sum_snoc)
    next
      case True
      then have same: "t' = t" "m' = m" and covers: "a \<le> fst w" "snd w \<le> u" and "plain_quantity q"
        using assms(2) win by (auto simp: Quota_Call in_window_def)
      moreover obtain l' where l': "limit = Some l'" "l' \<le> l"
        using assms(2) lim same by (auto simp: Quota_Call split: option.splits)
      ultimately have "dec_value (usage_sum rows t m a u) + dec_value v \<le> l'"
        using consumption_decision [of t m rows v l' recorded a u] assms(1,3) run validate_quantity_exact [OF v]
        by (auto simp: within_limit_def)
      moreover have "dec_value (usage_sum rows t m (fst w) (snd w)) \<le> dec_value (usage_sum rows t m a u)"
        using assms(1) covers by (intro usage_sum_mono) (simp_all add: within_limit_def)
      ultimately show ?thesis using True ok ok_rows l'(2)
        by (simp add: Quota_Call within_limit_def rows' usage_sum_snoc dec_value_plus same)
    qed
  qed
qed

lemma consume_all_within:
  "within_limit t m w l rows \<Longrightarrow> list_all (keeps_to t m w l) cs \<Longrightarrow> l < 10 ^ 10 \<Longrightarrow>
    within_limit t m w l (fold consume_one cs rows)"
  by (induction cs arbitrary: rows) (simp_all add: consume_one_within)

subsection \<open>Calendar months\<close>

text \<open>The first day of each month, the months numbered from January of the year 1.\<close>

definition month_start :: "nat \<Rightarrow> nat" where
  "month_start n = day_of_date (n div 12 + 1, n mod 12 + 1, 1)"

lemma days_before_next_year:
  assumes "1 \<le> y"
  shows "days_before_year (y + 1) = days_before_year y + sum_list (month_lengths y)"
proof -
  obtain z where y: "y = Suc z" using assms by (cases y) auto
  define p q r where "p = z div 4" and "q = z div 100" and "r = z div 400"
  have mods: "Suc z mod 100 = 0 \<Longrightarrow> Suc z mod 4 = 0" "Suc z mod 400 = 0 \<Longrightarrow> Suc z mod 100 = 0"
    using dvd_trans [of 4 100 "Suc z"] dvd_trans [of 100 400 "Suc z"] by (simp_all add: dvd_eq_mod_eq_0)
  have divs: "Suc z div 4 = (if Suc z mod 4 = 0 then p + 1 else p)" "Suc z div 100 = (if Suc z mod 100 = 0 then q + 1 else q)"
    "Suc z div 400 = (if Suc z mod 400 = 0 then r + 1 else r)" by (simp_all add: div_Suc p_def q_def r_def)
  have before: "days_before_year y = z * 365 + p - q + r" "days_before_year (y + 1) = Suc z * 365 + Suc z div 4 - Suc z div 100 + Suc z div 400"
    by (simp_all add: y days_before_year_def p_def q_def r_def)
  have "q \<le> p" unfolding p_def q_def by (rule div_le_mono2) simp_all
  moreover have "sum_list (month_lengths y) =
      (if Suc z mod 4 = 0 \<and> (Suc z mod 100 \<noteq> 0 \<or> Suc z mod 400 = 0) then 366 else 365)"
    by (simp add: sum_month_lengths leap_year_def y)
  ultimately show ?thesis using mods unfolding before divs
    by (cases "Suc z mod 4 = 0"; cases "Suc z mod 100 = 0"; cases "Suc z mod 400 = 0") simp_all
qed

lemma month_start_Suc: "month_start (Suc n) = month_start n + month_lengths (n div 12 + 1) ! (n mod 12)"
proof (cases "n mod 12 = 11")
  case True
  then have "Suc n div 12 = n div 12 + 1" "Suc n mod 12 = 0" by (simp_all add: div_Suc mod_Suc)
  moreover have "sum_list (take 11 (month_lengths y)) + month_lengths y ! 11 = sum_list (month_lengths y)" for y
    by (simp add: month_lengths_def)
  ultimately show ?thesis using True days_before_next_year [of "n div 12 + 1"]
    by (simp add: month_start_def day_of_date_def)
next
  case False
  then have "Suc n div 12 = n div 12" "Suc n mod 12 = Suc (n mod 12)" by (simp_all add: div_Suc mod_Suc)
  moreover have "n mod 12 < length (month_lengths y)" for y by (simp add: month_lengths_def)
  ultimately show ?thesis by (simp add: month_start_def day_of_date_def take_Suc_conv_app_nth)
qed

lemma month_start_mono: "i \<le> j \<Longrightarrow> month_start i \<le> month_start j"
  by (rule lift_Suc_mono_le [of month_start]) (simp_all add: month_start_Suc)

lemma month_number:
  assumes "1 \<le> y" "1 \<le> m" "m \<le> 12"
  shows "month_start (12 * (y - 1) + (m - 1)) = day_of_date (y, m, 1)"
proof -
  obtain z k where "y = Suc z" "m = Suc k" "k < 12" using assms by (metis Suc_le_D One_nat_def Suc_le_lessD)
  then show ?thesis by (simp add: month_start_def)
qed

lemma day_of_instant:
  assumes "0 \<le> now"
  shows "int (nat (now div DAY)) * DAY \<le> now" "now < int (nat (now div DAY) + 1) * DAY"
  using assms by (simp_all add: DAY_def MICROSECOND_SECOND_def pos_imp_zdiv_nonneg_iff)

lemma DAY_mono: "i \<le> j \<Longrightarrow> int i * DAY \<le> int j * DAY"
  by (rule mult_right_mono) (simp_all add: DAY_def MICROSECOND_SECOND_def)

text \<open>The default window is the month of the instant it is chosen by.\<close>

lemma month_window:
  assumes "current_utc_month_window now = Inr (a, b)" "0 \<le> now"
  obtains n where "a = int (month_start n) * DAY" "b = int (month_start (Suc n)) * DAY" "a \<le> now" "now < b"
proof -
  define s where "s = nat (now div DAY)"
  obtain y m d where date: "date_of_day s = (y, m, d)" by (metis prod.exhaust)
  have valid: "1 \<le> y" "1 \<le> m" "m \<le> 12" "1 \<le> d" "d \<le> month_lengths y ! (m - 1)" and day: "day_of_date (y, m, d) = s"
    using date_round_trip [of s] by (simp_all add: date valid_date_def)
  define n where "n = 12 * (y - 1) + (m - 1)"
  have start: "month_start n = day_of_date (y, m, 1)" unfolding n_def by (rule month_number [OF valid(1-3)])
  have "m - 1 < 12" using valid(2,3) by simp
  then have "n div 12 = y - 1" "n mod 12 = m - 1"
    unfolding n_def by (simp_all only: div_split mod_mult_self4 mod_less)
  then have len: "month_start (Suc n) = month_start n + month_lengths y ! (m - 1)"
    using month_start_Suc [of n] valid(1) by simp
  have "month_start (Suc n) = day_of_date (if m = 12 then (y + 1, 1, 1) else (y, m + 1, 1))"
  proof (cases "m = 12")
    case True
    then have "Suc n = 12 * (y + 1 - 1) + (1 - 1)" using valid(1) by (simp add: n_def)
    then show ?thesis using True month_number [of "y + 1" 1] by simp
  next
    case False
    then have "Suc n = 12 * (y - 1) + (m + 1 - 1)" using valid(2) by (simp add: n_def)
    then show ?thesis using False month_number [of y "m + 1"] valid(1,3) by simp
  qed
  then have ab: "a = int (month_start n) * DAY" "b = int (month_start (Suc n)) * DAY"
    using assms(1) start
    by (auto simp: current_utc_month_window_def s_def [symmetric] date start_of_day_def split: if_splits)
  have "month_start n \<le> s" "s + 1 \<le> month_start (Suc n)"
    using start len day valid(4,5) by (simp_all add: day_of_date_def)
  then have "int (month_start n) * DAY \<le> int s * DAY" "int (s + 1) * DAY \<le> int (month_start (Suc n)) * DAY"
    using DAY_mono by blast+
  then have "a \<le> now" "now < b" unfolding ab using day_of_instant [OF assms(2)] unfolding s_def [symmetric] by linarith+
  with ab show ?thesis by (rule that)
qed

text \<open>So an instant lies in one month only.\<close>

lemma month_window_unique:
  assumes "current_utc_month_window x = Inr w" "current_utc_month_window y = Inr w'" "0 \<le> x" "0 \<le> y"
    and "fst w \<le> y" "y < snd w"
  shows "w' = w"
proof -
  obtain a b where w: "w = (a, b)" by (cases w)
  obtain a' b' where w': "w' = (a', b')" by (cases w')
  obtain n where n: "a = int (month_start n) * DAY" "b = int (month_start (Suc n)) * DAY"
    using month_window assms(1,3) unfolding w by metis
  obtain k where k: "a' = int (month_start k) * DAY" "b' = int (month_start (Suc k)) * DAY" "a' \<le> y" "y < b'"
    using month_window assms(2,4) unfolding w' by metis
  have "\<not> Suc n \<le> k" using DAY_mono [OF month_start_mono, of "Suc n" k] assms(6) k(1,3) by (auto simp: w n)
  moreover have "\<not> Suc k \<le> n" using DAY_mono [OF month_start_mono, of "Suc k" n] assms(5) k(2,4) by (auto simp: w n)
  ultimately show ?thesis by (simp add: w w' n k(1,2) le_antisym not_less_eq_eq)
qed

subsection \<open>The monthly quota\<close>

text \<open>A call about the tenant and metric, seen from the month \<open>w\<close>: a plan that allows at most \<open>L\<close>, a
  quantity the arithmetic is exact on, and either the default window, with both reads of the clock in
  one month, or a window of the caller's own that covers the month if the usage is recorded in it. A
  call with half a window, or with times that have no zone, is refused. Instants count from the year
  1, so none is negative.\<close>

fun monthly_call :: "uuid \<Rightarrow> string \<Rightarrow> datetime \<times> datetime \<Rightarrow> rat \<Rightarrow> quota_call \<Rightarrow> bool" where
  "monthly_call t m w l (Quota_Call d b now recorded t' m' q since until) =
     (t' = t \<and> m' = m \<longrightarrow> plain_quantity q \<and>
        (case quota_limit d b t m of Inr (Some l') \<Rightarrow> l' \<le> l | Inr None \<Rightarrow> False | Inl _ \<Rightarrow> True) \<and>
        (case (since, until) of
           (None, None) \<Rightarrow> 0 \<le> recorded \<and> current_utc_month_window recorded = current_utc_month_window now
         | (Some (Aware s), Some (Aware u)) \<Rightarrow>
             fst w \<le> recorded \<and> recorded < snd w \<longrightarrow> s \<le> fst w \<and> snd w \<le> u
         | _ \<Rightarrow> True))"

lemma monthly_keeps_to:
  assumes "current_utc_month_window z = Inr w" "0 \<le> z" "monthly_call t m w l c"
  shows "keeps_to t m w l c"
proof (cases c)
  case (Quota_Call d b now recorded t' m' q since until)
  have "(fst w' \<le> fst w \<and> snd w \<le> snd w') \<or> \<not> (fst w \<le> recorded \<and> recorded < snd w)"
    if "t' = t" "m' = m" "usage_window now since until = Inr w'" for w'
    using that assms(3) month_window_unique [OF assms(1) _ assms(2), of recorded]
    by (auto simp: Quota_Call usage_window_def split: option.splits time_arg.splits if_splits)
  then show ?thesis using assms(3) by (auto simp: Quota_Call)
qed

text \<open>C38: a monthly quota holds. Take a month, the calendar's last one apart, in which the usage of one tenant and metric is within a
  limit below ten to the tenth, and in which the rows recorded so far for that tenant and metric hold
  quantities that are not negative and have at most 18 decimal places. Then no sequence of
  consumptions takes the exact total of that month over the limit, whatever other tenants and metrics
  are consumed in between and whatever plan each call reads, as long as every call on that tenant
  and metric reads a limit of at most that one, gives an integer or a decimal that the
  default context represents as it is (at most 28 digits, and an exponent of at least -1000026),
  and either leaves the window out, with neither of its reads of the clock across a month
  boundary, or gives a window that covers the whole month if it records in it. A window of the caller's
  own that leaves part of the month out is not covered: it need not bind at all.\<close>

theorem monthly_quota_holds:
  assumes "current_utc_month_window z = Inr (a, b)" "0 \<le> z" "l < 10 ^ 10"
    and "rows_ok t m rows" "dec_value (usage_sum rows t m a b) \<le> l"
    and "list_all (monthly_call t m (a, b) l) calls"
  shows "dec_value (usage_sum (fold consume_one calls rows) t m a b) \<le> l"
proof -
  have "list_all (keeps_to t m (a, b) l) calls"
    using assms(6) monthly_keeps_to [OF assms(1,2)] by (auto simp: list_all_iff)
  moreover have "within_limit t m (a, b) l rows" using assms(4,5) by (simp add: within_limit_def)
  ultimately have "within_limit t m (a, b) l (fold consume_one calls rows)"
    using assms(3) by (intro consume_all_within)
  then show ?thesis by (simp add: within_limit_def)
qed

subsection \<open>An ingestion event is counted once\<close>

datatype ingestion_run = Ingestion_Run db uuid "uuid option" string pydecimal datetime

text \<open>The events that a sequence of executions of the consumer recorded a row for.\<close>

fun counted :: "ingestion_run list \<Rightarrow> outbox \<Rightarrow> usage_event list \<Rightarrow> (uuid \<times> uuid) list" where
  "counted [] ox rows = []"
| "counted (Ingestion_Run d t e m q occurred # js) ox rows =
     (case ingest_usage_event_job d ox rows t e m q occurred of
        Inl _ \<Rightarrow> counted js ox rows
      | Inr (ox', rows') \<Rightarrow>
          (case e of Some i \<Rightarrow> if rows' = rows then [] else [(t, i)] | None \<Rightarrow> []) @ counted js ox' rows')"

definition consumed_events :: "outbox \<Rightarrow> (uuid \<times> uuid) set" where
  "consumed_events ox = {(t, i). (t, USAGE_INGESTION_EVENT_TYPE, i) \<in> set (outbox_consumptions ox)}"

lemma claim_consumes:
  assumes "claim_event_consumption d ox t USAGE_INGESTION_EVENT_TYPE i = Inr (ox', claimed)"
  shows "if claimed then (t, i) \<notin> consumed_events ox \<and> consumed_events ox' = insert (t, i) (consumed_events ox) else ox' = ox"
  using assms by (auto simp: claim_event_consumption_def event_consumption_recorded_def consumed_events_def split: if_splits)

lemma ingestion_step:
  assumes "ingest_usage_event_job d ox rows t e m q occurred = Inr (ox', rows')"
  shows "consumed_events ox \<subseteq> consumed_events ox'"
    "e = Some i \<Longrightarrow> rows' \<noteq> rows \<Longrightarrow> (t, i) \<notin> consumed_events ox \<and> (t, i) \<in> consumed_events ox'"
proof -
  have *: "ox' = ox \<and> (rows' = rows \<or> e = None) \<or>
      (\<exists>i. e = Some i \<and> claim_event_consumption d ox t USAGE_INGESTION_EVENT_TYPE i = Inr (ox', True))"
    using assms by (auto simp: ingest_usage_event_job_def Let_def split: sum.splits error.splits
        tenancy_error.splits option.splits if_splits)
  show "consumed_events ox \<subseteq> consumed_events ox'" using * claim_consumes by fastforce
  show "(t, i) \<notin> consumed_events ox \<and> (t, i) \<in> consumed_events ox'" if "e = Some i" "rows' \<noteq> rows"
    using * claim_consumes [of d ox t i ox' True] that by auto
qed

lemma counted_fresh: "set (counted js ox rows) \<inter> consumed_events ox = {} \<and> distinct (counted js ox rows)"
proof (induction js ox rows rule: counted.induct)
  case (2 d t e m q occurred js ox rows)
  show ?case
  proof (cases "ingest_usage_event_job d ox rows t e m q occurred")
    case (Inl x)
    then show ?thesis using "2.IH"(1) [OF Inl] by simp
  next
    case (Inr r)
    obtain ox' rows' where r: "r = (ox', rows')" by (cases r)
    have run: "ingest_usage_event_job d ox rows t e m q occurred = Inr (ox', rows')" using Inr by (simp add: r)
    have IH: "set (counted js ox' rows') \<inter> consumed_events ox' = {}" "distinct (counted js ox' rows')"
      using "2.IH"(2) [OF Inr r [symmetric]] by simp_all
    show ?thesis
    proof (cases "\<exists>i. e = Some i \<and> rows' \<noteq> rows")
      case True
      then obtain i where i: "e = Some i" "rows' \<noteq> rows" by blast
      then show ?thesis using IH ingestion_step(1) [OF run] ingestion_step(2) [OF run i] run [unfolded i(1)] by (auto simp: i)
    next
      case False
      then show ?thesis using IH ingestion_step(1) [OF run] by (auto simp: run split: option.splits)
    qed
  qed
qed simp

text \<open>C39: usage is counted once per outbox event. However often the dispatcher runs the consumer of
  ingestion events, in whatever order, for whatever tenants, over crashes and repeated
  deliveries, each event has a usage row recorded at most once, and an event already in the
  consumption table has none.\<close>

theorem ingestion_counts_once:
  "distinct (counted runs ox rows) \<and>
   (\<forall>x. x \<in> consumed_events ox \<longrightarrow> x \<notin> set (counted runs ox rows))"
  using counted_fresh [of runs ox rows] by blast

subsection \<open>Applications\<close>

text \<open>A plan of tenant 1 with a limit of five calls a month.\<close>

definition five_calls :: billing where
  "five_calls = \<lparr>billing_plans = [\<lparr>pn_id = 1, pn_entitlements = [(''calls'', JNumber 5)]\<rparr>],
     billing_subscriptions = [\<lparr>sb_id = 1, sb_tenant_id = 1, sb_plan_id = 1, sb_status = ''active'', sb_created_at = 0\<rparr>]\<rparr>"

definition two_calls :: quota_call where
  "two_calls = Quota_Call sample_db five_calls 0 7 1 ''calls'' (QInt 2) None None"

lemma first_month:
  assumes "0 \<le> x" "x < DAY"
  shows "current_utc_month_window x = Inr (0, 31 * DAY)"
proof -
  have "x div DAY = 0" using assms by simp
  moreover have "date_of_day 0 = (1, 1, 1)"
    by (simp add: date_of_day_def year_of_day_def days_before_year_def month_lengths_def)
  ultimately show ?thesis
    by (simp add: current_utc_month_window_def start_of_day_def day_of_date_def days_before_year_def month_lengths_def)
qed

lemma sample_limit: "quota_limit sample_db five_calls 1 ''calls'' = Inr (Some 5)"
  by code_simp

lemma sample_quantity: "checked_quantity (Dec 2 0) = Inr (Dec 2 0)"
  by (simp add: checked_quantity_def power10_def MAX_QUANTITY_def MAX_QUANTITY_DECIMAL_PLACES_def Let_def
      digit_count_def decimal.simps ETINY_def strip_zeros.simps)

definition two_calls_row :: usage_event where
  "two_calls_row = \<lparr>ue_tenant_id = 1, ue_metric = ''calls'', ue_quantity = Dec 2 0, ue_occurred_at = 7\<rparr>"

lemma sample_consumption:
  "consume_one two_calls rows =
     (if dec_value (dec_add (usage_sum rows 1 ''calls'' 0 (31 * DAY)) (Dec 2 0)) > 5 then rows
      else rows @ [two_calls_row])"
proof -
  have "validate_metric ''calls'' = Inr ()" "is_ok (require_open_tenant sample_db 1)" by code_simp+
  moreover have "current_utc_month_window 0 = Inr (0, 31 * DAY)"
    by (rule first_month) (simp_all add: DAY_def MICROSECOND_SECOND_def)
  ultimately show ?thesis
    by (auto simp: two_calls_def consume_quota_def is_ok_iff sample_quantity sample_limit usage_window_def
        consume_quota_in_session_def two_calls_row_def Let_def simp del: One_nat_def)
qed

lemma sample_sum: "usage_sum (replicate n two_calls_row) 1 ''calls'' 0 (31 * DAY) = Dec (2 * int n) 0"
proof -
  have "fold (\<lambda>r. dec_plus (ue_quantity r)) (replicate n two_calls_row) (Dec k 0) = Dec (2 * int n + k) 0" for k
    by (induction n arbitrary: k) (simp_all add: Let_def two_calls_row_def)
  moreover have "7 < 31 * DAY" by (simp add: DAY_def MICROSECOND_SECOND_def)
  then have "filter (in_window 1 ''calls'' 0 (31 * DAY)) (replicate n two_calls_row) = replicate n two_calls_row"
    by (simp add: in_window_def two_calls_row_def)
  ultimately show ?thesis by (simp add: usage_sum_def)
qed

lemma sample_step:
  assumes "n \<le> 2"
  shows "consume_one two_calls (replicate n two_calls_row) = replicate (if n < 2 then Suc n else n) two_calls_row"
proof -
  have "dec_add (Dec (2 * int n) 0) (Dec 2 0) = Dec (2 * int n + 2) 0"
    using assms by (simp add: dec_add_def Let_def digit_count_def decimal.simps ETINY_def)
  then have "dec_value (dec_add (Dec (2 * int n) 0) (Dec 2 0)) > 5 \<longleftrightarrow> \<not> n < 2" by (simp add: power10_def) linarith
  then show ?thesis unfolding sample_consumption sample_sum by (simp add: replicate_append_same)
qed

theorem monthly_quota_holds_witness:
  "length (fold consume_one [two_calls, two_calls, two_calls] []) = 2 \<and>
   dec_value (usage_sum (fold consume_one [two_calls, two_calls, two_calls] []) 1 ''calls'' 0 (31 * DAY)) \<le> 5"
proof
  have "fold consume_one [two_calls, two_calls, two_calls] [] = replicate 2 two_calls_row"
    using sample_step [of 0] sample_step [of 1] sample_step [of 2] by (simp add: numeral_2_eq_2)
  then show "length (fold consume_one [two_calls, two_calls, two_calls] []) = 2" by simp
  have window: "current_utc_month_window 0 = Inr (0, 31 * DAY)" "current_utc_month_window 7 = Inr (0, 31 * DAY)"
    by (rule first_month; simp add: DAY_def MICROSECOND_SECOND_def)+
  then have calls: "list_all (monthly_call 1 ''calls'' (0, 31 * DAY) 5) [two_calls, two_calls, two_calls]"
    by (simp add: two_calls_def sample_limit del: One_nat_def)
  have "rows_ok 1 ''calls'' []" "dec_value (usage_sum [] 1 ''calls'' 0 (31 * DAY)) \<le> 5"
    by (simp_all add: rows_ok_def usage_sum_def)
  from monthly_quota_holds [OF window(1) _ _ this calls]
  show "dec_value (usage_sum (fold consume_one [two_calls, two_calls, two_calls] []) 1 ''calls'' 0 (31 * DAY)) \<le> 5" by simp
qed

theorem ingestion_counts_once_witness:
  "counted [Ingestion_Run sample_db 1 (Some 9) ''calls'' (Dec 1 0) 0, Ingestion_Run sample_db 1 (Some 9) ''calls'' (Dec 1 0) 0]
     \<lparr>outbox_events = [], outbox_consumptions = [], outbox_next_uuid = 1\<rparr> [] = [(1, 9)] \<and>
   (1, 9) \<notin> set (counted [Ingestion_Run sample_db 1 (Some 9) ''calls'' (Dec 1 0) 0]
     \<lparr>outbox_events = [], outbox_consumptions = [(1, USAGE_INGESTION_EVENT_TYPE, 9)], outbox_next_uuid = 1\<rparr> [])"
  using ingestion_counts_once [of "[Ingestion_Run sample_db 1 (Some 9) ''calls'' (Dec 1 0) 0]"
      "\<lparr>outbox_events = [], outbox_consumptions = [(1, USAGE_INGESTION_EVENT_TYPE, 9)], outbox_next_uuid = 1\<rparr>" "[]"]
  by (simp add: consumed_events_def) code_simp

subsection \<open>Where the quota ends\<close>

text \<open>A quantity with twenty decimal places: \<open>normalize\<close> rounds it to 28 digits before its places are
  counted, so it is accepted and stored as it is, although more than 18 places are refused.\<close>

theorem rounding_hides_decimal_places:
  "validate_quantity (QDecimal (Dec 99999999900000000000000000001 (- 20))) = Inr (Dec 99999999900000000000000000001 (- 20)) \<and>
   \<not> exact_quantity (Dec 99999999900000000000000000001 (- 20))"
proof
  let ?c = "99999999900000000000000000001 :: int"
  have digits: "digit_count ?c = 29" by (simp add: digit_count_def decimal.simps)
  have "context_fix (Dec ?c (- 20)) = Dec 9999999990000000000000000000 (- 19)"
    by (simp add: digits ETINY_def Let_def round_half_even_def)
  then have "normalized_exponent (Dec ?c (- 20)) = 0" by (simp add: strip_zeros.simps)
  then show "validate_quantity (QDecimal (Dec ?c (- 20))) = Inr (Dec ?c (- 20))"
    by (simp add: checked_quantity_def MAX_QUANTITY_def MAX_QUANTITY_DECIMAL_PLACES_def power10_def)
  show "\<not> exact_quantity (Dec ?c (- 20))" using grid_divides [of ?c "- 20" "- 18"] by auto
qed

text \<open>Usage is recorded at the present instant even when the caller gives the window: with a window
  that does not contain it, what is consumed is never part of the total that is compared, so a call
  that is accepted once is accepted any number of times.\<close>

theorem past_window_never_binds:
  assumes "consume_quota d b rows now recorded t m q (Some (Aware since)) (Some (Aware until)) = Inr (rows', res)"
    and "until \<le> recorded"
  shows "\<exists>rows''. consume_quota d b rows' now recorded t m q (Some (Aware since)) (Some (Aware until)) = Inr (rows'', res) \<and>
    length rows'' = length rows + 2"
proof -
  obtain v a u limit where v: "validate_quantity q = Inr v" and win: "usage_window now (Some (Aware since)) (Some (Aware until)) = Inr (a, u)"
      and lim: "quota_limit d b t m = Inr limit"
      and run: "consume_quota_in_session rows recorded t m v limit a u = Inr (rows', res)"
    using assms(1) by (rule consume_quota_cases)
  note rows' = consumed_row [OF run]
  have "u = until" using win by (auto simp: usage_window_def split: if_splits)
  then have sums: "usage_sum rows' t m a u = usage_sum rows t m a u"
    using assms(2) by (simp add: rows' usage_sum_snoc in_window_def)
  have "\<exists>rows''. consume_quota_in_session rows' recorded t m v limit a u = Inr (rows'', res) \<and> length rows'' = length rows + 2"
    using run unfolding consume_quota_in_session_def sums Let_def
    by (auto simp: rows' split: option.splits if_splits)
  moreover have "consume_quota d b rows' now recorded t m q (Some (Aware since)) (Some (Aware until)) =
      consume_quota_in_session rows' recorded t m v limit a u"
    using assms(1) v win lim by (cases "require_open_tenant d t") (auto simp: consume_quota_def)
  ultimately show ?thesis by simp
qed

end
