(* ===== verification/Spec2Isabelle.thy ===== *)
theory Spec2Isabelle
  imports Platform_Bootstrap User_Invariants Outbox_Properties Outbox_Replay Oversight Idempotency_Properties
    Approval_Properties Usage_Properties
begin

text \<open>
  \<^bold>\<open>A verification development for the core of SaaS OS.\<close>

  SaaS OS is a multi-tenant platform: a tree of tenants, people and service accounts that act in them,
  operators of the platform itself, and shared services that products build on. The development models
  the part of \<open>saas_os/core\<close> and \<open>saas_os/control_plane\<close> that decides who may do what, and the services
  whose correctness depends on the order of their transactions.

  \<^bold>\<open>The program and the model.\<close> A request reaches a function of a \<open>service.py\<close> with a caller. The function
  opens one or more database transactions; each checks authority (\<open>core/rbac\<close> for a tenant,
  \<open>core/platform_authority\<close> for the platform), reads the tenant's lifecycle, changes rows, writes audit
  evidence and commits, or raises and rolls back. The model keeps that shape. The rows are records
  (\<open>Store\<close>) and the database is the record \<open>db\<close> of tables, each a list in insertion order. An operation
  is a function of \<open>db\<close>, the clock and its arguments that returns an error of the datatype \<open>error\<close>, or
  the new state with the result; where a failure leaves something committed (a recorded refusal, a retry
  counter) it returns the state too. Unique and check constraints and foreign keys are tested at the
  insertion that meets them and give \<open>IntegrityError\<close>. Identifiers and random secrets that the code draws
  at random are taken from a counter or are arguments. Row and advisory locks serialize transactions, so a
  transaction is one step; operations made of several transactions are also given with their
  transactions apart, and their properties hold for every interleaving.

  \<^bold>\<open>Theories and sources.\<close>

  \<^item> \<open>Prelude\<close>: results as sums with their bind, table updates, SQL's treatment of NULL, shared facts.
  \<^item> \<open>Lifecycle\<close>: the tenant status table (\<open>core/tenancy/lifecycle.py\<close>) and the locale \<open>lifecycle_graph\<close>,
    the contract of a status table, interpreted on tenants here and on subscriptions in \<open>Entitlements\<close>.
  \<^item> \<open>Store\<close>: the rows of \<open>core/*/models.py\<close>, the callers of \<open>core/authority\<close> and the errors.
    \<open>Fixture\<close>: a small concrete store in which the theorems are applied.
  \<^item> \<open>Directory\<close>: the locking reads of tenancy and identity that other modules use.
  \<^item> \<open>Authorization\<close>: \<open>core/rbac/authorization.py\<close>. The decision \<open>can\<close> over membership roles, service
    accounts, delegations, denies and support access. \<open>authorized\<close> is its specification, three inductive
    rules, and \<open>can\<close> refines it. The locale \<open>scope_check\<close> states what one candidate check means; each of
    the ancestor walks of the code is an interpretation of it.
  \<^item> \<open>Administrators\<close>: \<open>core/rbac/administrators.py\<close>, the last-administrator guard. The locale
    \<open>guarded_change\<close> says once why an operation between the guard and its verification keeps every
    administrator; it is interpreted on five operations.
  \<^item> \<open>Rbac_Roles\<close>, \<open>Rbac_Grants\<close>: \<open>core/rbac/service.py\<close>: roles, permissions, assignments; delegations,
    denies and support access.
  \<^item> \<open>Audit_Log\<close>, \<open>Audit_Subjects\<close>: the caller guard and tenant audit rows (\<open>core/authority\<close>,
    \<open>core/audit_log\<close>) and the erasable references of platform audit rows
    (\<open>core/platform_authority/subjects.py\<close>).
  \<^item> \<open>Platform_Operations\<close>, \<open>Platform_Authority\<close>, \<open>Platform_Bootstrap\<close>: \<open>core/platform_authority\<close>: the table
    of operations, authorization and evidence; the six operations on operators and grants, with the locale
    \<open>authority_change\<close> interpreted on each; bootstrap and recovery. \<open>Oversight\<close>: the evidenced path of an
    operator's read in two transactions, and pages by keyset.
  \<^item> \<open>Hierarchy\<close>, \<open>Tenancy\<close>, \<open>Tenancy_Invariants\<close>: \<open>core/tenancy/service.py\<close>: the closure table of the
    tenant tree, creation, moves and status transitions; \<open>tenancy_step\<close> and its invariants.
  \<^item> \<open>Memberships\<close>, \<open>Membership_Invariants\<close>, \<open>Invitations\<close>: \<open>core/identity/service.py\<close>.
  \<^item> \<open>Digest\<close>, \<open>Credentials\<close>, \<open>Credential_Invariants\<close>: SHA-256, sessions and login transactions
    (\<open>core/identity\<close>) and API keys (\<open>core/api_keys\<close>).
  \<^item> \<open>User_Authority\<close>, \<open>User_Invariants\<close>: \<open>core/identity/user_authority.py\<close>: deactivation of a person over
    the whole registry.
  \<^item> \<open>Calendar\<close>, \<open>Outbox_Errors\<close>, \<open>Outbox\<close>, \<open>Outbox_Invariants\<close>, \<open>Outbox_Properties\<close>, \<open>Outbox_Replay\<close>:
    \<open>core/outbox\<close>: the transactional outbox, its error texts and retry deadlines, every interleaving of its
    transactions, and an operator's replay.
  \<^item> \<open>Canonical_Json\<close>, \<open>Idempotency\<close>, \<open>Idempotency_Properties\<close>: \<open>core/idempotency\<close>.
  \<^item> \<open>Entitlements\<close>, \<open>Usage\<close>, \<open>Usage_Properties\<close>: \<open>core/billing/lifecycle.py\<close> and the entitlement reads of
    \<open>core/billing/service.py\<close>; \<open>core/usage/service.py\<close>.
  \<^item> \<open>Control_Plane\<close>, \<open>Approval_Properties\<close>: \<open>control_plane/orchestration\<close>,
    \<open>control_plane/data_authorization\<close> and \<open>control_plane/approvals\<close>.

  \<^bold>\<open>What is shown.\<close> The authorization decision agrees with its specification on every store; denies
  override, and closed tenants fence every decision. No operation or history of operations of roles,
  grants, memberships, tenants or accounts takes the last administrator of a tenant or the last owner of
  the platform, and none gives anyone more than its caller holds. The closure table is the tree after
  every history. Revocation and deactivation are final. In the outbox, a request that may have been sent
  is never repeated by the system, a lost claim stays lost, and retries stay in their window, in every
  interleaving. A completed request is replayed and not run again, and a fingerprint identifies a request
  up to the order of keys and the text of objects JSON has no form for; usage events are counted once; a
  month's usage, consumed over windows that cover the month, stays within its quota. An agent's tool has an effect only with the authority the
  documents ask for, and an operator sees nothing without leaving evidence. Where the code falls short of
  its documentation, a theorem shows the behaviour:
  \<open>released_claim_forgets_started_request\<close>, \<open>rewrite_drops_deadline\<close>, \<open>concurrent_retries_both_proceed\<close>,
  \<open>business_integrity_error_is_hidden\<close>, \<open>stale_approval_revives_rejected\<close>, \<open>proposer_cannot_reject\<close>,
  \<open>rounding_hides_decimal_places\<close>, \<open>past_window_never_binds\<close> and, below, \<open>bootstrapped_owner_cannot_log_in\<close>.

  \<^bold>\<open>Bounds.\<close> No definition uses fuel. The two loops without structural recursion, the registry scan by pages
  (\<open>User_Authority.scan_pages\<close>) and \<open>Usage.strip_zeros\<close>, are functions with a termination proof. SHA-256 is
  computed on 32-bit words. Instants are microseconds as integers from the year 1; theorems that print or
  parse a date are bounded by the year 9999, as Python is. Case folding and character classes are exact on
  ASCII. A decision of \<open>can\<close> reads the clock once, where the code reads it for each candidate delegation.

  \<^bold>\<open>Not modelled, and why.\<close> The HTTP interface, the command line and the configuration readers parse and
  format around these operations. Rate limits are Lua scripts that Redis runs; billing subscriptions,
  webhooks, e-mail and inference are driven by answers of external providers; encryption, the job queue and
  the database layer wrap third-party packages. The permission-grant ledger, feature flags, audit digests
  and usage reports are not modelled. Inside the modelled modules these are left out: audit metadata and
  correlation identifiers, statement timeouts, tenant purge orchestration, and the parsing of the text of
  an ingestion event.
\<close>

text \<open>The owner bootstrap does not check the identity it is given the way a login does
  (\<open>_validate_external_identity\<close>). An owner whose subject has a control character other than NUL is
  created, and every login of that person is refused.\<close>

theorem bootstrapped_owner_cannot_log_in:
  assumes "fresh_deployment d issuer subject" "operator_identity issuer subject = Inr owner"
    and "validate_reason reason = Inr v" "distinct perms" "OWNER_PERMISSION \<in> set perms"
    and "has_control_characters subject" "CHR 0x00 \<notin> set issuer \<union> set subject"
  shows "\<exists>d' res. bootstrap_platform_owner d now (SystemCaller PLATFORM_BOOTSTRAP) owner perms reason = (d', Inr res) \<and>
    platform_owner_exists d' \<and>
    get_or_create_user_for_external_identity d' issuer subject = (d', Inl InvalidExternalIdentityError)"
proof -
  have owner: "owner = Operator_Identity issuer subject" and fits: "fits_column 2048 issuer" "fits_column 255 subject"
    using assms(2,7) by (auto simp: operator_identity_def MAX_ISSUER_LENGTH_def MAX_SUBJECT_LENGTH_def
        fits_column_def text_parameter_def split: if_splits)
  have "get_or_create_user_for_external_identity d' issuer subject = (d', Inl InvalidExternalIdentityError)" for d'
    using assms(6) by (simp add: get_or_create_user_for_external_identity_def find_external_identity_def
        validate_external_identity_def require_def)
  then show ?thesis
    using bootstrap_owner_created [OF assms(1,3-5) fits] unfolding owner by blast
qed

theorem bootstrapped_owner_cannot_log_in_applied:
  "\<exists>d' res. bootstrap_platform_owner sample_db 5 (SystemCaller PLATFORM_BOOTSTRAP)
      (Operator_Identity ''https://id'' (''ada'' @ [CHR 0x0A])) [P_AUTHORITY_MANAGE] '' first owner '' = (d', Inr res) \<and>
    platform_owner_exists d' \<and>
    get_or_create_user_for_external_identity d' ''https://id'' (''ada'' @ [CHR 0x0A]) = (d', Inl InvalidExternalIdentityError)"
  by (rule bootstrapped_owner_cannot_log_in [of _ _ _ _ _ "''first owner''"]; code_simp)

end
